(* ===== verification/Prelude.thy ===== *)
theory Prelude
  imports Complex_Main
begin

text \<open>
  What the components share: byte strings, the exceptions of the library as one
  datatype, and programs with Python's three outcomes. A program over a state of
  type \<open>'s\<close> is a function \<open>'s \<Rightarrow> ((exn + 'a) \<times> 's) option\<close>: \<open>None\<close> is a run
  that never returns (a loop that does not end, a read that blocks for ever),
  \<open>Some (Inl e, s')\<close> raises \<open>e\<close> and \<open>Some (Inr a, s')\<close> returns \<open>a\<close>; in both
  cases \<open>s'\<close> holds every mutation done before that point. The collections
  \<open>py_simps\<close> and \<open>py_splits\<close> carry the rewriting of programs.
\<close>

named_theorems py_simps
named_theorems py_defs

section \<open>Bytes and exceptions\<close>

text \<open>A \<open>char\<close> of HOL has exactly eight bits, so a byte string is a list of them.\<close>

type_synonym bytes = "char list"

datatype exn_arg = TextArg "nat list" | BytesArg bytes | NoArgGiven

text \<open>
  A time-out of a remote call carries the id under which the response can be fetched later, and
  the conversions the layers between have added, in the order they are applied.
\<close>

datatype response_wrap =
    WrapId
  | WrapObj
  | WrapHandled
  | WrapProxyOrBasic string
  | WrapRecursive
  | WrapRecursiveName string

type_synonym timeout_handle = "nat \<times> response_wrap list"

datatype exn =
    AssertionError
  | AttributeError
  | BinasciiError
  | IndexError
  | KeyError
  | TypeError
  | UnicodeDecodeError
  | UnicodeEncodeError
  | ValueError
  | OSError int
  | SystemExit
  | PexpectTimeout
  | PexpectEOF
  | ShellTimeoutError bytes
  | ChunkReaderError
  | StrCommReadError
  | MsgCachesAlreadyRemoved
  | MsgCachesNotFound
  | ExitFromServe
  | FatalPythonError exn_arg
  | TerminalClientError
  | TerminalClientFatalError
  | TimerTimeout
  | PoolError
  | PoolNotFoundError
  | TerminalPoolsBusy
  | RemoteTimeout timeout_handle
  | RunnerTimeout "(int \<times> bytes \<times> bytes) option"
  | FailedToKillProcess nat timeout_handle
  | TargetIsNotSet string
  | BackgroundExecIdAlreadyInUse string
  | RunnerTerminalSessionClosed
  | RunnerTerminalSessionBroken "exn option"
  | SessionInitializationFailed "exn option"
  | RunnerTerminalUnableToDeserialize
  | InvalidProxySession
  | StructError
  | UnexpectedPrompt
  | UnknownShellState
  | ShellStartError
  | InteractiveSessionError
  | NotImplementedError
  | NoSuchTerminal
  | TerminalAlreadyExists
  | RemoteFileReadingFailed
  | RemoteFileOperationTimeout bytes
  | MismatchInRunId nat nat
  | ResultNotStoredYet
  | BackupNotFound
  | RemoteTimeoutError
  | InterruptedWithSigint
  | UnexpectedTerminalOutput
  | RunNotStarted
  | SessionNotInitialized
  | FailedToCreateSession
  | RestoreTimedOut
  | CommandExecutionFailed "int \<times> nat list \<times> nat list"
  | PythonRunNotStarted
  | UnexpectedOutputInPython
  | FailedToSetWorkingDirectory int
  | FailedToRemoveWorkingDirectory int
  | UnregisteredShell
  | ShellAlreadyRegistered
  | SftpConnectionError
  | StopIteration
  | RuntimeError
  | UserException nat

text \<open>
  The classes used in \<open>except\<close> clauses. \<open>SystemExit\<close> is the one modelled exception
  that is not an instance of \<open>Exception\<close>; \<open>binascii.Error\<close> and
  the two Unicode errors are subclasses of \<open>ValueError\<close>.
\<close>

definition is_Exception :: "exn \<Rightarrow> bool" where
  "is_Exception e \<longleftrightarrow> e \<noteq> SystemExit"

definition is_ValueError :: "exn \<Rightarrow> bool" where
  "is_ValueError e \<longleftrightarrow> e = ValueError \<or> e = BinasciiError \<or> e = UnicodeDecodeError \<or>
     e = UnicodeEncodeError"

section \<open>Programs\<close>

type_synonym ('s, 'a) outcome = "((exn + 'a) \<times> 's) option"
type_synonym ('s, 'a) py = "'s \<Rightarrow> ('s, 'a) outcome"

definition ret :: "'a \<Rightarrow> ('s, 'a) py" where
  "ret a = (\<lambda>s. Some (Inr a, s))"

definition throw :: "exn \<Rightarrow> ('s, 'a) py" where
  "throw e = (\<lambda>s. Some (Inl e, s))"

definition seq_outcome :: "('s, 'a) outcome \<Rightarrow> ('a \<Rightarrow> ('s, 'b) py) \<Rightarrow> ('s, 'b) outcome" where
  "seq_outcome r k =
     Option.bind r (\<lambda>p. case fst p of Inl e \<Rightarrow> Some (Inl e, snd p) | Inr a \<Rightarrow> k a (snd p))"

definition bnd :: "('s, 'a) py \<Rightarrow> ('a \<Rightarrow> ('s, 'b) py) \<Rightarrow> ('s, 'b) py" where
  "bnd m k = (\<lambda>s. seq_outcome (m s) k)"

definition andthen :: "('s, 'a) py \<Rightarrow> ('s, 'b) py \<Rightarrow> ('s, 'b) py" where
  "andthen m n = bnd m (\<lambda>_. n)"

text \<open>\<open>try: m except E: h\<close>, where the handler decides by re-raising what it does not catch.\<close>

definition catch_outcome :: "('s, 'a) outcome \<Rightarrow> (exn \<Rightarrow> ('s, 'a) py) \<Rightarrow> ('s, 'a) outcome" where
  "catch_outcome r h =
     Option.bind r (\<lambda>p. case fst p of Inl e \<Rightarrow> h e (snd p) | Inr a \<Rightarrow> Some (Inr a, snd p))"

definition catching :: "('s, 'a) py \<Rightarrow> (exn \<Rightarrow> ('s, 'a) py) \<Rightarrow> ('s, 'a) py" where
  "catching m h = (\<lambda>s. catch_outcome (m s) h)"

text \<open>\<open>try: m finally: f\<close>: an exception of \<open>f\<close> replaces the outcome of \<open>m\<close>.\<close>

definition finally_do :: "('s, 'a) py \<Rightarrow> ('s, unit) py \<Rightarrow> ('s, 'a) py" where
  "finally_do m f = (\<lambda>s. Option.bind (m s) (\<lambda>p.
     seq_outcome (f (snd p)) (\<lambda>_ s'. Some (fst p, s'))))"

definition gets :: "('s \<Rightarrow> 'a) \<Rightarrow> ('s, 'a) py" where
  "gets f = (\<lambda>s. Some (Inr (f s), s))"

definition modify :: "('s \<Rightarrow> 's) \<Rightarrow> ('s, unit) py" where
  "modify f = (\<lambda>s. Some (Inr (), f s))"

definition of_sum :: "exn + 'a \<Rightarrow> ('s, 'a) py" where
  "of_sum r = (\<lambda>s. Some (r, s))"

fun for_each :: "('a \<Rightarrow> ('s, unit) py) \<Rightarrow> 'a list \<Rightarrow> ('s, unit) py" where
  "for_each f [] = ret ()"
| "for_each f (x # xs) = andthen (f x) (for_each f xs)"

text \<open>An object and the rest of the world: a program of the world, and an update of the object.\<close>

definition in_world :: "('w, 'a) py \<Rightarrow> ('p \<times> 'w, 'a) py" where
  "in_world m = (\<lambda>(p, w). case m w of None \<Rightarrow> None | Some (r, w') \<Rightarrow> Some (r, (p, w')))"

definition upd :: "('p \<Rightarrow> 'p) \<Rightarrow> ('p \<times> 'w, unit) py" where
  "upd f = modify (\<lambda>(p, w). (f p, w))"

subsection \<open>Rewriting programs\<close>

lemma seq_outcome_simps [simp, py_simps]:
  "seq_outcome None k = None"
  "seq_outcome (Some (Inl e, s)) k = Some (Inl e, s)"
  "seq_outcome (Some (Inr a, s)) k = k a s"
  by (simp_all add: seq_outcome_def)

lemma catch_outcome_simps [simp, py_simps]:
  "catch_outcome None h = None"
  "catch_outcome (Some (Inl e, s)) h = h e s"
  "catch_outcome (Some (Inr a, s)) h = Some (Inr a, s)"
  by (simp_all add: catch_outcome_def)

lemma ret_app [simp, py_simps]: "ret a s = Some (Inr a, s)"
  by (simp add: ret_def)

lemma throw_app [simp, py_simps]: "throw e s = Some (Inl e, s)"
  by (simp add: throw_def)

lemma gets_app [simp, py_simps]: "gets f s = Some (Inr (f s), s)"
  by (simp add: gets_def)

lemma modify_app [simp, py_simps]: "modify f s = Some (Inr (), f s)"
  by (simp add: modify_def)

lemma of_sum_app [simp, py_simps]: "of_sum r s = Some (r, s)"
  by (simp add: of_sum_def)

lemma bnd_app [simp, py_simps]: "bnd m k s = seq_outcome (m s) k"
  by (simp add: bnd_def)

lemma andthen_app [simp, py_simps]: "andthen m n s = seq_outcome (m s) (\<lambda>_. n)"
  by (simp add: andthen_def)

lemma catching_app [simp, py_simps]: "catching m h s = catch_outcome (m s) h"
  by (simp add: catching_def)

lemma in_world_app [simp, py_simps]:
  "in_world m (p, w) = (case m w of None \<Rightarrow> None | Some (r, w') \<Rightarrow> Some (r, (p, w')))"
  by (simp add: in_world_def)

lemma upd_app [simp, py_simps]: "upd f (p, w) = Some (Inr (), (f p, w))"
  by (simp add: upd_def)

lemma finally_do_app [py_simps]:
  "finally_do m f s = Option.bind (m s) (\<lambda>p. seq_outcome (f (snd p)) (\<lambda>_ s'. Some (fst p, s')))"
  by (simp add: finally_do_def)

lemma finally_do_Some [simp]:
  "m s = Some (r, s1) \<Longrightarrow> f s1 = Some (Inr u, s2) \<Longrightarrow> finally_do m f s = Some (r, s2)"
  by (simp add: finally_do_def)

lemma finally_do_None [simp]: "m s = None \<Longrightarrow> finally_do m f s = None"
  by (simp add: finally_do_def)

lemma bnd_assoc: "bnd (bnd m k) l = bnd m (\<lambda>a. bnd (k a) l)"
  by (rule ext) (auto simp: seq_outcome_def bind_eq_None_conv split: sum.splits option.splits
      intro!: bind_option_cong)

text \<open>
  What a successful sequence says of its parts; the elimination rules case analysis uses.
\<close>

lemma seq_outcome_Inr_iff:
  "seq_outcome r k = Some (Inr b, t) \<longleftrightarrow> (\<exists>a u. r = Some (Inr a, u) \<and> k a u = Some (Inr b, t))"
  by (cases r) (auto simp: seq_outcome_def split: sum.splits)

lemma seq_outcome_cases:
  assumes "seq_outcome r k = Some (x, t)"
  obtains (error) e where "r = Some (Inl e, t)" "x = Inl e"
  | (ok) a u where "r = Some (Inr a, u)" "k a u = Some (x, t)"
  using assms by (cases r) (auto simp: seq_outcome_def split: sum.splits)

lemma catch_outcome_cases:
  assumes "catch_outcome r h = Some (x, t)"
  obtains (ok) a where "r = Some (Inr a, t)" "x = Inr a"
  | (error) e u where "r = Some (Inl e, u)" "h e u = Some (x, t)"
  using assms by (cases r) (auto simp: catch_outcome_def split: sum.splits)

lemma finally_do_cases:
  assumes "finally_do m f s = Some (r, s')"
  obtains x t y where "m s = Some (x, t)" "f t = Some (y, s')" "r = (case y of Inl e \<Rightarrow> Inl e | Inr _ \<Rightarrow> x)"
  using assms by (cases "m s") (auto simp: finally_do_def elim!: seq_outcome_cases)

subsection \<open>Monotonicity, for loops that may not return\<close>

lemma mono_seq_outcome [partial_function_mono]:
  assumes "mono_option r" and "\<And>a s. mono_option (\<lambda>f. k f a s)"
  shows "mono_option (\<lambda>f. seq_outcome (r f) (k f))"
proof -
  have "mono_option (\<lambda>f. case fst p of Inl e \<Rightarrow> Some (Inl e, snd p) | Inr a \<Rightarrow> k f a (snd p))" for p
    using assms(2) by (cases "fst p") (simp_all add: monotone_def option.leq_refl)
  then show ?thesis
    unfolding seq_outcome_def by (rule bind_mono [OF assms(1)])
qed

lemma mono_catch_outcome [partial_function_mono]:
  assumes "mono_option r" and "\<And>e s. mono_option (\<lambda>f. h f e s)"
  shows "mono_option (\<lambda>f. catch_outcome (r f) (h f))"
proof -
  have "mono_option (\<lambda>f. case fst p of Inl e \<Rightarrow> h f e (snd p) | Inr a \<Rightarrow> Some (Inr a, snd p))" for p
    using assms(2) by (cases "fst p") (simp_all add: monotone_def option.leq_refl)
  then show ?thesis
    unfolding catch_outcome_def by (rule bind_mono [OF assms(1)])
qed

lemma mono_for_each [partial_function_mono]:
  assumes "\<And>x s. mono_option (\<lambda>f. g f x s)"
  shows "mono_option (\<lambda>f. for_each (g f) xs s)"
proof (induction xs arbitrary: s)
  case Nil
  then show ?case by (simp add: monotone_def option.leq_refl)
next
  case (Cons x xs)
  have "mono_option (\<lambda>f. seq_outcome (g f x s) (\<lambda>_. for_each (g f) xs))"
    by (rule mono_seq_outcome) (rule assms, rule Cons.IH)
  then show ?case by simp
qed

section \<open>Recorded programs\<close>

text \<open>
  A program whose calls are written down: \<open>ev\<close> says what is recorded of a call, given its result. The
  program itself does not see the record, so what is proved of a recorded program tells which calls the
  code makes, and in which order.
\<close>

definition recording :: "(exn + 'a \<Rightarrow> 'e list) \<Rightarrow> ('w, 'a) py \<Rightarrow> ('w \<times> 'e list, 'a) py" where
  "recording ev m = (\<lambda>(w, l). case m w of None \<Rightarrow> None | Some (r, w') \<Rightarrow> Some (r, (w', l @ ev r)))"

abbreviation unrecorded :: "('w, 'a) py \<Rightarrow> ('w \<times> 'e list, 'a) py" where
  "unrecorded \<equiv> recording (\<lambda>_. [])"

lemma recording_cases:
  assumes "recording ev m (w, l) = Some (r, (w', l'))"
  shows "m w = Some (r, w') \<and> l' = l @ ev r"
  using assms by (auto simp: recording_def split: option.splits)

lemma recording_app: "m w = Some (r, w') \<Longrightarrow> recording ev m (w, l) = Some (r, (w', l @ ev r))"
  by (simp add: recording_def)

section \<open>Programs that always return\<close>

text \<open>A program that ends, by returning or by raising, in every state.\<close>

definition ends :: "('s, 'a) py \<Rightarrow> bool" where
  "ends m \<longleftrightarrow> (\<forall>s. m s \<noteq> None)"

lemma endsD: "ends m \<Longrightarrow> \<exists>r s'. m s = Some (r, s')"
  by (metis ends_def option.exhaust surj_pair)

lemma ends_simple [simp]: "ends (ret a)" "ends (throw e)" "ends (gets f)" "ends (modify g)" "ends (of_sum x)"
  by (simp_all add: ends_def)

lemma ends_bnd: "ends m \<Longrightarrow> (\<And>a. ends (k a)) \<Longrightarrow> ends (bnd m k)"
  by (fastforce simp: ends_def seq_outcome_def bind_eq_None_conv split: sum.splits)

lemma ends_andthen: "ends m \<Longrightarrow> ends n \<Longrightarrow> ends (andthen m n)"
  by (simp add: andthen_def ends_bnd)

lemma ends_catching: "ends m \<Longrightarrow> (\<And>e. ends (h e)) \<Longrightarrow> ends (catching m h)"
  by (fastforce simp: ends_def catch_outcome_def bind_eq_None_conv split: sum.splits)

lemma ends_finally: "ends m \<Longrightarrow> ends f \<Longrightarrow> ends (finally_do m f)"
  by (fastforce simp: ends_def finally_do_def seq_outcome_def bind_eq_None_conv split: sum.splits)

lemma ends_in_world: "ends m \<Longrightarrow> ends (in_world m)"
  by (auto simp: ends_def in_world_def split: option.splits)

lemma ends_upd: "ends (upd f)"
  by (simp add: upd_def)

lemma ends_if: "(b \<Longrightarrow> ends m) \<Longrightarrow> (\<not> b \<Longrightarrow> ends n) \<Longrightarrow> ends (if b then m else n)"
  by simp

lemma ends_case_option:
  "ends n \<Longrightarrow> (\<And>x. o' = Some x \<Longrightarrow> ends (f x)) \<Longrightarrow> ends (case o' of None \<Rightarrow> n | Some x \<Rightarrow> f x)"
  by (cases o') simp_all

lemmas ends_intros = ends_simple ends_bnd ends_andthen ends_catching ends_finally ends_in_world ends_upd
  ends_if ends_case_option

section \<open>The exceptions of a program\<close>

text \<open>\<open>raises E m\<close>: whatever \<open>m\<close> raises is in \<open>E\<close>.\<close>

definition raises :: "(exn \<Rightarrow> bool) \<Rightarrow> ('s, 'a) py \<Rightarrow> bool" where
  "raises E m \<longleftrightarrow> (\<forall>s e s'. m s = Some (Inl e, s') \<longrightarrow> E e)"

lemma raisesD: "raises E m \<Longrightarrow> m s = Some (Inl e, s') \<Longrightarrow> E e"
  unfolding raises_def by blast

lemma raises_simple [simp]: "raises E (ret a)" "raises E (gets f)" "raises E (modify g)" "raises E (upd h)"
  "E e \<Longrightarrow> raises E (throw e)"
  by (auto simp: raises_def upd_def)

lemma raises_of_sum: "(\<And>e. x = Inl e \<Longrightarrow> E e) \<Longrightarrow> raises E (of_sum x)"
  by (auto simp: raises_def)

lemma raises_bnd: "raises E m \<Longrightarrow> (\<And>a. raises E (k a)) \<Longrightarrow> raises E (bnd m k)"
  by (fastforce simp: raises_def elim!: seq_outcome_cases)

lemma raises_andthen: "raises E m \<Longrightarrow> raises E n \<Longrightarrow> raises E (andthen m n)"
  by (simp add: andthen_def raises_bnd)

lemma raises_catching_both: "raises F m \<Longrightarrow> (\<And>e. F e \<Longrightarrow> raises E (h e)) \<Longrightarrow> raises E (catching m h)"
  unfolding raises_def by (auto elim!: catch_outcome_cases) blast

lemma raises_catching: "(\<And>e. raises E (h e)) \<Longrightarrow> raises E (catching m h)"
  by (rule raises_catching_both [of "\<lambda>_. True"]) (simp_all add: raises_def)

lemma raises_finally: "raises E m \<Longrightarrow> raises E f \<Longrightarrow> raises E (finally_do m f)"
  by (fastforce simp: raises_def finally_do_def bind_eq_Some_conv elim!: seq_outcome_cases)

lemma raises_in_world: "raises E m \<Longrightarrow> raises E (in_world m)"
  by (fastforce simp: raises_def in_world_def split: option.splits prod.splits)

lemma raises_if: "(b \<Longrightarrow> raises E m) \<Longrightarrow> (\<not> b \<Longrightarrow> raises E n) \<Longrightarrow> raises E (if b then m else n)"
  by simp

lemma raises_case_option:
  "raises E n \<Longrightarrow> (\<And>x. o' = Some x \<Longrightarrow> raises E (f x)) \<Longrightarrow> raises E (case o' of None \<Rightarrow> n | Some x \<Rightarrow> f x)"
  by (cases o') simp_all

lemmas raises_intros = raises_simple raises_bnd raises_andthen raises_finally raises_in_world raises_if raises_case_option

section \<open>Relations between the states before and after a program\<close>

text \<open>
  \<open>keeps R m\<close>: whenever \<open>m\<close> ends, by returning or by raising, the states before and
  after are related by \<open>R\<close>. For a preorder \<open>R\<close> the constructs of programs keep it.
\<close>

definition keeps :: "('s \<Rightarrow> 's \<Rightarrow> bool) \<Rightarrow> ('s, 'a) py \<Rightarrow> bool" where
  "keeps R m \<longleftrightarrow> (\<forall>s r s'. m s = Some (r, s') \<longrightarrow> R s s')"

lemma keepsD: "keeps R m \<Longrightarrow> m s = Some (r, s') \<Longrightarrow> R s s'"
  by (simp add: keeps_def)

lemma keeps_gen: "(\<And>s r s'. m s = Some (r, s') \<Longrightarrow> R s s') \<Longrightarrow> keeps R m"
  by (simp add: keeps_def)

lemma keeps_case_option:
  "keeps R n \<Longrightarrow> (\<And>x. o' = Some x \<Longrightarrow> keeps R (f x)) \<Longrightarrow> keeps R (case o' of None \<Rightarrow> n | Some x \<Rightarrow> f x)"
  by (cases o') simp_all

lemma keeps_case_sum:
  "(\<And>x. z = Inl x \<Longrightarrow> keeps R (f x)) \<Longrightarrow> (\<And>x. z = Inr x \<Longrightarrow> keeps R (g x)) \<Longrightarrow>
     keeps R (case z of Inl x \<Rightarrow> f x | Inr x \<Rightarrow> g x)"
  by (cases z) simp_all

lemma keeps_if: "(b \<Longrightarrow> keeps R m) \<Longrightarrow> (\<not> b \<Longrightarrow> keeps R n) \<Longrightarrow> keeps R (if b then m else n)"
  by simp

lemmas keeps_splits = keeps_case_option keeps_case_sum keeps_if

locale step_relation =
  fixes R :: "'s \<Rightarrow> 's \<Rightarrow> bool"
  assumes R_refl: "R s s"
    and R_trans: "R s t \<Longrightarrow> R t u \<Longrightarrow> R s u"
begin

lemma keeps_simple: "keeps R (ret a)" "keeps R (throw e)" "keeps R (gets f)" "keeps R (of_sum x)"
  by (simp_all add: keeps_def R_refl)

lemma keeps_modify: "(\<And>s. R s (f s)) \<Longrightarrow> keeps R (modify f)"
  by (simp add: keeps_def)

lemma keeps_bnd: "keeps R m \<Longrightarrow> (\<And>a. keeps R (k a)) \<Longrightarrow> keeps R (bnd m k)"
  by (rule keeps_gen) (auto elim!: seq_outcome_cases dest: keepsD intro: R_trans)

lemma keeps_andthen: "keeps R m \<Longrightarrow> keeps R n \<Longrightarrow> keeps R (andthen m n)"
  by (simp add: andthen_def keeps_bnd)

lemma keeps_catching: "keeps R m \<Longrightarrow> (\<And>e. keeps R (h e)) \<Longrightarrow> keeps R (catching m h)"
proof (rule keeps_gen)
  fix s r s'
  assume m: "keeps R m" and h: "\<And>e. keeps R (h e)" and c: "catching m h s = Some (r, s')"
  show "R s s'"
  proof (cases "m s")
    case None
    with c show ?thesis by simp
  next
    case (Some p)
    obtain x u where p: "p = (x, u)" by fastforce
    show ?thesis
      using c keepsD [OF m Some [unfolded p]] Some p keepsD [OF h, of _ u r s']
      by (cases x) (auto intro: R_trans)
  qed
qed

lemma keeps_finally: "keeps R m \<Longrightarrow> keeps R f \<Longrightarrow> keeps R (finally_do m f)"
proof (rule keeps_gen)
  fix s r s'
  assume m: "keeps R m" and f: "keeps R f" and c: "finally_do m f s = Some (r, s')"
  obtain x u where p: "m s = Some (x, u)"
    using c by (cases "m s") (auto simp: finally_do_def)
  with c have "seq_outcome (f u) (\<lambda>_ s'. Some (x, s')) = Some (r, s')" by (simp add: finally_do_def)
  then have "\<exists>y. f u = Some (y, s')" by (auto elim!: seq_outcome_cases)
  then show "R s s'" using keepsD [OF m p] keepsD [OF f] R_trans by blast
qed

lemma keeps_for_each: "(\<And>x. x \<in> set xs \<Longrightarrow> keeps R (f x)) \<Longrightarrow> keeps R (for_each f xs)"
  by (induction xs) (auto intro: keeps_simple keeps_andthen)

lemma keeps_of_sum: "(\<And>a. x = Inr a \<Longrightarrow> keeps R (k a)) \<Longrightarrow> keeps R (bnd (of_sum x) k)"
  by (cases x) (auto simp: keeps_def R_refl)

lemmas keeps = keeps_simple keeps_bnd keeps_andthen keeps_catching keeps_finally keeps_for_each

end

section \<open>Lists\<close>

lemma take_append_exact [simp]: "length xs = n \<Longrightarrow> take n (xs @ ys) = xs"
  by simp

lemma drop_append_exact [simp]: "length xs = n \<Longrightarrow> drop n (xs @ ys) = ys"
  by simp

lemma take_split_append: "n \<le> length xs \<Longrightarrow> take n (xs @ ys) = take n xs"
  by simp

text \<open>Cutting a list into pieces of \<open>k\<close> and putting them together again.\<close>

lemma concat_pieces:
  "concat (map (\<lambda>i. take k (drop (i * k) s)) [0..<m]) = take (m * k) s"
  by (induction m) (simp_all add: take_add [symmetric] add.commute)

lemma pieces_cover: "0 < k \<Longrightarrow> n \<le> (n + k - 1) div k * k" for n k :: nat
  using div_mult_mod_eq [of "n + k - 1" k] mod_less_divisor [of k "n + k - 1"] by linarith

end
