(* ===== verification/SharedIO.thy ===== *)
theory SharedIO
  imports Prelude
begin

text \<open>
  \<open>SharedBytesIO\<close> of \<open>shells/remotemodules/chunkcomm.py\<close>: one \<open>BytesIO\<close> with a
  writer at its end and a reader behind it, cut down when the reader has gone far. The
  interface \<open>byte_queue\<close> is what the chunk reader asks of it; the class implements it,
  the cutting included.
\<close>

section \<open>BytesIO, PosReader and PosWriter\<close>

text \<open>
  \<open>write\<close> at a position overwrites and extends, with zero bytes in a hole; \<open>read\<close>
  returns what there is up to the size.
\<close>

definition bytesio_write :: "nat \<Rightarrow> bytes \<Rightarrow> bytes \<Rightarrow> bytes \<times> nat" where
  "bytesio_write pos s buf =
     (take pos (buf @ replicate (pos - length buf) (char_of (0 :: nat))) @ s @
        drop (pos + length s) buf, pos + length s)"

definition bytesio_read :: "nat \<Rightarrow> nat \<Rightarrow> bytes \<Rightarrow> bytes \<times> nat" where
  "bytesio_read pos n buf =
     (let r = take n (drop pos buf) in (r, pos + length r))"

record shared_bytes_io =
  sb_io :: bytes
  sb_reader_pos :: nat
  sb_writer_pos :: nat

definition CHUNKSIZE :: nat where
  "CHUNKSIZE = 2000"

definition MAX_BUFFER_SIZE :: nat where
  "MAX_BUFFER_SIZE = 100 * CHUNKSIZE"

text \<open>A new reader stands where the buffer stands (0), a new writer at its end.\<close>

definition setup_reader_and_writer :: "bytes \<Rightarrow> shared_bytes_io" where
  "setup_reader_and_writer io = \<lparr>sb_io = io, sb_reader_pos = 0, sb_writer_pos = length io\<rparr>"

definition new_shared_bytes_io :: shared_bytes_io where
  "new_shared_bytes_io = setup_reader_and_writer []"

definition clean_already_read :: "shared_bytes_io \<Rightarrow> shared_bytes_io" where
  "clean_already_read q = setup_reader_and_writer (drop (sb_reader_pos q) (sb_io q))"

definition sb_read :: "nat \<Rightarrow> shared_bytes_io \<Rightarrow> bytes \<times> shared_bytes_io" where
  "sb_read n q =
     (let q' = (if MAX_BUFFER_SIZE < sb_reader_pos q + n then clean_already_read q else q);
          r = bytesio_read (sb_reader_pos q') n (sb_io q')
      in (fst r, q'\<lparr>sb_reader_pos := snd r\<rparr>))"

text \<open>\<open>BytesIO.read\<close> of a negative size reads to the end.\<close>

definition sb_read_rest :: "shared_bytes_io \<Rightarrow> bytes \<times> shared_bytes_io" where
  "sb_read_rest q = (drop (sb_reader_pos q) (sb_io q), q\<lparr>sb_reader_pos := max (sb_reader_pos q) (length (sb_io q))\<rparr>)"

definition sb_write :: "bytes \<Rightarrow> shared_bytes_io \<Rightarrow> shared_bytes_io" where
  "sb_write s q =
     (let r = bytesio_write (sb_writer_pos q) s (sb_io q)
      in q\<lparr>sb_io := fst r, sb_writer_pos := snd r\<rparr>)"

definition readable_size :: "shared_bytes_io \<Rightarrow> nat" where
  "readable_size q = sb_writer_pos q - sb_reader_pos q"

section \<open>The interface: a first-in first-out queue of bytes\<close>

text \<open>Reads of sizes \<open>ns\<close> in turn, and what they return together.\<close>

fun reads :: "(nat \<Rightarrow> 'q \<Rightarrow> bytes \<times> 'q) \<Rightarrow> nat list \<Rightarrow> 'q \<Rightarrow> bytes \<times> 'q" where
  "reads rd [] q = ([], q)"
| "reads rd (n # ns) q =
     (let (r, q') = rd n q; (rs, q'') = reads rd ns q' in (r @ rs, q''))"

locale byte_queue =
  fixes fresh :: 'q
    and qwrite :: "bytes \<Rightarrow> 'q \<Rightarrow> 'q"
    and qread :: "nat \<Rightarrow> 'q \<Rightarrow> bytes \<times> 'q"
    and qsize :: "'q \<Rightarrow> nat"
    and content :: "'q \<Rightarrow> bytes"
    and ok :: "'q \<Rightarrow> bool"
  assumes fresh_ok [simp]: "ok fresh"
    and fresh_content [simp]: "content fresh = []"
    and write_ok [simp]: "ok q \<Longrightarrow> ok (qwrite s q)"
    and write_content [simp]: "ok q \<Longrightarrow> content (qwrite s q) = content q @ s"
    and read_ok [simp]: "ok q \<Longrightarrow> ok (snd (qread n q))"
    and read_result [simp]: "ok q \<Longrightarrow> fst (qread n q) = take n (content q)"
    and read_content [simp]: "ok q \<Longrightarrow> content (snd (qread n q)) = drop n (content q)"
    and size_content [simp]: "ok q \<Longrightarrow> qsize q = length (content q)"
begin

lemma reads_content: "ok q \<Longrightarrow> fst (reads qread ns q) = take (sum_list ns) (content q)"
proof (induction ns arbitrary: q)
  case Nil
  then show ?case by simp
next
  case (Cons n ns)
  then have "fst (reads qread ns (snd (qread n q))) = take (sum_list ns) (drop n (content q))"
    by simp
  with Cons.prems read_result [OF Cons.prems, of n] show ?case
    by (simp add: split_beta take_add)
qed

lemma write_all_read_back: "fst (qread (length s) (qwrite s fresh)) = s"
  by simp

end

definition sb_content :: "shared_bytes_io \<Rightarrow> bytes" where
  "sb_content q = drop (sb_reader_pos q) (sb_io q)"

definition sb_ok :: "shared_bytes_io \<Rightarrow> bool" where
  "sb_ok q \<longleftrightarrow> sb_reader_pos q \<le> sb_writer_pos q \<and> sb_writer_pos q = length (sb_io q)"

lemmas sb_defs = sb_content_def sb_ok_def sb_read_def sb_write_def readable_size_def
  bytesio_read_def bytesio_write_def clean_already_read_def setup_reader_and_writer_def
  new_shared_bytes_io_def

interpretation sb: byte_queue new_shared_bytes_io sb_write sb_read readable_size sb_content sb_ok
proof (unfold_locales, goal_cases)
  case (5 q n)
  then show ?case by (auto simp: sb_defs Let_def)
next
  case (6 q n)
  then show ?case by (auto simp: sb_defs Let_def)
next
  case (7 q n)
  then show ?case by (auto simp: sb_defs Let_def min_def add.commute)
qed (auto simp: sb_defs)

text \<open>
  The buffer stays bounded: after a read that leaves nothing to read, the next read
  beyond the limit drops everything already read.
\<close>

lemma clean_keeps_content: "sb_content (clean_already_read q) = sb_content q"
  by (simp add: sb_defs)

lemma sb_read_bounded:
  assumes "sb_ok q" "n \<le> length (sb_content q)"
  shows "sb_reader_pos (snd (sb_read n q)) \<le> max MAX_BUFFER_SIZE n"
  using assms by (auto simp: sb_defs Let_def)

end
