(* ===== verification/TokenReader.thy ===== *)
theory TokenReader
  imports Prelude
begin

text \<open>
  \<open>shells/remotemodules/tokenreader.py\<close>: the matchers that look for a token in a
  byte stream which may hold one gap of foreign bytes inside the token, and the reader
  that consumes a stream up to the end of the token. The interface \<open>exact_source\<close> is
  what the reader asks of \<open>read_until_size\<close>; its consequence is that the reader
  returns the bytes before the token and never reads past its end.
\<close>

section \<open>FixedGapMatcher\<close>

text \<open>
  The attributes of a \<open>FixedGapMatcher\<close>. The transient attributes \<open>_s\<close> and
  \<open>_already_handled\<close>, which \<open>MatcherBase.find\<close> stores for the duration of one call,
  are the arguments of \<open>find_from\<close>.
\<close>

record fixed_gap_matcher =
  fg_token :: bytes
  fg_gap_start :: nat
  fg_first_group_idx :: nat
  fg_last_group_idx :: nat
  fg_match_start :: "nat option"

definition new_fixed_gap_matcher :: "bytes \<Rightarrow> nat \<Rightarrow> fixed_gap_matcher" where
  "new_fixed_gap_matcher tok g =
     \<lparr>fg_token = tok, fg_gap_start = g, fg_first_group_idx = 0, fg_last_group_idx = g,
      fg_match_start = None\<rparr>"

definition fg_reset :: "fixed_gap_matcher \<Rightarrow> fixed_gap_matcher" where
  "fg_reset m = m\<lparr>fg_first_group_idx := 0, fg_last_group_idx := fg_gap_start m,
                  fg_match_start := None\<rparr>"

definition first_group_found :: "fixed_gap_matcher \<Rightarrow> bool" where
  "first_group_found m \<longleftrightarrow> fg_gap_start m \<le> fg_first_group_idx m"

definition fg_full_match :: "fixed_gap_matcher \<Rightarrow> bool" where
  "fg_full_match m \<longleftrightarrow> first_group_found m \<and> length (fg_token m) \<le> fg_last_group_idx m"

definition fg_max_pass :: "fixed_gap_matcher \<Rightarrow> nat" where
  "fg_max_pass m = fg_first_group_idx m + fg_last_group_idx m - fg_gap_start m"

definition update_last :: "char \<Rightarrow> fixed_gap_matcher \<Rightarrow> fixed_gap_matcher" where
  "update_last c m =
     (if first_group_found m \<and> \<not> fg_full_match m then
        if fg_token m ! fg_last_group_idx m = c
        then m\<lparr>fg_last_group_idx := fg_last_group_idx m + 1\<rparr>
        else m\<lparr>fg_last_group_idx :=
                 fg_gap_start m + (if fg_token m ! fg_gap_start m = c then 1 else 0)\<rparr>
      else m)"

text \<open>\<open>pos\<close> is \<open>_already_handled + idx\<close>; the recursive call restarts the first group.\<close>

function update_first :: "nat \<Rightarrow> char \<Rightarrow> fixed_gap_matcher \<Rightarrow> fixed_gap_matcher" where
  "update_first pos c m =
     (if \<not> first_group_found m then
        if fg_token m ! fg_first_group_idx m = c
        then m\<lparr>fg_first_group_idx := fg_first_group_idx m + 1,
               fg_match_start := (case fg_match_start m of None \<Rightarrow> Some pos | Some p \<Rightarrow> Some p)\<rparr>
        else
          let m' = m\<lparr>fg_first_group_idx := 0, fg_match_start := None\<rparr>
          in if fg_first_group_idx m \<noteq> 0 then update_first pos c m' else m'
      else m)"
  by pat_completeness auto
termination
  by (relation "measure (\<lambda>(pos, c, m). fg_first_group_idx m)") auto

declare update_first.simps [simp del]

definition find_idx :: "nat \<Rightarrow> char \<Rightarrow> fixed_gap_matcher \<Rightarrow> fixed_gap_matcher" where
  "find_idx pos c m = update_first pos c (update_last c m)"

fun find_from :: "nat \<Rightarrow> bytes \<Rightarrow> fixed_gap_matcher \<Rightarrow> fixed_gap_matcher" where
  "find_from pos [] m = m"
| "find_from pos (c # cs) m = find_from (Suc pos) cs (find_idx pos c m)"

section \<open>SingleGapMatcher\<close>

text \<open>
  One \<open>FixedGapMatcher\<close> for every place the gap can have. The list is memoised per
  token (\<open>MemoizeSingleArg\<close>), so several readers share the matcher objects; every read
  starts by resetting them, see \<open>reset_shared\<close> below.
\<close>

type_synonym matchers = "fixed_gap_matcher list"

definition create_matchers :: "bytes \<Rightarrow> matchers" where
  "create_matchers tok = map (new_fixed_gap_matcher tok) [1..<length tok + 1]"

definition sg_max_pass :: "matchers \<Rightarrow> nat" where
  "sg_max_pass ms = foldr max (map fg_max_pass ms) 0"

definition sg_full_match :: "matchers \<Rightarrow> bool" where
  "sg_full_match ms \<longleftrightarrow> (\<exists>m \<in> set (rev ms). fg_full_match m)"

text \<open>\<open>None\<close> is the failed assertion of a \<open>match_start\<close> without a full match.\<close>

definition sg_match_start :: "matchers \<Rightarrow> nat option option" where
  "sg_match_start ms = map_option fg_match_start (List.find fg_full_match (rev ms))"

fun find_until_full :: "nat \<Rightarrow> bytes \<Rightarrow> matchers \<Rightarrow> matchers" where
  "find_until_full ah s [] = []"
| "find_until_full ah s (m # ms) =
     (let m' = find_from ah s m
      in if fg_full_match m' then m' # ms else m' # find_until_full ah s ms)"

definition sg_find :: "nat \<Rightarrow> bytes \<Rightarrow> matchers \<Rightarrow> matchers" where
  "sg_find ah s ms = rev (find_until_full ah s (rev ms))"

definition sg_reset :: "matchers \<Rightarrow> matchers" where
  "sg_reset ms = map fg_reset ms"

section \<open>TokenReader\<close>

definition token_result :: "bytes \<Rightarrow> matchers \<Rightarrow> exn + bytes \<times> matchers" where
  "token_result io ms =
     (case sg_match_start ms of
        None \<Rightarrow> Inl AssertionError
      | Some None \<Rightarrow> Inr (io, ms)
      | Some (Some p) \<Rightarrow> Inr (take p io, ms))"

partial_function (option) token_loop ::
  "(nat \<Rightarrow> ('s, bytes) py) \<Rightarrow> bytes \<Rightarrow> bytes \<Rightarrow> matchers \<Rightarrow> nat \<Rightarrow> ('s, bytes \<times> matchers) py" where
  "token_loop rd tok io ms remaining s =
     (if 0 < remaining then
        seq_outcome (rd remaining s) (\<lambda>b s'.
          let ms' = sg_find (length io) b ms
          in token_loop rd tok (io @ b) ms' (length tok - sg_max_pass ms') s')
      else Some (token_result io ms, s))"

definition read_until_token_sharing ::
  "(nat \<Rightarrow> ('s, bytes) py) \<Rightarrow> bytes \<Rightarrow> matchers \<Rightarrow> ('s, bytes \<times> matchers) py" where
  "read_until_token_sharing rd tok ms = token_loop rd tok [] (sg_reset ms) (length tok)"

definition read_until_token :: "(nat \<Rightarrow> ('s, bytes) py) \<Rightarrow> bytes \<Rightarrow> ('s, bytes) py" where
  "read_until_token rd tok =
     bnd (read_until_token_sharing rd tok (create_matchers tok)) (\<lambda>r. ret (fst r))"

section \<open>The matchers on a stream\<close>

lemmas fg_defs = first_group_found_def fg_full_match_def fg_max_pass_def

text \<open>Unfolding the restart once: after it the first group index is zero.\<close>

lemma update_first_eq:
  "update_first pos c m =
     (if first_group_found m then m
      else if fg_token m ! fg_first_group_idx m = c
      then m\<lparr>fg_first_group_idx := fg_first_group_idx m + 1,
             fg_match_start := (case fg_match_start m of None \<Rightarrow> Some pos | Some p \<Rightarrow> Some p)\<rparr>
      else if fg_first_group_idx m \<noteq> 0 \<and> fg_token m ! 0 = c
      then m\<lparr>fg_first_group_idx := 1, fg_match_start := Some pos\<rparr>
      else m\<lparr>fg_first_group_idx := 0, fg_match_start := None\<rparr>)"
  by (auto simp: update_first.simps [of pos c m] first_group_found_def Let_def
      update_first.simps [of pos c "m\<lparr>fg_first_group_idx := 0, fg_match_start := None\<rparr>"])

lemma find_from_append:
  "find_from pos (xs @ ys) m = find_from (pos + length xs) ys (find_from pos xs m)"
  by (induction xs arbitrary: pos m) auto

text \<open>
  What a matcher knows of the bytes \<open>w\<close> it has seen: its counters stay in range, the
  token characters it counts occur in \<open>w\<close>, and a match start points at the first
  character of the token.
\<close>

definition fg_inv :: "bytes \<Rightarrow> nat \<Rightarrow> bytes \<Rightarrow> fixed_gap_matcher \<Rightarrow> bool" where
  "fg_inv tok g w m \<longleftrightarrow>
     fg_token m = tok \<and> fg_gap_start m = g \<and> fg_first_group_idx m \<le> g \<and>
     g \<le> fg_last_group_idx m \<and> fg_last_group_idx m \<le> length tok \<and>
     (fg_first_group_idx m < g \<longrightarrow> fg_last_group_idx m = g) \<and>
     set (take (fg_first_group_idx m) tok) \<subseteq> set w \<and>
     (fg_first_group_idx m = g \<longrightarrow> set (take (fg_last_group_idx m) tok) \<subseteq> set w) \<and>
     (case fg_match_start m of None \<Rightarrow> fg_first_group_idx m = 0
      | Some p \<Rightarrow> p < length w \<and> w ! p = tok ! 0)"

lemma fg_inv_new: "g \<le> length tok \<Longrightarrow> fg_inv tok g [] (new_fixed_gap_matcher tok g)"
  by (auto simp: fg_inv_def new_fixed_gap_matcher_def)

lemma set_take_Suc: "i < length xs \<Longrightarrow> set (take (Suc i) xs) = insert (xs ! i) (set (take i xs))"
  by (simp add: take_Suc_conv_app_nth)

lemma fg_inv_update_last:
  assumes "fg_inv tok g w m" and "0 < g"
  shows "fg_inv tok g (w @ [c]) (update_last c m)"
  using assms
  by (auto simp: fg_inv_def update_last_def fg_defs set_take_Suc nth_append
      split: option.splits)

lemma fg_inv_update_first:
  assumes "fg_inv tok g w m \<or> fg_inv tok g (w @ [c]) m" and "0 < g" and "g \<le> length tok"
    and "fg_first_group_idx m = 0 \<longrightarrow> fg_match_start m = None"
  shows "fg_inv tok g (w @ [c]) (update_first (length w) c m)"
proof -
  have base: "fg_inv tok g (w @ [c]) m"
    using assms(1) by (auto simp: fg_inv_def nth_append split: option.splits)
  have "set (take 1 tok) = {tok ! 0}"
    using assms(2,3) by (cases tok) auto
  note one = this
  consider (found) "first_group_found m" | (advance) "\<not> first_group_found m" "tok ! fg_first_group_idx m = c"
    | (restart) "\<not> first_group_found m" "tok ! fg_first_group_idx m \<noteq> c"
    by blast
  then show ?thesis
  proof cases
    case found
    then show ?thesis using base by (simp add: update_first_eq)
  next
    case advance
    let ?i = "fg_first_group_idx m"
    have i: "?i < g" "?i < length tok" and last: "fg_last_group_idx m = g" and tok: "fg_token m = tok"
      using advance base assms(3) by (auto simp: fg_inv_def first_group_found_def)
    have ts: "set (take (Suc ?i) tok) \<subseteq> set (w @ [c])"
      using base advance(2) i by (auto simp: fg_inv_def set_take_Suc)
    then have "Suc ?i = g \<longrightarrow> set (take g tok) \<subseteq> set (w @ [c])" by auto
    with ts base advance i last tok assms(4) show ?thesis
      by (auto simp: fg_inv_def update_first_eq nth_append split: option.splits)
  next
    case restart
    have tok: "fg_token m = tok" using base by (simp add: fg_inv_def)
    have last: "fg_last_group_idx m = g"
      using restart base by (auto simp: fg_inv_def first_group_found_def)
    have "1 = g \<longrightarrow> c = tok ! 0 \<longrightarrow> set (take g tok) \<subseteq> set (w @ [c])" using one by auto
    with one restart base last tok assms(2,3) show ?thesis
      by (auto simp: fg_inv_def update_first_eq nth_append)
  qed
qed

text \<open>The match start is set exactly while the first group has begun.\<close>

definition fg_start_inv :: "fixed_gap_matcher \<Rightarrow> bool" where
  "fg_start_inv m \<longleftrightarrow> (fg_first_group_idx m = 0 \<longrightarrow> fg_match_start m = None)"

lemma fg_start_inv_new: "fg_start_inv (new_fixed_gap_matcher tok g)"
  by (simp add: fg_start_inv_def new_fixed_gap_matcher_def)

lemma fg_start_inv_find_idx: "fg_start_inv m \<Longrightarrow> fg_start_inv (find_idx pos c m)"
  by (auto simp: fg_start_inv_def find_idx_def update_first_eq update_last_def)

lemma fg_inv_find_idx:
  assumes "fg_inv tok g w m" "fg_start_inv m" "0 < g" "g \<le> length tok"
  shows "fg_inv tok g (w @ [c]) (find_idx (length w) c m)"
  unfolding find_idx_def
proof (rule fg_inv_update_first)
  show "fg_inv tok g w (update_last c m) \<or> fg_inv tok g (w @ [c]) (update_last c m)"
    using fg_inv_update_last [OF assms(1,3)] by blast
  show "fg_first_group_idx (update_last c m) = 0 \<longrightarrow> fg_match_start (update_last c m) = None"
    using assms(2) by (auto simp: fg_start_inv_def update_last_def)
qed (use assms in auto)

lemma fg_inv_find_from:
  assumes "fg_inv tok g w m" "fg_start_inv m" "0 < g" "g \<le> length tok"
  shows "fg_inv tok g (w @ s) (find_from (length w) s m) \<and> fg_start_inv (find_from (length w) s m)"
  using assms
proof (induction s arbitrary: w m)
  case Nil
  then show ?case by simp
next
  case (Cons c s)
  have "fg_inv tok g (w @ [c]) (find_idx (length w) c m)"
    and "fg_start_inv (find_idx (length w) c m)"
    using Cons.prems by (simp_all add: fg_inv_find_idx fg_start_inv_find_idx)
  from Cons.IH [OF this Cons.prems(3,4)] show ?case by simp
qed

abbreviation matcher_after :: "bytes \<Rightarrow> nat \<Rightarrow> bytes \<Rightarrow> fixed_gap_matcher" where
  "matcher_after tok g w \<equiv> find_from 0 w (new_fixed_gap_matcher tok g)"

lemma matcher_after_inv:
  assumes "0 < g" "g \<le> length tok"
  shows "fg_inv tok g w (matcher_after tok g w)"
    and "fg_start_inv (matcher_after tok g w)"
proof -
  have "fg_inv tok g [] (new_fixed_gap_matcher tok g)" and "fg_start_inv (new_fixed_gap_matcher tok g)"
    using assms by (simp_all add: fg_inv_new fg_start_inv_new)
  from fg_inv_find_from [OF this assms, of w]
  show "fg_inv tok g w (matcher_after tok g w)" and "fg_start_inv (matcher_after tok g w)"
    by simp_all
qed

lemma max_pass_le: "fg_inv tok g w m \<Longrightarrow> fg_max_pass m \<le> length tok"
  by (auto simp: fg_inv_def fg_max_pass_def)

lemma max_pass_full_iff:
  "fg_inv tok g w m \<Longrightarrow> fg_max_pass m = length tok \<longleftrightarrow> fg_full_match m"
  by (auto simp: fg_inv_def fg_defs)

text \<open>A full match has seen every character of the token, from a first one.\<close>

lemma full_match_sound:
  assumes "fg_inv tok g w m" "fg_full_match m" "0 < g"
  shows "set tok \<subseteq> set w" and "\<exists>p. fg_match_start m = Some p \<and> p < length w \<and> w ! p = tok ! 0"
  using assms by (auto simp: fg_inv_def fg_defs split: option.splits)

subsection \<open>The matcher whose gap is the stream's gap\<close>

lemma find_from_before_token:
  assumes "set w \<inter> set tok = {}" "0 < g" "g \<le> length tok"
  shows "find_from pos w (new_fixed_gap_matcher tok g) = new_fixed_gap_matcher tok g"
  using assms(1)
proof (induction w arbitrary: pos)
  case Nil
  then show ?case by simp
next
  case (Cons c w)
  have "0 < length tok" using assms by linarith
  then have "tok ! 0 \<in> set tok" by simp
  then have "tok ! 0 \<noteq> c" using Cons.prems by auto
  then have "find_idx pos c (new_fixed_gap_matcher tok g) = new_fixed_gap_matcher tok g"
    using assms by (auto simp: find_idx_def update_last_def update_first_eq fg_defs
        new_fixed_gap_matcher_def)
  with Cons show ?case by simp
qed

definition in_first :: "bytes \<Rightarrow> nat \<Rightarrow> nat \<Rightarrow> nat \<Rightarrow> fixed_gap_matcher" where
  "in_first tok g p i =
     \<lparr>fg_token = tok, fg_gap_start = g, fg_first_group_idx = i, fg_last_group_idx = g,
      fg_match_start = (if i = 0 then None else Some p)\<rparr>"

definition in_last :: "bytes \<Rightarrow> nat \<Rightarrow> nat \<Rightarrow> nat \<Rightarrow> fixed_gap_matcher" where
  "in_last tok g p j =
     \<lparr>fg_token = tok, fg_gap_start = g, fg_first_group_idx = g, fg_last_group_idx = g + j,
      fg_match_start = Some p\<rparr>"

lemma find_from_first_group:
  assumes "i + n \<le> g" "g \<le> length tok"
  shows "find_from (p + i) (take n (drop i tok)) (in_first tok g p i) = in_first tok g p (i + n)"
  using assms(1)
proof (induction n arbitrary: i)
  case 0
  then show ?case by simp
next
  case (Suc n)
  have i: "i < length tok" using Suc.prems assms(2) by simp
  have "find_idx (p + i) (tok ! i) (in_first tok g p i) = in_first tok g p (Suc i)"
    using Suc.prems by (auto simp: find_idx_def update_last_def update_first_eq fg_defs in_first_def)
  with Suc.IH [of "Suc i"] Suc.prems i show ?case
    by (simp add: Cons_nth_drop_Suc [symmetric])
qed

lemma find_from_gap:
  assumes "set w \<inter> set tok = {}" "g < length tok"
  shows "find_from pos w (in_last tok g p 0) = in_last tok g p 0"
  using assms(1)
proof (induction w arbitrary: pos)
  case Nil
  then show ?case by simp
next
  case (Cons c w)
  have "tok ! g \<noteq> c"
    using Cons.prems assms(2) by (auto dest: nth_mem)
  then have "find_idx pos c (in_last tok g p 0) = in_last tok g p 0"
    using assms(2) by (auto simp: find_idx_def update_last_def update_first_eq fg_defs in_last_def)
  with Cons show ?case by simp
qed

lemma find_from_last_group:
  assumes "g + j + n \<le> length tok"
  shows "find_from pos (take n (drop (g + j) tok)) (in_last tok g p j) = in_last tok g p (j + n)"
  using assms
proof (induction n arbitrary: j pos)
  case 0
  then show ?case by simp
next
  case (Suc n)
  have i: "g + j < length tok" using Suc.prems by simp
  have "find_idx pos (tok ! (g + j)) (in_last tok g p j) = in_last tok g p (Suc j)"
    using i by (auto simp: find_idx_def update_last_def update_first_eq fg_defs in_last_def)
  with Suc.IH [of "Suc j"] Suc.prems i show ?case
    by (simp add: Cons_nth_drop_Suc [symmetric])
qed

section \<open>The interface and the reader's contract\<close>

text \<open>
  A source of exactly sized reads: \<open>rep s v\<close> says that in state \<open>s\<close> the bytes \<open>v\<close>
  are the next ones to come. A read of no more bytes than that returns exactly them.
\<close>

locale exact_source =
  fixes rd :: "nat \<Rightarrow> ('s, bytes) py"
    and rep :: "'s \<Rightarrow> bytes \<Rightarrow> bool"
  assumes exact: "rep s v \<Longrightarrow> n \<le> length v \<Longrightarrow>
    \<exists>s'. rd n s = Some (Inr (take n v), s') \<and> rep s' (drop n v)"

definition matchers_after :: "bytes \<Rightarrow> bytes \<Rightarrow> matchers" where
  "matchers_after tok w = map (\<lambda>g. matcher_after tok g w) [1..<length tok + 1]"

text \<open>The stream the reader is made for: garbage, the token's head, a gap, its tail.\<close>

definition gapped :: "bytes \<Rightarrow> nat \<Rightarrow> bytes \<Rightarrow> bytes \<Rightarrow> bytes" where
  "gapped tok k g gap = g @ take k tok @ gap @ drop k tok"

definition gap_ok :: "bytes \<Rightarrow> nat \<Rightarrow> bytes \<Rightarrow> bytes \<Rightarrow> bool" where
  "gap_ok tok k g gap \<longleftrightarrow> distinct tok \<and> 0 < k \<and> k \<le> length tok \<and>
     set g \<inter> set tok = {} \<and> set gap \<inter> set tok = {} \<and> (k = length tok \<longrightarrow> gap = [])"

lemma last_token_char:
  assumes "gap_ok tok k g gap"
  shows "last tok \<notin> set (butlast (gapped tok k g gap))"
proof -
  have ne: "tok \<noteq> []" using assms by (auto simp: gap_ok_def)
  then have tok: "tok = butlast tok @ [last tok]" by simp
  with assms have nb: "last tok \<notin> set (butlast tok)"
    by (metis gap_ok_def distinct_append disjoint_insert(1) list.simps(15) inf_commute)
  show ?thesis
  proof (cases "k = length tok")
    case True
    with assms ne nb show ?thesis
      by (auto simp: gap_ok_def gapped_def butlast_append split: if_splits)
  next
    case False
    with assms have k: "k < length tok" by (simp add: gap_ok_def)
    then have "take k tok = take k (butlast tok)" by (simp add: take_butlast)
    moreover have "butlast (drop k tok) = drop k (butlast tok)" by (simp add: butlast_drop)
    ultimately show ?thesis
      using assms ne nb k
      by (auto simp: gap_ok_def gapped_def butlast_append dest!: in_set_takeD in_set_dropD)
  qed
qed

lemma first_token_char:
  assumes "gap_ok tok k g gap" "p < length (gapped tok k g gap)" "gapped tok k g gap ! p = tok ! 0"
  shows "p = length g"
proof -
  obtain t ts where tok: "tok = t # ts" and k: "0 < k"
    using assms(1) by (cases tok) (auto simp: gap_ok_def)
  obtain k' where k': "k = Suc k'" using k by (cases k) auto
  let ?r = "take k' ts @ gap @ drop k' ts"
  have split: "gapped tok k g gap = g @ t # ?r"
    by (simp add: gapped_def tok k')
  have "t \<notin> set g" and "t \<notin> set ?r"
    using assms(1) by (auto simp: gap_ok_def tok dest: in_set_takeD in_set_dropD)
  note fresh = this
  have len: "p < length g + Suc (length ?r)" using assms(2) by (simp add: split)
  show ?thesis
  proof (rule linorder_cases [of p "length g"])
    assume "p < length g"
    then have "g ! p = t" using assms(3) unfolding split by (simp add: tok nth_append)
    with \<open>p < length g\<close> fresh(1) show ?thesis by (auto dest: nth_mem)
  next
    assume gt: "length g < p"
    then obtain q where q: "p = length g + Suc q" using less_imp_Suc_add by fastforce
    with len have "q < length ?r" by simp
    then have "?r ! q \<in> set ?r" by (rule nth_mem)
    moreover have "(g @ t # ?r) ! p = t" using assms(3) unfolding split by (simp add: tok)
    then have "?r ! q = t" unfolding q by (simp add: nth_append del: append_assoc)
    ultimately show ?thesis using fresh(2) by simp
  qed
qed

text \<open>How far the matcher whose gap is the stream's gap has come in a prefix.\<close>

lemma gap_matcher_progress:
  assumes ok: "gap_ok tok k g gap" and x: "gapped tok k g gap = w @ y"
  shows "length tok \<le> fg_max_pass (matcher_after tok k w) + length y"
proof -
  have k: "0 < k" "k \<le> length tok" and dg: "set g \<inter> set tok = {}" and dgap: "set gap \<inter> set tok = {}"
    using ok by (auto simp: gap_ok_def)
  let ?m0 = "new_fixed_gap_matcher tok k" and ?p = "length g"
  have len: "length w + length y = length g + length gap + length tok"
    using arg_cong [OF x, of length] k by (simp add: gapped_def)
  have w: "w = take (length w) (gapped tok k g gap)" using x by simp
  have m0: "?m0 = in_first tok k ?p 0" by (simp add: new_fixed_gap_matcher_def in_first_def)
  have after_g: "find_from 0 g ?m0 = in_first tok k ?p 0"
    using find_from_before_token [OF dg k] by (simp add: m0)
  have after_head: "find_from 0 (g @ take i tok) ?m0 = in_first tok k ?p i" if "i \<le> k" for i
    using find_from_first_group [of 0 i k tok ?p] that k
    by (simp add: find_from_append after_g)
  have head_last: "in_first tok k ?p k = in_last tok k ?p 0"
    using k by (simp add: in_first_def in_last_def)
  consider "length w \<le> ?p" | i where "i \<le> k" "length w = ?p + i"
    | i where "0 < i" "i \<le> length gap" "length w = ?p + k + i"
    | j where "length w = ?p + k + length gap + j" "j \<le> length tok - k"
  proof -
    have le: "length w \<le> ?p + length gap + length tok" using len by simp
    show thesis
    proof (cases "length w \<le> ?p + k")
      case True
      then show thesis
        using that(1) that(2) [of "length w - ?p"] by (cases "length w \<le> ?p") auto
    next
      case False
      then show thesis
        using le that(3) [of "length w - (?p + k)"] that(4) [of "length w - (?p + k + length gap)"]
        by (cases "length w \<le> ?p + k + length gap") auto
    qed
  qed
  then show ?thesis
  proof cases
    case 1
    then show ?thesis using len by simp
  next
    case 2
    then have "w = g @ take i tok" using w k by (simp add: gapped_def min_def)
    then show ?thesis using after_head 2 len by (simp add: in_first_def fg_max_pass_def)
  next
    case 3
    then have "k < length tok" using ok by (auto simp: gap_ok_def)
    moreover have "w = (g @ take k tok) @ take i gap" using w k 3 by (simp add: gapped_def)
    moreover have "set (take i gap) \<inter> set tok = {}" using dgap by (auto dest: in_set_takeD)
    ultimately show ?thesis
      using 3 len k after_head [of k]
      by (simp only: find_from_append [of 0 "g @ take k tok"] head_last find_from_gap)
        (simp add: in_last_def fg_max_pass_def)
  next
    case 4
    have "w = ((g @ take k tok) @ gap) @ take j (drop k tok)" using w k 4 by (simp add: gapped_def)
    moreover have "find_from 0 ((g @ take k tok) @ gap) ?m0 = in_last tok k ?p 0"
    proof (cases "k = length tok")
      case True
      then show ?thesis using ok after_head [of k] head_last by (simp add: gap_ok_def)
    next
      case False
      then show ?thesis using k dgap after_head [of k] head_last
        by (simp only: find_from_append [of 0 "g @ take k tok"]) (simp add: find_from_gap)
    qed
    ultimately show ?thesis
      using 4 len k find_from_last_group [of k 0 j tok]
      by (simp only: find_from_append [of 0 "(g @ take k tok) @ gap"])
        (simp add: in_last_def fg_max_pass_def)
  qed
qed

subsection \<open>All matchers together\<close>

lemma sg_max_pass_ge: "m \<in> set ms \<Longrightarrow> fg_max_pass m \<le> sg_max_pass ms"
  by (induction ms) (auto simp: sg_max_pass_def)

lemma sg_max_pass_le: "(\<forall>m \<in> set ms. fg_max_pass m \<le> n) \<Longrightarrow> sg_max_pass ms \<le> n"
  by (induction ms) (auto simp: sg_max_pass_def)

lemma sg_max_pass_less: "(\<forall>m \<in> set ms. fg_max_pass m < n) \<Longrightarrow> 0 < n \<Longrightarrow> sg_max_pass ms < n"
  by (induction ms) (auto simp: sg_max_pass_def)

lemma sg_max_pass_create: "sg_max_pass (create_matchers tok) = 0"
proof -
  have "\<forall>m \<in> set (create_matchers tok). fg_max_pass m \<le> 0"
    by (simp add: create_matchers_def new_fixed_gap_matcher_def fg_max_pass_def del: upt_Suc)
  then show ?thesis using sg_max_pass_le [of "create_matchers tok" 0] by simp
qed

lemma find_until_full_none:
  "(\<forall>m \<in> set ms. \<not> fg_full_match (find_from ah s m)) \<Longrightarrow>
     find_until_full ah s ms = map (find_from ah s) ms"
  by (induction ms) (auto simp: Let_def)

lemma find_until_full_first:
  "(\<exists>m \<in> set ms. fg_full_match (find_from ah s m)) \<Longrightarrow>
     \<exists>m \<in> set ms. fg_full_match (find_from ah s m) \<and>
       find_from ah s m \<in> set (find_until_full ah s ms) \<and>
       List.find fg_full_match (find_until_full ah s ms) = Some (find_from ah s m)"
  by (induction ms) (auto simp: Let_def)

lemma find_until_full_mem:
  "m \<in> set (find_until_full ah s ms) \<Longrightarrow> \<exists>m0 \<in> set ms. m = find_from ah s m0 \<or> m = m0"
  by (induction ms) (auto simp: Let_def split: if_splits)

lemma matchers_after_set: "m \<in> set (matchers_after tok w) \<longleftrightarrow>
    (\<exists>g. 0 < g \<and> g \<le> length tok \<and> m = matcher_after tok g w)"
proof -
  have "set (matchers_after tok w) = (\<lambda>g. matcher_after tok g w) ` {1..<length tok + 1}"
    by (simp only: matchers_after_def set_map set_upt)
  moreover have "{1..<length tok + 1} = {g. 0 < g \<and> g \<le> length tok}" by auto
  ultimately show ?thesis by blast
qed

lemma matcher_after_in: "0 < g \<Longrightarrow> g \<le> length tok \<Longrightarrow> matcher_after tok g w \<in> set (matchers_after tok w)"
  by (auto simp: matchers_after_set)

lemma create_matchers_after: "create_matchers tok = matchers_after tok []"
  by (simp add: create_matchers_def matchers_after_def)

lemma sg_reset_create: "sg_reset (create_matchers tok) = create_matchers tok"
  by (simp add: sg_reset_def create_matchers_def fg_reset_def new_fixed_gap_matcher_def)

lemma matcher_after_extend: "find_from (length w) b (matcher_after tok g w) = matcher_after tok g (w @ b)"
  by (simp add: find_from_append)

lemma none_full_before_end:
  assumes ok: "gap_ok tok k g gap" and x: "gapped tok k g gap = w @ y" and "y \<noteq> []"
    and m: "m \<in> set (matchers_after tok w)"
  shows "\<not> fg_full_match m" and "fg_max_pass m < length tok"
proof -
  obtain i where i: "0 < i" "i \<le> length tok" "m = matcher_after tok i w"
    using m by (auto simp: matchers_after_set)
  have "tok \<noteq> []" using ok by (auto simp: gap_ok_def)
  have "set w \<subseteq> set (butlast (gapped tok k g gap))"
    using x \<open>y \<noteq> []\<close> by (simp add: butlast_append)
  then have "last tok \<notin> set w" using last_token_char [OF ok] by blast
  then have "\<not> set tok \<subseteq> set w" using last_in_set [OF \<open>tok \<noteq> []\<close>] by blast
  then show nf: "\<not> fg_full_match m"
    using full_match_sound(1) [OF matcher_after_inv(1) [OF i(1,2)] _ i(1)] i(3) by blast
  then show "fg_max_pass m < length tok"
    using max_pass_le [OF matcher_after_inv(1) [OF i(1,2)], of w]
      max_pass_full_iff [OF matcher_after_inv(1) [OF i(1,2)], of w] i(3) by auto
qed

lemma sg_find_before_end:
  assumes "gap_ok tok k g gap" "gapped tok k g gap = (w @ b) @ y" "y \<noteq> []"
  shows "sg_find (length w) b (matchers_after tok w) = matchers_after tok (w @ b)"
proof -
  have "\<forall>m \<in> set (matchers_after tok w). \<not> fg_full_match (find_from (length w) b m)"
  proof
    fix m assume "m \<in> set (matchers_after tok w)"
    then obtain i where "0 < i" "i \<le> length tok" "m = matcher_after tok i w"
      by (auto simp: matchers_after_set)
    then show "\<not> fg_full_match (find_from (length w) b m)"
      using none_full_before_end(1) [OF assms matcher_after_in] by (simp add: matcher_after_extend)
  qed
  then have "sg_find (length w) b (matchers_after tok w) =
      map (find_from (length w) b) (matchers_after tok w)"
    by (simp add: sg_find_def find_until_full_none rev_map)
  then show ?thesis by (simp add: matchers_after_def matcher_after_extend o_def)
qed

lemma sg_find_at_end:
  assumes ok: "gap_ok tok k g gap" and x: "gapped tok k g gap = w @ b" and "b \<noteq> []"
  defines "ms' \<equiv> sg_find (length w) b (matchers_after tok w)"
  shows "sg_max_pass ms' = length tok" and "token_result (w @ b) ms' = Inr (g, ms')"
proof -
  have k: "0 < k" "k \<le> length tok" using ok by (auto simp: gap_ok_def)
  have full: "fg_full_match (matcher_after tok k (w @ b))"
    using gap_matcher_progress [OF ok, of "w @ b" "[]"] x
      max_pass_le [OF matcher_after_inv(1) [OF k], of "w @ b"]
      max_pass_full_iff [OF matcher_after_inv(1) [OF k], of "w @ b"] by simp
  then have "\<exists>m \<in> set (rev (matchers_after tok w)). fg_full_match (find_from (length w) b m)"
    using matcher_after_in [OF k, of w] by (auto simp: matcher_after_extend intro!: bexI)
  from find_until_full_first [OF this] obtain i where i: "0 < i" "i \<le> length tok"
    and fi: "fg_full_match (matcher_after tok i (w @ b))"
    and mem: "matcher_after tok i (w @ b) \<in> set ms'"
    and fnd: "List.find fg_full_match (rev ms') = Some (matcher_after tok i (w @ b))"
    by (auto simp: ms'_def sg_find_def matchers_after_set matcher_after_extend)
  have inv: "fg_inv tok i (w @ b) (matcher_after tok i (w @ b))"
    by (rule matcher_after_inv(1) [OF i])
  have "\<forall>m \<in> set ms'. fg_max_pass m \<le> length tok"
  proof
    fix m assume "m \<in> set ms'"
    then have "m \<in> set (find_until_full (length w) b (rev (matchers_after tok w)))"
      by (simp add: ms'_def sg_find_def)
    from find_until_full_mem [OF this] obtain m0 where "m0 \<in> set (matchers_after tok w)"
      "m = find_from (length w) b m0 \<or> m = m0" by auto
    then obtain j u where "0 < j" "j \<le> length tok" "m = matcher_after tok j u"
      by (auto simp: matchers_after_set matcher_after_extend)
    then show "fg_max_pass m \<le> length tok" using max_pass_le matcher_after_inv(1) by blast
  qed
  then show "sg_max_pass ms' = length tok"
    using sg_max_pass_ge [OF mem] sg_max_pass_le [of ms' "length tok"] max_pass_full_iff [OF inv] fi
    by (intro antisym) simp_all
  obtain p where p: "fg_match_start (matcher_after tok i (w @ b)) = Some p" "p < length (w @ b)"
      "(w @ b) ! p = tok ! 0"
    using full_match_sound(2) [OF inv fi i(1)] by blast
  then have "p = length g" using first_token_char [OF ok] x by simp
  moreover have "take (length g) (w @ b) = g" using x by (simp add: gapped_def flip: x)
  ultimately show "token_result (w @ b) ms' = Inr (g, ms')"
    using p(1) fnd by (simp add: token_result_def sg_match_start_def)
qed

context exact_source
begin

lemma token_loop_returns:
  assumes ok: "gap_ok tok k g gap" and "gapped tok k g gap = w @ y" and "y \<noteq> []"
    and "rep s (y @ rest)"
  shows "\<exists>ms' s'. token_loop rd tok w (matchers_after tok w)
             (length tok - sg_max_pass (matchers_after tok w)) s = Some (Inr (g, ms'), s') \<and>
           rep s' rest"
  using assms(2-4)
proof (induction "length y" arbitrary: w y s rule: less_induct)
  case less
  let ?ms = "matchers_after tok w" and ?r = "length tok - sg_max_pass (matchers_after tok w)"
  have k: "0 < k" "k \<le> length tok" using ok by (auto simp: gap_ok_def)
  then have "sg_max_pass ?ms < length tok"
    using none_full_before_end(2) [OF ok less.prems(1,2)] by (intro sg_max_pass_less) auto
  then have r0: "0 < ?r" by simp
  have "matcher_after tok k w \<in> set ?ms" using k by (auto simp: matchers_after_set)
  then have ry: "?r \<le> length y"
    using sg_max_pass_ge gap_matcher_progress [OF ok less.prems(1)] by fastforce
  let ?b = "take ?r y" and ?y = "drop ?r y"
  obtain s' where s': "rd ?r s = Some (Inr ?b, s')" "rep s' (?y @ rest)"
    using exact [OF less.prems(3), of ?r] ry by auto
  have x: "gapped tok k g gap = (w @ ?b) @ ?y" using less.prems(1) by simp
  show ?case
  proof (cases "?y = []")
    case True
    then have x': "gapped tok k g gap = w @ ?b" and "?b \<noteq> []" using x less.prems(2) r0 by auto
    from sg_find_at_end [OF ok this]
    show ?thesis
      using r0 s' True by (subst token_loop.simps) (simp add: Let_def token_loop.simps)
  next
    case False
    have "length ?y < length y" using r0 ry by simp
    from less.hyps [OF this x False s'(2)]
    show ?thesis
      using r0 s'(1) sg_find_before_end [OF ok x False]
      by (subst token_loop.simps) (simp add: Let_def)
  qed
qed

text \<open>
  The reader's contract: whatever the source does below, the bytes before the token are
  returned, a single gap is skipped, and the bytes after the token stay unread.
\<close>

lemma read_until_token_returns:
  assumes "gap_ok tok k g gap" and "rep s (gapped tok k g gap @ rest)"
  shows "\<exists>s'. read_until_token rd tok s = Some (Inr g, s') \<and> rep s' rest"
proof -
  have "gapped tok k g gap \<noteq> []"
    using assms(1) by (auto simp: gapped_def gap_ok_def)
  from token_loop_returns [OF assms(1) _ this, of "[]" s rest] assms(2)
  obtain ms' s' where "token_loop rd tok [] (create_matchers tok) (length tok) s = Some (Inr (g, ms'), s')"
    "rep s' rest"
    by (auto simp: sg_max_pass_create create_matchers_after [symmetric])
  then show ?thesis
    by (simp add: read_until_token_def read_until_token_sharing_def sg_reset_create)
qed

lemma read_token_exact:
  assumes "distinct tok" "tok \<noteq> []" and "rep s (tok @ rest)"
  shows "\<exists>s'. read_until_token rd tok s = Some (Inr [], s') \<and> rep s' rest"
  using read_until_token_returns [of tok "length tok" "[]" "[]" s rest] assms
  by (simp add: gap_ok_def gapped_def)

end

text \<open>
  Readers of one token share their matcher objects. A read starts from a reset, so its
  result does not depend on what earlier reads left in them.
\<close>

definition shared_matchers :: "bytes \<Rightarrow> matchers \<Rightarrow> bool" where
  "shared_matchers tok ms \<longleftrightarrow>
     map (\<lambda>m. (fg_token m, fg_gap_start m)) ms = map (Pair tok) [1..<length tok + 1]"

lemma fg_reset_eq: "fg_reset m = new_fixed_gap_matcher (fg_token m) (fg_gap_start m)"
  by (cases m) (simp add: fg_reset_def new_fixed_gap_matcher_def)

lemma reset_shared: "shared_matchers tok ms \<Longrightarrow> sg_reset ms = create_matchers tok"
proof -
  assume "shared_matchers tok ms"
  then have eq: "map (\<lambda>m. (fg_token m, fg_gap_start m)) ms = map (Pair tok) [1..<length tok + 1]"
    by (simp only: shared_matchers_def)
  let ?f = "\<lambda>p. new_fixed_gap_matcher (fst p) (snd p)"
  have "sg_reset ms = map ?f (map (\<lambda>m. (fg_token m, fg_gap_start m)) ms)"
    unfolding sg_reset_def map_map by (rule map_cong) (simp_all only: comp_apply fg_reset_eq fst_conv snd_conv)
  also have "\<dots> = create_matchers tok"
    unfolding eq create_matchers_def map_map by (rule map_cong) (simp_all only: comp_apply fst_conv snd_conv)
  finally show ?thesis .
qed

text \<open>A source that does not answer the first read keeps the reader for ever.\<close>

lemma read_until_token_None:
  assumes "tok \<noteq> []" "rd (length tok) s = None"
  shows "read_until_token rd tok s = None"
proof -
  have "token_loop rd tok [] ms (length tok) s = None" for ms
    using assms by (subst token_loop.simps) simp
  then show ?thesis by (simp add: read_until_token_def read_until_token_sharing_def)
qed

end
