(* ===== verification/PyText.thy ===== *)
theory PyText
  imports Prelude
begin

text \<open>
  What the protocol uses of Python's text and byte functions, as the language defines
  them: decimal formatting and \<open>int\<close>, \<open>bytes.split\<close> at colons, base64, UTF-8, and
  \<open>shells/remotemodules/compatibility.py\<close> on top. Text is a list of code points, a
  byte string a list of bytes; only Python 3 is modelled. Each encoding comes with its
  round trip.
\<close>

type_synonym ustr = "nat list"

section \<open>Decimal numbers\<close>

definition digit_char :: "nat \<Rightarrow> char" where
  "digit_char d = char_of (48 + d)"

definition char_digit :: "char \<Rightarrow> nat option" where
  "char_digit c = (let n = of_char c :: nat in if 48 \<le> n \<and> n < 58 then Some (n - 48) else None)"

fun nat_digits :: "nat \<Rightarrow> bytes" where
  "nat_digits n = (if n < 10 then [digit_char n] else nat_digits (n div 10) @ [digit_char (n mod 10)])"

declare nat_digits.simps [simp del]

text \<open>\<open>str(i)\<close>, and \<open>'{:0w}'.format(n)\<close> for a number that is not negative.\<close>

definition str_of_int :: "int \<Rightarrow> bytes" where
  "str_of_int i = (if i < 0 then CHR ''-'' # nat_digits (nat (- i)) else nat_digits (nat i))"

definition zpad :: "nat \<Rightarrow> nat \<Rightarrow> bytes" where
  "zpad w n = replicate (w - length (nat_digits n)) (CHR ''0'') @ nat_digits n"

text \<open>\<open>int(s)\<close>: white space around, a sign, digits with single underscores between them.\<close>

definition is_space :: "char \<Rightarrow> bool" where
  "is_space c \<longleftrightarrow> (let n = of_char c :: nat in n = 32 \<or> (9 \<le> n \<and> n \<le> 13))"

definition py_strip :: "bytes \<Rightarrow> bytes" where
  "py_strip s = rev (dropWhile is_space (rev (dropWhile is_space s)))"

fun digits_value :: "nat \<Rightarrow> bool \<Rightarrow> bytes \<Rightarrow> nat option" where
  "digits_value acc seen [] = (if seen then Some acc else None)"
| "digits_value acc seen (c # cs) =
     (case char_digit c of
        Some d \<Rightarrow> digits_value (acc * 10 + d) True cs
      | None \<Rightarrow> if c = CHR ''_'' \<and> seen then digits_value acc False cs else None)"

definition py_int :: "bytes \<Rightarrow> exn + int" where
  "py_int s =
     (case py_strip s of
        [] \<Rightarrow> Inl ValueError
      | c # cs \<Rightarrow>
          (case (if c = CHR ''-'' \<or> c = CHR ''+'' then digits_value 0 False cs
                 else digits_value 0 False (c # cs)) of
             None \<Rightarrow> Inl ValueError
           | Some n \<Rightarrow> Inr (if c = CHR ''-'' then - int n else int n)))"

lemma of_char_digit [simp]: "d < 10 \<Longrightarrow> of_char (digit_char d) = (48 + d :: nat)"
  by (simp add: digit_char_def)

lemma char_digit_digit [simp]: "d < 10 \<Longrightarrow> char_digit (digit_char d) = Some d"
  by (simp add: char_digit_def)

definition is_digit :: "char \<Rightarrow> bool" where
  "is_digit c \<longleftrightarrow> char_digit c \<noteq> None"

lemma is_digit_digit [simp]: "d < 10 \<Longrightarrow> is_digit (digit_char d)"
  by (simp add: is_digit_def)

lemma char_digit_zero [simp]: "char_digit (CHR ''0'') = Some 0"
  by (simp add: char_digit_def)

lemma is_digit_zero [simp]: "is_digit (CHR ''0'')"
  by (simp add: is_digit_def char_digit_def)

lemma digit_not_special:
  assumes "is_digit c"
  shows "\<not> is_space c" "c \<noteq> CHR ''-''" "c \<noteq> CHR ''+''" "c \<noteq> CHR '':''"
  using assms by (auto simp: is_digit_def char_digit_def is_space_def Let_def split: if_splits)

lemma nat_digits_nonempty [simp]: "nat_digits n \<noteq> []"
  by (subst nat_digits.simps) simp

lemma nat_digits_all_digits: "list_all is_digit (nat_digits n)"
proof (induction n rule: nat_digits.induct)
  case (1 n)
  then show ?case by (subst nat_digits.simps) simp
qed

lemma length_nat_digits_le: "n < 10 ^ k \<Longrightarrow> 0 < k \<Longrightarrow> length (nat_digits n) \<le> k"
proof (induction n arbitrary: k rule: nat_digits.induct)
  case (1 n)
  show ?case
  proof (cases "n < 10")
    case True
    then show ?thesis using "1.prems" by (subst nat_digits.simps) simp
  next
    case False
    obtain j where k: "k = Suc j" using "1.prems"(2) by (cases k) auto
    have "0 < j" using False "1.prems"(1) k by (cases j) auto
    have "n div 10 < 10 ^ j" using "1.prems"(1) k by (simp add: less_mult_imp_div_less mult.commute)
    then have "length (nat_digits (n div 10)) \<le> j" using "1.IH" False \<open>0 < j\<close> by simp
    then show ?thesis using False k by (subst nat_digits.simps) simp
  qed
qed

lemma digits_value_append:
  "list_all is_digit xs \<Longrightarrow> xs \<noteq> [] \<Longrightarrow>
     digits_value acc seen (xs @ ys) = digits_value (the (digits_value acc True xs)) True ys"
proof (induction xs arbitrary: acc seen)
  case Nil
  then show ?case by simp
next
  case (Cons c cs)
  then obtain d where "char_digit c = Some d" by (auto simp: is_digit_def)
  with Cons show ?case by (cases "cs = []") auto
qed

lemma digits_value_nat_digits:
  "digits_value acc seen (nat_digits n) = Some (acc * 10 ^ length (nat_digits n) + n)"
proof (induction n arbitrary: acc seen rule: nat_digits.induct)
  case (1 n)
  show ?case
  proof (cases "n < 10")
    case True
    then show ?thesis by (subst (1 2) nat_digits.simps) simp
  next
    case False
    then have "digits_value acc True (nat_digits (n div 10)) =
        Some (acc * 10 ^ length (nat_digits (n div 10)) + n div 10)"
      using "1.IH" by simp
    then have "digits_value acc seen (nat_digits (n div 10) @ [digit_char (n mod 10)]) =
        Some ((acc * 10 ^ length (nat_digits (n div 10)) + n div 10) * 10 + n mod 10)"
      by (simp add: digits_value_append nat_digits_all_digits)
    moreover have "(acc * 10 ^ length (nat_digits (n div 10)) + n div 10) * 10 + n mod 10 =
        acc * 10 ^ Suc (length (nat_digits (n div 10))) + n"
      by (simp add: algebra_simps)
    ultimately show ?thesis
      using False by (subst (1 2) nat_digits.simps) simp
  qed
qed

lemma digits_value_zeros:
  "digits_value 0 False (replicate k (CHR ''0'') @ nat_digits n) = Some n"
proof (cases k)
  case 0
  then show ?thesis by (simp add: digits_value_nat_digits)
next
  case (Suc j)
  have zeros: "digits_value 0 True (replicate i (CHR ''0'')) = Some 0" for i
    by (induction i) auto
  have r: "list_all is_digit (replicate k (CHR ''0''))" "replicate k (CHR ''0'') \<noteq> []"
    using Suc by (simp_all add: list_all_iff)
  show ?thesis unfolding digits_value_append [OF r] zeros by (simp add: digits_value_nat_digits)
qed

lemma py_strip_no_space: "list_all is_digit s \<Longrightarrow> py_strip s = s"
proof -
  assume d: "list_all is_digit s"
  then have "dropWhile is_space s = s"
    by (cases s) (auto simp: digit_not_special)
  moreover have "dropWhile is_space (rev s) = rev s"
    using d by (cases "rev s") (auto simp: digit_not_special list_all_iff dest: arg_cong [of _ _ set])
  ultimately show ?thesis by (simp add: py_strip_def)
qed

lemma py_int_digits:
  assumes "list_all is_digit s" "digits_value 0 False s = Some n"
  shows "py_int s = Inr (int n)"
proof -
  obtain c cs where "s = c # cs" using assms(2) by (cases s) auto
  with assms show ?thesis
    by (auto simp: py_int_def py_strip_no_space digit_not_special)
qed

lemma zpad_digits: "list_all is_digit (zpad w n)"
  using nat_digits_all_digits [of n] by (auto simp: zpad_def list_all_iff)

lemma py_int_zpad [simp]: "py_int (zpad w n) = Inr (int n)"
  by (rule py_int_digits) (simp_all add: zpad_digits, simp add: zpad_def digits_value_zeros)

lemma length_zpad: "n < 10 ^ w \<Longrightarrow> 0 < w \<Longrightarrow> length (zpad w n) = w"
  using length_nat_digits_le [of n w] by (simp add: zpad_def)

lemma zpad_inj: "zpad w m = zpad w n \<Longrightarrow> m = n"
  by (metis py_int_zpad of_nat_eq_iff sum.inject(2))

lemma py_int_str_of_int [simp]: "py_int (str_of_int i) = Inr i"
proof (cases "i < 0")
  case False
  then show ?thesis
    by (simp add: str_of_int_def py_int_digits [OF nat_digits_all_digits] digits_value_nat_digits)
next
  case True
  let ?d = "nat_digits (nat (- i))"
  have "dropWhile is_space (rev ?d @ [CHR ''-'']) = rev ?d @ [CHR ''-'']"
  proof (cases "rev ?d")
    case Nil
    then show ?thesis by simp
  next
    case (Cons c cs)
    then have "c \<in> set ?d" by (metis list.set_intros(1) set_rev)
    then have "\<not> is_space c"
      using nat_digits_all_digits [of "nat (- i)"] by (auto simp: list_all_iff digit_not_special)
    then show ?thesis by (simp add: Cons)
  qed
  then have "py_strip (CHR ''-'' # ?d) = CHR ''-'' # ?d"
    by (simp add: py_strip_def is_space_def)
  with True show ?thesis
    by (simp add: str_of_int_def py_int_def digits_value_nat_digits)
qed

lemma str_of_int_no_colon: "CHR '':'' \<notin> set (str_of_int i)"
proof -
  have "CHR '':'' \<notin> set (nat_digits n)" for n
    using nat_digits_all_digits [of n] digit_not_special(4) by (auto simp: list_all_iff)
  then show ?thesis by (simp add: str_of_int_def)
qed

section \<open>Splitting at a colon\<close>

text \<open>\<open>s.split(b':', 2)\<close> unpacked into three names: anything else is a \<open>ValueError\<close>.\<close>

fun split_at :: "char \<Rightarrow> bytes \<Rightarrow> (bytes \<times> bytes) option" where
  "split_at x [] = None"
| "split_at x (c # cs) =
     (if c = x then Some ([], cs) else map_option (\<lambda>(a, b). (c # a, b)) (split_at x cs))"

definition split3 :: "bytes \<Rightarrow> exn + bytes \<times> bytes \<times> bytes" where
  "split3 s =
     (case split_at (CHR '':'') s of
        None \<Rightarrow> Inl ValueError
      | Some (a, r) \<Rightarrow>
          (case split_at (CHR '':'') r of
             None \<Rightarrow> Inl ValueError
           | Some (b, c) \<Rightarrow> Inr (a, b, c)))"

lemma split_at_append [simp]: "x \<notin> set a \<Longrightarrow> split_at x (a @ x # b) = Some (a, b)"
  by (induction a) auto

lemma split3_join:
  "CHR '':'' \<notin> set a \<Longrightarrow> CHR '':'' \<notin> set b \<Longrightarrow>
     split3 (a @ '':'' @ b @ '':'' @ c) = Inr (a, b, c)"
  by (simp add: split3_def)

section \<open>Base64\<close>

definition b64chr :: "nat \<Rightarrow> char" where
  "b64chr v = char_of
     (if v < 26 then 65 + v else if v < 52 then 71 + v else if v < 62 then v - 4
      else if v = 62 then 43 else 47 :: nat)"

definition b64val :: "char \<Rightarrow> nat option" where
  "b64val c =
     (let n = of_char c :: nat
      in if 65 \<le> n \<and> n < 91 then Some (n - 65)
         else if 97 \<le> n \<and> n < 123 then Some (n - 71)
         else if 48 \<le> n \<and> n < 58 then Some (n + 4)
         else if n = 43 then Some 62 else if n = 47 then Some 63 else None)"

fun b64encode :: "bytes \<Rightarrow> bytes" where
  "b64encode [] = []"
| "b64encode [a] =
     (let x = of_char a in [b64chr (x div 4), b64chr (x mod 4 * 16), CHR ''='', CHR ''=''])"
| "b64encode [a, b] =
     (let x = of_char a; y = of_char b
      in [b64chr (x div 4), b64chr (x mod 4 * 16 + y div 16), b64chr (y mod 16 * 4), CHR ''=''])"
| "b64encode (a # b # c # r) =
     (let x = of_char a; y = of_char b; z = of_char c
      in b64chr (x div 4) # b64chr (x mod 4 * 16 + y div 16) # b64chr (y mod 16 * 4 + z div 64) #
         b64chr (z mod 64) # b64encode r)"

text \<open>
  \<open>base64.b64decode\<close> in its default mode: characters outside the alphabet are skipped,
  a complete padding ends the input, a group left open is an error. \<open>q\<close> is the position
  in the group of four, \<open>l\<close> the bits left over, \<open>p\<close> the padding characters seen.
\<close>

definition emit :: "nat \<Rightarrow> exn + bytes \<Rightarrow> exn + bytes" where
  "emit n r = (case r of Inl e \<Rightarrow> Inl e | Inr s \<Rightarrow> Inr (char_of n # s))"

fun b64dec :: "nat \<Rightarrow> nat \<Rightarrow> nat \<Rightarrow> bytes \<Rightarrow> exn + bytes" where
  "b64dec q l p [] = (if q = 0 then Inr [] else Inl BinasciiError)"
| "b64dec q l p (c # cs) =
     (if c = CHR ''='' then
        (if 2 \<le> q then (if 4 \<le> q + (p + 1) then Inr [] else b64dec q l (p + 1) cs)
         else b64dec q l p cs)
      else
        (case b64val c of
           None \<Rightarrow> b64dec q l p cs
         | Some v \<Rightarrow>
             if q = 0 then b64dec 1 v 0 cs
             else if q = 1 then emit (l * 4 + v div 16) (b64dec 2 (v mod 16) 0 cs)
             else if q = 2 then emit (l * 16 + v div 4) (b64dec 3 (v mod 4) 0 cs)
             else emit (l * 64 + v) (b64dec 0 0 0 cs)))"

definition b64decode :: "bytes \<Rightarrow> exn + bytes" where
  "b64decode s = b64dec 0 0 0 s"

lemma b64val_b64chr: "v < 64 \<Longrightarrow> b64val (b64chr v) = Some v"
proof -
  assume v: "v < 64"
  let ?n = "if v < 26 then 65 + v else if v < 52 then 71 + v else if v < 62 then v - 4
      else if v = 62 then 43 else 47 :: nat"
  have "?n < 256" using v by (auto intro: less_trans [of _ 64])
  then have "of_char (b64chr v) = ?n" unfolding b64chr_def of_char_of by (rule mod_less)
  then show ?thesis using v by (auto simp: b64val_def Let_def)
qed

lemma b64chr_not_pad: "v < 64 \<Longrightarrow> b64chr v \<noteq> CHR ''=''"
proof
  assume "v < 64" and "b64chr v = CHR ''=''"
  then have "b64val (CHR ''='') = Some v" using b64val_b64chr by metis
  then show False by (simp add: b64val_def)
qed

lemma of_char_less: "(of_char c :: nat) < 256"
  by simp

lemma div_shift: "t < d \<Longrightarrow> (m * d + t) div d = m" for t d m :: nat
  by simp

lemma mod_shift: "t < d \<Longrightarrow> (m * d + t) mod d = t" for t d m :: nat
  by simp

lemma sextets:
  fixes x y z :: nat
  assumes "x < 256" "y < 256" "z < 256"
  shows "x div 4 < 64" "x mod 4 * 16 < 64" "x mod 4 * 16 + y div 16 < 64" "y mod 16 * 4 < 64"
    "y mod 16 * 4 + z div 64 < 64" "z mod 64 < 64"
    "x div 4 * 4 + (x mod 4 * 16) div 16 = x"
    "x div 4 * 4 + (x mod 4 * 16 + y div 16) div 16 = x"
    "(x mod 4 * 16 + y div 16) mod 16 * 16 + (y mod 16 * 4) div 4 = y"
    "(x mod 4 * 16 + y div 16) mod 16 * 16 + (y mod 16 * 4 + z div 64) div 4 = y"
    "(y mod 16 * 4 + z div 64) mod 4 * 64 + z mod 64 = z"
proof -
  have m: "x mod 4 < 4" "y mod 16 < 16" "z mod 64 < 64" by simp_all
  have d: "x div 4 < 64" "y div 16 < 16" "z div 64 < 4"
    using assms by (simp_all add: less_mult_imp_div_less)
  show "x div 4 < 64" "x mod 4 * 16 < 64" "x mod 4 * 16 + y div 16 < 64" "y mod 16 * 4 < 64"
    "y mod 16 * 4 + z div 64 < 64" "z mod 64 < 64"
    using m d by linarith+
  show "x div 4 * 4 + (x mod 4 * 16) div 16 = x" by simp
  show "x div 4 * 4 + (x mod 4 * 16 + y div 16) div 16 = x"
    unfolding div_shift [OF d(2)] by simp
  show "(x mod 4 * 16 + y div 16) mod 16 * 16 + (y mod 16 * 4) div 4 = y"
    unfolding mod_shift [OF d(2)] by simp
  show "(x mod 4 * 16 + y div 16) mod 16 * 16 + (y mod 16 * 4 + z div 64) div 4 = y"
    unfolding mod_shift [OF d(2)] div_shift [OF d(3)] by simp
  show "(y mod 16 * 4 + z div 64) mod 4 * 64 + z mod 64 = z"
    unfolding mod_shift [OF d(3)] by simp
qed

lemma b64dec_encode: "b64dec 0 l p (b64encode s) = Inr s"
proof (induction s arbitrary: l p rule: b64encode.induct)
  case 1
  then show ?case by simp
next
  case (2 a)
  then show ?case
    using sextets [of "of_char a" "of_char a" "of_char a", OF of_char_less of_char_less of_char_less]
    by (simp add: Let_def b64val_b64chr b64chr_not_pad emit_def)
next
  case (3 a b)
  then show ?case
    using sextets [of "of_char a" "of_char b" "of_char a", OF of_char_less of_char_less of_char_less]
    by (simp add: Let_def b64val_b64chr b64chr_not_pad emit_def)
next
  case (4 a b c r)
  then show ?case
    using sextets [of "of_char a" "of_char b" "of_char c", OF of_char_less of_char_less of_char_less]
    by (simp add: Let_def b64val_b64chr b64chr_not_pad emit_def)
qed

lemma b64_roundtrip [simp]: "b64decode (b64encode s) = Inr s"
  by (simp add: b64decode_def b64dec_encode)

lemma b64encode_Nil_iff [simp]: "b64encode s = [] \<longleftrightarrow> s = []"
  by (cases s rule: b64encode.cases) (auto simp: Let_def)

section \<open>Paths\<close>

text \<open>\<open>os.path.basename\<close> on POSIX systems.\<close>

definition path_basename :: "string \<Rightarrow> string" where
  "path_basename p = rev (takeWhile (\<lambda>c. c \<noteq> CHR ''/'') (rev p))"

end
