(* ===== verification/ChunkComm.thy ===== *)
theory ChunkComm
  imports SharedIO TokenReader PyText
begin

text \<open>
  \<open>shells/remotemodules/chunkcomm.py\<close>: a byte stream is written as chunks of at most
  2000 bytes, each framed by a token, a header of chunk number and length, and two more
  tokens; every chunk but those numbered 0 is acknowledged. The transport below is the
  abstract \<open>_read\<close>, \<open>_write\<close>, \<open>_flush\<close> of the class: parameters \<open>rd\<close>, \<open>wr\<close>, \<open>fl\<close>.
\<close>

section \<open>Frames\<close>

definition chunk_token :: bytes where
  "chunk_token = ''^)}>?gDYs[ULFqAkSf~|''"

definition chunk_id_width :: nat where
  "chunk_id_width = 4"

definition len_width :: nat where
  "len_width = length (nat_digits CHUNKSIZE)"

definition hdr_len :: nat where
  "hdr_len = chunk_id_width + len_width"

definition chunk_hdr :: "nat \<Rightarrow> nat \<Rightarrow> bytes" where
  "chunk_hdr chunk_id chunk_len = zpad chunk_id_width chunk_id @ zpad len_width chunk_len"

definition bytes_for_chunk_with_token :: "bytes \<Rightarrow> nat \<Rightarrow> bytes" where
  "bytes_for_chunk_with_token chunk chunk_id =
     chunk_token @ chunk_hdr chunk_id (length chunk) @ chunk_token @ chunk @ chunk_token"

section \<open>ChunkWriterBase\<close>

text \<open>\<open>None\<close> is the answer \<open>NoAck()\<close>.\<close>

definition read_and_verify_ack :: "('s, bytes option) py \<Rightarrow> nat \<Rightarrow> ('s, unit) py" where
  "read_and_verify_ack rack chunk_id =
     (if chunk_id = 0 then ret ()
      else bnd rack (\<lambda>a. case a of
        None \<Rightarrow> ret ()
      | Some chunk_id_str \<Rightarrow>
          (case py_int chunk_id_str of
             Inl _ \<Rightarrow> throw ChunkReaderError
           | Inr ack_chunk_id \<Rightarrow>
               if int chunk_id \<noteq> ack_chunk_id then throw ChunkReaderError else ret ())))"

definition chunk_starts :: "nat \<Rightarrow> nat list" where
  "chunk_starts n = map (\<lambda>i. i * CHUNKSIZE) [0..<(n + CHUNKSIZE - 1) div CHUNKSIZE]"

definition write_chunk ::
  "(bytes \<Rightarrow> ('s, unit) py) \<Rightarrow> ('s, unit) py \<Rightarrow> ('s, bytes option) py \<Rightarrow> bytes \<Rightarrow> nat \<Rightarrow> nat \<Rightarrow> ('s, unit) py" where
  "write_chunk wr fl rack s n i =
     (let chunk_id = n mod 10000; chunk = take CHUNKSIZE (drop i s)
      in andthen (wr (bytes_for_chunk_with_token chunk chunk_id))
           (andthen fl
              (if chunk_id \<noteq> 0 then read_and_verify_ack rack chunk_id else ret ())))"

definition chunk_write ::
  "(bytes \<Rightarrow> ('s, unit) py) \<Rightarrow> ('s, unit) py \<Rightarrow> ('s, bytes option) py \<Rightarrow> bytes \<Rightarrow> ('s, unit) py" where
  "chunk_write wr fl rack s =
     for_each (\<lambda>p. write_chunk wr fl rack s (fst p) (snd p)) (enumerate 0 (chunk_starts (length s)))"

section \<open>ChunkReaderBase\<close>

partial_function (option) fill_loop ::
  "(nat \<Rightarrow> ('s, bytes) py) \<Rightarrow> nat \<Rightarrow> shared_bytes_io \<Rightarrow> ('s, shared_bytes_io) py" where
  "fill_loop rd n sio s =
     (if readable_size sio < n
      then seq_outcome (rd (n - readable_size sio) s) (\<lambda>b s'. fill_loop rd n (sb_write b sio) s')
      else Some (Inr sio, s))"

definition rd_until_size :: "(nat \<Rightarrow> ('s, bytes) py) \<Rightarrow> nat \<Rightarrow> ('s, bytes) py" where
  "rd_until_size rd n = bnd (fill_loop rd n new_shared_bytes_io) (\<lambda>sio. ret (fst (sb_read n sio)))"

definition read_token :: "(nat \<Rightarrow> ('s, bytes) py) \<Rightarrow> ('s, bytes) py" where
  "read_token rd = read_until_token (rd_until_size rd) chunk_token"

definition verify_read_token :: "(nat \<Rightarrow> ('s, bytes) py) \<Rightarrow> ('s, unit) py" where
  "verify_read_token rd = bnd (read_token rd) (\<lambda>s. if s \<noteq> [] then throw ChunkReaderError else ret ())"

text \<open>The reader's own state is the shared buffer beside the state of the transport.\<close>

definition on_transport :: "('s, 'a) py \<Rightarrow> ('s \<times> shared_bytes_io, 'a) py" where
  "on_transport m = (\<lambda>st. map_option (\<lambda>p. (fst p, (snd p, snd st))) (m (fst st)))"

definition shared_write :: "bytes \<Rightarrow> ('s \<times> shared_bytes_io, unit) py" where
  "shared_write b = modify (\<lambda>st. (fst st, sb_write b (snd st)))"

definition read_chunk ::
  "(nat \<Rightarrow> ('s, bytes) py) \<Rightarrow> (bytes \<Rightarrow> ('s, unit) py) \<Rightarrow> ('s \<times> shared_bytes_io, unit) py" where
  "read_chunk rd wack =
     andthen (on_transport (read_token rd))
      (bnd (on_transport (rd_until_size rd hdr_len)) (\<lambda>hdr.
        andthen (on_transport (verify_read_token rd))
         (bnd (of_sum (py_int (drop chunk_id_width hdr))) (\<lambda>chunk_size.
           bnd (on_transport (rd_until_size rd (nat chunk_size))) (\<lambda>data.
             andthen (shared_write data)
              (andthen (on_transport (verify_read_token rd))
                (let chunk_id = take chunk_id_width hdr
                 in if chunk_id \<noteq> ''0000'' then on_transport (wack chunk_id) else ret ())))))))"

partial_function (option) chunk_loop ::
  "(nat \<Rightarrow> ('s, bytes) py) \<Rightarrow> (bytes \<Rightarrow> ('s, unit) py) \<Rightarrow> nat \<Rightarrow> ('s \<times> shared_bytes_io, unit) py" where
  "chunk_loop rd wack n st =
     (if readable_size (snd st) < n
      then seq_outcome (read_chunk rd wack st) (\<lambda>_ st'. chunk_loop rd wack n st')
      else Some (Inr (), st))"

definition shared_read :: "nat \<Rightarrow> ('s \<times> shared_bytes_io, bytes) py" where
  "shared_read n = (\<lambda>st. let r = sb_read n (snd st) in Some (Inr (fst r), (fst st, snd r)))"

definition chunk_read_until_size ::
  "(nat \<Rightarrow> ('s, bytes) py) \<Rightarrow> (bytes \<Rightarrow> ('s, unit) py) \<Rightarrow> nat \<Rightarrow> ('s \<times> shared_bytes_io, bytes) py" where
  "chunk_read_until_size rd wack n = andthen (chunk_loop rd wack n) (shared_read n)"

text \<open>
  The size as the integer it is: with a negative one the loop is not entered and the read
  returns all that is in the buffer.
\<close>

definition chunk_read_int ::
  "(nat \<Rightarrow> ('s, bytes) py) \<Rightarrow> (bytes \<Rightarrow> ('s, unit) py) \<Rightarrow> int \<Rightarrow> ('s \<times> shared_bytes_io, bytes) py" where
  "chunk_read_int rd wack n =
     (if n < 0
      then (\<lambda>st. let r = sb_read_rest (snd st) in Some (Inr (fst r), (fst st, snd r)))
      else chunk_read_until_size rd wack (nat n))"

lemma chunk_read_int_nat [simp]:
  "chunk_read_int rd wack (int n) = chunk_read_until_size rd wack n"
  by (simp add: chunk_read_int_def)

section \<open>ChunkAckBase\<close>

text \<open>
  \<open>setf\<close> sets \<open>_chunk_ack_reading\<close>, which a transport may look at while it reads.
\<close>

definition ack_read_ack ::
  "(nat \<Rightarrow> ('s, bytes) py) \<Rightarrow> (bool \<Rightarrow> 's \<Rightarrow> 's) \<Rightarrow> ('s, bytes option) py" where
  "ack_read_ack rd setf =
     finally_do (andthen (modify (setf True)) (bnd (rd_until_size rd chunk_id_width) (\<lambda>b. ret (Some b))))
       (modify (setf False))"

definition ack_write_ack :: "(bytes \<Rightarrow> ('s, unit) py) \<Rightarrow> ('s, unit) py \<Rightarrow> bytes \<Rightarrow> ('s, unit) py" where
  "ack_write_ack wr fl chunk_id = andthen (wr chunk_id) fl"

definition no_write_ack :: "bytes \<Rightarrow> ('s, unit) py" where
  "no_write_ack chunk_id = ret ()"

section \<open>What writing and acknowledging keeps\<close>

context step_relation
begin

lemma fill_loop_rel:
  "fill_loop rd n sio s = Some p \<Longrightarrow> (\<forall>k. keeps R (rd k)) \<longrightarrow> R s (snd p)"
proof (erule fill_loop.raw_induct [where P = "\<lambda>rd n sio s p. (\<forall>k. keeps R (rd k)) \<longrightarrow> R s (snd p)", rotated])
  fix f :: "(nat \<Rightarrow> ('s, bytes) py) \<Rightarrow> nat \<Rightarrow> shared_bytes_io \<Rightarrow> ('s, shared_bytes_io) py"
    and rd n sio s p
  assume 1: "\<And>rd n sio s p. f rd n sio s = Some p \<Longrightarrow> (\<forall>k. keeps R (rd k)) \<longrightarrow> R s (snd p)"
    "(if readable_size sio < n
      then seq_outcome (rd (n - readable_size sio) s) (\<lambda>b s'. f rd n (sb_write b sio) s')
      else Some (Inr sio, s)) = Some p"
  show "(\<forall>k. keeps R (rd k)) \<longrightarrow> R s (snd p)"
  proof
    assume k: "\<forall>k. keeps R (rd k)"
    show "R s (snd p)"
    proof (cases "readable_size sio < n")
      case True
      with 1(2) obtain x u where s: "seq_outcome (rd (n - readable_size sio) s) (\<lambda>b s'. f rd n (sb_write b sio) s') = Some (x, u)"
        "p = (x, u)" by (cases p) auto
      from s(1) show ?thesis
      proof (cases rule: seq_outcome_cases)
        case (error e)
        with k s(2) show ?thesis by (auto dest: keepsD)
      next
        case (ok b u')
        with k have "R s u'" by (auto dest: keepsD)
        moreover from 1(1) [OF ok(2)] k s(2) have "R u' (snd p)" by simp
        ultimately show ?thesis by (rule R_trans)
      qed
    next
      case False
      with 1(2) show ?thesis by (auto simp: R_refl)
    qed
  qed
qed

lemma keeps_fill_loop: "(\<And>k. keeps R (rd k)) \<Longrightarrow> keeps R (fill_loop rd n sio)"
  using fill_loop_rel by (fastforce intro: keeps_gen)

lemma keeps_rd_until_size: "(\<And>k. keeps R (rd k)) \<Longrightarrow> keeps R (rd_until_size rd n)"
  unfolding rd_until_size_def by (intro keeps_bnd keeps_fill_loop keeps_simple)

lemma keeps_ack_read_ack:
  "(\<And>k. keeps R (rd k)) \<Longrightarrow> (\<And>b s. R s (setf b s)) \<Longrightarrow> keeps R (ack_read_ack rd setf)"
  unfolding ack_read_ack_def
  by (intro keeps_finally keeps_andthen keeps_bnd keeps_modify keeps_rd_until_size keeps_simple)

lemma keeps_read_and_verify_ack: "keeps R rack \<Longrightarrow> keeps R (read_and_verify_ack rack i)"
  unfolding read_and_verify_ack_def
  by (intro keeps_splits keeps_bnd keeps_simple)

lemma keeps_chunk_write:
  "(\<And>b. keeps R (wr b)) \<Longrightarrow> keeps R fl \<Longrightarrow> keeps R rack \<Longrightarrow> keeps R (chunk_write wr fl rack s)"
  unfolding chunk_write_def write_chunk_def Let_def
  by (intro keeps_for_each keeps_andthen keeps_splits keeps_read_and_verify_ack keeps_simple)

end

section \<open>Exactly sized reads from reads of what is there\<close>

text \<open>
  A transport: with \<open>v\<close> still to come, a read of at most \<open>n\<close> bytes returns between
  one and \<open>n\<close> of them. The loop \<open>_read_until_size\<close> makes an \<open>exact_source\<close> of it.
\<close>

locale raw_source =
  fixes rd :: "nat \<Rightarrow> ('s, bytes) py"
    and rep :: "'s \<Rightarrow> bytes \<Rightarrow> bool"
  assumes raw: "rep s v \<Longrightarrow> v \<noteq> [] \<Longrightarrow> 0 < n \<Longrightarrow>
    \<exists>b s' v'. rd n s = Some (Inr b, s') \<and> b \<noteq> [] \<and> length b \<le> n \<and> v = b @ v' \<and> rep s' v'"
begin

lemma fill_loop_returns:
  assumes "sb_ok sio" "length (sb_content sio) \<le> n" "n \<le> length (sb_content sio) + length v" "rep s v"
  shows "\<exists>sio' s'. fill_loop rd n sio s = Some (Inr sio', s') \<and> sb_ok sio' \<and>
      sb_content sio' = sb_content sio @ take (n - length (sb_content sio)) v \<and>
      rep s' (drop (n - length (sb_content sio)) v)"
  using assms
proof (induction "n - length (sb_content sio)" arbitrary: sio s v rule: less_induct)
  case less
  show ?case
  proof (cases "length (sb_content sio) < n")
    case False
    with less.prems show ?thesis by (subst fill_loop.simps) simp
  next
    case True
    then have "v \<noteq> []" "0 < n - length (sb_content sio)" using less.prems by auto
    with raw [OF less.prems(4)] obtain b s' v' where
      r: "rd (n - length (sb_content sio)) s = Some (Inr b, s')" "b \<noteq> []"
         "length b \<le> n - length (sb_content sio)" "v = b @ v'" "rep s' v'" by blast
    have "n - length (sb_content (sb_write b sio)) < n - length (sb_content sio)"
      using r True less.prems(1) by (cases b) auto
    moreover have "length (sb_content sio) + length b \<le> n" using r(3) True by linarith
    ultimately have "\<exists>sio' s''. fill_loop rd n (sb_write b sio) s' = Some (Inr sio', s'') \<and> sb_ok sio' \<and>
      sb_content sio' = sb_content (sb_write b sio) @ take (n - length (sb_content (sb_write b sio))) v' \<and>
      rep s'' (drop (n - length (sb_content (sb_write b sio))) v')"
      using less.prems r by (intro less.hyps) simp_all
    then obtain sio' s'' where "fill_loop rd n (sb_write b sio) s' = Some (Inr sio', s'')" "sb_ok sio'"
      "sb_content sio' = sb_content (sb_write b sio) @ take (n - length (sb_content (sb_write b sio))) v'"
      "rep s'' (drop (n - length (sb_content (sb_write b sio))) v')" by auto
    then show ?thesis
      using True r less.prems(1) by (subst fill_loop.simps) simp
  qed
qed

lemma rd_until_size_returns:
  assumes "rep s v" "n \<le> length v"
  shows "\<exists>s'. rd_until_size rd n s = Some (Inr (take n v), s') \<and> rep s' (drop n v)"
  using fill_loop_returns [of new_shared_bytes_io n v s] assms
  by (auto simp: rd_until_size_def)

end

sublocale raw_source \<subseteq> sized: exact_source "rd_until_size rd" rep
  by unfold_locales (rule rd_until_size_returns)

text \<open>A transport that keeps returning nothing is asked for ever.\<close>

lemma fill_loop_starves:
  "fill_loop rd n sio s = Some p \<Longrightarrow> readable_size sio < n \<Longrightarrow> Q s \<Longrightarrow>
     (\<And>k s. Q s \<Longrightarrow> \<exists>s'. rd k s = Some (Inr [], s') \<and> Q s') \<Longrightarrow> False"
proof (erule fill_loop.raw_induct [where P = "\<lambda>rd n sio s p. readable_size sio < n \<longrightarrow> Q s \<longrightarrow>
    (\<forall>k s. Q s \<longrightarrow> (\<exists>s'. rd k s = Some (Inr [], s') \<and> Q s')) \<longrightarrow> False", rotated, THEN mp, THEN mp, THEN mp])
  fix f :: "(nat \<Rightarrow> ('a, bytes) py) \<Rightarrow> nat \<Rightarrow> shared_bytes_io \<Rightarrow> ('a, shared_bytes_io) py"
    and rd n sio s p
  assume IH: "\<And>rd n sio s p. f rd n sio s = Some p \<Longrightarrow> readable_size sio < n \<longrightarrow> Q s \<longrightarrow>
      (\<forall>k s. Q s \<longrightarrow> (\<exists>s'. rd k s = Some (Inr [], s') \<and> Q s')) \<longrightarrow> False"
    and s: "(if readable_size sio < n
      then seq_outcome (rd (n - readable_size sio) s) (\<lambda>b s'. f rd n (sb_write b sio) s')
      else Some (Inr sio, s)) = Some p"
  show "readable_size sio < n \<longrightarrow> Q s \<longrightarrow> (\<forall>k s. Q s \<longrightarrow> (\<exists>s'. rd k s = Some (Inr [], s') \<and> Q s')) \<longrightarrow> False"
  proof (intro impI)
    assume n: "readable_size sio < n" and q: "Q s"
      and r: "\<forall>k s. Q s \<longrightarrow> (\<exists>s'. rd k s = Some (Inr [], s') \<and> Q s')"
    obtain s' where s': "rd (n - readable_size sio) s = Some (Inr [], s')" "Q s'" using q r by blast
    have "readable_size (sb_write [] sio) = readable_size sio"
      by (simp add: readable_size_def sb_write_def bytesio_write_def)
    with s s'(1) n IH [of rd n "sb_write [] sio" s' p] s'(2) r show False by simp
  qed
qed auto

lemma rd_until_size_starves:
  assumes "\<And>k s. Q s \<Longrightarrow> \<exists>s'. rd k s = Some (Inr [], s') \<and> Q s'" "Q s" "0 < n"
  shows "rd_until_size rd n s = None"
proof -
  have "readable_size new_shared_bytes_io < n"
    using assms(3) by (simp add: readable_size_def new_shared_bytes_io_def setup_reader_and_writer_def)
  then have "fill_loop rd n new_shared_bytes_io s \<noteq> Some p" for p
    using fill_loop_starves [of rd n new_shared_bytes_io s p Q] assms(1,2) by blast
  then have "fill_loop rd n new_shared_bytes_io s = None" by (meson not_None_eq)
  then show ?thesis by (simp add: rd_until_size_def)
qed

section \<open>The two directions of a channel\<close>

text \<open>
  A channel with acknowledgements: \<open>rep s l v\<close> says that \<open>l\<close> has been written so far
  and \<open>v\<close> is still to be read.
\<close>

locale duplex_channel =
  fixes rd :: "nat \<Rightarrow> ('s, bytes) py"
    and wr :: "bytes \<Rightarrow> ('s, unit) py"
    and fl :: "('s, unit) py"
    and setf :: "bool \<Rightarrow> 's \<Rightarrow> 's"
    and rep :: "'s \<Rightarrow> bytes \<Rightarrow> bytes \<Rightarrow> bool"
  assumes reads: "raw_source rd (\<lambda>s. rep s l)"
    and writes: "rep s l v \<Longrightarrow> \<exists>s'. wr b s = Some (Inr (), s') \<and> rep s' (l @ b) v"
    and flushes: "rep s l v \<Longrightarrow> \<exists>s'. fl s = Some (Inr (), s') \<and> rep s' l v"
    and flagged: "rep s l v \<Longrightarrow> rep (setf f s) l v"

sublocale duplex_channel \<subseteq> inp: raw_source rd "\<lambda>s. rep s l" for l
  by (rule reads)

text \<open>
  A chunk as it may arrive: garbage before its first token and one gap in each token,
  all made of bytes that are not token characters.
\<close>

record chunk_item =
  ci_id :: nat
  ci_data :: bytes
  ci_garbage :: bytes
  ci_gap1 :: "nat \<times> bytes"
  ci_gap2 :: "nat \<times> bytes"
  ci_gap3 :: "nat \<times> bytes"

definition item_frame :: "chunk_item \<Rightarrow> bytes" where
  "item_frame c =
     gapped chunk_token (fst (ci_gap1 c)) (ci_garbage c) (snd (ci_gap1 c)) @
     chunk_hdr (ci_id c) (length (ci_data c)) @
     gapped chunk_token (fst (ci_gap2 c)) [] (snd (ci_gap2 c)) @ ci_data c @
     gapped chunk_token (fst (ci_gap3 c)) [] (snd (ci_gap3 c))"

definition item_ok :: "chunk_item \<Rightarrow> bool" where
  "item_ok c \<longleftrightarrow> ci_id c < 10000 \<and> ci_data c \<noteq> [] \<and> length (ci_data c) < 10000 \<and>
     gap_ok chunk_token (fst (ci_gap1 c)) (ci_garbage c) (snd (ci_gap1 c)) \<and>
     gap_ok chunk_token (fst (ci_gap2 c)) [] (snd (ci_gap2 c)) \<and>
     gap_ok chunk_token (fst (ci_gap3 c)) [] (snd (ci_gap3 c))"

definition item_stream :: "chunk_item list \<Rightarrow> bytes" where
  "item_stream cs = concat (map item_frame cs)"

definition item_payload :: "chunk_item list \<Rightarrow> bytes" where
  "item_payload cs = concat (map ci_data cs)"

definition item_ack :: "chunk_item \<Rightarrow> bytes" where
  "item_ack c = (if ci_id c = 0 then [] else zpad chunk_id_width (ci_id c))"

definition item_acks :: "chunk_item list \<Rightarrow> bytes" where
  "item_acks cs = concat (map item_ack cs)"

lemma item_list_simps [simp]:
  "item_stream [] = []" "item_stream (c # cs) = item_frame c @ item_stream cs"
  "item_payload [] = []" "item_payload (c # cs) = ci_data c @ item_payload cs"
  "item_acks [] = []" "item_acks (c # cs) = item_ack c @ item_acks cs"
  "item_stream (cs @ ds) = item_stream cs @ item_stream ds"
  "item_payload (cs @ ds) = item_payload cs @ item_payload ds"
  "item_acks (cs @ ds) = item_acks cs @ item_acks ds"
  by (simp_all add: item_stream_def item_payload_def item_acks_def)

definition clean_item :: "nat \<Rightarrow> bytes \<Rightarrow> chunk_item" where
  "clean_item i d = \<lparr>ci_id = i, ci_data = d, ci_garbage = [],
     ci_gap1 = (length chunk_token, []), ci_gap2 = (length chunk_token, []),
     ci_gap3 = (length chunk_token, [])\<rparr>"

lemma widths [simp]: "chunk_id_width = 4" "len_width = 4" "hdr_len = 8"
proof -
  have "length (nat_digits CHUNKSIZE) = 4" by code_simp
  then show "chunk_id_width = 4" "len_width = 4" "hdr_len = 8"
    by (simp_all add: chunk_id_width_def len_width_def hdr_len_def)
qed

lemma distinct_chunk_token: "distinct chunk_token"
  by (simp add: chunk_token_def)

lemma clean_item_frame: "item_frame (clean_item i d) = bytes_for_chunk_with_token d i"
  by (simp add: item_frame_def clean_item_def gapped_def bytes_for_chunk_with_token_def)

lemma clean_item_ok: "i < 10000 \<Longrightarrow> d \<noteq> [] \<Longrightarrow> length d < 10000 \<Longrightarrow> item_ok (clean_item i d)"
  using distinct_chunk_token by (simp add: item_ok_def clean_item_def gap_ok_def chunk_token_def)

lemma clean_item_sel [simp]: "ci_id (clean_item i d) = i" "ci_data (clean_item i d) = d"
  by (simp_all add: clean_item_def)

lemma length_chunk_hdr: "i < 10000 \<Longrightarrow> n < 10000 \<Longrightarrow> length (chunk_hdr i n) = 8"
  by (simp add: chunk_hdr_def length_zpad)

lemma chunk_hdr_parts:
  assumes "i < 10000" "n < 10000"
  shows "take 4 (chunk_hdr i n) = zpad 4 i" "drop 4 (chunk_hdr i n) = zpad 4 n"
  using assms by (simp_all add: chunk_hdr_def length_zpad)

lemma zpad_zero: "zpad 4 i = ''0000'' \<longleftrightarrow> i = 0"
proof -
  have "''0000'' = zpad 4 0" by code_simp
  then show ?thesis using zpad_inj by metis
qed

text \<open>
  The payload still to come, seen by the reader of the shared buffer: what the buffer
  holds and the data of the chunks that are still to be read; \<open>l\<close> is the log of what
  will have been written once they all are read, \<open>rest\<close> the bytes behind them.
\<close>

definition payload_rep ::
  "('s \<Rightarrow> bytes \<Rightarrow> bytes \<Rightarrow> bool) \<Rightarrow> bytes \<Rightarrow> bytes \<Rightarrow> 's \<times> shared_bytes_io \<Rightarrow> bytes \<Rightarrow> bool" where
  "payload_rep rep l rest st v \<longleftrightarrow> sb_ok (snd st) \<and> (\<exists>cs l0. (\<forall>c \<in> set cs. item_ok c) \<and>
     v = sb_content (snd st) @ item_payload cs \<and> l = l0 @ item_acks cs \<and>
     rep (fst st) l0 (item_stream cs @ rest))"

context duplex_channel
begin

lemma token_read:
  assumes "gap_ok chunk_token k g gap" "rep s l (gapped chunk_token k g gap @ rest)"
  shows "\<exists>s'. read_token rd s = Some (Inr g, s') \<and> rep s' l rest"
  using inp.sized.read_until_token_returns [OF assms] by (simp add: read_token_def)

lemma sized_read:
  assumes "rep s l (b @ rest)" "length b = n"
  shows "\<exists>s'. rd_until_size rd n s = Some (Inr b, s') \<and> rep s' l rest"
  using inp.rd_until_size_returns [OF assms(1), of n] assms(2) by simp

lemma token_verified:
  assumes "gap_ok chunk_token k [] gap" "rep s l (gapped chunk_token k [] gap @ rest)"
  shows "\<exists>s'. verify_read_token rd s = Some (Inr (), s') \<and> rep s' l rest"
  using token_read [OF assms] by (auto simp: verify_read_token_def)

lemma ack_written:
  assumes "rep s l v"
  shows "\<exists>s'. ack_write_ack wr fl b s = Some (Inr (), s') \<and> rep s' (l @ b) v"
  using writes [OF assms, of b] flushes by (fastforce simp: ack_write_ack_def)

lemma on_transport_app: "m s = Some (r, s') \<Longrightarrow> on_transport m (s, sh) = Some (r, (s', sh))"
  by (simp add: on_transport_def)

text \<open>One chunk: its data go to the shared buffer, its number back unless it is 0.\<close>

lemma read_chunk_item:
  assumes ok: "item_ok c" and r: "rep s l (item_frame c @ rest)"
  shows "\<exists>s'. read_chunk rd (ack_write_ack wr fl) (s, sh) = Some (Inr (), (s', sb_write (ci_data c) sh)) \<and>
    rep s' (l @ item_ack c) rest"
proof -
  let ?i = "ci_id c" and ?d = "ci_data c"
  have lens: "?i < 10000" "length ?d < 10000" using ok by (auto simp: item_ok_def)
  have gaps: "gap_ok chunk_token (fst (ci_gap1 c)) (ci_garbage c) (snd (ci_gap1 c))"
    "gap_ok chunk_token (fst (ci_gap2 c)) [] (snd (ci_gap2 c))"
    "gap_ok chunk_token (fst (ci_gap3 c)) [] (snd (ci_gap3 c))" using ok by (auto simp: item_ok_def)
  obtain s1 where s1: "read_token rd s = Some (Inr (ci_garbage c), s1)" and
    r1: "rep s1 l (chunk_hdr ?i (length ?d) @ gapped chunk_token (fst (ci_gap2 c)) [] (snd (ci_gap2 c)) @
      ?d @ gapped chunk_token (fst (ci_gap3 c)) [] (snd (ci_gap3 c)) @ rest)"
    using token_read [OF gaps(1) r [unfolded item_frame_def append_assoc]] by blast
  obtain s2 where s2: "rd_until_size rd hdr_len s1 = Some (Inr (chunk_hdr ?i (length ?d)), s2)" and
    r2: "rep s2 l (gapped chunk_token (fst (ci_gap2 c)) [] (snd (ci_gap2 c)) @
      ?d @ gapped chunk_token (fst (ci_gap3 c)) [] (snd (ci_gap3 c)) @ rest)"
    using sized_read [OF r1] length_chunk_hdr [OF lens] by auto
  obtain s3 where s3: "verify_read_token rd s2 = Some (Inr (), s3)" and
    r3: "rep s3 l (?d @ gapped chunk_token (fst (ci_gap3 c)) [] (snd (ci_gap3 c)) @ rest)"
    using token_verified [OF gaps(2) r2] by auto
  obtain s4 where s4: "rd_until_size rd (length ?d) s3 = Some (Inr ?d, s4)" and
    r4: "rep s4 l (gapped chunk_token (fst (ci_gap3 c)) [] (snd (ci_gap3 c)) @ rest)"
    using sized_read [OF r3 refl] by auto
  obtain s5 where s5: "verify_read_token rd s4 = Some (Inr (), s5)" and r5: "rep s5 l rest"
    using token_verified [OF gaps(3) r4] by auto
  obtain s6 where s6: "ack_write_ack wr fl (zpad 4 ?i) s5 = Some (Inr (), s6)"
      "rep s6 (l @ zpad 4 ?i) rest"
    using ack_written [OF r5] by auto
  show ?thesis
    using s1 s2 s3 s4 s5 s6 r5 chunk_hdr_parts [OF lens]
    by (cases "?i = 0")
      (auto simp: read_chunk_def on_transport_def Let_def shared_write_def item_ack_def zpad_zero)
qed

lemma chunk_loop_returns:
  assumes "payload_rep rep l rest st v" "n \<le> length v"
  shows "\<exists>st'. chunk_loop rd (ack_write_ack wr fl) n st = Some (Inr (), st') \<and>
    payload_rep rep l rest st' v \<and> n \<le> length (sb_content (snd st'))"
proof -
  obtain cs l0 where "\<forall>c \<in> set cs. item_ok c" "v = sb_content (snd st) @ item_payload cs"
    "l = l0 @ item_acks cs" "rep (fst st) l0 (item_stream cs @ rest)" "sb_ok (snd st)"
    using assms(1) by (auto simp: payload_rep_def)
  with assms(2) show ?thesis
  proof (induction cs arbitrary: st l0)
    case Nil
    then have "payload_rep rep l rest st v"
      unfolding payload_rep_def by (intro conjI exI [of _ "[]"] exI [of _ l0]) simp_all
    with Nil show ?case by (subst chunk_loop.simps) simp
  next
    case (Cons c cs)
    show ?case
    proof (cases "readable_size (snd st) < n")
      case False
      have "payload_rep rep l rest st v"
        using Cons.prems unfolding payload_rep_def by (intro conjI exI [of _ "c # cs"] exI [of _ l0]) simp_all
      with False Cons.prems show ?thesis by (subst chunk_loop.simps) simp
    next
      case True
      obtain s' where step: "read_chunk rd (ack_write_ack wr fl) (fst st, snd st) =
          Some (Inr (), (s', sb_write (ci_data c) (snd st)))" and
        r: "rep s' (l0 @ item_ack c) (item_stream cs @ rest)"
        using read_chunk_item [of c "fst st" l0 "item_stream cs @ rest" "snd st"] Cons.prems by auto
      have "\<exists>st'. chunk_loop rd (ack_write_ack wr fl) n (s', sb_write (ci_data c) (snd st)) = Some (Inr (), st') \<and>
          payload_rep rep l rest st' v \<and> n \<le> length (sb_content (snd st'))"
        using Cons.prems r by (intro Cons.IH [of _ "l0 @ item_ack c"]) simp_all
      with True step show ?thesis by (subst chunk_loop.simps) simp
    qed
  qed
qed

lemma chunk_read_returns:
  assumes "payload_rep rep l rest st v" "n \<le> length v"
  shows "\<exists>st'. chunk_read_until_size rd (ack_write_ack wr fl) n st = Some (Inr (take n v), st') \<and>
    payload_rep rep l rest st' (drop n v)"
proof -
  obtain st' where st': "chunk_loop rd (ack_write_ack wr fl) n st = Some (Inr (), st')"
    "payload_rep rep l rest st' v" and n: "n \<le> length (sb_content (snd st'))"
    using chunk_loop_returns [OF assms] by blast
  then obtain cs l0 where cs: "\<forall>c \<in> set cs. item_ok c" "v = sb_content (snd st') @ item_payload cs"
    "l = l0 @ item_acks cs" "rep (fst st') l0 (item_stream cs @ rest)" and ok: "sb_ok (snd st')"
    by (auto simp: payload_rep_def)
  have "payload_rep rep l rest (fst st', snd (sb_read n (snd st'))) (drop n v)"
    using cs ok n unfolding payload_rep_def
    by (intro conjI exI [of _ cs] exI [of _ l0]) simp_all
  then show ?thesis
    using st'(1) cs(2) ok n by (simp add: chunk_read_until_size_def shared_read_def Let_def)
qed

end

text \<open>When the payload is used up, the transport stands behind its chunks.\<close>

lemma payload_done:
  assumes "payload_rep rep l rest st []"
  shows "sb_ok (snd st) \<and> sb_content (snd st) = [] \<and> rep (fst st) l rest"
proof -
  obtain cs l0 where cs: "\<forall>c \<in> set cs. item_ok c" "item_payload cs = []" "l = l0 @ item_acks cs"
    "rep (fst st) l0 (item_stream cs @ rest)" and ok: "sb_ok (snd st)" "sb_content (snd st) = []"
    using assms by (auto simp: payload_rep_def)
  have "cs = []" using cs(1,2) by (cases cs) (auto simp: item_ok_def)
  with cs ok show ?thesis by simp
qed

text \<open>The payload is again a source of exactly sized reads.\<close>

sublocale duplex_channel \<subseteq>
    payload: exact_source "chunk_read_until_size rd (ack_write_ack wr fl)" "payload_rep rep l rest" for l rest
  by unfold_locales (rule chunk_read_returns)

section \<open>The writer\<close>

definition write_items :: "nat \<Rightarrow> nat list \<Rightarrow> bytes \<Rightarrow> chunk_item list" where
  "write_items n is s =
     map (\<lambda>p. clean_item (fst p mod 10000) (take CHUNKSIZE (drop (snd p) s))) (enumerate n is)"

definition chunks_of :: "bytes \<Rightarrow> chunk_item list" where
  "chunks_of s = write_items 0 (chunk_starts (length s)) s"

lemma chunk_starts_less: "i \<in> set (chunk_starts n) \<Longrightarrow> i < n"
proof -
  assume "i \<in> set (chunk_starts n)"
  then obtain k where k: "k < (n + CHUNKSIZE - 1) div CHUNKSIZE" "i = k * CHUNKSIZE"
    by (auto simp: chunk_starts_def)
  then have "Suc k * CHUNKSIZE \<le> (n + CHUNKSIZE - 1) div CHUNKSIZE * CHUNKSIZE"
    by (intro mult_le_mono1) simp
  also have "\<dots> \<le> n + CHUNKSIZE - 1" by simp
  finally show "i < n" using k(2) by (simp add: CHUNKSIZE_def)
qed

lemma write_items_simps [simp]:
  "write_items n [] s = []"
  "write_items n (i # is) s = clean_item (n mod 10000) (take CHUNKSIZE (drop i s)) # write_items (Suc n) is s"
  by (simp_all add: write_items_def)

lemma write_items_ok: "\<forall>i \<in> set is. i < length s \<Longrightarrow> \<forall>c \<in> set (write_items n is s). item_ok c"
  by (induction "is" arbitrary: n) (auto simp: CHUNKSIZE_def intro!: clean_item_ok)

lemma chunks_of_ok: "\<forall>c \<in> set (chunks_of s). item_ok c"
  unfolding chunks_of_def by (rule write_items_ok) (simp add: chunk_starts_less)

lemma chunks_of_payload: "item_payload (chunks_of s) = s"
proof -
  let ?m = "(length s + CHUNKSIZE - 1) div CHUNKSIZE"
  have "map ci_data (write_items n is s) = map (\<lambda>i. take CHUNKSIZE (drop i s)) is" for n "is"
    by (induction "is" arbitrary: n) simp_all
  then have "item_payload (chunks_of s) = take (?m * CHUNKSIZE) s"
    using concat_pieces [of CHUNKSIZE s ?m]
    by (simp add: item_payload_def chunks_of_def chunk_starts_def o_def)
  moreover have "length s \<le> ?m * CHUNKSIZE"
    using pieces_cover [of CHUNKSIZE "length s"] by (simp add: CHUNKSIZE_def)
  ultimately show ?thesis by simp
qed

context duplex_channel
begin

lemma ack_read:
  assumes "rep s l (b @ rest)" "length b = 4"
  shows "\<exists>s'. ack_read_ack rd setf s = Some (Inr (Some b), s') \<and> rep s' l rest"
proof -
  obtain s' where "rd_until_size rd chunk_id_width (setf True s) = Some (Inr b, s')" "rep s' l rest"
    using sized_read [OF flagged [OF assms(1)], of chunk_id_width] assms(2) by auto
  then show ?thesis using flagged by (auto simp: ack_read_ack_def finally_do_def)
qed

lemma ack_verified:
  assumes "rep s l (item_ack (clean_item i d) @ rest)" "i < 10000"
  shows "\<exists>s'. read_and_verify_ack (ack_read_ack rd setf) i s = Some (Inr (), s') \<and> rep s' l rest"
proof (cases "i = 0")
  case True
  with assms show ?thesis by (simp add: read_and_verify_ack_def item_ack_def)
next
  case False
  with assms ack_read [of s l "zpad 4 i" rest] show ?thesis
    by (auto simp: read_and_verify_ack_def item_ack_def length_zpad)
qed

lemma write_chunk_returns:
  assumes "rep s l (item_ack (clean_item (n mod 10000) d) @ rest)" "d = take CHUNKSIZE (drop i b)"
  shows "\<exists>s'. write_chunk wr fl (ack_read_ack rd setf) b n i s = Some (Inr (), s') \<and>
    rep s' (l @ item_frame (clean_item (n mod 10000) d)) rest"
proof -
  obtain s1 where s1: "wr (bytes_for_chunk_with_token d (n mod 10000)) s = Some (Inr (), s1)"
    "rep s1 (l @ item_frame (clean_item (n mod 10000) d)) (item_ack (clean_item (n mod 10000) d) @ rest)"
    using writes [OF assms(1)] by (auto simp: clean_item_frame)
  obtain s2 where s2: "fl s1 = Some (Inr (), s2)"
    "rep s2 (l @ item_frame (clean_item (n mod 10000) d)) (item_ack (clean_item (n mod 10000) d) @ rest)"
    using flushes [OF s1(2)] by blast
  with s1 ack_verified [OF s2(2)] assms(2) show ?thesis
    by (auto simp: write_chunk_def Let_def item_ack_def)
qed

lemma write_items_returns:
  assumes "rep s l (item_acks (write_items n is b) @ rest)"
  shows "\<exists>s'. for_each (\<lambda>p. write_chunk wr fl (ack_read_ack rd setf) b (fst p) (snd p)) (enumerate n is) s =
      Some (Inr (), s') \<and> rep s' (l @ item_stream (write_items n is b)) rest"
  using assms
proof (induction "is" arbitrary: n s l)
  case Nil
  then show ?case by simp
next
  case (Cons i "is")
  let ?c = "clean_item (n mod 10000) (take CHUNKSIZE (drop i b))"
  obtain s1 where s1: "write_chunk wr fl (ack_read_ack rd setf) b n i s = Some (Inr (), s1)"
    "rep s1 (l @ item_frame ?c) (item_acks (write_items (Suc n) is b) @ rest)"
    using write_chunk_returns [of s l n _ "item_acks (write_items (Suc n) is b) @ rest" i b] Cons.prems by auto
  with Cons.IH [OF s1(2)] show ?case by auto
qed

text \<open>A written string is the stream of its chunks, and takes exactly their acknowledgements.\<close>

lemma chunk_write_returns:
  assumes "rep s l (item_acks (chunks_of b) @ rest)"
  shows "\<exists>s'. chunk_write wr fl (ack_read_ack rd setf) b s = Some (Inr (), s') \<and>
    rep s' (l @ item_stream (chunks_of b)) rest"
  using write_items_returns [of s l 0 "chunk_starts (length b)" b rest] assms
  by (simp add: chunk_write_def chunks_of_def)

end

end
