(* ===== verification/Compatibility.thy ===== *)
theory Compatibility
  imports PyText
begin

text \<open>
  UTF-8 as \<open>str.encode\<close> and \<open>bytes.decode\<close> compute it, and
  \<open>shells/remotemodules/compatibility.py\<close>: the conversions between text and bytes and
  the error handler \<open>compatibilityreplace\<close>, which makes decoding total.
\<close>

section \<open>UTF-8\<close>

definition valid_cp :: "nat \<Rightarrow> bool" where
  "valid_cp cp \<longleftrightarrow> cp < 1114112 \<and> \<not> (55296 \<le> cp \<and> cp < 57344)"

definition utf8_char :: "nat \<Rightarrow> bytes" where
  "utf8_char cp = map char_of
     (if cp < 128 then [cp]
      else if cp < 2048 then [192 + cp div 64, 128 + cp mod 64]
      else if cp < 65536 then [224 + cp div 4096, 128 + cp div 64 mod 64, 128 + cp mod 64]
      else [240 + cp div 262144, 128 + cp div 4096 mod 64, 128 + cp div 64 mod 64,
            128 + cp mod 64] :: nat list)"

definition utf8_encode :: "ustr \<Rightarrow> exn + bytes" where
  "utf8_encode s =
     (if list_all valid_cp s then Inr (concat (map utf8_char s)) else Inl UnicodeEncodeError)"

definition cont :: "nat \<Rightarrow> bool" where
  "cont b \<longleftrightarrow> 128 \<le> b \<and> b < 192"

text \<open>The character at the head of a byte string and how many bytes follow its first one.\<close>

definition utf8_head :: "nat list \<Rightarrow> (nat \<times> nat) option" where
  "utf8_head bs = (case bs of
     [] \<Rightarrow> None
   | a # r \<Rightarrow>
       if a < 128 then Some (a, 0)
       else if a < 192 then None
       else if a < 224 then
         (case r of
            b # _ \<Rightarrow> (let cp = (a - 192) * 64 + (b - 128)
                      in if cont b \<and> 128 \<le> cp then Some (cp, 1) else None)
          | [] \<Rightarrow> None)
       else if a < 240 then
         (case r of
            b # c # _ \<Rightarrow> (let cp = (a - 224) * 4096 + (b - 128) * 64 + (c - 128)
                          in if cont b \<and> cont c \<and> 2048 \<le> cp \<and> valid_cp cp
                             then Some (cp, 2) else None)
          | _ \<Rightarrow> None)
       else if a < 248 then
         (case r of
            b # c # d # _ \<Rightarrow>
              (let cp = (a - 240) * 262144 + (b - 128) * 4096 + (c - 128) * 64 + (d - 128)
               in if cont b \<and> cont c \<and> cont d \<and> 65536 \<le> cp \<and> valid_cp cp
                  then Some (cp, 3) else None)
          | _ \<Rightarrow> None)
       else None)"

abbreviation byte_vals :: "bytes \<Rightarrow> nat list" where
  "byte_vals s \<equiv> map of_char s"

text \<open>\<open>decode('utf-8')\<close>, strict.\<close>

fun utf8_decode :: "bytes \<Rightarrow> exn + ustr" where
  "utf8_decode [] = Inr []"
| "utf8_decode (b # bs) =
     (case utf8_head (byte_vals (b # bs)) of
        None \<Rightarrow> Inl UnicodeDecodeError
      | Some (cp, n) \<Rightarrow>
          (case utf8_decode (drop n bs) of
             Inl e \<Rightarrow> Inl e
           | Inr cps \<Rightarrow> Inr (cp # cps)))"

section \<open>The error handler\<close>

definition hex_digit :: "nat \<Rightarrow> nat" where
  "hex_digit d = (if d < 10 then 48 + d else 87 + d)"

fun hex_pad :: "nat \<Rightarrow> nat \<Rightarrow> ustr" where
  "hex_pad 0 n = (if n = 0 then [] else hex_pad 0 (n div 16) @ [hex_digit (n mod 16)])"
| "hex_pad (Suc w) n = hex_pad w (n div 16) @ [hex_digit (n mod 16)]"

definition encode_error_char :: "nat \<Rightarrow> ustr" where
  "encode_error_char c =
     (if 65536 \<le> c then [92, 85] @ hex_pad 8 c else [92, 117] @ hex_pad 4 c)"

definition decode_error_char :: "nat \<Rightarrow> ustr" where
  "decode_error_char c = [92, 120] @ hex_pad 2 c"

text \<open>
  \<open>decode('utf-8', 'compatibilityreplace')\<close>. The decoder hands the handler an ill-formed
  range; the handler writes one \<open>\x..\<close> per byte of it and resumes behind. The range is
  a bad byte with the continuation bytes that still fitted it, and a continuation byte
  at the start of a character is itself ill-formed, so replacing one byte at a time
  gives the same text.
\<close>

fun decode_replacing :: "bytes \<Rightarrow> ustr" where
  "decode_replacing [] = []"
| "decode_replacing (b # bs) =
     (case utf8_head (byte_vals (b # bs)) of
        None \<Rightarrow> decode_error_char (of_char b) @ decode_replacing bs
      | Some (cp, n) \<Rightarrow> cp # decode_replacing (drop n bs))"

section \<open>The conversions\<close>

text \<open>A Python object where text and bytes are told apart by \<open>isinstance\<close>.\<close>

datatype str_or_bytes = PyStr ustr | PyBytes bytes

fun to_bytes :: "str_or_bytes \<Rightarrow> exn + bytes" where
  "to_bytes (PyStr s) = utf8_encode s"
| "to_bytes (PyBytes b) = Inr b"

fun to_string :: "str_or_bytes \<Rightarrow> ustr" where
  "to_string (PyBytes b) = decode_replacing b"
| "to_string (PyStr s) = s"

fun py23_unic :: "str_or_bytes \<Rightarrow> ustr" where
  "py23_unic (PyBytes b) = decode_replacing b"
| "py23_unic (PyStr s) = s"

definition unic_to_string :: "ustr \<Rightarrow> ustr" where
  "unic_to_string s = s"

definition string_conversion_to_bytes :: "int \<Rightarrow> bytes" where
  "string_conversion_to_bytes i = str_of_int i"

section \<open>Decoding what was encoded\<close>

lemma base64_three: "n div 4096 * 4096 + n div 64 mod 64 * 64 + n mod 64 = n" for n :: nat
proof -
  have "n div 4096 = n div 64 div 64" by (simp add: div_mult2_eq [symmetric])
  moreover have "n div 64 * 64 + n mod 64 = n" by simp
  moreover have "n div 64 div 64 * 64 + n div 64 mod 64 = n div 64" by simp
  ultimately show ?thesis by linarith
qed

lemma base64_four:
  "n div 262144 * 262144 + n div 4096 mod 64 * 4096 + n div 64 mod 64 * 64 + n mod 64 = n" for n :: nat
proof -
  have "n div 262144 = n div 4096 div 64" by (simp add: div_mult2_eq [symmetric])
  moreover have "n div 4096 div 64 * 64 + n div 4096 mod 64 = n div 4096" by simp
  ultimately show ?thesis using base64_three [of n] by linarith
qed

lemma utf8_head_char:
  assumes "valid_cp cp"
  shows "utf8_head (byte_vals (utf8_char cp) @ rest) = Some (cp, length (utf8_char cp) - 1)"
proof -
  have small: "map of_char (map char_of xs) = xs" if "\<forall>x \<in> set xs. x < 256" for xs :: "nat list"
    using that by (induction xs) auto
  have cp: "cp < 1114112" using assms by (simp add: valid_cp_def)
  consider "cp < 128" | "128 \<le> cp" "cp < 2048" | "2048 \<le> cp" "cp < 65536" | "65536 \<le> cp"
    by linarith
  then show ?thesis
  proof cases
    case 1
    then show ?thesis by (simp add: utf8_char_def utf8_head_def)
  next
    case 2
    obtain q r where q: "q = cp div 64" and r: "r = cp mod 64" by simp
    have e: "q * 64 + r = cp" and "r < 64" by (simp_all add: q r)
    with 2 have d: "q < 32" by linarith
    have v: "byte_vals (utf8_char cp) = [192 + q, 128 + r]"
      unfolding utf8_char_def q [symmetric] r [symmetric] using 2 d \<open>r < 64\<close> by simp
    have l: "length (utf8_char cp) = 2" using 2 by (simp add: utf8_char_def)
    show ?thesis
      unfolding v l using 2 d e \<open>r < 64\<close> by (simp add: utf8_head_def cont_def Let_def)
  next
    case 3
    then have d: "cp div 4096 < 16" by (simp add: less_mult_imp_div_less)
    have e: "cp div 4096 * 4096 + cp div 64 mod 64 * 64 + cp mod 64 = cp" by (rule base64_three)
    have v: "byte_vals (utf8_char cp) = [224 + cp div 4096, 128 + cp div 64 mod 64, 128 + cp mod 64]"
      using 3 d by (simp add: utf8_char_def)
    have l: "length (utf8_char cp) = 3" using 3 by (simp add: utf8_char_def)
    show ?thesis
      unfolding v l using 3 d e assms by (simp add: utf8_head_def cont_def Let_def)
  next
    case 4
    with cp have d: "cp div 262144 < 8" by (simp add: less_mult_imp_div_less)
    have e: "cp div 262144 * 262144 + cp div 4096 mod 64 * 4096 + cp div 64 mod 64 * 64 + cp mod 64 = cp"
      by (rule base64_four)
    have v: "byte_vals (utf8_char cp) =
        [240 + cp div 262144, 128 + cp div 4096 mod 64, 128 + cp div 64 mod 64, 128 + cp mod 64]"
      using 4 d by (simp add: utf8_char_def)
    have l: "length (utf8_char cp) = 4" using 4 by (simp add: utf8_char_def)
    show ?thesis
      unfolding v l using 4 d e assms by (simp add: utf8_head_def cont_def Let_def)
  qed
qed

lemma utf8_char_nonempty: "utf8_char cp \<noteq> []"
  by (simp add: utf8_char_def)

lemma utf8_decode_char:
  "valid_cp cp \<Longrightarrow> utf8_decode (utf8_char cp @ r) =
     (case utf8_decode r of Inl e \<Rightarrow> Inl e | Inr cps \<Rightarrow> Inr (cp # cps))"
  "valid_cp cp \<Longrightarrow> decode_replacing (utf8_char cp @ r) = cp # decode_replacing r"
  using utf8_head_char [of cp "byte_vals r"] utf8_char_nonempty [of cp]
  by (cases "utf8_char cp"; simp)+

lemma utf8_roundtrip: "utf8_encode s = Inr b \<Longrightarrow> utf8_decode b = Inr s"
proof -
  assume "utf8_encode s = Inr b"
  then have v: "list_all valid_cp s" and b: "b = concat (map utf8_char s)"
    by (auto simp: utf8_encode_def split: if_splits)
  from v show ?thesis unfolding b by (induction s) (auto simp: utf8_decode_char)
qed

lemma to_string_to_bytes: "to_bytes (PyStr s) = Inr b \<Longrightarrow> to_string (PyBytes b) = s"
proof -
  assume "to_bytes (PyStr s) = Inr b"
  then have v: "list_all valid_cp s" and b: "b = concat (map utf8_char s)"
    by (auto simp: utf8_encode_def split: if_splits)
  from v show ?thesis unfolding b by (induction s) (auto simp: utf8_decode_char)
qed

text \<open>Where the bytes are well-formed, the replacing decoder is the strict one.\<close>

lemma decode_replacing_strict: "utf8_decode b = Inr s \<Longrightarrow> decode_replacing b = s"
  by (induction b arbitrary: s rule: utf8_decode.induct)
    (auto split: option.splits sum.splits prod.splits)

end
