(* ===== verification/Msgs.thy ===== *)
theory Msgs
  imports Compatibility
begin

text \<open>
  \<open>shells/remotemodules/msgs.py\<close>: the message classes, their numbering in the
  \<open>MsgMap\<close>, and the serialisation \<open>msgid:uid:base64(argument)\<close>.
\<close>

section \<open>Message classes and their map\<close>

datatype msgcls =
    ExecCommandRequest | ExecCommandReply | ExitRequest | FatalPythonErrorReply
  | ServerIdRequest | ServerIdReply | SendCommandRequest | Ack

record msg_map =
  msgclses :: "nat \<rightharpoonup> msgcls"
  msgclsmsgids :: "msgcls \<rightharpoonup> nat"
  msg_count :: nat

definition new_msg_map :: msg_map where
  "new_msg_map = \<lparr>msgclses = Map.empty, msgclsmsgids = Map.empty, msg_count = 0\<rparr>"

definition add_msgcls :: "msg_map \<Rightarrow> msgcls \<Rightarrow> msg_map" where
  "add_msgcls m c =
     m\<lparr>msgclses := (msgclses m)(msg_count m \<mapsto> c),
       msgclsmsgids := (msgclsmsgids m)(c \<mapsto> msg_count m),
       msg_count := Suc (msg_count m)\<rparr>"

definition get_msgid :: "msg_map \<Rightarrow> msgcls \<Rightarrow> exn + nat" where
  "get_msgid m c = (case msgclsmsgids m c of None \<Rightarrow> Inl KeyError | Some i \<Rightarrow> Inr i)"

definition get_msgcls :: "msg_map \<Rightarrow> int \<Rightarrow> exn + msgcls" where
  "get_msgcls m i =
     (if i < 0 then Inl KeyError
      else case msgclses m (nat i) of None \<Rightarrow> Inl KeyError | Some c \<Rightarrow> Inr c)"

definition set_msgclses :: "msgcls list \<Rightarrow> msg_map" where
  "set_msgclses cs = foldl add_msgcls new_msg_map cs"

definition protocol_msgclses :: "msgcls list" where
  "protocol_msgclses =
     [ExecCommandRequest, ExecCommandReply, ExitRequest, FatalPythonErrorReply,
      ServerIdRequest, ServerIdReply, SendCommandRequest, Ack]"

definition msgmap :: msg_map where
  "msgmap = set_msgclses protocol_msgclses"

section \<open>Messages\<close>

text \<open>
  The argument of a message: the singleton \<open>NOARG\<close>, text or bytes, the object
  \<open>None\<close>, an \<open>ExecCommandErrorObj\<close> with its text, or any other object with its
  \<open>repr\<close>.
\<close>

datatype msg_arg = NOARG | Arg str_or_bytes | ArgNone | ArgErrorObj ustr | ArgObject ustr

record msg =
  msg_cls :: msgcls
  msg_uid :: int
  msg_arg :: msg_arg

definition create_with_uid_and_args :: "msgcls \<Rightarrow> int \<Rightarrow> msg_arg \<Rightarrow> msg" where
  "create_with_uid_and_args c u a = \<lparr>msg_cls = c, msg_uid = u, msg_arg = a\<rparr>"

definition create_reply :: "msgcls \<Rightarrow> msg \<Rightarrow> msg_arg \<Rightarrow> msg" where
  "create_reply c m a = create_with_uid_and_args c (msg_uid m) a"

definition set_uid :: "int \<Rightarrow> msg \<Rightarrow> msg" where
  "set_uid u m = m\<lparr>msg_uid := u\<rparr>"

text \<open>\<open>create\<close> takes its uid from the class counter \<open>_uid_iter\<close>, which it advances.\<close>

definition create_msg :: "msgcls \<Rightarrow> msg_arg \<Rightarrow> nat \<Rightarrow> msg \<times> nat" where
  "create_msg c a cnt = (create_with_uid_and_args c (int cnt) a, Suc cnt)"

definition is_response_expected :: "msg \<Rightarrow> bool" where
  "is_response_expected m \<longleftrightarrow> msg_cls m \<noteq> SendCommandRequest"

text \<open>The text of a command; without argument it cannot be joined with the lines before it.\<close>

definition cmd_of :: "msg \<Rightarrow> exn + ustr" where
  "cmd_of m = (case msg_arg m of Arg a \<Rightarrow> Inr (to_string a) | _ \<Rightarrow> Inl TypeError)"

section \<open>Serialisation\<close>

definition serialize_string_or_bytes :: "str_or_bytes \<Rightarrow> exn + bytes" where
  "serialize_string_or_bytes a =
     (case a of
        PyStr s \<Rightarrow> (case utf8_encode s of
                      Inl e \<Rightarrow> Inl e | Inr b \<Rightarrow> Inr (b64encode (CHR ''s'' # b)))
      | PyBytes b \<Rightarrow> Inr (b64encode (CHR ''b'' # b)))"

definition get_string_or_bytes :: "msg_arg \<Rightarrow> str_or_bytes" where
  "get_string_or_bytes a =
     (case a of
        Arg s \<Rightarrow> s
      | ArgNone \<Rightarrow> PyBytes []
      | ArgErrorObj t \<Rightarrow> PyStr t
      | ArgObject t \<Rightarrow> PyStr t
      | NOARG \<Rightarrow> PyStr (map of_char ''<msgs.NoArg object>''))"

text \<open>
  The text of \<open>repr(NOARG)\<close> is written without the object's address.
  \<open>ExecCommandReply.serialize_arg\<close> accepts any object; the other classes accept what is
  \<open>Serializable\<close>, text and bytes, and the concatenation \<open>b'b' + s\<close> with anything else
  is a \<open>TypeError\<close>. An \<open>ExecCommandErrorObj\<close> serialises to text where the join expects
  bytes, again a \<open>TypeError\<close>.
\<close>

definition serialize_arg :: "msg \<Rightarrow> exn + bytes" where
  "serialize_arg m =
     (if msg_cls m = ExecCommandReply
      then serialize_string_or_bytes (get_string_or_bytes (msg_arg m))
      else case msg_arg m of
             NOARG \<Rightarrow> Inr []
           | Arg a \<Rightarrow> serialize_string_or_bytes a
           | _ \<Rightarrow> Inl TypeError)"

definition serialize :: "msg_map \<Rightarrow> msg \<Rightarrow> exn + bytes" where
  "serialize mm m =
     (case get_msgid mm (msg_cls m) of
        Inl e \<Rightarrow> Inl e
      | Inr i \<Rightarrow>
          (case serialize_arg m of
             Inl e \<Rightarrow> Inl e
           | Inr a \<Rightarrow> Inr (string_conversion_to_bytes (int i) @ '':'' @
                           string_conversion_to_bytes (msg_uid m) @ '':'' @ a)))"

text \<open>
  \<open>deserialize_arg\<close>; a \<open>FatalPythonErrorReply\<close> raises instead of returning. Indexing
  the first byte of an empty decoding is an \<open>IndexError\<close>.
\<close>

definition exn_arg_of :: "msg_arg \<Rightarrow> exn_arg" where
  "exn_arg_of a = (case a of
     Arg (PyStr s) \<Rightarrow> TextArg s | Arg (PyBytes b) \<Rightarrow> BytesArg b | _ \<Rightarrow> NoArgGiven)"

definition deserialize_arg :: "msgcls \<Rightarrow> bytes \<Rightarrow> exn + msg_arg" where
  "deserialize_arg c s =
     (let arg = (if s = [] then Inr NOARG
        else case b64decode s of
               Inl e \<Rightarrow> Inl e
             | Inr [] \<Rightarrow> Inl IndexError
             | Inr (t # d) \<Rightarrow>
                 if t = CHR ''s''
                 then (case utf8_decode d of Inl e \<Rightarrow> Inl e | Inr u \<Rightarrow> Inr (Arg (PyStr u)))
                 else Inr (Arg (PyBytes d)))
      in if c = FatalPythonErrorReply
         then (case arg of Inl e \<Rightarrow> Inl e | Inr a \<Rightarrow> Inl (FatalPythonError (exn_arg_of a)))
         else arg)"

definition deserialize :: "msg_map \<Rightarrow> bytes \<Rightarrow> exn + msg" where
  "deserialize mm s =
     (case split3 s of
        Inl e \<Rightarrow> Inl e
      | Inr (i, u, a) \<Rightarrow>
          (case py_int i of
             Inl e \<Rightarrow> Inl e
           | Inr i' \<Rightarrow>
               (case get_msgcls mm i' of
                  Inl e \<Rightarrow> Inl e
                | Inr c \<Rightarrow>
                    (case deserialize_arg c a of
                       Inl e \<Rightarrow> Inl e
                     | Inr arg \<Rightarrow>
                         (case py_int u of
                            Inl e \<Rightarrow> Inl e
                          | Inr u' \<Rightarrow> Inr (create_with_uid_and_args c u' arg))))))"

section \<open>Error objects\<close>

text \<open>
  \<open>ExecCommandErrorObj.__str__\<close>: the error's name and message, the size of the command,
  the traceback and the numbered lines of the command. The traceback text comes from
  the interpreter and is an argument.
\<close>

definition ustr_of :: "string \<Rightarrow> ustr" where
  "ustr_of s = map of_char s"

definition is_line_break :: "nat \<Rightarrow> bool" where
  "is_line_break c \<longleftrightarrow> c \<in> {10, 11, 12, 13, 28, 29, 30, 133, 8232, 8233}"

fun split_lines :: "ustr \<Rightarrow> ustr \<Rightarrow> ustr list" where
  "split_lines acc [] = (if acc = [] then [] else [rev acc])"
| "split_lines acc (c # cs) =
     (if c = 13 \<and> cs \<noteq> [] \<and> hd cs = 10 then rev acc # split_lines [] (tl cs)
      else if is_line_break c then rev acc # split_lines [] cs
      else split_lines (c # acc) cs)"

definition cmd_lines :: "ustr \<Rightarrow> ustr list" where
  "cmd_lines cmd = map (\<lambda>(i, c). ustr_of ''    block line '' @ ustr_of (nat_digits i) @
       ustr_of '': '' @ c) (enumerate 1 (split_lines [] cmd))"

fun join_lines :: "ustr list \<Rightarrow> ustr" where
  "join_lines [] = []"
| "join_lines [l] = l"
| "join_lines (l # ls) = l @ [10] @ join_lines ls"

definition error_obj_text :: "ustr \<Rightarrow> ustr \<Rightarrow> ustr \<Rightarrow> ustr" where
  "error_obj_text name_and_msg tbstr cmd =
     name_and_msg @ ustr_of '' size='' @ ustr_of (nat_digits (length cmd)) @ [10] @
     ustr_of ''Traceback (most recent call last):'' @ [10] @ tbstr @ [10] @
     ustr_of ''Executed command block:'' @ [10] @ join_lines (cmd_lines cmd)"

section \<open>Round trips\<close>

text \<open>Every message class of the protocol has a number, and the number leads back to it.\<close>

lemma msgmap_ids:
  "get_msgid msgmap c = Inr i \<Longrightarrow> get_msgcls msgmap (int i) = Inr c"
  by (cases c) (auto simp: get_msgid_def get_msgcls_def msgmap_def set_msgclses_def
      protocol_msgclses_def add_msgcls_def new_msg_map_def)

lemma msgmap_total: "\<exists>i. get_msgid msgmap c = Inr i"
  by (cases c) (auto simp: get_msgid_def msgmap_def set_msgclses_def
      protocol_msgclses_def add_msgcls_def new_msg_map_def)

text \<open>The argument that arrives for an argument that is sent.\<close>

definition received_arg :: "msg \<Rightarrow> msg_arg" where
  "received_arg m =
     (if msg_cls m = ExecCommandReply then Arg (get_string_or_bytes (msg_arg m)) else msg_arg m)"

lemma deserialize_string_or_bytes:
  assumes "serialize_string_or_bytes a = Inr b" "c \<noteq> FatalPythonErrorReply"
  shows "deserialize_arg c b = Inr (Arg a)"
proof (cases a)
  case (PyBytes d)
  with assms show ?thesis
    by (auto simp: serialize_string_or_bytes_def deserialize_arg_def Let_def)
next
  case (PyStr s)
  with assms(1) obtain d where d: "utf8_encode s = Inr d" "b = b64encode (CHR ''s'' # d)"
    by (auto simp: serialize_string_or_bytes_def split: sum.splits)
  with PyStr assms(2) utf8_roundtrip [OF d(1)] show ?thesis
    by (auto simp: deserialize_arg_def Let_def)
qed

lemma serialize_string_or_bytes_nonempty: "serialize_string_or_bytes a = Inr b \<Longrightarrow> b \<noteq> []"
  by (auto simp: serialize_string_or_bytes_def split: str_or_bytes.splits sum.splits)

lemma deserialize_serialize_arg:
  assumes "serialize_arg m = Inr b" "msg_cls m \<noteq> FatalPythonErrorReply"
  shows "deserialize_arg (msg_cls m) b = Inr (received_arg m)"
proof (cases "msg_cls m = ExecCommandReply")
  case True
  then show ?thesis
    using assms deserialize_string_or_bytes by (simp add: serialize_arg_def received_arg_def)
next
  case False
  show ?thesis
  proof (cases "msg_arg m")
    case NOARG
    with False assms show ?thesis
      by (simp add: serialize_arg_def received_arg_def deserialize_arg_def)
  qed (use False assms deserialize_string_or_bytes in
      \<open>simp_all add: serialize_arg_def received_arg_def\<close>)
qed

text \<open>
  What the receiver makes of a serialised message: the message itself, except that an
  \<open>ExecCommandReply\<close> carries its result as text or bytes, and a
  \<open>FatalPythonErrorReply\<close> raises its argument.
\<close>

definition received :: "msg \<Rightarrow> msg" where
  "received m = m\<lparr>msg_arg := received_arg m\<rparr>"

lemma deserialize_serialize:
  assumes "serialize msgmap m = Inr s" "msg_cls m \<noteq> FatalPythonErrorReply"
  shows "deserialize msgmap s = Inr (received m)"
proof -
  obtain i a where i: "get_msgid msgmap (msg_cls m) = Inr i" and a: "serialize_arg m = Inr a"
    and s: "s = str_of_int (int i) @ '':'' @ str_of_int (msg_uid m) @ '':'' @ a"
    using assms(1) by (auto simp: serialize_def string_conversion_to_bytes_def split: sum.splits)
  have "split3 s = Inr (str_of_int (int i), str_of_int (msg_uid m), a)"
    unfolding s by (rule split3_join) (rule str_of_int_no_colon)+
  then show ?thesis
    using msgmap_ids [OF i] deserialize_serialize_arg [OF a assms(2)]
    by (simp add: deserialize_def received_def create_with_uid_and_args_def)
qed

lemma deserialize_fatal:
  assumes "serialize msgmap m = Inr s" "msg_cls m = FatalPythonErrorReply"
    and "msg_arg m = Arg (PyStr t)"
  shows "deserialize msgmap s = Inl (FatalPythonError (TextArg t))"
proof -
  obtain i a where i: "get_msgid msgmap (msg_cls m) = Inr i"
    and a: "serialize_string_or_bytes (PyStr t) = Inr a"
    and s: "s = str_of_int (int i) @ '':'' @ str_of_int (msg_uid m) @ '':'' @ a"
    using assms by (auto simp: serialize_def serialize_arg_def string_conversion_to_bytes_def
        split: sum.splits)
  have "split3 s = Inr (str_of_int (int i), str_of_int (msg_uid m), a)"
    unfolding s by (rule split3_join) (rule str_of_int_no_colon)+
  moreover from a obtain d where d: "utf8_encode t = Inr d" "a = b64encode (CHR ''s'' # d)"
    by (auto simp: serialize_string_or_bytes_def split: sum.splits)
  ultimately show ?thesis
    using msgmap_ids [OF i] utf8_roundtrip [OF d(1)] assms(2)
    by (simp add: deserialize_def deserialize_arg_def exn_arg_of_def)
qed

text \<open>Serialising a text or bytes argument fails only on text UTF-8 cannot encode.\<close>

lemma serialize_total:
  assumes "msg_arg m = NOARG \<and> msg_cls m \<noteq> ExecCommandReply \<or>
    (\<exists>b. msg_arg m = Arg (PyBytes b)) \<or> (\<exists>t. msg_arg m = Arg (PyStr t) \<and> list_all valid_cp t)"
  shows "\<exists>s. serialize msgmap m = Inr s"
  using assms msgmap_total [of "msg_cls m"]
  by (auto simp: serialize_def serialize_arg_def serialize_string_or_bytes_def
      get_string_or_bytes_def utf8_encode_def)

end
