(* ===== verification/MsgManager.thy ===== *)
theory MsgManager
  imports ChunkComm Msgs
begin

text \<open>
  \<open>shells/remotemodules/msgmanager.py\<close>: strings over a byte communication, each as a
  token, its length in eleven digits and its bytes; the retry schedule; and the messages
  of \<open>Msgs\<close> sent and received as strings. \<open>rz\<close> and \<open>cw\<close> are the communication's
  \<open>read_until_size\<close> and \<open>write\<close>.
\<close>

section \<open>StrComm\<close>

definition str_token :: bytes where
  "str_token = ''.;-jJ(8[)OwQaKsF=&Pu''"

definition str_len_width :: nat where
  "str_len_width = 11"

definition str_frame :: "bytes \<Rightarrow> bytes" where
  "str_frame s = (str_token @ zpad str_len_width (length s)) @ s"

definition write_str :: "(bytes \<Rightarrow> ('s, unit) py) \<Rightarrow> bytes \<Rightarrow> ('s, unit) py" where
  "write_str cw s = cw (str_frame s)"

definition get_read_len :: "(int \<Rightarrow> ('s, bytes) py) \<Rightarrow> ('s, int) py" where
  "get_read_len rz = bnd (rz (int str_len_width)) (\<lambda>len_str.
     case py_int len_str of Inl _ \<Rightarrow> throw StrCommReadError | Inr n \<Rightarrow> ret n)"

definition read_str_once :: "(int \<Rightarrow> ('s, bytes) py) \<Rightarrow> ('s, bytes) py" where
  "read_str_once rz =
     andthen (read_until_token (\<lambda>n. rz (int n)) str_token) (bnd (get_read_len rz) rz)"

text \<open>\<open>comm.readerror\<close> is \<open>ChunkReaderError\<close> for both communications of the library.\<close>

definition read_str_retried :: "exn \<Rightarrow> bool" where
  "read_str_retried e \<longleftrightarrow> e = StrCommReadError \<or> e = ChunkReaderError"

partial_function (option) read_str :: "(int \<Rightarrow> ('s, bytes) py) \<Rightarrow> ('s, bytes) py" where
  "read_str rz s =
     catch_outcome (read_str_once rz s)
       (\<lambda>e s'. if read_str_retried e then read_str rz s' else Some (Inl e, s'))"

section \<open>Retry\<close>

record retry =
  rt_tries :: nat
  rt_interval :: rat
  rt_timeout :: rat

definition retry_timeouts :: "retry \<Rightarrow> rat list" where
  "retry_timeouts r = map (\<lambda>_. rt_interval r) [1..<rt_tries r] @ [rt_timeout r]"

lemma length_retry_timeouts: "length (retry_timeouts r) = max 1 (rt_tries r)"
  by (simp add: retry_timeouts_def)

lemma sum_retry_timeouts:
  "sum_list (retry_timeouts r) = of_nat (rt_tries r - 1) * rt_interval r + rt_timeout r"
  by (simp add: retry_timeouts_def map_replicate_const sum_list_replicate)

section \<open>Reading strings from an exact source\<close>

lemma distinct_str_token: "distinct str_token"
  by (simp add: str_token_def)

text \<open>A string as it may arrive, and one whose length cannot be read.\<close>

definition str_arrival :: "nat \<Rightarrow> bytes \<Rightarrow> bytes \<Rightarrow> bytes \<Rightarrow> bytes" where
  "str_arrival k g gap s = gapped str_token k g gap @ zpad str_len_width (length s) @ s"

definition corrupt_arrival :: "nat \<Rightarrow> bytes \<Rightarrow> bytes \<Rightarrow> bytes \<Rightarrow> bytes" where
  "corrupt_arrival k g gap hdr = gapped str_token k g gap @ hdr"

definition corrupt_hdr :: "bytes \<Rightarrow> bool" where
  "corrupt_hdr hdr \<longleftrightarrow> length hdr = str_len_width \<and> (\<exists>e. py_int hdr = Inl e)"

lemma str_frame_arrival: "str_frame s = str_arrival (length str_token) [] [] s"
  by (simp add: str_frame_def str_arrival_def gapped_def)

lemma str_frame_gap_ok: "gap_ok str_token (length str_token) [] []"
  using distinct_str_token by (simp add: gap_ok_def str_token_def)

locale string_source = exact_source "\<lambda>n. rz (int n)" rep
  for rz :: "int \<Rightarrow> ('s, bytes) py" and rep :: "'s \<Rightarrow> bytes \<Rightarrow> bool"
begin

lemma sized:
  assumes "rep s (b @ rest)" "length b = n"
  shows "\<exists>s'. rz (int n) s = Some (Inr b, s') \<and> rep s' rest"
  using exact [OF assms(1), of n] assms(2) by simp

lemma read_str_once_returns:
  assumes "gap_ok str_token k g gap" "length str < 10 ^ 11" "rep s (str_arrival k g gap str @ rest)"
  shows "\<exists>s'. read_str_once rz s = Some (Inr str, s') \<and> rep s' rest"
proof -
  let ?h = "zpad str_len_width (length str)"
  have h: "length ?h = str_len_width"
    unfolding str_len_width_def using assms(2) by (intro length_zpad) simp_all
  obtain s1 where s1: "read_until_token (\<lambda>n. rz (int n)) str_token s = Some (Inr g, s1)"
    "rep s1 (?h @ str @ rest)"
    using read_until_token_returns [OF assms(1)] assms(3) by (auto simp: str_arrival_def)
  obtain s2 where s2: "rz (int str_len_width) s1 = Some (Inr ?h, s2)" "rep s2 (str @ rest)"
    using sized [OF s1(2) h] by blast
  obtain s3 where "rz (int (length str)) s2 = Some (Inr str, s3)" "rep s3 rest"
    using sized [OF s2(2) refl] by blast
  with s1 s2 show ?thesis by (simp add: read_str_once_def get_read_len_def)
qed

lemma read_str_returns:
  assumes "gap_ok str_token k g gap" "length str < 10 ^ 11" "rep s (str_arrival k g gap str @ rest)"
  shows "\<exists>s'. read_str rz s = Some (Inr str, s') \<and> rep s' rest"
  using read_str_once_returns [OF assms] by (subst read_str.simps) auto

text \<open>A string with an unreadable length is skipped.\<close>

lemma read_str_skips:
  assumes "gap_ok str_token k g gap" "corrupt_hdr hdr" "rep s (corrupt_arrival k g gap hdr @ rest)"
  shows "\<exists>s'. read_str rz s = read_str rz s' \<and> rep s' rest"
proof -
  obtain s1 where s1: "read_until_token (\<lambda>n. rz (int n)) str_token s = Some (Inr g, s1)"
    "rep s1 (hdr @ rest)"
    using read_until_token_returns [OF assms(1)] assms(3) by (auto simp: corrupt_arrival_def)
  obtain s2 where s2: "rz (int str_len_width) s1 = Some (Inr hdr, s2)" "rep s2 rest"
    using sized [OF s1(2)] assms(2) by (auto simp: corrupt_hdr_def)
  have "read_str rz s = read_str rz s2"
    using s1(1) s2(1) assms(2)
    by (subst read_str.simps)
      (auto simp: read_str_once_def get_read_len_def corrupt_hdr_def read_str_retried_def)
  with s2(2) show ?thesis by blast
qed

end

section \<open>Strings over a channel\<close>

sublocale duplex_channel \<subseteq>
    strings: string_source "chunk_read_int rd (ack_write_ack wr fl)" "payload_rep rep l rest" for l rest
  by unfold_locales (simp only: chunk_read_int_nat, rule chunk_read_returns)

text \<open>What goes over the wire for a string, and what comes back for it.\<close>

definition wire :: "bytes \<Rightarrow> bytes" where
  "wire s = item_stream (chunks_of (str_frame s))"

definition wire_acks :: "bytes \<Rightarrow> bytes" where
  "wire_acks s = item_acks (chunks_of (str_frame s))"

text \<open>A reader whose shared buffer is empty finds the string's frame in its wire form.\<close>

lemma wire_payload:
  assumes "rep s l (wire str @ rest)" "sb_ok sh" "sb_content sh = []"
  shows "payload_rep rep (l @ wire_acks str) rest (s, sh) (str_arrival (length str_token) [] [] str @ [])"
  unfolding payload_rep_def
  using assms chunks_of_ok [of "str_frame str"]
  by (intro conjI exI [of _ "chunks_of (str_frame str)"] exI [of _ l])
    (auto simp: wire_def wire_acks_def chunks_of_payload str_frame_arrival)

context duplex_channel
begin

lemma string_written:
  assumes "rep s l (wire_acks str @ rest)"
  shows "\<exists>s'. write_str (chunk_write wr fl (ack_read_ack rd setf)) str s = Some (Inr (), s') \<and>
    rep s' (l @ wire str) rest"
  using chunk_write_returns [of s l "str_frame str" rest] assms
  by (simp add: write_str_def wire_def wire_acks_def)

lemma string_read:
  assumes "rep s l (wire str @ rest)" "sb_ok sh" "sb_content sh = []" "length str < 10 ^ 11"
  shows "\<exists>st'. read_str (chunk_read_int rd (ack_write_ack wr fl)) (s, sh) = Some (Inr str, st') \<and>
    rep (fst st') (l @ wire_acks str) rest \<and> sb_ok (snd st') \<and> sb_content (snd st') = []"
proof -
  have "payload_rep rep (l @ wire_acks str) rest (s, sh) (str_arrival (length str_token) [] [] str @ [])"
    using assms(1-3) by (rule wire_payload)
  from strings.read_str_returns [OF str_frame_gap_ok assms(4) this] show ?thesis
    using payload_done [of rep] by blast
qed

end

end
