(* ===== verification/MsgCaches.thy ===== *)
theory MsgCaches
  imports MsgManager "HOL-Library.AList"
begin

text \<open>
  \<open>shells/remotemodules/msgcaches.py\<close>: the replies the server keeps until they are
  acknowledged, their retransmission, and the memory of the uids already done with. The
  readings of \<open>time.time()\<close> are the values of a function \<open>clk\<close> of their number, in any
  order; \<open>Monotonic\<close> makes increasing times of them. The interface \<open>int_set\<close> is what
  the caches need of \<open>ConsecutiveSet\<close>.
\<close>

section \<open>Monotonic\<close>

record monotonic =
  mo_delta :: rat
  mo_previous_time :: rat

definition min_incr :: rat where
  "min_incr = 1 / 100"

definition new_monotonic :: "rat \<Rightarrow> monotonic" where
  "new_monotonic t = \<lparr>mo_delta = 0, mo_previous_time = t\<rparr>"

definition monotonic_time :: "rat \<Rightarrow> monotonic \<Rightarrow> rat \<times> monotonic" where
  "monotonic_time t m =
     (let corrected_time = t + mo_delta m
      in if corrected_time \<le> mo_previous_time m
         then (mo_previous_time m + min_incr,
               m\<lparr>mo_delta := mo_previous_time m + min_incr - t,
                 mo_previous_time := mo_previous_time m + min_incr\<rparr>)
         else (corrected_time, m\<lparr>mo_previous_time := corrected_time\<rparr>))"

lemma monotonic_time_increases:
  "mo_previous_time m < fst (monotonic_time t m)"
  "mo_previous_time (snd (monotonic_time t m)) = fst (monotonic_time t m)"
  by (auto simp: monotonic_time_def Let_def min_incr_def)

text \<open>Times of the source in turn.\<close>

fun monotonic_times :: "rat list \<Rightarrow> monotonic \<Rightarrow> rat list" where
  "monotonic_times [] m = []"
| "monotonic_times (t # ts) m =
     (let r = monotonic_time t m in fst r # monotonic_times ts (snd r))"

lemma monotonic_times_above: "x \<in> set (monotonic_times ts m) \<Longrightarrow> mo_previous_time m < x"
  by (induction ts arbitrary: m)
    (fastforce simp: Let_def monotonic_time_increases intro: less_trans [OF monotonic_time_increases(1)])+

lemma monotonic_times_sorted: "sorted_wrt (<) (monotonic_times ts m)"
  by (induction ts arbitrary: m)
    (auto simp: Let_def monotonic_time_increases(2) dest: monotonic_times_above)

section \<open>ConsecutiveSet\<close>

record consecutive_set =
  cs_range :: "(int \<times> int) option"
  cs_missing_nbrs :: "int set"

definition new_consecutive_set :: consecutive_set where
  "new_consecutive_set = \<lparr>cs_range = None, cs_missing_nbrs = {}\<rparr>"

definition cs_add :: "int \<Rightarrow> consecutive_set \<Rightarrow> consecutive_set" where
  "cs_add i s =
     (case cs_range s of
        None \<Rightarrow> s\<lparr>cs_range := Some (i, i)\<rparr>
      | Some (mn, mx) \<Rightarrow>
          if mx < i then s\<lparr>cs_missing_nbrs := cs_missing_nbrs s \<union> {mx + 1..<i}, cs_range := Some (mn, i)\<rparr>
          else if mn < i \<and> i < mx \<and> i \<in> cs_missing_nbrs s
          then s\<lparr>cs_missing_nbrs := cs_missing_nbrs s - {i}\<rparr>
          else if i < mn
          then s\<lparr>cs_missing_nbrs := cs_missing_nbrs s \<union> {i + 1..<mn}, cs_range := Some (i, mx)\<rparr>
          else s)"

definition cs_contains :: "int \<Rightarrow> consecutive_set \<Rightarrow> bool" where
  "cs_contains i s \<longleftrightarrow>
     (let missing_test = i \<notin> cs_missing_nbrs s
      in case cs_range s of None \<Rightarrow> False | Some (mn, mx) \<Rightarrow> mn \<le> i \<and> i \<le> mx \<and> missing_test)"

definition cs_len :: "consecutive_set \<Rightarrow> nat" where
  "cs_len s = card (cs_missing_nbrs s)"

definition cs_inv :: "consecutive_set \<Rightarrow> bool" where
  "cs_inv s \<longleftrightarrow> (case cs_range s of
     None \<Rightarrow> cs_missing_nbrs s = {}
   | Some (mn, mx) \<Rightarrow> mn \<le> mx \<and> (\<forall>i \<in> cs_missing_nbrs s. mn < i \<and> i < mx))"

text \<open>The abstract set, and the contract of a set of integers that only grows.\<close>

definition cs_set :: "consecutive_set \<Rightarrow> int set" where
  "cs_set s = {i. cs_contains i s}"

locale int_set =
  fixes empty_set :: 's
    and add :: "int \<Rightarrow> 's \<Rightarrow> 's"
    and contains :: "int \<Rightarrow> 's \<Rightarrow> bool"
    and inv :: "'s \<Rightarrow> bool"
  assumes inv_empty: "inv empty_set"
    and inv_add: "inv s \<Longrightarrow> inv (add i s)"
    and contains_empty: "\<not> contains i empty_set"
    and contains_add: "inv s \<Longrightarrow> contains i (add j s) \<longleftrightarrow> i = j \<or> contains i s"
begin

lemma inv_fold: "inv s \<Longrightarrow> inv (fold add is s)"
  by (induction "is" arbitrary: s) (auto simp: inv_add)

lemma contains_fold: "inv s \<Longrightarrow> contains i (fold add is s) \<longleftrightarrow> i \<in> set is \<or> contains i s"
  by (induction "is" arbitrary: s) (auto simp: inv_add contains_add)

lemma contains_added: "contains i (fold add is empty_set) \<longleftrightarrow> i \<in> set is"
  by (simp add: contains_fold inv_empty contains_empty)

end

lemma cs_inv_add: "cs_inv s \<Longrightarrow> cs_inv (cs_add i s)"
  by (auto simp: cs_inv_def cs_add_def split: option.splits prod.splits)

lemma cs_contains_add: "cs_inv s \<Longrightarrow> cs_contains i (cs_add j s) \<longleftrightarrow> i = j \<or> cs_contains i s"
  by (auto simp: cs_inv_def cs_add_def cs_contains_def Let_def split: option.splits prod.splits)

interpretation cs: int_set new_consecutive_set cs_add cs_contains cs_inv
  by unfold_locales
    (simp_all add: cs_inv_add cs_contains_add,
     simp_all add: cs_inv_def cs_contains_def new_consecutive_set_def)

section \<open>MsgCache\<close>

text \<open>A timeout is \<open>None\<close> when it is \<open>Infinite()\<close>.\<close>

record msg_cache =
  mc_msg :: msg
  mc_timeout :: "rat option"
  mc_timeouts :: "rat list"

definition new_msg_cache :: "msg \<Rightarrow> retry \<Rightarrow> msg_cache" where
  "new_msg_cache m r = \<lparr>mc_msg = m, mc_timeout = Some 0, mc_timeouts = retry_timeouts r\<rparr>"

text \<open>
  The new cache, and whether its message is sent; subtracting from \<open>Infinite()\<close> would be a
  \<open>TypeError\<close>.
\<close>

definition cache_send_expired :: "rat \<Rightarrow> msg_cache \<Rightarrow> exn + msg_cache \<times> bool" where
  "cache_send_expired elapsed c =
     (case mc_timeout c of
        None \<Rightarrow> Inl TypeError
      | Some t \<Rightarrow>
          if elapsed < t then Inr (c\<lparr>mc_timeout := Some (t - elapsed)\<rparr>, False)
          else (case mc_timeouts c of
                  t' # ts \<Rightarrow> Inr (c\<lparr>mc_timeout := Some t', mc_timeouts := ts\<rparr>, True)
                | [] \<Rightarrow> Inr (c\<lparr>mc_timeout := None\<rparr>, False)))"

section \<open>MsgCaches\<close>

record msg_caches =
  mcs_retry :: retry
  mcs_msgcaches :: "(int \<times> msg_cache) list"
  mcs_monotonic :: monotonic
  mcs_lap :: rat
  mcs_removed :: consecutive_set
  mcs_clock :: nat

text \<open>The constructor reads the clock twice.\<close>

definition new_msg_caches :: "(nat \<Rightarrow> rat) \<Rightarrow> nat \<Rightarrow> retry \<Rightarrow> msg_caches" where
  "new_msg_caches clk n r =
     (let (t, m) = monotonic_time (clk (Suc n)) (new_monotonic (clk n))
      in \<lparr>mcs_retry = r, mcs_msgcaches = [], mcs_monotonic = m, mcs_lap = t,
          mcs_removed = new_consecutive_set, mcs_clock = n + 2\<rparr>)"

definition mcs_time :: "(nat \<Rightarrow> rat) \<Rightarrow> msg_caches \<Rightarrow> rat \<times> msg_caches" where
  "mcs_time clk s =
     (let r = monotonic_time (clk (mcs_clock s)) (mcs_monotonic s)
      in (fst r, s\<lparr>mcs_monotonic := snd r, mcs_clock := Suc (mcs_clock s)\<rparr>))"

definition mcs_elapsed :: "(nat \<Rightarrow> rat) \<Rightarrow> msg_caches \<Rightarrow> rat \<times> msg_caches" where
  "mcs_elapsed clk s = (let r = mcs_time clk s in (fst r - mcs_lap s, snd r))"

definition push_msg :: "msg \<Rightarrow> msg_caches \<Rightarrow> msg_caches" where
  "push_msg m s =
     s\<lparr>mcs_msgcaches := AList.update (msg_uid m) (new_msg_cache m (mcs_retry s)) (mcs_msgcaches s)\<rparr>"

definition remove_uid :: "int \<Rightarrow> msg_caches \<Rightarrow> msg_caches" where
  "remove_uid u s =
     s\<lparr>mcs_msgcaches := AList.delete u (mcs_msgcaches s), mcs_removed := cs_add u (mcs_removed s)\<rparr>"

definition mcs_remove :: "msg \<Rightarrow> msg_caches \<Rightarrow> msg_caches" where
  "mcs_remove m s =
     (if map_of (mcs_msgcaches s) (msg_uid m) \<noteq> None then remove_uid (msg_uid m) s else s)"

definition get_msg :: "int \<Rightarrow> msg_caches \<Rightarrow> exn + msg" where
  "get_msg u s =
     (case map_of (mcs_msgcaches s) u of
        Some c \<Rightarrow> Inr (mc_msg c)
      | None \<Rightarrow> if cs_contains u (mcs_removed s) then Inl MsgCachesAlreadyRemoved
                else Inl MsgCachesNotFound)"

text \<open>
  \<open>send_expired\<close>, over the caches and the rest \<open>'c\<close> of the server's state. The items
  are listed before the loop; \<open>send\<close> is the \<open>send_msg\<close> of the constructor. The new
  timeout is stored before the message is sent.
\<close>

definition on_caches :: "(msg_caches \<Rightarrow> 'a \<times> msg_caches) \<Rightarrow> ('c \<times> msg_caches, 'a) py" where
  "on_caches f st = (case f (snd st) of (a, s) \<Rightarrow> Some (Inr a, (fst st, s)))"

definition set_cache :: "int \<Rightarrow> msg_cache \<Rightarrow> msg_caches \<Rightarrow> msg_caches" where
  "set_cache u c s = s\<lparr>mcs_msgcaches := AList.update u c (mcs_msgcaches s)\<rparr>"

definition send_expired_item ::
  "(nat \<Rightarrow> rat) \<Rightarrow> (msg \<Rightarrow> ('c \<times> msg_caches, unit) py) \<Rightarrow> int \<times> msg_cache \<Rightarrow> ('c \<times> msg_caches, unit) py" where
  "send_expired_item clk send uc =
     bnd (on_caches (mcs_elapsed clk)) (\<lambda>elapsed.
     bnd (of_sum (cache_send_expired elapsed (snd uc))) (\<lambda>r.
       andthen (on_caches (\<lambda>s. ((), set_cache (fst uc) (fst r) s)))
         (andthen (if snd r then send (mc_msg (fst r)) else ret ())
            (if mc_timeout (fst r) = None then on_caches (\<lambda>s. ((), remove_uid (fst uc) s)) else ret ()))))"

definition send_expired ::
  "(nat \<Rightarrow> rat) \<Rightarrow> (msg \<Rightarrow> ('c \<times> msg_caches, unit) py) \<Rightarrow> ('c \<times> msg_caches, unit) py" where
  "send_expired clk send =
     bnd (gets (\<lambda>st. mcs_msgcaches (snd st))) (\<lambda>items.
       andthen (for_each (send_expired_item clk send) items)
         (bnd (on_caches (mcs_time clk)) (\<lambda>t. on_caches (\<lambda>s. ((), s\<lparr>mcs_lap := t\<rparr>)))))"

definition mcs_timeout :: "msg_caches \<Rightarrow> rat option" where
  "mcs_timeout s =
     fold (\<lambda>t acc. case (t, acc) of
             (Some x, Some y) \<Rightarrow> Some (min x y) | (Some x, None) \<Rightarrow> Some x | (None, a) \<Rightarrow> a)
       (map (mc_timeout \<circ> snd) (mcs_msgcaches s)) None"

definition timeout_args :: "msg_caches \<Rightarrow> rat list" where
  "timeout_args s = (case mcs_timeout s of None \<Rightarrow> [] | Some t \<Rightarrow> [t])"

text \<open>
  The property \<open>msgs\<close>: it asks every cache for an attribute \<open>MsgCache\<close> does not define.
\<close>

definition mcs_msgs :: "msg_caches \<Rightarrow> exn + msg list" where
  "mcs_msgs s = (if mcs_msgcaches s = [] then Inr [] else Inl AttributeError)"

section \<open>What the caches know\<close>

text \<open>A uid is known once its reply was pushed, and stays known.\<close>

definition known :: "int \<Rightarrow> msg_caches \<Rightarrow> bool" where
  "known u s \<longleftrightarrow> map_of (mcs_msgcaches s) u \<noteq> None \<or> cs_contains u (mcs_removed s)"

definition caches_inv :: "msg_caches \<Rightarrow> bool" where
  "caches_inv s \<longleftrightarrow> cs_inv (mcs_removed s) \<and>
     (\<forall>(u, c) \<in> set (mcs_msgcaches s). msg_uid (mc_msg c) = u)"

definition grows :: "msg_caches \<Rightarrow> msg_caches \<Rightarrow> bool" where
  "grows s s' \<longleftrightarrow> caches_inv s' \<and> (\<forall>u. known u s \<longrightarrow> known u s')"

lemma grows_refl: "caches_inv s \<Longrightarrow> grows s s"
  by (simp add: grows_def)

lemma grows_trans: "grows s t \<Longrightarrow> grows t u \<Longrightarrow> grows s u"
  by (simp add: grows_def)

lemma not_found_iff: "get_msg u s = Inl MsgCachesNotFound \<longleftrightarrow> \<not> known u s"
  by (auto simp: get_msg_def known_def split: option.splits)

lemma map_of_delete: "map_of (AList.delete u al) v = (if v = u then None else map_of al v)"
  by (simp add: AList.delete_conv')

lemma map_of_update: "map_of (AList.update u c al) v = (if v = u then Some c else map_of al v)"
  by (simp add: AList.update_conv')

lemma set_update_subset: "set (AList.update u c al) \<subseteq> insert (u, c) (set al)"
  by (induction al) auto

lemma set_delete_subset: "set (AList.delete u al) \<subseteq> set al"
  by (auto simp: AList.delete_eq)

lemma known_push: "known u (push_msg m s) \<longleftrightarrow> u = msg_uid m \<or> known u s"
  by (auto simp: known_def push_msg_def map_of_update)

lemma grows_push: "caches_inv s \<Longrightarrow> grows s (push_msg m s)"
  unfolding grows_def known_push
  using set_update_subset [of "msg_uid m" "new_msg_cache m (mcs_retry s)" "mcs_msgcaches s"]
  by (auto simp: caches_inv_def push_msg_def new_msg_cache_def)

lemma known_remove_uid: "caches_inv s \<Longrightarrow> known u (remove_uid v s) \<longleftrightarrow> u = v \<or> known u s"
  by (auto simp: known_def remove_uid_def map_of_delete caches_inv_def cs_contains_add)

lemma grows_remove_uid: "caches_inv s \<Longrightarrow> grows s (remove_uid v s)"
  by (auto simp: grows_def known_remove_uid)
    (use set_delete_subset [of v "mcs_msgcaches s"] in
      \<open>auto simp: caches_inv_def remove_uid_def cs_inv_add\<close>)

lemma grows_remove: "caches_inv s \<Longrightarrow> grows s (mcs_remove m s)"
  by (auto simp: mcs_remove_def grows_remove_uid grows_refl)

lemma grows_set_cache: "caches_inv s \<Longrightarrow> msg_uid (mc_msg c) = u \<Longrightarrow> grows s (set_cache u c s)"
  using set_update_subset [of u c "mcs_msgcaches s"]
  by (auto simp: grows_def known_def set_cache_def map_of_update caches_inv_def)

lemma grows_time:
  assumes "caches_inv s"
  shows "grows s (snd (mcs_time clk s))" "grows s (snd (mcs_elapsed clk s))" "grows s (s\<lparr>mcs_lap := t\<rparr>)"
  using assms by (simp_all add: grows_def known_def caches_inv_def mcs_time_def mcs_elapsed_def Let_def)

lemma cache_send_expired_msg: "cache_send_expired e c = Inr (c', b) \<Longrightarrow> mc_msg c' = mc_msg c"
  by (auto simp: cache_send_expired_def split: option.splits if_splits list.splits)

text \<open>The relation every operation of the server keeps on its caches.\<close>

definition caches_grow :: "'c \<times> msg_caches \<Rightarrow> 'c \<times> msg_caches \<Rightarrow> bool" where
  "caches_grow st st' \<longleftrightarrow> (caches_inv (snd st) \<longrightarrow> grows (snd st) (snd st'))"

interpretation cgrow: step_relation caches_grow
  by unfold_locales (auto simp: caches_grow_def grows_refl intro: grows_trans, auto simp: grows_def)

lemma keeps_on_caches:
  "(\<And>s. caches_inv s \<Longrightarrow> grows s (snd (f s))) \<Longrightarrow> keeps caches_grow (on_caches f)"
proof (rule keeps_gen)
  fix st r st'
  assume f: "\<And>s. caches_inv s \<Longrightarrow> grows s (snd (f s))" and "on_caches f st = Some (r, st')"
  then have "snd st' = snd (f (snd st))" by (auto simp: on_caches_def split: prod.splits)
  with f show "caches_grow st st'" by (simp add: caches_grow_def)
qed

lemma send_expired_item_grows:
  assumes send: "keeps caches_grow (send (mc_msg (snd uc)))" and uid: "msg_uid (mc_msg (snd uc)) = fst uc"
  shows "keeps caches_grow (send_expired_item clk send uc)"
proof -
  have "keeps caches_grow (andthen (on_caches (\<lambda>s. ((), set_cache (fst uc) (fst r) s)))
         (andthen (if snd r then send (mc_msg (fst r)) else ret ())
            (if mc_timeout (fst r) = None then on_caches (\<lambda>s. ((), remove_uid (fst uc) s)) else ret ())))"
    if "cache_send_expired e (snd uc) = Inr r" for e r
  proof -
    have m: "mc_msg (fst r) = mc_msg (snd uc)"
      using cache_send_expired_msg [of e "snd uc" "fst r" "snd r"] that by simp
    have "keeps caches_grow (on_caches (\<lambda>s. ((), set_cache (fst uc) (fst r) s)))"
      by (rule keeps_on_caches) (simp add: grows_set_cache m uid)
    moreover have "keeps caches_grow (on_caches (\<lambda>s. ((), remove_uid (fst uc) s)))"
      by (rule keeps_on_caches) (simp add: grows_remove_uid)
    ultimately show ?thesis
      using send by (auto simp: m intro!: cgrow.keeps_andthen cgrow.keeps_simple)
  qed
  moreover have "keeps caches_grow (on_caches (mcs_elapsed clk))"
    by (rule keeps_on_caches) (rule grows_time)
  ultimately show ?thesis
    unfolding send_expired_item_def by (blast intro: cgrow.keeps_bnd cgrow.keeps_of_sum)
qed

text \<open>Retransmission forgets no uid, if sending does not.\<close>

lemma send_expired_grows:
  assumes send: "\<And>m. keeps caches_grow (send m)" and inv: "caches_inv (snd st)"
    and s: "send_expired clk send st = Some (r, st')"
  shows "grows (snd st) (snd st')"
proof -
  let ?items = "mcs_msgcaches (snd st)"
  let ?lap = "bnd (on_caches (mcs_time clk)) (\<lambda>t. on_caches (\<lambda>s. ((), s\<lparr>mcs_lap := t\<rparr>)))"
  have "keeps caches_grow (send_expired_item clk send uc)" if "uc \<in> set ?items" for uc
    using that inv by (intro send_expired_item_grows send) (auto simp: caches_inv_def)
  then have "keeps caches_grow (for_each (send_expired_item clk send) ?items)"
    by (rule cgrow.keeps_for_each)
  moreover have "keeps caches_grow ?lap"
    by (rule cgrow.keeps_bnd; rule keeps_on_caches) (simp_all add: grows_time)
  ultimately have "keeps caches_grow (andthen (for_each (send_expired_item clk send) ?items) ?lap)"
    by (rule cgrow.keeps_andthen)
  moreover have "andthen (for_each (send_expired_item clk send) ?items) ?lap st = Some (r, st')"
    using s by (simp only: send_expired_def bnd_app [of "gets _"] gets_app seq_outcome_simps)
  ultimately have "caches_grow st st'" by (rule keepsD)
  with inv show ?thesis by (simp add: caches_grow_def)
qed

section \<open>What is sent\<close>

text \<open>
  The calls of the owner of the caches, and what they send: the sender is recorded. \<open>CallResend u\<close> is
  what the server does with a request it has answered before: it sends what \<open>get_msg\<close> returns.
\<close>

datatype cache_call = CallSendExpired | CallPush msg | CallRemove msg | CallResend int

fun owner_call :: "(nat \<Rightarrow> rat) \<Rightarrow> (msg \<Rightarrow> ('c \<times> msg_caches, unit) py) \<Rightarrow> cache_call \<Rightarrow> ('c \<times> msg_caches, unit) py" where
  "owner_call clk send CallSendExpired = send_expired clk send"
| "owner_call clk send (CallPush m) = on_caches (\<lambda>s. ((), push_msg m s))"
| "owner_call clk send (CallRemove m) = on_caches (\<lambda>s. ((), mcs_remove m s))"
| "owner_call clk send (CallResend u) = bnd (bnd (gets (\<lambda>st. get_msg u (snd st))) of_sum) send"

definition recorded_send ::
  "(msg \<Rightarrow> ('c \<times> msg_caches, unit) py) \<Rightarrow> msg \<Rightarrow> (('c \<times> msg list) \<times> msg_caches, unit) py" where
  "recorded_send send m = (\<lambda>((d, l), s). map_option (\<lambda>(r, (d', s')). (r, ((d', l @ [m]), s'))) (send m (d, s)))"

definition distinct_inv :: "msg_caches \<Rightarrow> bool" where
  "distinct_inv s \<longleftrightarrow> caches_inv s \<and> distinct (map fst (mcs_msgcaches s))"

definition sent_as :: "int \<Rightarrow> msg list \<Rightarrow> nat" where
  "sent_as u ms = length (filter (\<lambda>x. msg_uid x = u) ms)"

text \<open>How often the message with the uid can still be sent by \<open>send_expired\<close>.\<close>

definition budget :: "int \<Rightarrow> msg_caches \<Rightarrow> nat" where
  "budget u s = (case map_of (mcs_msgcaches s) u of None \<Rightarrow> 0 | Some c \<Rightarrow> length (mc_timeouts c))"

definition only_msg :: "int \<Rightarrow> msg \<Rightarrow> msg_caches \<Rightarrow> bool" where
  "only_msg u m s \<longleftrightarrow> (\<forall>c. map_of (mcs_msgcaches s) u = Some c \<longrightarrow> mc_msg c = m)"

text \<open>One or more calls spend at most the budget and \<open>k\<close>, and send nothing else under the uid than \<open>m\<close>.\<close>

definition spends ::
  "int \<Rightarrow> msg \<Rightarrow> nat \<Rightarrow> ('c \<times> msg list) \<times> msg_caches \<Rightarrow> ('c \<times> msg list) \<times> msg_caches \<Rightarrow> bool" where
  "spends u m k st st' \<longleftrightarrow> distinct_inv (snd st') \<and> only_msg u m (snd st') \<and>
     (\<exists>new. snd (fst st') = snd (fst st) @ new \<and> (\<forall>x \<in> set new. msg_uid x = u \<longrightarrow> x = m) \<and>
       sent_as u new + budget u (snd st') \<le> budget u (snd st) + k)"

definition leaves_caches :: "(msg \<Rightarrow> ('c \<times> msg_caches, unit) py) \<Rightarrow> bool" where
  "leaves_caches send \<longleftrightarrow> (\<forall>x d s r d' s'. send x (d, s) = Some (r, (d', s')) \<longrightarrow> s' = s)"

lemma recorded_send_result:
  assumes "leaves_caches send" "recorded_send send x ((d, l), s) = Some (r, ((d', l'), s'))"
  shows "l' = l @ [x] \<and> s' = s"
  using assms by (auto simp: leaves_caches_def recorded_send_def)

lemma sent_as_append: "sent_as u (ms @ ns) = sent_as u ms + sent_as u ns"
  by (simp add: sent_as_def)

lemma spends_none:
  assumes "distinct_inv s'" "only_msg u m s'" "budget u s' \<le> budget u s"
  shows "spends u m k ((d, l), s) ((d', l), s')"
  using assms by (auto simp: spends_def sent_as_def)

lemma spends_one:
  assumes "distinct_inv s'" "only_msg u m s'" "msg_uid x = u \<longrightarrow> x = m"
    "budget u s' + (if msg_uid x = u then 1 else 0) \<le> budget u s + k"
  shows "spends u m k ((d, l), s) ((d', l @ [x]), s')"
  using assms by (auto simp: spends_def sent_as_def intro!: exI [of _ "[x]"])

lemma spends_trans:
  assumes "spends u m j st st1" "spends u m k st1 st2"
  shows "spends u m (j + k) st st2"
proof -
  obtain x y where x: "snd (fst st1) = snd (fst st) @ x" "\<forall>a \<in> set x. msg_uid a = u \<longrightarrow> a = m"
      "sent_as u x + budget u (snd st1) \<le> budget u (snd st) + j"
    and y: "snd (fst st2) = snd (fst st1) @ y" "\<forall>a \<in> set y. msg_uid a = u \<longrightarrow> a = m"
      "sent_as u y + budget u (snd st2) \<le> budget u (snd st1) + k"
    using assms unfolding spends_def by blast
  then show ?thesis
    using assms(2) unfolding spends_def
    by (intro conjI exI [of _ "x @ y"]) (auto simp: sent_as_append)
qed

lemma distinct_inv_steps:
  assumes "distinct_inv s"
  shows "distinct_inv (remove_uid u s)" "distinct_inv (push_msg m s)" "distinct_inv (mcs_remove m s)"
    "distinct_inv (snd (mcs_time clk s))" "distinct_inv (snd (mcs_elapsed clk s))" "distinct_inv (s\<lparr>mcs_lap := t\<rparr>)"
    "msg_uid (mc_msg c) = u \<Longrightarrow> distinct_inv (set_cache u c s)"
  using assms grows_remove_uid [of s u] grows_push [of s m] grows_remove [of s m] grows_time [of s] grows_set_cache [of s c u]
  by (auto simp: distinct_inv_def grows_def remove_uid_def push_msg_def mcs_remove_def set_cache_def mcs_time_def
      mcs_elapsed_def Let_def distinct_update distinct_delete)

lemma elapsed_msgcaches: "mcs_msgcaches (snd (mcs_elapsed clk s)) = mcs_msgcaches s"
  by (simp add: mcs_elapsed_def mcs_time_def Let_def)

lemma cache_send_expired_cases:
  assumes "cache_send_expired e c = Inr (c', b)"
  obtains (later) t where "\<not> b" "c' = c\<lparr>mc_timeout := Some t\<rparr>"
  | (again) t ts where b "mc_timeouts c = t # ts" "c' = c\<lparr>mc_timeout := Some t, mc_timeouts := ts\<rparr>"
  | (over) "\<not> b" "mc_timeouts c = []" "c' = c\<lparr>mc_timeout := None\<rparr>"
  using assms by (auto simp: cache_send_expired_def split: option.splits if_splits list.splits)

lemma on_caches_unit: "on_caches (\<lambda>s. ((), f s)) (d, s) = Some (Inr (), (d, f s))"
  by (simp add: on_caches_def)

text \<open>The cache of one uid: nothing is done to the other uids.\<close>

lemma item_spends:
  assumes send: "leaves_caches send"
    and s: "distinct_inv s" "only_msg u m s" "map_of (mcs_msgcaches s) v = Some c"
    and run: "send_expired_item clk (recorded_send send) (v, c) ((d, l), s) = Some (r, ((d', l'), s'))"
  shows "spends u m 0 ((d, l), s) ((d', l'), s') \<and>
    (\<forall>x. x \<noteq> v \<longrightarrow> map_of (mcs_msgcaches s') x = map_of (mcs_msgcaches s) x)"
proof -
  let ?e = "fst (mcs_elapsed clk s)" and ?s1 = "snd (mcs_elapsed clk s)"
  have uid: "msg_uid (mc_msg c) = v"
    using s(1,3) by (auto simp: distinct_inv_def caches_inv_def dest: map_of_SomeD)
  have s1: "mcs_msgcaches ?s1 = mcs_msgcaches s" "distinct_inv ?s1"
    by (rule elapsed_msgcaches) (rule distinct_inv_steps(5) [OF s(1)])
  have el: "on_caches (mcs_elapsed clk) ((d, l), s) = Some (Inr ?e, ((d, l), ?s1))"
    by (simp add: on_caches_def case_prod_beta)
  show ?thesis
  proof (cases "cache_send_expired ?e c")
    case (Inl e)
    then have "d' = d \<and> l' = l \<and> s' = ?s1" using run by (simp add: send_expired_item_def el)
    then show ?thesis using s s1 by (simp add: budget_def only_msg_def spends_none)
  next
    case (Inr p)
    obtain c' b where p: "p = (c', b)" by (cases p)
    let ?s2 = "set_cache v c' ?s1"
    have m: "mc_msg c' = mc_msg c" using cache_send_expired_msg Inr p by simp
    have s2: "distinct_inv ?s2" "\<And>x. map_of (mcs_msgcaches ?s2) x = (if x = v then Some c' else map_of (mcs_msgcaches s) x)"
      "only_msg u m ?s2"
    proof -
      show "distinct_inv ?s2" using m uid by (intro distinct_inv_steps(7) s1) simp
      show x: "map_of (mcs_msgcaches ?s2) x = (if x = v then Some c' else map_of (mcs_msgcaches s) x)" for x
        by (simp add: set_cache_def map_of_update s1(1))
      show "only_msg u m ?s2" unfolding only_msg_def x using s(2,3) m by (cases "u = v") (simp_all add: only_msg_def)
    qed
    have rem: "distinct_inv (remove_uid v ?s2)" "only_msg u m (remove_uid v ?s2)"
      "\<And>x. map_of (mcs_msgcaches (remove_uid v ?s2)) x = (if x = v then None else map_of (mcs_msgcaches s) x)"
    proof -
      show "distinct_inv (remove_uid v ?s2)" by (rule distinct_inv_steps(1) [OF s2(1)])
      show x: "map_of (mcs_msgcaches (remove_uid v ?s2)) x = (if x = v then None else map_of (mcs_msgcaches s) x)" for x
        by (simp add: remove_uid_def map_of_delete s2(2))
      show "only_msg u m (remove_uid v ?s2)" using s(2) unfolding only_msg_def x by simp
    qed
    have rest: "andthen (if b then recorded_send send (mc_msg c') else ret ())
        (if mc_timeout c' = None then on_caches (\<lambda>s. ((), remove_uid v s)) else ret ()) ((d, l), ?s2) = Some (r, ((d', l'), s'))"
      using run by (simp add: send_expired_item_def el Inr p on_caches_unit cong del: if_weak_cong)
    from Inr [unfolded p] show ?thesis
    proof (cases rule: cache_send_expired_cases)
      case (later t)
      then have "mc_timeouts c' = mc_timeouts c" "d' = d \<and> l' = l \<and> s' = ?s2" using rest by simp_all
      then show ?thesis using s2 s(3) by (simp add: budget_def spends_none)
    next
      case (over)
      then have "d' = d \<and> l' = l \<and> s' = remove_uid v ?s2" using rest by (simp add: on_caches_unit)
      then show ?thesis using rem by (simp add: budget_def spends_none)
    next
      case (again t ts)
      have "recorded_send send (mc_msg c) ((d, l), ?s2) = Some (r, ((d', l'), s'))"
        using rest m again by (auto elim!: seq_outcome_cases)
      then have st: "l' = l @ [mc_msg c]" "s' = ?s2" using recorded_send_result [OF send] by blast+
      have "spends u m 0 ((d, l), s) ((d', l @ [mc_msg c]), ?s2)"
      proof (rule spends_one)
        show "msg_uid (mc_msg c) = u \<longrightarrow> mc_msg c = m" using s(2,3) uid by (auto simp: only_msg_def)
        show "budget u ?s2 + (if msg_uid (mc_msg c) = u then 1 else 0) \<le> budget u s + 0"
          unfolding budget_def s2(2) using s(3) uid again(2,3) by (cases "u = v") simp_all
      qed (use s2 in simp_all)
      then show ?thesis using st s2(2) by simp
    qed
  qed
qed

lemma items_spend:
  assumes send: "leaves_caches send"
  shows "distinct_inv s \<Longrightarrow> only_msg u m s \<Longrightarrow> distinct (map fst items) \<Longrightarrow>
    (\<And>v c. (v, c) \<in> set items \<Longrightarrow> map_of (mcs_msgcaches s) v = Some c) \<Longrightarrow>
    for_each (send_expired_item clk (recorded_send send)) items ((d, l), s) = Some (r, st') \<Longrightarrow>
    spends u m 0 ((d, l), s) st'"
proof (induction items arbitrary: d l s)
  case Nil
  then show ?case by (auto intro: spends_none)
next
  case (Cons vc items)
  obtain v c where vc: "vc = (v, c)" by (cases vc)
  have v: "map_of (mcs_msgcaches s) v = Some c" using Cons.prems(4) vc by simp
  have "seq_outcome (send_expired_item clk (recorded_send send) (v, c) ((d, l), s))
      (\<lambda>_. for_each (send_expired_item clk (recorded_send send)) items) = Some (r, st')"
    using Cons.prems(5) vc by simp
  then show ?case
  proof (cases rule: seq_outcome_cases)
    case (error e)
    obtain d2 l2 s2 where st: "st' = ((d2, l2), s2)" by (metis prod.collapse)
    show ?thesis using item_spends [OF send Cons.prems(1,2) v error(1) [unfolded st]] st by simp
  next
    case (ok a t)
    obtain d2 l2 s2 where st: "t = ((d2, l2), s2)" by (metis prod.collapse)
    note i = item_spends [OF send Cons.prems(1,2) v ok(1) [unfolded st]]
    have "spends u m 0 ((d2, l2), s2) st'"
    proof (rule Cons.IH)
      show "distinct_inv s2" "only_msg u m s2" using i by (auto simp: spends_def)
      show "distinct (map fst items)" using Cons.prems(3) by simp
      show "map_of (mcs_msgcaches s2) w = Some e" if "(w, e) \<in> set items" for w e
        using that i Cons.prems(3,4) vc by force
      show "for_each (send_expired_item clk (recorded_send send)) items ((d2, l2), s2) = Some (r, st')"
        using ok(2) st by simp
    qed
    then show ?thesis using spends_trans [of u m 0 _ _ 0] i st by fastforce
  qed
qed

lemma send_expired_spends:
  assumes send: "leaves_caches send"
    and s: "distinct_inv s" "only_msg u m s"
    and run: "send_expired clk (recorded_send send) ((d, l), s) = Some (r, st')"
  shows "spends u m 0 ((d, l), s) st'"
proof -
  let ?it = "for_each (send_expired_item clk (recorded_send send)) (mcs_msgcaches s)"
  let ?lap = "bnd (on_caches (mcs_time clk)) (\<lambda>t. on_caches (\<lambda>s. ((), s\<lparr>mcs_lap := t\<rparr>))) ::
    (('a \<times> msg list) \<times> msg_caches, unit) py"
  have d: "distinct (map fst (mcs_msgcaches s))" using s(1) by (simp add: distinct_inv_def)
  have k: "\<And>v c. (v, c) \<in> set (mcs_msgcaches s) \<Longrightarrow> map_of (mcs_msgcaches s) v = Some c"
    using d by simp
  have "seq_outcome (?it ((d, l), s)) (\<lambda>_. ?lap) = Some (r, st')" using run by (simp add: send_expired_def)
  then show ?thesis
  proof (cases rule: seq_outcome_cases)
    case (error e)
    then show ?thesis using items_spend [OF send s d k error(1)] by simp
  next
    case (ok a t)
    note i = items_spend [OF send s d k ok(1)]
    obtain d2 l2 s2 where t: "t = ((d2, l2), s2)" by (metis prod.collapse)
    have i2: "distinct_inv s2" "only_msg u m s2" using i t by (auto simp: spends_def)
    have "st' = ((d2, l2), (snd (mcs_time clk s2))\<lparr>mcs_lap := fst (mcs_time clk s2)\<rparr>)"
      using ok(2) t by (auto simp: on_caches_def case_prod_beta)
    then have "spends u m 0 t st'"
      using distinct_inv_steps(6) [OF distinct_inv_steps(4) [OF i2(1)]] i2(2) t
      by (auto simp: only_msg_def budget_def mcs_time_def Let_def intro!: spends_none)
    then show ?thesis using spends_trans [OF i] by fastforce
  qed
qed
lemma owner_call_spends:
  assumes send: "leaves_caches send"
    and s: "distinct_inv s" "only_msg u m s"
    and new: "\<And>x. call = CallPush x \<Longrightarrow> msg_uid x \<noteq> u"
    and run: "owner_call clk (recorded_send send) call ((d, l), s) = Some (r, st')"
  shows "spends u m (if call = CallResend u then 1 else 0) ((d, l), s) st'"
proof (cases call)
  case CallSendExpired
  then have "send_expired clk (recorded_send send) ((d, l), s) = Some (r, st')" using run by simp
  from send_expired_spends [OF send s this] CallSendExpired show ?thesis by simp
next
  case (CallPush x)
  then have st: "st' = ((d, l), push_msg x s)" "msg_uid x \<noteq> u" using run new by (simp_all add: on_caches_def)
  have x: "map_of (mcs_msgcaches (push_msg x s)) u = map_of (mcs_msgcaches s) u"
    using st(2) by (simp add: push_msg_def map_of_update)
  show ?thesis
    unfolding st(1) by (rule spends_none [OF distinct_inv_steps(2) [OF s(1)]])
      (use s(2) in \<open>simp_all only: only_msg_def budget_def x order_refl\<close>)
next
  case (CallRemove x)
  then have st: "st' = ((d, l), mcs_remove x s)" using run by (simp add: on_caches_def)
  have x: "map_of (mcs_msgcaches (mcs_remove x s)) u = (if u = msg_uid x then None else map_of (mcs_msgcaches s) u)"
    by (auto simp: mcs_remove_def remove_uid_def map_of_delete)
  show ?thesis
    unfolding st by (rule spends_none [OF distinct_inv_steps(3) [OF s(1)]])
      (use s(2) in \<open>simp_all add: only_msg_def budget_def x\<close>)
next
  case (CallResend v)
  have r: "seq_outcome (Some (get_msg v s, ((d, l), s))) (recorded_send send) = Some (r, st')"
    using run CallResend by (cases "get_msg v s") simp_all
  show ?thesis
  proof (cases "map_of (mcs_msgcaches s) v")
    case None
    then have "get_msg v s = Inl (if cs_contains v (mcs_removed s) then MsgCachesAlreadyRemoved else MsgCachesNotFound)"
      by (simp add: get_msg_def)
    then have "st' = ((d, l), s)" using r by simp
    then show ?thesis using s by (simp add: spends_none)
  next
    case (Some c)
    then have uid: "msg_uid (mc_msg c) = v"
      using s(1) by (auto simp: distinct_inv_def caches_inv_def dest: map_of_SomeD)
    obtain d' l' s' where st: "st' = ((d', l'), s')" by (metis prod.collapse)
    have "recorded_send send (mc_msg c) ((d, l), s) = Some (r, ((d', l'), s'))"
      using r Some st by (simp add: get_msg_def)
    then have "l' = l @ [mc_msg c]" "s' = s" using recorded_send_result [OF send] by blast+
    moreover have "spends u m (if v = u then 1 else 0) ((d, l), s) ((d', l @ [mc_msg c]), s)"
      using s Some uid by (intro spends_one) (auto simp: only_msg_def)
    ultimately show ?thesis using st CallResend by simp
  qed
qed

lemma calls_spend:
  assumes send: "leaves_caches send"
  shows "distinct_inv s \<Longrightarrow> only_msg u m s \<Longrightarrow> (\<And>x. CallPush x \<in> set calls \<Longrightarrow> msg_uid x \<noteq> u) \<Longrightarrow>
    for_each (owner_call clk (recorded_send send)) calls ((d, l), s) = Some (r, st') \<Longrightarrow>
    spends u m (length (filter (\<lambda>x. x = CallResend u) calls)) ((d, l), s) st'"
proof (induction calls arbitrary: d l s)
  case Nil
  then show ?case by (auto intro: spends_none)
next
  case (Cons call calls)
  have "seq_outcome (owner_call clk (recorded_send send) call ((d, l), s))
      (\<lambda>_. for_each (owner_call clk (recorded_send send)) calls) = Some (r, st')"
    using Cons.prems(4) by simp
  then show ?case
  proof (cases rule: seq_outcome_cases)
    case (error e)
    have "spends u m (if call = CallResend u then 1 else 0) ((d, l), s) st'"
      by (rule owner_call_spends [OF send Cons.prems(1,2) _ error(1)]) (use Cons.prems(3) in auto)
    then show ?thesis by (auto simp: spends_def)
  next
    case (ok a t)
    obtain d2 l2 s2 where t: "t = ((d2, l2), s2)" by (metis prod.collapse)
    have i: "spends u m (if call = CallResend u then 1 else 0) ((d, l), s) t"
      by (rule owner_call_spends [OF send Cons.prems(1,2) _ ok(1)]) (use Cons.prems(3) in auto)
    then have "spends u m (length (filter (\<lambda>x. x = CallResend u) calls)) t st'"
      using Cons.IH [of s2 d2 l2] Cons.prems(3) ok(2) t by (simp add: spends_def)
    from spends_trans [OF i this] show ?thesis by (cases "call = CallResend u") simp_all
  qed
qed

lemma pushed_reply_is_sent:
  assumes send: "leaves_caches send"
    and s: "caches_inv s" "distinct (map fst (mcs_msgcaches s))"
    and new: "\<And>x. CallPush x \<in> set calls \<Longrightarrow> msg_uid x \<noteq> msg_uid m"
    and run: "for_each (owner_call clk (recorded_send send)) (CallPush m # calls) ((d, l), s) = Some (r, ((d', l'), s'))"
  shows "\<exists>ms. l' = l @ ms \<and> (\<forall>x \<in> set ms. msg_uid x = msg_uid m \<longrightarrow> x = m) \<and>
    sent_as (msg_uid m) ms \<le> max 1 (rt_tries (mcs_retry s)) + length (filter (\<lambda>x. x = CallResend (msg_uid m)) calls)"
proof -
  let ?s = "push_msg m s"
  have c: "map_of (mcs_msgcaches ?s) (msg_uid m) = Some (new_msg_cache m (mcs_retry s))"
    by (simp add: push_msg_def map_of_update)
  have "distinct_inv ?s" using distinct_inv_steps(2) s by (simp add: distinct_inv_def)
  moreover have "only_msg (msg_uid m) m ?s" using c by (simp add: only_msg_def new_msg_cache_def)
  moreover have "for_each (owner_call clk (recorded_send send)) calls ((d, l), ?s) = Some (r, ((d', l'), s'))"
    using run by (simp add: on_caches_def)
  ultimately have "spends (msg_uid m) m (length (filter (\<lambda>x. x = CallResend (msg_uid m)) calls)) ((d, l), ?s) ((d', l'), s')"
    using calls_spend [OF send] new by blast
  then show ?thesis
    using c by (auto simp: spends_def budget_def new_msg_cache_def length_retry_timeouts)
qed

text \<open>
  With a clock that advances by at least \<open>e\<close> between two readings, and no timeout longer than that,
  each call of \<open>send_expired\<close> sends until the tries are used up; then the reply is dropped.
\<close>

definition in_step :: "(nat \<Rightarrow> rat) \<Rightarrow> msg_caches \<Rightarrow> bool" where
  "in_step clk s \<longleftrightarrow> 0 < mcs_clock s \<and> mo_delta (mcs_monotonic s) = 0 \<and>
     mo_previous_time (mcs_monotonic s) = clk (mcs_clock s - 1) \<and> mcs_lap s = clk (mcs_clock s - 1)"

lemma mcs_time_advances:
  assumes "\<And>i. clk i + e \<le> clk (Suc i)" "0 < e" "0 < mcs_clock s" "mo_delta (mcs_monotonic s) = 0"
    "mo_previous_time (mcs_monotonic s) = clk (mcs_clock s - 1)"
  shows "mcs_time clk s = (clk (mcs_clock s),
    s\<lparr>mcs_monotonic := (mcs_monotonic s)\<lparr>mo_previous_time := clk (mcs_clock s)\<rparr>, mcs_clock := Suc (mcs_clock s)\<rparr>)"
  using assms(1) [of "mcs_clock s - 1"] assms(2-) by (simp add: mcs_time_def monotonic_time_def Let_def)

lemma patient_send_expired:
  assumes rs: "\<And>x d l s. rs x ((d, l), s) = Some (Inr (), ((d, l @ [x]), s))" and clk: "\<And>i. clk i + e \<le> clk (Suc i)" "0 < e" and s: "in_step clk s" "mcs_msgcaches s = [(u, c)]"
    and c: "mc_timeout c = Some t" "t \<le> e"
  shows "\<exists>s'. send_expired clk rs ((d, l), s) =
      Some (Inr (), ((d, l @ (if mc_timeouts c = [] then [] else [mc_msg c])), s')) \<and> in_step clk s' \<and>
    mcs_msgcaches s' = (case mc_timeouts c of [] \<Rightarrow> []
      | t' # ts \<Rightarrow> [(u, c\<lparr>mc_timeout := Some t', mc_timeouts := ts\<rparr>)])"
proof -
  obtain k where k: "mcs_clock s = Suc k" using s(1) by (auto simp: in_step_def gr0_conv_Suc)
  have e: "\<not> clk (Suc k) - clk k < t" using clk(1) [of k] c(2) by linarith
  note time = mcs_time_advances [of clk e, OF clk]
  let ?c' = "case mc_timeouts c of [] \<Rightarrow> c\<lparr>mc_timeout := None\<rparr> | t' # ts \<Rightarrow> c\<lparr>mc_timeout := Some t', mc_timeouts := ts\<rparr>"
  have n: "mo_delta (mcs_monotonic s) = 0" "mo_previous_time (mcs_monotonic s) = clk k" "mcs_lap s = clk k"
    using s(1) k by (simp_all add: in_step_def)
  note time = mcs_time_advances [of clk e, OF clk]
  let ?s1 = "s\<lparr>mcs_monotonic := (mcs_monotonic s)\<lparr>mo_previous_time := clk (Suc k)\<rparr>, mcs_clock := Suc (Suc k)\<rparr>"
  have el: "mcs_elapsed clk s = (clk (Suc k) - clk k, ?s1)"
    using time [of s] n k by (simp add: mcs_elapsed_def)
  have exp: "cache_send_expired (clk (Suc k) - clk k) c = Inr (?c', mc_timeouts c \<noteq> [])"
    using e c(1) by (simp add: cache_send_expired_def split: list.split)
  let ?s2 = "if mc_timeouts c = [] then remove_uid u (set_cache u ?c' ?s1) else set_cache u ?c' ?s1"
  have item: "send_expired_item clk rs (u, c) ((d, l), s) =
      Some (Inr (), ((d, l @ (if mc_timeouts c = [] then [] else [mc_msg c])), ?s2))"
    by (cases "mc_timeouts c") (simp_all add: send_expired_item_def on_caches_def el exp rs)
  have s2: "mcs_msgcaches ?s2 = (case mc_timeouts c of [] \<Rightarrow> []
      | t' # ts \<Rightarrow> [(u, c\<lparr>mc_timeout := Some t', mc_timeouts := ts\<rparr>)])"
    "mcs_clock ?s2 = Suc (Suc k)" "mcs_monotonic ?s2 = (mcs_monotonic s)\<lparr>mo_previous_time := clk (Suc k)\<rparr>"
    using s(2) by (cases "mc_timeouts c"; simp add: set_cache_def remove_uid_def)+
  have t2: "mcs_time clk ?s2 = (clk (Suc (Suc k)), ?s2\<lparr>mcs_monotonic := (mcs_monotonic ?s2)\<lparr>mo_previous_time := clk (Suc (Suc k))\<rparr>,
      mcs_clock := Suc (Suc (Suc k))\<rparr>)"
    using time [of ?s2] unfolding s2(2,3) using n(1) by simp
  let ?s3 = "?s2\<lparr>mcs_monotonic := (mcs_monotonic ?s2)\<lparr>mo_previous_time := clk (Suc (Suc k))\<rparr>,
      mcs_clock := Suc (Suc (Suc k)), mcs_lap := clk (Suc (Suc k))\<rparr>"
  have A: "send_expired clk rs ((d, l), s) =
      Some (Inr (), ((d, l @ (if mc_timeouts c = [] then [] else [mc_msg c])), ?s3))"
    unfolding send_expired_def using s(2) item t2 by (simp add: on_caches_def)
  have B: "in_step clk ?s3" using n(1) s2(3) by (simp add: in_step_def)
  have C: "mcs_msgcaches ?s3 = mcs_msgcaches ?s2" by simp
  show ?thesis by (intro exI [of _ ?s3] conjI) (rule A, rule B, rule C [unfolded s2(1)])
qed

lemma patient_idle:
  assumes clk: "\<And>i. clk i + e \<le> clk (Suc i)" "0 < e" and s: "in_step clk s" "mcs_msgcaches s = []"
  shows "\<exists>s'. send_expired clk send ((d, l), s) = Some (Inr (), ((d, l), s')) \<and> in_step clk s' \<and> mcs_msgcaches s' = []"
  using s clk mcs_time_advances [of clk e s, OF clk] by (simp add: send_expired_def on_caches_def in_step_def)

lemma patient_idle_calls:
  assumes clk: "\<And>i. clk i + e \<le> clk (Suc i)" "0 < e"
  shows "in_step clk s \<Longrightarrow> mcs_msgcaches s = [] \<Longrightarrow>
    \<exists>s'. for_each (owner_call clk send) (replicate k CallSendExpired) ((d, l), s) = Some (Inr (), ((d, l), s')) \<and>
      mcs_msgcaches s' = []"
proof (induction k arbitrary: s)
  case (Suc k)
  obtain s1 where s1: "send_expired clk send ((d, l), s) = Some (Inr (), ((d, l), s1))" "in_step clk s1" "mcs_msgcaches s1 = []"
    using patient_idle [OF clk Suc.prems, of send d l] by (elim exE conjE)
  from Suc.IH [OF s1(2,3)] show ?case by (simp add: s1(1))
qed simp

lemma patient_calls:
  assumes rs: "\<And>x d l s. rs x ((d, l), s) = Some (Inr (), ((d, l @ [x]), s))" and clk: "\<And>i. clk i + e \<le> clk (Suc i)" "0 < e"
  shows "in_step clk s \<Longrightarrow> mcs_msgcaches s = [(u, c)] \<Longrightarrow> mc_timeout c = Some t \<Longrightarrow> t \<le> e \<Longrightarrow>
    (\<And>x. x \<in> set (mc_timeouts c) \<Longrightarrow> x \<le> e) \<Longrightarrow> length (mc_timeouts c) < n \<Longrightarrow>
    \<exists>s'. for_each (owner_call clk rs) (replicate n CallSendExpired) ((d, l), s) =
      Some (Inr (), ((d, l @ replicate (length (mc_timeouts c)) (mc_msg c)), s')) \<and> mcs_msgcaches s' = []"
proof (induction n arbitrary: s c t l)
  case (Suc n)
  obtain s1 where s1: "send_expired clk rs ((d, l), s) =
      Some (Inr (), ((d, l @ (if mc_timeouts c = [] then [] else [mc_msg c])), s1))" "in_step clk s1"
    "mcs_msgcaches s1 = (case mc_timeouts c of [] \<Rightarrow> []
      | t' # ts \<Rightarrow> [(u, c\<lparr>mc_timeout := Some t', mc_timeouts := ts\<rparr>)])"
    using patient_send_expired [OF rs clk Suc.prems(1-4), of d l] by (elim exE conjE)
  show ?case
  proof (cases "mc_timeouts c")
    case Nil
    from patient_idle_calls [OF clk s1(2), of rs n d l] show ?thesis
      using s1(3) Nil by (simp add: s1(1))
  next
    case (Cons t' ts)
    let ?c = "c\<lparr>mc_timeout := Some t', mc_timeouts := ts\<rparr>"
    have "mcs_msgcaches s1 = [(u, ?c)]" "mc_timeout ?c = Some t'" "t' \<le> e" "length (mc_timeouts ?c) < n"
      "\<And>x. x \<in> set (mc_timeouts ?c) \<Longrightarrow> x \<le> e"
      using s1(3) Cons Suc.prems(5,6) by simp_all
    from Suc.IH [OF s1(2) this(1-3) this(5,4), of "l @ [mc_msg c]"] show ?thesis
      using Cons by (simp add: s1(1))
  qed
qed simp

lemma in_step_new:
  assumes "\<And>i. clk i + e \<le> clk (Suc i)" "0 < e"
  shows "in_step clk (push_msg m (new_msg_caches clk k r))"
  using assms(1) [of k] assms(2)
  by (simp add: in_step_def push_msg_def new_msg_caches_def monotonic_time_def new_monotonic_def Let_def)

lemma patient_reply:
  assumes rs: "\<And>x d l s. rs x ((d, l), s) = Some (Inr (), ((d, l @ [x]), s))"
    and clk: "\<And>i. clk i + e \<le> clk (Suc i)" "0 < e" and r: "\<And>x. x \<in> set (retry_timeouts r) \<Longrightarrow> x \<le> e"
    and n: "max 1 (rt_tries r) < n"
  shows "\<exists>s'. for_each (owner_call clk rs) (CallPush m # replicate n CallSendExpired)
      ((d, l), new_msg_caches clk k r) =
    Some (Inr (), ((d, l @ replicate (max 1 (rt_tries r)) m), s')) \<and> mcs_msgcaches s' = []"
proof -
  let ?s = "push_msg m (new_msg_caches clk k r)"
  have c: "mcs_msgcaches ?s = [(msg_uid m, new_msg_cache m r)]"
    by (simp add: push_msg_def new_msg_caches_def case_prod_beta)
  from patient_calls [OF rs clk in_step_new [of clk e, OF clk] c, of 0 n d l] show ?thesis
    using clk(2) r n by (simp add: on_caches_def new_msg_cache_def length_retry_timeouts)
qed

end
