(* ===== verification/Server.thy ===== *)
theory Server
  imports MsgCaches
begin

text \<open>
  The Python server on the remote side: \<open>shells/remotemodules/servercomm.py\<close>,
  \<open>pythoncmdline.py\<close>, \<open>msghandlers.py\<close> and \<open>servers.py\<close>. Its state is the
  communication with the command line, the reply caches, and the shared buffer of the
  chunk reader. The interpreter (\<open>compile\<close>, \<open>eval\<close>, the text of an exception) and the
  clock are the fields of \<open>python\<close>, an argument. What comes in is a list of arrivals,
  each with the number of times \<open>select\<close> times out before it.
\<close>

section \<open>PythonCmdline\<close>

text \<open>
  The result of \<open>compile\<close>: a code object, a \<open>SyntaxError\<close> with its message, an
  \<open>IndentationError\<close>, or another exception.
\<close>

datatype 'o compiled = CodeObject 'o | SyntaxErr ustr exn | IndentErr exn | CompileRaises exn

record ('n, 'o) python =
  in_compile :: "bool \<Rightarrow> ustr \<Rightarrow> 'o compiled"
  in_eval :: "'o \<Rightarrow> ('n, msg_arg) py"
  in_setitem :: "ustr \<Rightarrow> 'n \<Rightarrow> 'n"
  in_error_text :: "exn \<Rightarrow> ustr \<times> ustr"
  in_clock :: "nat \<Rightarrow> rat"

record 'n cmdline =
  pc_multilinecmd :: ustr
  pc_namespace :: 'n
  pc_current_cmd :: "ustr option"

definition new_cmdline :: "'n \<Rightarrow> 'n cmdline" where
  "new_cmdline ns = \<lparr>pc_multilinecmd = [], pc_namespace = ns, pc_current_cmd = None\<rparr>"

text \<open>Compiled as an expression, and on a \<open>SyntaxError\<close>, of either kind, as statements.\<close>

definition get_code_object :: "('n, 'o) python \<Rightarrow> ustr \<Rightarrow> 'o compiled" where
  "get_code_object P cmd =
     (case in_compile P True cmd of
        SyntaxErr t e \<Rightarrow> in_compile P False cmd
      | IndentErr e \<Rightarrow> in_compile P False cmd
      | r \<Rightarrow> r)"

definition unexpected_EOF :: ustr where
  "unexpected_EOF = ustr_of ''unexpected EOF''"

definition pc_eval :: "('n, 'o) python \<Rightarrow> 'o \<Rightarrow> ('n cmdline, msg_arg) py" where
  "pc_eval P code = (\<lambda>p. map_option (\<lambda>r. (fst r, p\<lparr>pc_namespace := snd r\<rparr>)) (in_eval P code (pc_namespace p)))"

definition exec_command :: "('n, 'o) python \<Rightarrow> ustr \<Rightarrow> ('n cmdline, msg_arg) py" where
  "exec_command P cmd p =
     (let current = pc_multilinecmd p @ cmd;
          p' = p\<lparr>pc_current_cmd := Some current\<rparr>;
          more = p'\<lparr>pc_multilinecmd := pc_multilinecmd p @ cmd @ [10]\<rparr>
      in case get_code_object P current of
           CodeObject code \<Rightarrow> pc_eval P code (p'\<lparr>pc_multilinecmd := []\<rparr>)
         | SyntaxErr t e \<Rightarrow>
             if take (length unexpected_EOF) t = unexpected_EOF then Some (Inr ArgNone, more)
             else Some (Inl e, p'\<lparr>pc_multilinecmd := []\<rparr>)
         | IndentErr e \<Rightarrow> Some (Inr ArgNone, more)
         | CompileRaises e \<Rightarrow> Some (Inl e, p'))"

section \<open>ServerComm\<close>

text \<open>
  \<open>sc_infd\<close> holds what has arrived and is not read, \<open>sc_eof\<close> that the other end was
  closed; an arrival \<open>None\<close> is that closing.
\<close>

record 'n server_core =
  sc_infd :: bytes
  sc_eof :: bool
  sc_arrivals :: "(nat \<times> bytes option) list"
  sc_out :: bytes
  sc_chunk_ack_reading :: bool
  sc_sleep_before_read :: rat
  sc_cmdline :: "'n cmdline"
  sc_server_id :: ustr
  sc_uid_iter :: nat

type_synonym 'n server = "'n server_core \<times> msg_caches"

definition arrive :: "bytes option \<Rightarrow> 'n server_core \<Rightarrow> 'n server_core" where
  "arrive x c = (case x of None \<Rightarrow> c\<lparr>sc_eof := True\<rparr> | Some b \<Rightarrow> c\<lparr>sc_infd := b\<rparr>)"

text \<open>
  \<open>select\<close> on the input with \<open>timeout_args\<close>: without a timeout it waits for the next
  arrival, for ever when there is none.
\<close>

definition sv_select :: "('n server, bool) py" where
  "sv_select st =
     (let c = fst st; args = timeout_args (snd st) in
      if args \<noteq> [] \<and> hd args < 0 then Some (Inl ValueError, st)
      else if sc_infd c \<noteq> [] \<or> sc_eof c then Some (Inr True, st)
      else case sc_arrivals c of
             [] \<Rightarrow> if args = [] then None else Some (Inr False, st)
           | (k, x) # q \<Rightarrow>
               if args = [] \<or> k = 0 then Some (Inr True, (arrive x (c\<lparr>sc_arrivals := q\<rparr>), snd st))
               else Some (Inr False, (c\<lparr>sc_arrivals := (k - 1, x) # q\<rparr>, snd st)))"

definition sv_os_read :: "nat \<Rightarrow> ('n server, bytes) py" where
  "sv_os_read n st =
     (let c = fst st in
      if sc_infd c \<noteq> [] then Some (Inr (take n (sc_infd c)), (c\<lparr>sc_infd := drop n (sc_infd c)\<rparr>, snd st))
      else if sc_eof c then Some (Inr [], st)
      else Some (Inl (OSError 11), st))"

definition sleep_in_broken_systems :: rat where
  "sleep_in_broken_systems = 5 / 100000"

definition sv_read_failed :: "'n server \<Rightarrow> 'n server" where
  "sv_read_failed st = ((fst st)\<lparr>sc_sleep_before_read := sleep_in_broken_systems\<rparr>, snd st)"

definition is_OSError :: "exn \<Rightarrow> bool" where
  "is_OSError e = (case e of OSError i \<Rightarrow> True | _ \<Rightarrow> False)"

text \<open>\<open>hook\<close> is \<open>self._msgcaches.send_expired\<close>; it runs only outside acknowledgement reading.\<close>

partial_function (option) server_read ::
  "('n server, unit) py \<Rightarrow> nat \<Rightarrow> ('n server, bytes) py" where
  "server_read hook n st =
     seq_outcome (sv_select st) (\<lambda>r st1.
       seq_outcome (if sc_chunk_ack_reading (fst st1) then Some (Inr (), st1) else hook st1) (\<lambda>_ st2.
         if r
         then catch_outcome (sv_os_read n st2) (\<lambda>e st3.
                if is_OSError e then server_read hook n (sv_read_failed st3) else Some (Inl e, st3))
         else server_read hook n st2))"

definition sv_write :: "bytes \<Rightarrow> ('n server, unit) py" where
  "sv_write s = modify (\<lambda>st. ((fst st)\<lparr>sc_out := sc_out (fst st) @ s\<rparr>, snd st))"

definition sv_flush :: "('n server, unit) py" where
  "sv_flush = ret ()"

definition sv_set_ack_reading :: "bool \<Rightarrow> 'n server \<Rightarrow> 'n server" where
  "sv_set_ack_reading b st = ((fst st)\<lparr>sc_chunk_ack_reading := b\<rparr>, snd st)"

text \<open>
  Replies are written while the flag of acknowledgement reading suppresses the hook, so
  the reading inside a write takes an empty one.
\<close>

definition sv_comm_write :: "bytes \<Rightarrow> ('n server, unit) py" where
  "sv_comm_write s =
     chunk_write sv_write sv_flush (ack_read_ack (server_read (ret ())) sv_set_ack_reading) s"

definition sv_send_reply :: "msg \<Rightarrow> ('n server, unit) py" where
  "sv_send_reply m = bnd (of_sum (serialize msgmap m)) (\<lambda>s. write_str sv_comm_write s)"

definition sv_send_expired :: "('n, 'o) python \<Rightarrow> ('n server, unit) py" where
  "sv_send_expired P = send_expired (in_clock P) sv_send_reply"

definition sv_read :: "('n, 'o) python \<Rightarrow> nat \<Rightarrow> ('n server, bytes) py" where
  "sv_read P n = server_read (sv_send_expired P) n"

definition sv_read_until_size :: "('n, 'o) python \<Rightarrow> int \<Rightarrow> ('n server \<times> shared_bytes_io, bytes) py" where
  "sv_read_until_size P = chunk_read_int (sv_read P) (ack_write_ack sv_write sv_flush)"

definition send_reply_via_cache :: "('n, 'o) python \<Rightarrow> msg \<Rightarrow> ('n server, unit) py" where
  "send_reply_via_cache P m = andthen (on_caches (\<lambda>s. ((), push_msg m s))) (sv_send_expired P)"

section \<open>Message handlers\<close>

definition on_cmdline :: "('n cmdline, 'a) py \<Rightarrow> ('n server, 'a) py" where
  "on_cmdline m = (\<lambda>st. map_option (\<lambda>r. (fst r, ((fst st)\<lparr>sc_cmdline := snd r\<rparr>, snd st))) (m (sc_cmdline (fst st))))"

definition exec_cmdrequest :: "('n, 'o) python \<Rightarrow> msg \<Rightarrow> ('n server, msg_arg) py" where
  "exec_cmdrequest P m = bnd (of_sum (cmd_of m)) (\<lambda>cmd. on_cmdline (exec_command P cmd))"

text \<open>
  \<open>ExecCommandErrorObj\<close> keeps the command for its text. When no command was ever set
  the text cannot be made; the \<open>AttributeError\<close> of that is raised here, where the
  source raises it on serialising the reply.
\<close>

definition exec_and_get_outobj :: "('n, 'o) python \<Rightarrow> msg \<Rightarrow> ('n server, msg_arg) py" where
  "exec_and_get_outobj P m = catching (exec_cmdrequest P m) (\<lambda>e.
     if is_Exception e
     then bnd (gets (\<lambda>st. pc_current_cmd (sc_cmdline (fst st)))) (\<lambda>cmd. case cmd of
            None \<Rightarrow> throw AttributeError
          | Some c \<Rightarrow> ret (ArgErrorObj (error_obj_text (fst (in_error_text P e)) (snd (in_error_text P e)) c)))
     else throw e)"

definition exec_command_handler :: "('n, 'o) python \<Rightarrow> msg \<Rightarrow> ('n server, unit) py" where
  "exec_command_handler P m =
     bnd (exec_and_get_outobj P m) (\<lambda>a. send_reply_via_cache P (create_reply ExecCommandReply m a))"

definition serve_exit_request_handler :: "msg \<Rightarrow> ('n server, unit) py" where
  "serve_exit_request_handler m = throw ExitFromServe"

definition server_id_request_handler :: "('n, 'o) python \<Rightarrow> msg \<Rightarrow> ('n server, unit) py" where
  "server_id_request_handler P m = bnd (gets (\<lambda>st. sc_server_id (fst st)))
     (\<lambda>i. send_reply_via_cache P (create_reply ServerIdReply m (Arg (PyStr i))))"

definition send_command_handler :: "('n, 'o) python \<Rightarrow> msg \<Rightarrow> ('n server, unit) py" where
  "send_command_handler P m = bnd (exec_cmdrequest P m) (\<lambda>_. ret ())"

section \<open>PythonServer\<close>

text \<open>The handler map of both server classes; other classes are not in it.\<close>

definition handle_msg :: "('n, 'o) python \<Rightarrow> msg \<Rightarrow> ('n server, unit) py" where
  "handle_msg P m =
     (case msg_cls m of
        ExitRequest \<Rightarrow> serve_exit_request_handler m
      | ServerIdRequest \<Rightarrow> server_id_request_handler P m
      | ExecCommandRequest \<Rightarrow> exec_command_handler P m
      | SendCommandRequest \<Rightarrow> send_command_handler P m
      | _ \<Rightarrow> throw KeyError)"

definition sv_send_ack_if_needed :: "msg \<Rightarrow> ('n server, unit) py" where
  "sv_send_ack_if_needed m =
     (if is_response_expected m then sv_send_reply (create_reply Ack m NOARG) else ret ())"

definition reply_cached_or_handle_msg :: "('n, 'o) python \<Rightarrow> msg \<Rightarrow> ('n server, unit) py" where
  "reply_cached_or_handle_msg P m = bnd (gets (\<lambda>st. get_msg (msg_uid m) (snd st))) (\<lambda>r. case r of
     Inr cached \<Rightarrow> sv_send_reply cached
   | Inl e \<Rightarrow> if e = MsgCachesNotFound then handle_msg P m else throw e)"

definition process_msg :: "('n, 'o) python \<Rightarrow> msg \<Rightarrow> ('n server, unit) py" where
  "process_msg P m =
     (if msg_cls m = Ack then on_caches (\<lambda>s. ((), mcs_remove m s))
      else andthen (sv_send_ack_if_needed m) (reply_cached_or_handle_msg P m))"

definition next_class_uid :: "('n server, nat) py" where
  "next_class_uid = bnd (gets (\<lambda>st. sc_uid_iter (fst st)))
     (\<lambda>u. andthen (modify (\<lambda>st. ((fst st)\<lparr>sc_uid_iter := Suc u\<rparr>, snd st))) (ret u))"

definition send_fatal_reply :: "('n, 'o) python \<Rightarrow> exn \<Rightarrow> ('n server, unit) py" where
  "send_fatal_reply P e = bnd next_class_uid (\<lambda>u. sv_send_reply
     (create_with_uid_and_args FatalPythonErrorReply (int u)
        (Arg (PyStr (fst (in_error_text P e) @ [10] @ ustr_of ''Traceback:'' @ [10] @
           snd (in_error_text P e))))))"

definition handle_next_msg :: "('n, 'o) python \<Rightarrow> ('n server \<times> shared_bytes_io, unit) py" where
  "handle_next_msg P =
     catching
       (bnd (read_str (sv_read_until_size P)) (\<lambda>s. bnd (of_sum (deserialize msgmap s))
          (\<lambda>m. on_transport (process_msg P m))))
       (\<lambda>e. if is_Exception e
            then andthen (on_transport (send_fatal_reply P e)) (throw ExitFromServe)
            else throw e)"

definition send_server_id_reply :: "('n, 'o) python \<Rightarrow> ('n server, unit) py" where
  "send_server_id_reply P = bnd next_class_uid (\<lambda>u. bnd (gets (\<lambda>st. sc_server_id (fst st)))
     (\<lambda>i. send_reply_via_cache P
        (set_uid (- 1) (create_with_uid_and_args ServerIdReply (int u) (Arg (PyStr i))))))"

partial_function (option) serve_loop :: "('n, 'o) python \<Rightarrow> ('n server \<times> shared_bytes_io, unit) py" where
  "serve_loop P st =
     catch_outcome (seq_outcome (handle_next_msg P st) (\<lambda>_ st'. serve_loop P st'))
       (\<lambda>e st'. if e = ExitFromServe then Some (Inr (), st') else Some (Inl e, st'))"

definition base_serve :: "('n, 'o) python \<Rightarrow> ('n server \<times> shared_bytes_io, unit) py" where
  "base_serve P = andthen (on_transport (send_server_id_reply P)) (serve_loop P)"

definition exec_ignored :: "('n, 'o) python \<Rightarrow> string \<Rightarrow> ('n server \<times> shared_bytes_io, unit) py" where
  "exec_ignored P cmd = bnd (on_transport (on_cmdline (exec_command P (ustr_of cmd)))) (\<lambda>_. ret ())"

definition setup_iohandles :: "('n, 'o) python \<Rightarrow> ('n server \<times> shared_bytes_io, unit) py" where
  "setup_iohandles P = for_each (\<lambda>h. on_transport (on_cmdline
     (modify (\<lambda>p. p\<lparr>pc_namespace := in_setitem P (ustr_of h) (pc_namespace p)\<rparr>))))
     [''__stdout'', ''__stderr'']"

definition serve :: "('n, 'o) python \<Rightarrow> ('n server \<times> shared_bytes_io, unit) py" where
  "serve P =
     andthen (setup_iohandles P)
      (andthen (for_each (exec_ignored P)
           [''import os, sys'', ''f = open(os.devnull, '' @ [CHR 0x27] @ ''w'' @ [CHR 0x27] @ '')'',
            ''sys.stdout = f'', ''sys.stderr = f''])
         (finally_do (base_serve P)
            (for_each (exec_ignored P) [''sys.stdout = __stdout'', ''sys.stderr = __stderr''])))"

definition new_server :: "('n, 'o) python \<Rightarrow> retry \<Rightarrow> ustr \<Rightarrow> 'n \<Rightarrow> (nat \<times> bytes option) list \<Rightarrow> 'n server" where
  "new_server P r server_id ns q =
     (\<lparr>sc_infd = [], sc_eof = False, sc_arrivals = q, sc_out = [], sc_chunk_ack_reading = False,
       sc_sleep_before_read = 0, sc_cmdline = new_cmdline ns, sc_server_id = server_id, sc_uid_iter = 0\<rparr>,
      new_msg_caches (in_clock P) 0 r)"

section \<open>What a transmission leaves alone\<close>

text \<open>
  \<open>io_only\<close>: of two states of the server, the later differs in the communication only.
\<close>

definition io_only :: "'n server \<Rightarrow> 'n server \<Rightarrow> bool" where
  "io_only st st' \<longleftrightarrow> snd st' = snd st \<and> sc_cmdline (fst st') = sc_cmdline (fst st) \<and>
     sc_server_id (fst st') = sc_server_id (fst st) \<and> sc_uid_iter (fst st') = sc_uid_iter (fst st)"

definition same_cmdline :: "'n server \<Rightarrow> 'n server \<Rightarrow> bool" where
  "same_cmdline st st' \<longleftrightarrow> sc_cmdline (fst st') = sc_cmdline (fst st)"

interpretation io: step_relation io_only
  by unfold_locales (auto simp: io_only_def)

interpretation scmd: step_relation same_cmdline
  by unfold_locales (auto simp: same_cmdline_def)

lemma keeps_mono: "keeps R m \<Longrightarrow> (\<And>s s'. R s s' \<Longrightarrow> R' s s') \<Longrightarrow> keeps R' m"
  by (auto simp: keeps_def)

lemma io_same_cmdline: "io_only st st' \<Longrightarrow> same_cmdline st st'"
  by (simp add: io_only_def same_cmdline_def)

lemma io_caches_grow: "io_only st st' \<Longrightarrow> caches_grow st st'"
  by (simp add: io_only_def caches_grow_def grows_refl)

lemma sv_select_io: "sv_select st = Some (r, st') \<Longrightarrow> io_only st st'"
  by (auto simp: sv_select_def Let_def io_only_def arrive_def
      split: if_splits list.splits option.splits)

lemma sv_os_read_io: "sv_os_read n st = Some (r, st') \<Longrightarrow> io_only st st'"
  by (auto simp: sv_os_read_def Let_def io_only_def split: if_splits)

lemma server_read_step_io:
  assumes "\<And>hook n st p. f hook n st = Some p \<Longrightarrow> keeps io_only hook \<longrightarrow> io_only st (snd p)"
    and "seq_outcome (sv_select st) (\<lambda>r st1.
       seq_outcome (if sc_chunk_ack_reading (fst st1) then Some (Inr (), st1) else hook st1) (\<lambda>_ st2.
         if r
         then catch_outcome (sv_os_read n st2) (\<lambda>e st3.
                if is_OSError e then f hook n (sv_read_failed st3) else Some (Inl e, st3))
         else f hook n st2)) = Some p"
    and "keeps io_only hook"
  shows "io_only st (snd p)"
proof -
  obtain x u where p: "p = (x, u)" by (cases p)
  note s = assms(2) [unfolded p]
  show ?thesis
    using s
  proof (cases rule: seq_outcome_cases)
    case (error e)
    then show ?thesis by (auto simp: p dest: sv_select_io)
  next
    case (ok r st1)
    have 1: "io_only st st1" using ok(1) by (rule sv_select_io)
    from ok(2) show ?thesis
    proof (cases rule: seq_outcome_cases)
      case (error e)
      then have "io_only st1 u" using assms(3) by (auto dest: keepsD split: if_splits simp: io.R_refl)
      with 1 show ?thesis by (auto simp: p intro: io.R_trans)
    next
      case (ok y st2)
      then have "io_only st1 st2" using assms(3) by (auto dest: keepsD split: if_splits simp: io.R_refl)
      with 1 have 2: "io_only st st2" by (rule io.R_trans)
      have failed: "io_only st3 (sv_read_failed st3)" for st3 :: "'a server"
        by (simp add: sv_read_failed_def io_only_def)
      show ?thesis
      proof (cases r)
        case False
        with ok(2) have "f hook n st2 = Some p" by (simp add: p)
        then have "io_only st2 (snd p)" using assms(1,3) by blast
        with 2 show ?thesis by (rule io.R_trans)
      next
        case True
        obtain z st3 where r: "sv_os_read n st2 = Some (z, st3)"
          by (cases "sv_os_read n st2") (auto simp: sv_os_read_def Let_def split: if_splits)
        then have 3: "io_only st st3" using 2 sv_os_read_io io.R_trans by blast
        show ?thesis
        proof (cases z)
          case (Inl e)
          with ok(2) True r have "(if is_OSError e then f hook n (sv_read_failed st3) else Some (Inl e, st3)) = Some (x, u)"
            by simp
          then consider "u = st3" | "f hook n (sv_read_failed st3) = Some p"
            by (auto simp: p split: if_splits)
          then show ?thesis
          proof cases
            case 1
            with 3 p show ?thesis by simp
          next
            case 2
            then have "io_only (sv_read_failed st3) (snd p)" using assms(1,3) by blast
            then show ?thesis using io.R_trans [OF 3 failed] io.R_trans by blast
          qed
        next
          case (Inr b)
          with ok(2) True r 3 p show ?thesis by simp
        qed
      qed
    qed
  qed
qed

lemma server_read_io: "keeps io_only hook \<Longrightarrow> keeps io_only (server_read hook n)"
proof (rule keeps_gen)
  fix st r st'
  assume h: "keeps io_only hook" and "server_read hook n st = Some (r, st')"
  then have "keeps io_only hook \<longrightarrow> io_only st (snd (r, st'))"
    using server_read_step_io
    by (elim server_read.raw_induct [where P = "\<lambda>hook n st p. keeps io_only hook \<longrightarrow> io_only st (snd p)", rotated]) blast
  with h show "io_only st st'" by simp
qed

lemma sv_send_reply_io: "keeps io_only (sv_send_reply m)"
proof -
  have "keeps io_only (sv_comm_write s)" for s
    unfolding sv_comm_write_def
    by (intro io.keeps_chunk_write io.keeps_ack_read_ack server_read_io io.keeps_simple)
      (simp_all add: sv_write_def sv_flush_def io.keeps_modify io.keeps_simple io_only_def sv_set_ack_reading_def)
  then show ?thesis
    unfolding sv_send_reply_def write_str_def by (intro io.keeps)
qed

lemmas sv_send_reply_keeps =
  sv_send_reply_io
  sv_send_reply_io [THEN keeps_mono, OF io_caches_grow]
  sv_send_reply_io [THEN keeps_mono, OF io_same_cmdline]

text \<open>The calls of \<open>MsgCaches\<close> in the server, for the record of what is sent.\<close>

lemma server_calls:
  "send_reply_via_cache P m = for_each (owner_call (in_clock P) sv_send_reply) [CallPush m, CallSendExpired]"
  "known (msg_uid m) (snd st) \<Longrightarrow>
     reply_cached_or_handle_msg P m st = owner_call (in_clock P) sv_send_reply (CallResend (msg_uid m)) st"
proof -
  have u: "(\<lambda>_. ret ()) = (ret :: unit \<Rightarrow> ('s, unit) py)" by auto
  have r: "seq_outcome r (ret :: unit \<Rightarrow> ('s, unit) py) = r" for r :: "('s, unit) outcome"
    by (cases r) (auto simp: seq_outcome_def prod_eq_iff split: sum.split)
  have a: "andthen m (ret ()) = m" for m :: "('s, unit) py" by (simp add: fun_eq_iff u r)
  show "send_reply_via_cache P m = for_each (owner_call (in_clock P) sv_send_reply) [CallPush m, CallSendExpired]"
    unfolding for_each.simps owner_call.simps send_reply_via_cache_def sv_send_expired_def a ..
  assume "known (msg_uid m) (snd st)"
  then have n: "get_msg (msg_uid m) (snd st) \<noteq> Inl MsgCachesNotFound" by (simp add: not_found_iff)
  show "reply_cached_or_handle_msg P m st = owner_call (in_clock P) sv_send_reply (CallResend (msg_uid m)) st"
    using n by (cases "get_msg (msg_uid m) (snd st)") (simp_all add: reply_cached_or_handle_msg_def)
qed

lemma server_sender: "leaves_caches sv_send_reply"
  using keepsD [OF sv_send_reply_io] unfolding leaves_caches_def io_only_def by fastforce

section \<open>At most one execution\<close>

lemma sv_send_expired_grows: "keeps caches_grow (sv_send_expired P)"
  by (rule keeps_gen)
    (auto simp: sv_send_expired_def caches_grow_def intro: send_expired_grows [OF sv_send_reply_keeps(2)])

lemma on_caches_same_cmdline: "keeps same_cmdline (on_caches f)"
  by (rule keeps_gen) (auto simp: on_caches_def same_cmdline_def split: prod.splits)

lemma sv_send_expired_same_cmdline: "keeps same_cmdline (sv_send_expired P)"
  unfolding sv_send_expired_def send_expired_def send_expired_item_def
  by (intro scmd.keeps_bnd scmd.keeps_andthen scmd.keeps_for_each scmd.keeps_simple
      on_caches_same_cmdline keeps_if sv_send_reply_keeps(3))

lemma send_reply_via_cache_grows: "keeps caches_grow (send_reply_via_cache P m)"
  unfolding send_reply_via_cache_def
  by (intro cgrow.keeps_andthen keeps_on_caches sv_send_expired_grows) (simp add: grows_push)

text \<open>The uid of a reply is known from its first transmission on, failed or not.\<close>

lemma send_reply_via_cache_known:
  assumes "send_reply_via_cache P m st = Some (r, st')" "caches_inv (snd st)"
  shows "known (msg_uid m) (snd st')"
proof -
  let ?st = "(fst st, push_msg m (snd st))"
  have "sv_send_expired P ?st = Some (r, st')"
    using assms(1) by (simp add: send_reply_via_cache_def on_caches_def)
  then have "caches_grow ?st st'" using keepsD [OF sv_send_expired_grows] by blast
  moreover have "caches_inv (snd ?st)" using grows_push [OF assms(2)] by (simp add: grows_def)
  ultimately show ?thesis by (simp add: caches_grow_def grows_def known_push)
qed

lemma on_cmdline_grows: "keeps caches_grow (on_cmdline m)"
  by (rule keeps_gen) (auto simp: on_cmdline_def caches_grow_def grows_refl)

lemma exec_cmdrequest_grows: "keeps caches_grow (exec_cmdrequest P m)"
  unfolding exec_cmdrequest_def by (intro cgrow.keeps_bnd cgrow.keeps_simple on_cmdline_grows)

lemma exec_and_get_outobj_grows: "keeps caches_grow (exec_and_get_outobj P m)"
  unfolding exec_and_get_outobj_def
  by (intro cgrow.keeps_catching exec_cmdrequest_grows keeps_splits cgrow.keeps_bnd cgrow.keeps_simple)

lemma handle_msg_grows: "keeps caches_grow (handle_msg P m)"
  unfolding handle_msg_def serve_exit_request_handler_def server_id_request_handler_def
    exec_command_handler_def send_command_handler_def
  by (cases "msg_cls m")
    (simp_all add: cgrow.keeps_simple cgrow.keeps_bnd send_reply_via_cache_grows
      exec_and_get_outobj_grows exec_cmdrequest_grows)

lemma sv_send_ack_if_needed_io: "keeps io_only (sv_send_ack_if_needed m)"
  unfolding sv_send_ack_if_needed_def by (intro keeps_if sv_send_reply_io io.keeps_simple)

lemma reply_cached_or_handle_grows: "keeps caches_grow (reply_cached_or_handle_msg P m)"
  unfolding reply_cached_or_handle_msg_def
  by (intro cgrow.keeps_bnd cgrow.keeps_simple keeps_splits handle_msg_grows sv_send_reply_keeps(2))

lemma process_msg_grows: "keeps caches_grow (process_msg P m)"
  unfolding process_msg_def
  by (intro keeps_if keeps_on_caches cgrow.keeps_andthen reply_cached_or_handle_grows
      keeps_mono [OF sv_send_ack_if_needed_io] io_caches_grow) (simp_all add: grows_remove)

text \<open>A request whose uid is known executes nothing.\<close>

lemma process_known:
  assumes "known (msg_uid m) (snd st)" "process_msg P m st = Some (r, st')"
  shows "same_cmdline st st'"
proof (cases "msg_cls m = Ack")
  case True
  then show ?thesis
    using assms(2) keepsD [OF on_caches_same_cmdline] by (simp add: process_msg_def)
next
  case False
  have s: "seq_outcome (sv_send_ack_if_needed m st) (\<lambda>_. reply_cached_or_handle_msg P m) = Some (r, st')"
    using assms(2) False by (simp add: process_msg_def)
  then show ?thesis
  proof (cases rule: seq_outcome_cases)
    case (error e)
    then show ?thesis using keepsD [OF sv_send_ack_if_needed_io] io_same_cmdline by blast
  next
    case (ok a st1)
    have 1: "io_only st st1" using ok(1) keepsD [OF sv_send_ack_if_needed_io] by blast
    with assms(1) have "get_msg (msg_uid m) (snd st1) \<noteq> Inl MsgCachesNotFound"
      by (simp add: io_only_def not_found_iff)
    then have "keeps same_cmdline (case get_msg (msg_uid m) (snd st1) of
        Inr cached \<Rightarrow> sv_send_reply cached
      | Inl e \<Rightarrow> if e = MsgCachesNotFound then handle_msg P m else throw e)"
      by (auto simp: scmd.keeps_simple sv_send_reply_keeps(3) split: sum.splits)
    with ok(2) have "same_cmdline st1 st'"
      by (auto simp: reply_cached_or_handle_msg_def elim: keepsD)
    with io_same_cmdline [OF 1] show ?thesis by (rule scmd.R_trans)
  qed
qed

text \<open>After an \<open>ExecCommandRequest\<close> was processed its uid is known.\<close>

lemma process_exec_known:
  assumes "msg_cls m = ExecCommandRequest" "process_msg P m st = Some (Inr (), st')" "caches_inv (snd st)"
  shows "known (msg_uid m) (snd st')"
proof -
  have "seq_outcome (sv_send_ack_if_needed m st) (\<lambda>_. reply_cached_or_handle_msg P m) = Some (Inr (), st')"
    using assms(1,2) by (simp add: process_msg_def)
  then obtain a st1 where 1: "sv_send_ack_if_needed m st = Some (Inr a, st1)"
    and 2: "reply_cached_or_handle_msg P m st1 = Some (Inr (), st')"
    by (auto simp: seq_outcome_Inr_iff)
  have inv: "caches_inv (snd st1)" "snd st1 = snd st"
    using keepsD [OF sv_send_ack_if_needed_io 1] assms(3) by (simp_all add: io_only_def)
  show ?thesis
  proof (cases "known (msg_uid m) (snd st1)")
    case True
    then show ?thesis
      using keepsD [OF reply_cached_or_handle_grows 2] inv(1) by (simp add: caches_grow_def grows_def)
  next
    case False
    with 2 have "handle_msg P m st1 = Some (Inr (), st')"
      by (simp add: reply_cached_or_handle_msg_def not_found_iff [symmetric])
    with assms(1) obtain a st2 where "exec_and_get_outobj P m st1 = Some (Inr a, st2)"
      "send_reply_via_cache P (create_reply ExecCommandReply m a) st2 = Some (Inr (), st')"
      by (auto simp: handle_msg_def exec_command_handler_def seq_outcome_Inr_iff)
    moreover from this(1) have "caches_inv (snd st2)"
      using keepsD [OF exec_and_get_outobj_grows] inv(1) unfolding caches_grow_def grows_def by blast
    ultimately show ?thesis
      using send_reply_via_cache_known by (fastforce simp: create_reply_def create_with_uid_and_args_def)
  qed
qed

lemma process_all_known:
  assumes "for_each (process_msg P) ms st = Some (Inr (), st')" "caches_inv (snd st)"
    "m \<in> set ms" "msg_cls m = ExecCommandRequest"
  shows "known (msg_uid m) (snd st') \<and> caches_inv (snd st')"
  using assms
proof (induction ms arbitrary: st)
  case Nil
  then show ?case by simp
next
  case (Cons m' ms)
  then obtain st1 where 1: "process_msg P m' st = Some (Inr (), st1)"
    and 2: "for_each (process_msg P) ms st1 = Some (Inr (), st')"
    by (auto simp: seq_outcome_Inr_iff)
  have inv: "caches_inv (snd st1)"
    using keepsD [OF process_msg_grows 1] Cons.prems(2) by (simp add: caches_grow_def grows_def)
  show ?case
  proof (cases "m' = m")
    case True
    then have "known (msg_uid m) (snd st1)"
      using process_exec_known [OF Cons.prems(4) _ Cons.prems(2)] 1 by blast
    moreover have "keeps caches_grow (for_each (process_msg P) ms)"
      by (rule cgrow.keeps_for_each) (rule process_msg_grows)
    then have "caches_grow st1 st'" using 2 by (rule keepsD)
    ultimately show ?thesis using inv by (simp add: caches_grow_def grows_def)
  next
    case False
    with Cons.IH [OF 2 inv] Cons.prems(3,4) show ?thesis by simp
  qed
qed

section \<open>The server's communication as a channel\<close>

text \<open>
  With no reply waiting for its acknowledgement the server's communication is a channel
  like the terminal's.
\<close>

definition sv_rep :: "'n server \<Rightarrow> bytes \<Rightarrow> bytes \<Rightarrow> bool" where
  "sv_rep st l v \<longleftrightarrow> mcs_msgcaches (snd st) = [] \<and> sc_out (fst st) = l \<and> \<not> sc_eof (fst st) \<and>
     (\<forall>(k, x) \<in> set (sc_arrivals (fst st)). x \<noteq> None \<and> x \<noteq> Some []) \<and>
     v = sc_infd (fst st) @ concat (map (\<lambda>(k, x). the x) (sc_arrivals (fst st)))"

lemma send_expired_empty:
  assumes "mcs_msgcaches (snd st) = []"
  shows "\<exists>s. send_expired clk send st = Some (Inr (), (fst st, s)) \<and> mcs_msgcaches s = []"
  using assms by (auto simp: send_expired_def on_caches_def mcs_time_def Let_def split: prod.splits)

lemma timeout_args_empty: "mcs_msgcaches s = [] \<Longrightarrow> timeout_args s = []"
  by (simp add: timeout_args_def mcs_timeout_def)

lemma sv_read_law: "raw_source (sv_read P) (\<lambda>st. sv_rep st l)"
proof
  fix st :: "'a server" and v n
  assume rep: "sv_rep st l v" and v: "v \<noteq> []" and n: "0 < (n :: nat)"
  let ?c = "fst st"
  obtain c where sel: "sv_select st = Some (Inr True, (c, snd st))" and c: "sv_rep (c, snd st) l v" "sc_infd c \<noteq> []"
  proof (cases "sc_infd ?c = []")
    case False
    with rep show thesis
      using that [of ?c] by (auto simp: sv_select_def sv_rep_def timeout_args_empty Let_def)
  next
    case True
    with rep v obtain k b q where "sc_arrivals ?c = (k, Some b) # q" "b \<noteq> []"
      by (cases "sc_arrivals ?c") (auto simp: sv_rep_def)
    with rep True show thesis
      using that [of "arrive (Some b) (?c\<lparr>sc_arrivals := q\<rparr>)"]
      by (auto simp: sv_select_def sv_rep_def timeout_args_empty Let_def arrive_def)
  qed
  obtain s where hook: "sv_send_expired P (c, snd st) = Some (Inr (), (c, s))" "mcs_msgcaches s = []"
    using send_expired_empty [of "(c, snd st)" "in_clock P" sv_send_reply] rep
    by (auto simp: sv_send_expired_def sv_rep_def)
  let ?r = "\<lambda>s. (c\<lparr>sc_infd := drop n (sc_infd c)\<rparr>, s)"
  have "\<exists>s. sv_read P n st = Some (Inr (take n (sc_infd c)), ?r s) \<and> mcs_msgcaches s = []"
    using sel hook c rep
    by (subst sv_read_def, subst server_read.simps)
      (auto simp: sv_os_read_def Let_def sv_rep_def)
  moreover have "take n (sc_infd c) \<noteq> []" using c(2) n by (cases "sc_infd c") auto
  moreover have "v = take n (sc_infd c) @ drop n (sc_infd c) @ concat (map (\<lambda>(k, x). the x) (sc_arrivals c))"
    using c(1) by (simp add: sv_rep_def)
  moreover have "sv_rep (?r s) l (drop n (sc_infd c) @ concat (map (\<lambda>(k, x). the x) (sc_arrivals c)))"
    if "mcs_msgcaches s = []" for s
    using c(1) that by (simp add: sv_rep_def)
  ultimately show "\<exists>b st' v'. sv_read P n st = Some (Inr b, st') \<and> b \<noteq> [] \<and> length b \<le> n \<and> v = b @ v' \<and> sv_rep st' l v'"
    using length_take [of n "sc_infd c"] by (metis min.cobounded2)
qed

interpretation sv: duplex_channel "sv_read P" sv_write sv_flush sv_set_ack_reading sv_rep for P
  by (rule duplex_channel.intro)
    (simp_all add: sv_read_law, auto simp: sv_write_def sv_flush_def sv_set_ack_reading_def sv_rep_def)

text \<open>
  While acknowledgements are read replies may be waiting: \<open>select\<close> then times out some
  number of times before the next arrival, and nothing is retransmitted in between.
\<close>

definition sva_rep :: "'n server \<Rightarrow> bytes \<Rightarrow> bytes \<Rightarrow> bool" where
  "sva_rep st l v \<longleftrightarrow> (\<forall>t \<in> set (timeout_args (snd st)). 0 \<le> t) \<and> sc_out (fst st) = l \<and> \<not> sc_eof (fst st) \<and>
     (\<forall>(k, x) \<in> set (sc_arrivals (fst st)). x \<noteq> None \<and> x \<noteq> Some []) \<and>
     v = sc_infd (fst st) @ concat (map (\<lambda>(k, x). the x) (sc_arrivals (fst st)))"

lemma server_read_buffered:
  assumes "sva_rep st l v" "sc_infd (fst st) \<noteq> []" "0 < n"
  shows "\<exists>b st' v'. server_read (ret ()) n st = Some (Inr b, st') \<and> b \<noteq> [] \<and> length b \<le> n \<and> v = b @ v' \<and> sva_rep st' l v'"
proof -
  let ?c = "fst st" and ?rest = "concat (map (\<lambda>(k, x). the x) (sc_arrivals (fst st)))"
  let ?st = "(?c\<lparr>sc_infd := drop n (sc_infd ?c)\<rparr>, snd st)"
  have "sv_select st = Some (Inr True, st)"
    using assms by (cases "timeout_args (snd st)") (auto simp: sv_select_def sva_rep_def Let_def)
  then have "server_read (ret ()) n st = Some (Inr (take n (sc_infd ?c)), ?st)"
    using assms(2) by (subst server_read.simps) (simp add: sv_os_read_def Let_def)
  moreover have "take n (sc_infd ?c) \<noteq> []" using assms(2,3) by (cases "sc_infd ?c") auto
  moreover have "v = take n (sc_infd ?c) @ drop n (sc_infd ?c) @ ?rest" using assms(1) by (simp add: sva_rep_def)
  moreover have "sva_rep ?st l (drop n (sc_infd ?c) @ ?rest)" using assms(1) by (simp add: sva_rep_def)
  ultimately show ?thesis
    using length_take [of n "sc_infd ?c"] by (metis min.cobounded2)
qed

lemma server_read_arrival:
  assumes "sva_rep st l v" "sc_infd (fst st) = []" "sc_arrivals (fst st) = (k, Some b) # q" "b \<noteq> []" "0 < n"
  shows "\<exists>b st' v'. server_read (ret ()) n st = Some (Inr b, st') \<and> b \<noteq> [] \<and> length b \<le> n \<and> v = b @ v' \<and> sva_rep st' l v'"
  using assms(1-3)
proof (induction k arbitrary: st)
  case 0
  let ?c = "(fst st)\<lparr>sc_arrivals := q, sc_infd := b\<rparr>"
  have "sv_select st = Some (Inr True, (?c, snd st))"
    using "0.prems" by (cases "timeout_args (snd st)") (auto simp: sv_select_def sva_rep_def Let_def arrive_def)
  moreover have "sv_select (?c, snd st) = Some (Inr True, (?c, snd st))"
    using "0.prems" assms(4) by (cases "timeout_args (snd st)") (auto simp: sv_select_def sva_rep_def Let_def)
  ultimately have eq: "server_read (ret ()) n st = server_read (ret ()) n (?c, snd st)"
    by (subst (1 2) server_read.simps) simp
  show ?case
    unfolding eq
    by (rule server_read_buffered [OF _ _ assms(5)]) (use "0.prems" assms(4) in \<open>simp_all add: sva_rep_def\<close>)
next
  case (Suc k)
  show ?case
  proof (cases "timeout_args (snd st)")
    case Nil
    let ?c = "(fst st)\<lparr>sc_arrivals := q, sc_infd := b\<rparr>"
    have "sv_select st = Some (Inr True, (?c, snd st))"
      using Suc.prems Nil by (auto simp: sv_select_def sva_rep_def Let_def arrive_def)
    moreover have "sv_select (?c, snd st) = Some (Inr True, (?c, snd st))"
      using Suc.prems assms(4) Nil by (auto simp: sv_select_def sva_rep_def Let_def)
    ultimately have eq: "server_read (ret ()) n st = server_read (ret ()) n (?c, snd st)"
      by (subst (1 2) server_read.simps) simp
    show ?thesis
      unfolding eq
      by (rule server_read_buffered [OF _ _ assms(5)]) (use Suc.prems assms(4) in \<open>simp_all add: sva_rep_def\<close>)
  next
    case (Cons t ts)
    let ?st = "((fst st)\<lparr>sc_arrivals := (k, Some b) # q\<rparr>, snd st)"
    have "sv_select st = Some (Inr False, ?st)"
      using Suc.prems Cons by (auto simp: sv_select_def sva_rep_def Let_def)
    then have eq: "server_read (ret ()) n st = server_read (ret ()) n ?st"
      by (subst server_read.simps) simp
    show ?thesis
      unfolding eq by (rule Suc.IH) (use Suc.prems in \<open>simp_all add: sva_rep_def\<close>)
  qed
qed

lemma sva_read_law: "raw_source (server_read (ret ())) (\<lambda>st. sva_rep st l)"
proof
  fix st :: "'a server" and v n
  assume rep: "sva_rep st l v" and v: "v \<noteq> []" and n: "0 < (n :: nat)"
  show "\<exists>b st' v'. server_read (ret ()) n st = Some (Inr b, st') \<and> b \<noteq> [] \<and> length b \<le> n \<and> v = b @ v' \<and> sva_rep st' l v'"
  proof (cases "sc_infd (fst st) = []")
    case False
    show ?thesis by (rule server_read_buffered [OF rep False n])
  next
    case True
    with rep v obtain k b q where "sc_arrivals (fst st) = (k, Some b) # q" "b \<noteq> []"
      by (cases "sc_arrivals (fst st)") (auto simp: sva_rep_def)
    from server_read_arrival [OF rep True this n] show ?thesis .
  qed
qed

interpretation sva: duplex_channel "server_read (ret ())" sv_write sv_flush sv_set_ack_reading sva_rep
  by (rule duplex_channel.intro)
    (simp_all add: sva_read_law, auto simp: sv_write_def sv_flush_def sv_set_ack_reading_def sva_rep_def)

text \<open>A reply goes out in its wire form and takes its acknowledgements.\<close>

lemma sv_send_reply_returns:
  assumes "serialize msgmap m = Inr s" "sva_rep st l (wire_acks s @ rest)"
  shows "\<exists>st'. sv_send_reply m st = Some (Inr (), st') \<and> sva_rep st' (l @ wire s) rest \<and> io_only st st'"
proof -
  obtain st' where w: "write_str sv_comm_write s st = Some (Inr (), st')" "sva_rep st' (l @ wire s) rest"
    using sva.string_written [OF assms(2)] unfolding write_str_def sv_comm_write_def by auto
  then have "sv_send_reply m st = Some (Inr (), st')" using assms(1) by (simp add: sv_send_reply_def)
  with w show ?thesis using keepsD [OF sv_send_reply_io] by blast
qed

text \<open>Reading is the same with every hook as long as the flag is set: the hook is not used.\<close>

section \<open>Answering a request\<close>

text \<open>Between two messages, when every reply was acknowledged.\<close>

definition idle :: "msg_caches \<Rightarrow> bool" where
  "idle s \<longleftrightarrow> mcs_msgcaches s = [] \<and> mcs_lap s \<le> mo_previous_time (mcs_monotonic s) \<and>
     (\<forall>t \<in> set (retry_timeouts (mcs_retry s)). 0 \<le> t)"

text \<open>The caches after a reply was pushed and sent once.\<close>

definition answered :: "(nat \<Rightarrow> rat) \<Rightarrow> msg \<Rightarrow> msg_caches \<Rightarrow> msg_caches" where
  "answered clk m s =
     (let ts = retry_timeouts (mcs_retry s);
          c = (new_msg_cache m (mcs_retry s))\<lparr>mc_timeout := Some (hd ts), mc_timeouts := tl ts\<rparr>;
          r = mcs_time clk (set_cache (msg_uid m) c (snd (mcs_elapsed clk (push_msg m s))))
      in (snd r)\<lparr>mcs_lap := fst r\<rparr>)"

lemma retry_timeouts_nonempty: "retry_timeouts r \<noteq> []"
  by (simp add: retry_timeouts_def)

lemma answered_caches:
  assumes "mcs_msgcaches s = []"
  shows "mcs_msgcaches (answered clk m s) = [(msg_uid m, (new_msg_cache m (mcs_retry s))
      \<lparr>mc_timeout := Some (hd (retry_timeouts (mcs_retry s))), mc_timeouts := tl (retry_timeouts (mcs_retry s))\<rparr>)]"
    "mcs_retry (answered clk m s) = mcs_retry s" "mcs_removed (answered clk m s) = mcs_removed s"
  using assms by (simp_all add: answered_def Let_def mcs_time_def mcs_elapsed_def set_cache_def push_msg_def)

text \<open>A pushed reply is sent at once and stays in the cache.\<close>

lemma send_reply_via_cache_returns:
  assumes "idle (snd st)" "serialize msgmap m = Inr s" "sva_rep st l (wire_acks s @ rest)"
  shows "\<exists>st'. send_reply_via_cache P m st = Some (Inr (), st') \<and> sva_rep st' (l @ wire s) rest \<and>
    sc_cmdline (fst st') = sc_cmdline (fst st) \<and> sc_uid_iter (fst st') = sc_uid_iter (fst st) \<and>
    snd st' = answered (in_clock P) m (snd st)"
proof -
  let ?u = "msg_uid m" and ?clk = "in_clock P" and ?r = "mcs_retry (snd st)"
  let ?c = "new_msg_cache m ?r" and ?ts = "retry_timeouts (mcs_retry (snd st))"
  let ?st = "(fst st, push_msg m (snd st))"
  let ?c' = "?c\<lparr>mc_timeout := Some (hd ?ts), mc_timeouts := tl ?ts\<rparr>"
  have items: "mcs_msgcaches (snd ?st) = [(?u, ?c)]"
    using assms(1) by (simp add: idle_def push_msg_def)
  have ts: "?ts = hd ?ts # tl ?ts" using retry_timeouts_nonempty by simp
  have t0: "0 \<le> hd ?ts" using assms(1) hd_in_set [OF retry_timeouts_nonempty] by (auto simp: idle_def)
  obtain e s1 where e: "mcs_elapsed ?clk (snd ?st) = (e, s1)" by fastforce
  have s1: "mcs_msgcaches s1 = [(?u, ?c)]" and pos: "0 < e"
    using e items assms(1) monotonic_time_increases(1)
      [of "mcs_monotonic (snd st)" "?clk (mcs_clock (snd st))"]
    by (auto simp: mcs_elapsed_def mcs_time_def Let_def push_msg_def idle_def)
  have exp: "cache_send_expired e ?c = Inr (?c', True)"
    using pos retry_timeouts_nonempty [of ?r] by (cases ?ts) (simp_all add: cache_send_expired_def new_msg_cache_def)
  have set1: "mcs_msgcaches (set_cache ?u ?c' s1) = [(?u, ?c')]" by (simp add: set_cache_def s1)
  have "sva_rep (fst st, set_cache ?u ?c' s1) l (wire_acks s @ rest)"
    using assms(3) t0 by (simp add: sva_rep_def timeout_args_def mcs_timeout_def set1)
  from sv_send_reply_returns [OF assms(2) this] obtain st2 where
    st2: "sv_send_reply m (fst st, set_cache ?u ?c' s1) = Some (Inr (), st2)" "sva_rep st2 (l @ wire s) rest"
    "io_only (fst st, set_cache ?u ?c' s1) st2"
    by blast
  obtain t2 s3 where t2: "mcs_time ?clk (snd st2) = (t2, s3)" by fastforce
  have snd2: "snd st2 = set_cache ?u ?c' s1" using st2(3) by (simp add: io_only_def)
  have c3: "mcs_msgcaches s3 = [(?u, ?c')]"
    using t2 snd2 set1 by (auto simp: mcs_time_def Let_def)
  have m': "mc_msg ?c' = m" by (simp add: new_msg_cache_def)
  have "send_expired_item ?clk sv_send_reply (?u, ?c) ?st = Some (Inr (), st2)"
    using e exp st2(1) m' by (simp add: send_expired_item_def on_caches_def)
  then have "send_reply_via_cache P m st = Some (Inr (), (fst st2, s3\<lparr>mcs_lap := t2\<rparr>))"
    using items t2
    by (simp add: send_reply_via_cache_def sv_send_expired_def send_expired_def on_caches_def)
  moreover have "s3\<lparr>mcs_lap := t2\<rparr> = answered ?clk m (snd st)"
    using t2 snd2 e by (simp add: answered_def Let_def)
  moreover have "sva_rep (fst st2, s3\<lparr>mcs_lap := t2\<rparr>) (l @ wire s) rest"
    using st2(2) c3 t0 by (simp add: sva_rep_def timeout_args_def mcs_timeout_def)
  ultimately show ?thesis using st2(3) by (auto simp: io_only_def)
qed

text \<open>
  The reference: one command in an interpreter without a server. An exception becomes the object
  that tells of it.
\<close>

definition repl_step :: "('n, 'o) python \<Rightarrow> ustr \<Rightarrow> ('n cmdline, msg_arg) py" where
  "repl_step P cmd p = (case exec_command P cmd p of
     Some (Inl e, p') \<Rightarrow> if is_Exception e
       then Some (Inr (ArgErrorObj (error_obj_text (fst (in_error_text P e)) (snd (in_error_text P e))
              (pc_multilinecmd p @ cmd))), p')
       else Some (Inl e, p')
   | r \<Rightarrow> r)"

lemma exec_command_current:
  "exec_command P cmd p = Some (r, p') \<Longrightarrow> pc_current_cmd p' = Some (pc_multilinecmd p @ cmd)"
  by (auto simp: exec_command_def Let_def pc_eval_def split: compiled.splits if_splits)

lemma exec_and_get_outobj_repl:
  assumes "cmd_of m = Inr cmd"
  shows "exec_and_get_outobj P m = on_cmdline (repl_step P cmd)"
proof
  fix st :: "'a server"
  show "exec_and_get_outobj P m st = on_cmdline (repl_step P cmd) st"
  proof (cases "exec_command P cmd (sc_cmdline (fst st))")
    case None
    then show ?thesis
      using assms by (simp add: exec_and_get_outobj_def exec_cmdrequest_def on_cmdline_def repl_step_def)
  next
    case (Some q)
    obtain r p where q: "q = (r, p)" by (cases q)
    show ?thesis
      using assms Some q exec_command_current [of P cmd "sc_cmdline (fst st)" r p]
      by (cases r) (auto simp: exec_and_get_outobj_def exec_cmdrequest_def on_cmdline_def repl_step_def)
  qed
qed

text \<open>
  A new \<open>ExecCommandRequest\<close>: the acknowledgement, the execution, and the reply with the
  result, which stays in the cache for retransmission.
\<close>

lemma process_exec_answers:
  assumes m: "msg_cls m = ExecCommandRequest" "cmd_of m = Inr cmd" "\<not> known (msg_uid m) (snd st)"
    and idle: "idle (snd st)"
    and exec: "repl_step P cmd (sc_cmdline (fst st)) = Some (Inr a, pc)"
    and ser: "serialize msgmap (create_reply Ack m NOARG) = Inr s1"
      "serialize msgmap (create_reply ExecCommandReply m a) = Inr s2"
    and rep: "sva_rep st l (wire_acks s1 @ wire_acks s2 @ rest)"
  shows "\<exists>st'. process_msg P m st = Some (Inr (), st') \<and> sva_rep st' (l @ wire s1 @ wire s2) rest \<and>
    sc_cmdline (fst st') = pc \<and> sc_uid_iter (fst st') = sc_uid_iter (fst st) \<and>
    snd st' = answered (in_clock P) (create_reply ExecCommandReply m a) (snd st)"
proof -
  obtain st1 where st1: "sv_send_reply (create_reply Ack m NOARG) st = Some (Inr (), st1)"
    "sva_rep st1 (l @ wire s1) (wire_acks s2 @ rest)" "io_only st st1"
    using sv_send_reply_returns [OF ser(1) rep] by auto
  let ?st2 = "((fst st1)\<lparr>sc_cmdline := pc\<rparr>, snd st1)"
  have ack: "sv_send_ack_if_needed m st = Some (Inr (), st1)"
    using st1(1) m(1) by (simp add: sv_send_ack_if_needed_def is_response_expected_def)
  have new: "get_msg (msg_uid m) (snd st1) = Inl MsgCachesNotFound"
    using m(3) st1(3) by (simp add: not_found_iff io_only_def)
  have ex: "exec_and_get_outobj P m st1 = Some (Inr a, ?st2)"
    using exec st1(3) by (simp add: exec_and_get_outobj_repl [OF m(2)] on_cmdline_def io_only_def)
  have "sva_rep ?st2 (l @ wire s1) (wire_acks s2 @ rest)" using st1(2) by (simp add: sva_rep_def)
  moreover have "idle (snd ?st2)" using idle st1(3) by (simp add: io_only_def)
  ultimately obtain st3 where st3: "send_reply_via_cache P (create_reply ExecCommandReply m a) ?st2 = Some (Inr (), st3)"
    "sva_rep st3 ((l @ wire s1) @ wire s2) rest" "sc_cmdline (fst st3) = pc" "sc_uid_iter (fst st3) = sc_uid_iter (fst st)"
    "snd st3 = answered (in_clock P) (create_reply ExecCommandReply m a) (snd st)"
    using send_reply_via_cache_returns [OF _ ser(2), of ?st2 "l @ wire s1" rest P] st1(3)
    by (auto simp: io_only_def)
  have "handle_msg P m st1 = Some (Inr (), st3)"
    using ex st3(1) m(1) by (simp add: handle_msg_def exec_command_handler_def)
  then have "process_msg P m st = Some (Inr (), st3)"
    using m(1) ack new by (simp add: process_msg_def reply_cached_or_handle_msg_def)
  with st3 show ?thesis by auto
qed

lemma process_exec_returns:
  assumes m: "msg_cls m = ExecCommandRequest" "cmd_of m = Inr cmd" "\<not> known (msg_uid m) (snd st)"
    and idle: "idle (snd st)"
    and exec: "exec_command P cmd (sc_cmdline (fst st)) = Some (Inr a, pc)"
    and ser: "serialize msgmap (create_reply Ack m NOARG) = Inr s1"
      "serialize msgmap (create_reply ExecCommandReply m a) = Inr s2"
    and rep: "sva_rep st l (wire_acks s1 @ wire_acks s2 @ rest)"
  shows "\<exists>st'. process_msg P m st = Some (Inr (), st') \<and> sc_out (fst st') = l @ wire s1 @ wire s2 \<and>
    sc_cmdline (fst st') = pc \<and> get_msg (msg_uid m) (snd st') = Inr (create_reply ExecCommandReply m a)"
proof -
  have "get_msg (msg_uid m) (answered clk (create_reply ExecCommandReply m a) (snd st)) =
      Inr (create_reply ExecCommandReply m a)" for clk
    using idle
    by (simp add: get_msg_def idle_def answered_caches new_msg_cache_def create_reply_def create_with_uid_and_args_def)
  moreover have "repl_step P cmd (sc_cmdline (fst st)) = Some (Inr a, pc)"
    using exec by (simp add: repl_step_def)
  moreover from process_exec_answers [OF m idle this ser rep] obtain st' where
    "process_msg P m st = Some (Inr (), st')" "sva_rep st' (l @ wire s1 @ wire s2) rest"
    "sc_cmdline (fst st') = pc" "snd st' = answered (in_clock P) (create_reply ExecCommandReply m a) (snd st)"
    by blast
  ultimately show ?thesis by (intro exI [of _ st']) (simp add: sva_rep_def)
qed

text \<open>A repeated request gets the cached reply once more.\<close>

lemma process_repeated_returns:
  assumes m: "msg_cls m = ExecCommandRequest" "get_msg (msg_uid m) (snd st) = Inr r"
    and ser: "serialize msgmap (create_reply Ack m NOARG) = Inr s1" "serialize msgmap r = Inr s2"
    and rep: "sva_rep st l (wire_acks s1 @ wire_acks s2 @ rest)"
  shows "\<exists>st'. process_msg P m st = Some (Inr (), st') \<and> sc_out (fst st') = l @ wire s1 @ wire s2 \<and>
    io_only st st'"
proof -
  obtain st1 where st1: "sv_send_reply (create_reply Ack m NOARG) st = Some (Inr (), st1)"
    "sva_rep st1 (l @ wire s1) (wire_acks s2 @ rest)" "io_only st st1"
    using sv_send_reply_returns [OF ser(1) rep] by auto
  obtain st2 where st2: "sv_send_reply r st1 = Some (Inr (), st2)" "sva_rep st2 ((l @ wire s1) @ wire s2) rest"
    "io_only st1 st2"
    using sv_send_reply_returns [OF ser(2) st1(2)] by auto
  have "process_msg P m st = Some (Inr (), st2)"
    using m st1 st2
    by (simp add: process_msg_def sv_send_ack_if_needed_def is_response_expected_def
        reply_cached_or_handle_msg_def io_only_def)
  moreover have "io_only st st2" using st1(3) st2(3) by (rule io.R_trans)
  moreover have "sc_out (fst st2) = l @ wire s1 @ wire s2" using st2(2) by (simp add: sva_rep_def)
  ultimately show ?thesis by blast
qed

section \<open>The end of the input\<close>

text \<open>Closed input and nothing to retransmit: every read returns at once with nothing.\<close>

definition at_eof :: "'n server \<Rightarrow> bool" where
  "at_eof st \<longleftrightarrow> sc_eof (fst st) \<and> sc_infd (fst st) = [] \<and> mcs_msgcaches (snd st) = []"

lemma sv_read_at_eof: "at_eof st \<Longrightarrow> \<exists>st'. sv_read P n st = Some (Inr [], st') \<and> at_eof st'"
proof -
  assume e: "at_eof st"
  then have sel: "sv_select st = Some (Inr True, st)"
    by (simp add: at_eof_def sv_select_def timeout_args_empty Let_def)
  obtain s where "sv_send_expired P st = Some (Inr (), (fst st, s))" "mcs_msgcaches s = []"
    using send_expired_empty [of st "in_clock P" sv_send_reply] e by (auto simp: sv_send_expired_def at_eof_def)
  with e sel show ?thesis
    by (cases st, subst sv_read_def, subst server_read.simps) (auto simp: sv_os_read_def Let_def at_eof_def)
qed

text \<open>So the server waits for ever inside the next message.\<close>

lemma handle_next_msg_at_eof:
  assumes "at_eof st" "readable_size sh = 0"
  shows "handle_next_msg P (st, sh) = None"
proof -
  have tok: "length chunk_token = 20" "chunk_token \<noteq> []" "length str_token = 20" "str_token \<noteq> []"
    by (simp_all add: chunk_token_def str_token_def)
  have "rd_until_size (sv_read P) 20 st = None"
    using sv_read_at_eof assms(1) by (intro rd_until_size_starves [of at_eof]) auto
  then have "read_token (sv_read P) st = None"
    unfolding read_token_def by (intro read_until_token_None) (simp_all only: tok simp_thms)
  then have "read_chunk (sv_read P) (ack_write_ack sv_write sv_flush) (st, sh) = None"
    by (simp add: read_chunk_def on_transport_def)
  then have "chunk_loop (sv_read P) (ack_write_ack sv_write sv_flush) 20 (st, sh) = None"
    using assms(2) by (subst chunk_loop.simps) simp
  then have "sv_read_until_size P 20 (st, sh) = None"
    by (simp add: sv_read_until_size_def chunk_read_int_def chunk_read_until_size_def)
  then have "read_str_once (sv_read_until_size P) (st, sh) = None"
    by (simp add: read_str_once_def read_until_token_None tok)
  then have "read_str (sv_read_until_size P) (st, sh) = None"
    by (subst read_str.simps) simp
  then show ?thesis by (simp add: handle_next_msg_def)
qed

end
