(* ===== verification/Shell.thy ===== *)
theory Shell
  imports Compatibility
begin

text \<open>
  \<open>shells/shell.py\<close>, \<open>autocompletableshell.py\<close> and \<open>msgreader.py\<close>: what every shell can do with
  the terminal it runs in. The terminal is \<open>pexpect\<close>'s or a \<open>ParamikoSpawn\<close>: its operations are
  programs over the state of the terminal.
\<close>

section \<open>The terminal\<close>

datatype trigger = TriggerStr ustr | TriggerStrs "ustr list" | TriggerRegex string | TriggerRegexes "string list"

record 't terminal_ops =
  tp_send :: "ustr \<Rightarrow> ('t, unit) py"
  tp_sendline :: "ustr \<Rightarrow> ('t, unit) py"
  tp_sendcontrol :: "char \<Rightarrow> ('t, unit) py"
  tp_read_nonblocking :: "nat \<Rightarrow> rat \<Rightarrow> ('t, bytes) py"
  tp_expect_exact :: "ustr list \<Rightarrow> rat option \<Rightarrow> ('t, nat) py"
  tp_expect_list :: "string list \<Rightarrow> rat option \<Rightarrow> ('t, nat) py"
  tp_before :: "'t \<Rightarrow> bytes option"
  tp_after :: "'t \<Rightarrow> bytes option"
  tp_clear_buffer :: "('t, unit) py"

section \<open>The default time-out for reading a status code\<close>

definition status_timeout_orig :: rat where
  "status_timeout_orig = 5"

definition status_timeout_set :: "rat \<Rightarrow> rat \<Rightarrow> rat" where
  "status_timeout_set t old = t"

definition status_timeout_reset :: "rat \<Rightarrow> rat" where
  "status_timeout_reset old = status_timeout_orig"

section \<open>Shells\<close>

record shell =
  sh_prompt :: "trigger option"
  sh_tty_echo :: bool

type_synonym ('t, 'a) shell_op = "(shell \<times> 't, 'a) py"

definition new_shell :: "bool \<Rightarrow> shell" where
  "new_shell echo = \<lparr>sh_prompt = None, sh_tty_echo = echo\<rparr>"

definition set_tty_echo :: "bool \<Rightarrow> shell \<Rightarrow> shell" where
  "set_tty_echo b s = s\<lparr>sh_tty_echo := b\<rparr>"

definition decode_utf8 :: "bytes option \<Rightarrow> exn + ustr" where
  "decode_utf8 b = (case b of None \<Rightarrow> Inl AttributeError | Some x \<Rightarrow> utf8_decode x)"

text \<open>
  The context managers around reads: a time-out becomes \<open>TimeoutError\<close> with the output so far,
  or is dropped.
\<close>

definition wrap_timeout_exception :: "'t terminal_ops \<Rightarrow> ('t, 'a) shell_op \<Rightarrow> ('t, 'a) shell_op" where
  "wrap_timeout_exception tp m = catching m (\<lambda>e.
     if e = PexpectTimeout then bnd (gets (\<lambda>(s, t). tp_before tp t)) (\<lambda>b. case b of
         None \<Rightarrow> throw (ShellTimeoutError [])
       | Some x \<Rightarrow> bnd (of_sum (utf8_decode x)) (\<lambda>_. throw (ShellTimeoutError x)))
     else throw e)"

definition suppress_timeout_exception :: "('t, unit) shell_op \<Rightarrow> ('t, unit) shell_op" where
  "suppress_timeout_exception m = catching m (\<lambda>e. if e = PexpectTimeout then ret () else throw e)"

definition read_str_nonblocking :: "'t terminal_ops \<Rightarrow> nat \<Rightarrow> rat \<Rightarrow> ('t, ustr) shell_op" where
  "read_str_nonblocking tp n tmo = bnd (in_world (tp_read_nonblocking tp n tmo)) (\<lambda>b. ret (to_string (PyBytes b)))"

text \<open>\<open>_read\<close>: reads until \<open>count\<close> characters have come; it may read for ever.\<close>

partial_function (option) read_loop ::
  "'t terminal_ops \<Rightarrow> int \<Rightarrow> rat \<Rightarrow> ustr \<Rightarrow> shell \<times> 't \<Rightarrow> ((exn + ustr) \<times> shell \<times> 't) option" where
  "read_loop tp count tmo out s =
     (if 0 < count then
        seq_outcome (read_str_nonblocking tp (nat count) tmo s) (\<lambda>o1 s1.
          seq_outcome (in_world (tp_clear_buffer tp) s1) (\<lambda>_ s2.
            read_loop tp (count - int (length o1)) tmo (out @ o1) s2))
      else Some (Inr out, s))"

definition read_count :: "'t terminal_ops \<Rightarrow> int \<Rightarrow> rat \<Rightarrow> ('t, ustr) shell_op" where
  "read_count tp count tmo = wrap_timeout_exception tp (read_loop tp count tmo [])"

text \<open>
  \<open>_read_until_end\<close>: the loop ends with the time-out of a read, which is dropped; the output
  before it is what counts. Another exception propagates.
\<close>

partial_function (option) read_rest ::
  "'t terminal_ops \<Rightarrow> rat \<Rightarrow> ustr \<Rightarrow> shell \<times> 't \<Rightarrow> ((exn + ustr) \<times> shell \<times> 't) option" where
  "read_rest tp chunk_tmo out s =
     (case read_str_nonblocking tp 1024 chunk_tmo s of
        None \<Rightarrow> None
      | Some (Inl e, s1) \<Rightarrow> if e = PexpectTimeout then Some (Inr out, s1) else Some (Inl e, s1)
      | Some (Inr o1, s1) \<Rightarrow> read_rest tp chunk_tmo (out @ o1) s1)"

definition read_until_end :: "'t terminal_ops \<Rightarrow> rat \<Rightarrow> rat \<Rightarrow> ('t, ustr) shell_op" where
  "read_until_end tp tmo chunk_tmo =
     bnd (if tmo \<noteq> 0 then wrap_timeout_exception tp (read_str_nonblocking tp 1024 tmo) else ret []) (\<lambda>o1.
       bnd (read_rest tp chunk_tmo o1) (\<lambda>out. andthen (in_world (tp_clear_buffer tp)) (ret out)))"

definition send_input :: "'t terminal_ops \<Rightarrow> ustr \<Rightarrow> ('t, unit) shell_op" where
  "send_input tp s = andthen (in_world (tp_send tp s)) (bnd (gets (\<lambda>(h, t). sh_tty_echo h)) (\<lambda>b.
     if b then bnd (read_count tp (int (length s)) (- 1)) (\<lambda>_. ret ()) else ret ()))"

definition send_input_line :: "'t terminal_ops \<Rightarrow> ustr \<Rightarrow> ('t, unit) shell_op" where
  "send_input_line tp s = andthen (in_world (tp_sendline tp s)) (bnd (gets (\<lambda>(h, t). sh_tty_echo h)) (\<lambda>b.
     if b then bnd (read_count tp (int (length s) + 2) (- 1)) (\<lambda>_. ret ()) else ret ()))"

definition exec_cmd :: "'t terminal_ops \<Rightarrow> ustr \<Rightarrow> ('t, unit) shell_op" where
  "exec_cmd tp cmd = andthen (in_world (tp_sendline tp cmd)) (bnd (gets (\<lambda>(h, t). sh_tty_echo h)) (\<lambda>b.
     if b then bnd (read_count tp (int (length cmd) + 2) (- 1)) (\<lambda>_. ret ()) else ret ()))"

definition send_interrupt :: "'t terminal_ops \<Rightarrow> ('t, unit) shell_op" where
  "send_interrupt tp = in_world (tp_sendcontrol tp (CHR ''c''))"

text \<open>\<open>__read_until\<close> chooses the matching function of the terminal by the kind of the trigger.\<close>

definition expect_trigger :: "'t terminal_ops \<Rightarrow> trigger \<Rightarrow> rat \<Rightarrow> ('t, nat) shell_op" where
  "expect_trigger tp tr tmo = in_world (case tr of
     TriggerRegex r \<Rightarrow> tp_expect_list tp [r] (Some tmo)
   | TriggerRegexes rs \<Rightarrow> tp_expect_list tp rs (Some tmo)
   | TriggerStr s \<Rightarrow> tp_expect_exact tp [s] (Some tmo)
   | TriggerStrs ss \<Rightarrow> tp_expect_exact tp ss (Some tmo))"

definition before_text :: "'t terminal_ops \<Rightarrow> ('t, ustr) shell_op" where
  "before_text tp = bnd (gets (\<lambda>(h, t). tp_before tp t)) (\<lambda>b. of_sum (decode_utf8 b))"

definition after_text :: "'t terminal_ops \<Rightarrow> ('t, ustr) shell_op" where
  "after_text tp = bnd (gets (\<lambda>(h, t). tp_after tp t)) (\<lambda>b. of_sum (decode_utf8 b))"

definition read_until :: "'t terminal_ops \<Rightarrow> trigger \<Rightarrow> rat \<Rightarrow> bool \<Rightarrow> ('t, ustr) shell_op" where
  "read_until tp tr tmo suppress = andthen
     (if suppress then suppress_timeout_exception (bnd (expect_trigger tp tr tmo) (\<lambda>_. ret ()))
      else wrap_timeout_exception tp (bnd (expect_trigger tp tr tmo) (\<lambda>_. ret ())))
     (before_text tp)"

definition prompt_of :: "('t, trigger) shell_op" where
  "prompt_of = bnd (gets (\<lambda>(h, t). sh_prompt h)) (\<lambda>p. case p of None \<Rightarrow> throw TypeError | Some s \<Rightarrow> ret s)"

text \<open>A prompt used beside other strings must be one string.\<close>

definition str_prompt_of :: "('t, ustr) shell_op" where
  "str_prompt_of = bnd prompt_of (\<lambda>p. case p of TriggerStr s \<Rightarrow> ret s | _ \<Rightarrow> throw TypeError)"

definition read_until_prompt :: "'t terminal_ops \<Rightarrow> rat \<Rightarrow> bool \<Rightarrow> ('t, ustr) shell_op" where
  "read_until_prompt tp tmo suppress = bnd prompt_of (\<lambda>p. read_until tp p tmo suppress)"

definition is_timeout_error :: "exn \<Rightarrow> bool" where
  "is_timeout_error e = (case e of ShellTimeoutError b \<Rightarrow> True | _ \<Rightarrow> False)"

definition get_prompt_once :: "'t terminal_ops \<Rightarrow> ustr \<Rightarrow> rat \<Rightarrow> ('t, ustr) shell_op" where
  "get_prompt_once tp empty_command tmo = andthen (bnd (read_until_end tp 0 (1 / 10)) (\<lambda>_. ret ()))
     (andthen (send_input_line tp empty_command)
       (catching (andthen (bnd (read_until_prompt tp tmo False) (\<lambda>_. ret ())) (after_text tp))
         (\<lambda>e. if is_timeout_error e then before_text tp else throw e)))"

definition get_prompt_from_terminal :: "'t terminal_ops \<Rightarrow> ustr \<Rightarrow> rat \<Rightarrow> ('t, ustr) shell_op" where
  "get_prompt_from_terminal tp empty_command tmo = bnd (get_prompt_once tp empty_command tmo) (\<lambda>p.
     if p = [] then andthen (send_interrupt tp) (get_prompt_once tp empty_command tmo) else ret p)"

definition is_terminal_hung :: "'t terminal_ops \<Rightarrow> ustr \<Rightarrow> rat \<Rightarrow> ('t, bool) shell_op" where
  "is_terminal_hung tp empty_command tmo = andthen (send_input_line tp empty_command)
     (catching (bnd (read_until_prompt tp tmo False) (\<lambda>_. ret False))
       (\<lambda>e. if is_timeout_error e then ret True else throw e))"

definition is_terminal_prompt_matching :: "ustr \<Rightarrow> shell \<Rightarrow> bool" where
  "is_terminal_prompt_matching tprompt h \<longleftrightarrow> (case sh_prompt h of
     Some (TriggerStr s) \<Rightarrow> tprompt = s | Some (TriggerStrs ss) \<Rightarrow> tprompt \<in> set ss | _ \<Rightarrow> False)"

definition exec_command_in_shell :: "'t terminal_ops \<Rightarrow> ustr \<Rightarrow> rat \<Rightarrow> ('t, ustr) shell_op" where
  "exec_command_in_shell tp cmd tmo = andthen (bnd (read_until_end tp 0 0) (\<lambda>_. ret ()))
     (andthen (exec_cmd tp cmd) (read_until_prompt tp tmo False))"

text \<open>Paged output: a space is sent for every page.\<close>

partial_function (option) more_loop ::
  "'t terminal_ops \<Rightarrow> ustr \<Rightarrow> ustr \<Rightarrow> nat \<Rightarrow> ustr \<Rightarrow> shell \<times> 't \<Rightarrow> ((exn + (nat \<times> ustr)) \<times> shell \<times> 't) option" where
  "more_loop tp more_prompt prompt n out s =
     seq_outcome (in_world (tp_expect_exact tp [more_prompt, prompt] None) s) (\<lambda>i s1.
       seq_outcome (before_text tp s1) (\<lambda>b s2.
         if i = 1 then Some (Inr (n, out @ b), s2)
         else seq_outcome (send_input tp [32] s2) (\<lambda>_ s3.
           more_loop tp more_prompt prompt (Suc n) (out @ b) s3)))"

definition exec_command_expecting_more :: "'t terminal_ops \<Rightarrow> ustr \<Rightarrow> ustr \<Rightarrow> ('t, nat \<times> ustr) shell_op" where
  "exec_command_expecting_more tp cmd more_prompt = andthen (exec_cmd tp cmd)
     (bnd str_prompt_of (\<lambda>p. more_loop tp more_prompt p 0 []))"

fun respond_to_prompts :: "'t terminal_ops \<Rightarrow> rat \<Rightarrow> (trigger \<times> ustr) list \<Rightarrow> ustr \<Rightarrow> ('t, ustr) shell_op" where
  "respond_to_prompts tp tmo [] out = ret out"
| "respond_to_prompts tp tmo ((m, r) # rs) out = bnd (read_until tp m tmo False) (\<lambda>o1.
     andthen (in_world (tp_sendline tp r)) (respond_to_prompts tp tmo rs (out @ o1)))"

definition exec_prompting_command ::
  "'t terminal_ops \<Rightarrow> ustr \<Rightarrow> (trigger \<times> ustr) list \<Rightarrow> rat \<Rightarrow> ('t, ustr) shell_op" where
  "exec_prompting_command tp cmd responses tmo = andthen (exec_cmd tp cmd)
     (bnd (respond_to_prompts tp tmo responses []) (\<lambda>o1.
       bnd (read_until_prompt tp tmo False) (\<lambda>o2. ret (o1 @ o2))))"

fun create_responses_list :: "'a list \<Rightarrow> exn + ('a \<times> 'a) list" where
  "create_responses_list [] = Inr []"
| "create_responses_list [x] = Inl ValueError"
| "create_responses_list (x # y # zs) = map_sum id (Cons (x, y)) (create_responses_list zs)"

definition detect_prompt :: "'t terminal_ops \<Rightarrow> ('t, ustr) shell_op" where
  "detect_prompt tp = andthen (exec_cmd tp []) (andthen (bnd (read_until_end tp 1 (1 / 10)) (\<lambda>_. ret ()))
     (andthen (exec_cmd tp []) (read_until_end tp (1 / 4) (1 / 10))))"

section \<open>Completion by tabulator\<close>

definition strip_bel :: "ustr \<Rightarrow> ustr" where
  "strip_bel s = rev (dropWhile (\<lambda>c. c = 7) (rev (dropWhile (\<lambda>c. c = 7) s)))"

definition get_command_auto_completion :: "'t terminal_ops \<Rightarrow> ustr \<Rightarrow> rat \<Rightarrow> ustr \<Rightarrow> ('t, ustr) shell_op" where
  "get_command_auto_completion tp cmd tmo autocompletion_trigger =
     andthen (send_input tp (cmd @ autocompletion_trigger))
       (bnd (read_until_prompt tp tmo True) (\<lambda>out.
         andthen (send_interrupt tp)
           (andthen (bnd (read_until_prompt tp (- 1) False) (\<lambda>_. ret ())) (ret (strip_bel out)))))"

section \<open>Reading the login banner\<close>

definition msgreader_default_timeout :: rat where
  "msgreader_default_timeout = 15"

definition msgreader_set_timeout :: "rat \<Rightarrow> rat \<Rightarrow> rat" where
  "msgreader_set_timeout t old = t"

definition msgreader_reset_timeout :: "rat \<Rightarrow> rat" where
  "msgreader_reset_timeout old = msgreader_default_timeout"

definition msgreader_read_until_end :: "'t terminal_ops \<Rightarrow> rat \<Rightarrow> ('t, ustr) shell_op" where
  "msgreader_read_until_end tp banner_timeout = read_until_end tp banner_timeout (1 / 10)"

end
