(* ===== verification/RunnerHandler.thy ===== *)
theory RunnerHandler
  imports Compatibility
begin

text \<open>
  \<open>RunnerHandler.py\<close>, the module that runs in the remote Python: it evaluates code in a thread,
  answers with the pickled result or with a time-out and keeps the unfinished responses. Objects
  are abstract; what the code tells apart of them are \<open>None\<close>, exceptions, response ids and pairs
  of pickled strings. Evaluating code, pickling and type tests are arguments; a thread is known
  by the time it ends and what it leaves as its response.
\<close>

section \<open>Python objects and pickling\<close>

datatype 'o pyobj = PyNone | PyId nat | PyExn exn | PyPair bytes bytes | PyObj 'o

datatype pytype = TInt | TFloat | TStr | TBytes | TClass nat

record 'o pickler =
  pk_dumps :: "'o pyobj \<Rightarrow> exn + bytes"
  pk_loads :: "bytes \<Rightarrow> exn + 'o pyobj"

section \<open>The handler\<close>

record 'o response =
  rs_response_id :: nat
  rs_ends :: "rat option"
  rs_response :: "(bytes \<times> 'o pyobj) option"

record ('o, 'e) handler =
  rh_env :: 'e
  rh_handled_types :: "pytype option list"
  rh_responses :: "nat \<rightharpoonup> 'o response"
  rh_now :: rat
  rh_next_id :: nat

record ('o, 'e) interpreter =
  in_eval :: "ustr \<Rightarrow> 'e \<Rightarrow> (exn + 'o pyobj) \<times> 'e \<times> rat option"
  in_isinstance :: "'o pyobj \<Rightarrow> pytype \<Rightarrow> bool"

definition default_handled_types :: "pytype option list" where
  "default_handled_types = [None, Some TInt, Some TFloat, Some TStr, Some TBytes]"

definition initialize_handler :: "pytype option list option \<Rightarrow> ('o, 'e) handler \<Rightarrow> ('o, 'e) handler" where
  "initialize_handler ts h = h\<lparr>rh_handled_types := (case ts of None \<Rightarrow> default_handled_types | Some l \<Rightarrow> l)\<rparr>"

definition add_response :: "nat \<Rightarrow> 'o response \<Rightarrow> ('o, 'e) handler \<Rightarrow> ('o, 'e) handler" where
  "add_response i r h = h\<lparr>rh_responses := (rh_responses h)(i \<mapsto> r)\<rparr>"

definition get_stored_response :: "nat \<Rightarrow> ('o, 'e) handler \<Rightarrow> exn + 'o response" where
  "get_stored_response i h = (case rh_responses h i of None \<Rightarrow> Inl KeyError | Some r \<Rightarrow> Inr r)"

definition remove_response :: "nat \<Rightarrow> ('o, 'e) handler \<Rightarrow> ('o, 'e) handler" where
  "remove_response i h = h\<lparr>rh_responses := (rh_responses h)(i := None)\<rparr>"

text \<open>\<open>deserialize\<close> of the handler: \<open>str\<close> content is encoded first.\<close>

definition rh_deserialize :: "'o pickler \<Rightarrow> str_or_bytes \<Rightarrow> exn + 'o pyobj" where
  "rh_deserialize pk c = (case c of
     PyStr s \<Rightarrow> (case utf8_encode s of Inl e \<Rightarrow> Inl e | Inr b \<Rightarrow> pk_loads pk b)
   | PyBytes b \<Rightarrow> pk_loads pk b)"

definition is_in_handled_types :: "('o, 'e) interpreter \<Rightarrow> pytype option list \<Rightarrow> 'o pyobj \<Rightarrow> bool" where
  "is_in_handled_types it ts x \<longleftrightarrow> list_ex (\<lambda>t. case t of None \<Rightarrow> x = PyNone | Some c \<Rightarrow> in_isinstance it x c) ts"

definition handled_value :: "('o, 'e) interpreter \<Rightarrow> pytype option list \<Rightarrow> 'o pyobj \<Rightarrow> bytes \<times> 'o pyobj" where
  "handled_value it ts x =
     (if is_in_handled_types it ts x then (''handled'', x) else (''nothandled'', PyNone))"

section \<open>Responses\<close>

text \<open>The context manager \<open>pickle_errors\<close>: an \<open>Exception\<close> becomes the response.\<close>

definition pickle_errors :: "exn + bytes \<times> 'o pyobj \<Rightarrow> (bytes \<times> 'o pyobj) option" where
  "pickle_errors r = (case r of
     Inr x \<Rightarrow> Some x
   | Inl e \<Rightarrow> if is_Exception e then Some (''exception'', PyExn e) else None)"

definition serialize_response :: "'o pickler \<Rightarrow> bytes \<times> 'o pyobj \<Rightarrow> exn + bytes" where
  "serialize_response pk x = (case pk_dumps pk (snd x) of Inl e \<Rightarrow> Inl e | Inr b \<Rightarrow> pk_dumps pk (PyPair (fst x) b))"

text \<open>\<open>Thread.join(timeout)\<close>; \<open>None\<close> waits until the thread has ended.\<close>

definition join_thread :: "rat option \<Rightarrow> rat option \<Rightarrow> rat \<Rightarrow> rat option" where
  "join_thread tmo fin now = (case tmo of
     None \<Rightarrow> (case fin of None \<Rightarrow> None | Some t \<Rightarrow> Some (max now t))
   | Some d \<Rightarrow> if d < 0 then Some now
       else (case fin of None \<Rightarrow> Some (now + d) | Some t \<Rightarrow> Some (min (max now t) (now + d))))"

definition is_alive :: "rat option \<Rightarrow> rat \<Rightarrow> bool" where
  "is_alive fin now = (case fin of None \<Rightarrow> True | Some t \<Rightarrow> now < t)"

definition store_and_return_response :: "'o pickler \<Rightarrow> 'o response \<Rightarrow> (('o, 'e) handler, bytes) py" where
  "store_and_return_response pk r =
     andthen (modify (add_response (rs_response_id r) r))
       (of_sum (serialize_response pk (''timeout'', PyId (rs_response_id r))))"

definition get_response_from_thread ::
  "'o pickler \<Rightarrow> 'o response \<Rightarrow> rat option \<Rightarrow> (('o, 'e) handler, bytes) py" where
  "get_response_from_thread pk r tmo = bnd (gets rh_now) (\<lambda>now.
     if (case tmo of None \<Rightarrow> False | Some d \<Rightarrow> d < 0) \<or> is_alive (rs_ends r) now
     then store_and_return_response pk r
     else andthen (modify (remove_response (rs_response_id r)))
       (case rs_response r of None \<Rightarrow> throw TypeError | Some x \<Rightarrow> of_sum (serialize_response pk x)))"

definition get_response_with_timeout ::
  "'o pickler \<Rightarrow> 'o response \<Rightarrow> rat option \<Rightarrow> (('o, 'e) handler, bytes) py" where
  "get_response_with_timeout pk r tmo h =
     (case join_thread tmo (rs_ends r) (rh_now h) of
        None \<Rightarrow> None
      | Some t \<Rightarrow> get_response_from_thread pk r tmo (h\<lparr>rh_now := t\<rparr>))"

text \<open>
  The decorator \<open>responsethread\<close>: the function runs in a thread of its own, the caller waits for
  the time-out. The arguments are the outcome of the function and its duration.
\<close>

definition run_in_thread ::
  "'o pickler \<Rightarrow> (exn + bytes \<times> 'o pyobj) \<Rightarrow> rat option \<Rightarrow> rat option \<Rightarrow> (('o, 'e) handler, bytes) py" where
  "run_in_thread pk out dur tmo = bnd (gets (\<lambda>h. (rh_next_id h, rh_now h))) (\<lambda>(i, now).
     andthen (modify (\<lambda>h. h\<lparr>rh_next_id := Suc i\<rparr>))
       (get_response_with_timeout pk
          \<lparr>rs_response_id = i, rs_ends = map_option (\<lambda>d. now + d) dur, rs_response = pickle_errors out\<rparr> tmo))"

definition get_object :: "('o, 'e) interpreter \<Rightarrow> ustr \<Rightarrow> (('o, 'e) handler, (exn + 'o pyobj) \<times> rat option) py" where
  "get_object it code = (\<lambda>h. case in_eval it code (rh_env h) of
     (r, e, d) \<Rightarrow> Some (Inr (r, d), h\<lparr>rh_env := e\<rparr>))"

definition rh_run :: "'o pickler \<Rightarrow> ('o, 'e) interpreter \<Rightarrow> ustr \<Rightarrow> rat option \<Rightarrow> (('o, 'e) handler, bytes) py" where
  "rh_run pk it code tmo = bnd (get_object it code) (\<lambda>(r, d).
     run_in_thread pk (map_sum id (Pair ''run'') r) d tmo)"

definition plus_duration :: "rat option \<Rightarrow> rat option \<Rightarrow> rat option" where
  "plus_duration a b = (case (a, b) of (Some x, Some y) \<Rightarrow> Some (x + y) | _ \<Rightarrow> None)"

text \<open>
  The assignment is executed first, then the handle is evaluated; the second evaluation does
  not happen when the first one raises.
\<close>

definition rh_assign_and_run ::
  "'o pickler \<Rightarrow> ('o, 'e) interpreter \<Rightarrow> ustr \<Rightarrow> ustr \<Rightarrow> rat option \<Rightarrow> (('o, 'e) handler, bytes) py" where
  "rh_assign_and_run pk it hnd code tmo =
     bnd (get_object it (hnd @ [32, 61, 32] @ code)) (\<lambda>(r, d). case r of
       Inl e \<Rightarrow> run_in_thread pk (Inl e) d tmo
     | Inr _ \<Rightarrow> bnd (get_object it hnd) (\<lambda>(x, d'). bnd (gets rh_handled_types) (\<lambda>ts.
         run_in_thread pk (map_sum id (handled_value it ts) x) (plus_duration d d') tmo)))"

definition rh_run_and_return_handled ::
  "'o pickler \<Rightarrow> ('o, 'e) interpreter \<Rightarrow> ustr \<Rightarrow> rat option \<Rightarrow> (('o, 'e) handler, bytes) py" where
  "rh_run_and_return_handled pk it code tmo =
     bnd (get_object it code) (\<lambda>(x, d). bnd (gets rh_handled_types) (\<lambda>ts.
       run_in_thread pk (map_sum id (handled_value it ts) x) d tmo))"

definition rh_get_response :: "'o pickler \<Rightarrow> nat \<Rightarrow> rat option \<Rightarrow> (('o, 'e) handler, bytes) py" where
  "rh_get_response pk i tmo = bnd (bnd (gets (get_stored_response i)) of_sum) (\<lambda>r.
     get_response_with_timeout pk r tmo)"

section \<open>File handles\<close>

definition TOKEN :: bytes where
  "TOKEN = ''+7_<sf80UBtd%umz''"

text \<open>\<open>struct.Struct('!I')\<close>: four bytes, most significant first; larger numbers do not fit.\<close>

definition size_pack :: "nat \<Rightarrow> exn + bytes" where
  "size_pack n = (if n < 2 ^ 32
     then Inr (map (\<lambda>k. char_of (n div 256 ^ k mod 256)) [3, 2, 1, 0]) else Inl StructError)"

definition size_unpack :: "bytes \<Rightarrow> nat" where
  "size_unpack b = foldl (\<lambda>n c. n * 256 + of_char c) 0 b"

text \<open>
  The open file is a position in its contents; what is written to the terminal is appended to
  \<open>fh_out\<close>, what the terminal delivers is in \<open>fh_in\<close>.
\<close>

record file_handle =
  fh_content :: bytes
  fh_pos :: nat
  fh_in :: bytes
  fh_out :: bytes

definition write_stdout_with_flush :: "bytes \<Rightarrow> (file_handle, unit) py" where
  "write_stdout_with_flush b = modify (\<lambda>f. f\<lparr>fh_out := fh_out f @ b\<rparr>)"

definition handle_file_read :: "nat \<Rightarrow> (file_handle, bytes) py" where
  "handle_file_read n f = Some (Inr (take n (drop (fh_pos f) (fh_content f))),
     f\<lparr>fh_pos := min (fh_pos f + n) (max (fh_pos f) (length (fh_content f)))\<rparr>)"

definition handle_file_write :: "bytes \<Rightarrow> (file_handle, unit) py" where
  "handle_file_write b = modify (\<lambda>f. f\<lparr>fh_content := take (fh_pos f) (fh_content f) @ b @ drop (fh_pos f + length b) (fh_content f),
     fh_pos := fh_pos f + length b\<rparr>)"

definition stdin_read :: "nat \<Rightarrow> (file_handle, bytes) py" where
  "stdin_read n f = (if n \<le> length (fh_in f)
     then Some (Inr (take n (fh_in f)), f\<lparr>fh_in := drop n (fh_in f)\<rparr>) else None)"

definition filehandle_read :: "nat \<Rightarrow> (file_handle, unit) py" where
  "filehandle_read n = bnd (handle_file_read n) (\<lambda>buf.
     bnd (of_sum (size_pack (length buf))) (\<lambda>sz. write_stdout_with_flush (TOKEN @ sz @ buf)))"

definition filehandle_write :: "nat \<Rightarrow> (file_handle, unit) py" where
  "filehandle_write n = andthen (write_stdout_with_flush ''reading start'')
     (andthen (bnd (stdin_read n) (\<lambda>s. bnd (of_sum (b64decode s)) handle_file_write))
       (write_stdout_with_flush ''reading stop''))"
section \<open>A response that comes late\<close>

text \<open>
  C10: a call that times out loses nothing. The time-out carries an id; whenever it is asked for later,
  whatever else the handler did in between, waiting gives exactly the bytes that the call
  would have given if it had waited itself, and the response is forgotten.
\<close>

theorem late_response_is_the_response:
  assumes "0 \<le> tmo" "tmo < d"
  shows "\<exists>x h1 h2. run_in_thread pk out (Some d) None h = Some (x, h1) \<and>
    run_in_thread pk out (Some d) (Some tmo) h = Some (serialize_response pk (''timeout'', PyId (rh_next_id h)), h2) \<and>
    (\<forall>h3. rh_responses h3 (rh_next_id h) = rh_responses h2 (rh_next_id h) \<longrightarrow>
      (\<exists>h4. rh_get_response pk (rh_next_id h) None h3 = Some (x, h4) \<and>
        rh_responses h4 = (rh_responses h3)(rh_next_id h := None)))"
proof -
  let ?r = "\<lparr>rs_response_id = rh_next_id h, rs_ends = Some (rh_now h + d), rs_response = pickle_errors out\<rparr>"
  have w: "\<exists>h4. get_response_with_timeout pk ?r None g =
      Some (case pickle_errors out of None \<Rightarrow> Inl TypeError | Some x \<Rightarrow> serialize_response pk x, h4) \<and>
      rh_responses h4 = (rh_responses g)(rh_next_id h := None)" for g
    by (simp add: get_response_with_timeout_def join_thread_def get_response_from_thread_def is_alive_def
        remove_response_def split: option.split)
  have "\<exists>h2. run_in_thread pk out (Some d) (Some tmo) h =
      Some (serialize_response pk (''timeout'', PyId (rh_next_id h)), h2) \<and> rh_responses h2 (rh_next_id h) = Some ?r"
    using assms by (simp add: run_in_thread_def get_response_with_timeout_def join_thread_def max_def min_def
        get_response_from_thread_def is_alive_def store_and_return_response_def add_response_def)
  then obtain h2 where h2: "run_in_thread pk out (Some d) (Some tmo) h =
      Some (serialize_response pk (''timeout'', PyId (rh_next_id h)), h2)" "rh_responses h2 (rh_next_id h) = Some ?r"
    by blast
  have "\<exists>h4. rh_get_response pk (rh_next_id h) None h3 =
      Some (case pickle_errors out of None \<Rightarrow> Inl TypeError | Some x \<Rightarrow> serialize_response pk x, h4) \<and>
      rh_responses h4 = (rh_responses h3)(rh_next_id h := None)"
    if "rh_responses h3 (rh_next_id h) = rh_responses h2 (rh_next_id h)" for h3
    using w [of h3] that h2(2) by (simp add: rh_get_response_def get_stored_response_def)
  moreover obtain h1 where "run_in_thread pk out (Some d) None h =
      Some (case pickle_errors out of None \<Rightarrow> Inl TypeError | Some x \<Rightarrow> serialize_response pk x, h1)"
    using w by (fastforce simp: run_in_thread_def)
  ultimately show ?thesis using h2(1) by blast
qed

definition idle_handler :: "(unit, unit) handler" where
  "idle_handler = \<lparr>rh_env = (), rh_handled_types = [], rh_responses = Map.empty, rh_now = 0, rh_next_id = 0\<rparr>"

lemma late_response_is_the_response_witness:
  "\<exists>h1 h2 h3 h4. run_in_thread \<lparr>pk_dumps = \<lambda>_. Inr ''p'', pk_loads = \<lambda>_. Inl ValueError\<rparr> (Inr (''run'', PyNone))
      (Some 2) (Some 1) idle_handler = Some (h1, h2) \<and>
    rh_get_response \<lparr>pk_dumps = \<lambda>_. Inr ''p'', pk_loads = \<lambda>_. Inl ValueError\<rparr> 0 None h2 = Some (h3, h4)"
  using late_response_is_the_response [of 1 2 "\<lparr>pk_dumps = \<lambda>_. Inr ''p'', pk_loads = \<lambda>_. Inl ValueError\<rparr>"
    "Inr (''run'', PyNone)" idle_handler] by (fastforce simp: idle_handler_def)

end
