(* ===== verification/RunnerTerminal.thy ===== *)
theory RunnerTerminal
  imports RunnerHandler
begin

text \<open>
  \<open>runnerexceptions.py\<close>, \<open>garbagemanager.py\<close> and \<open>runnerterminal.py\<close>: the local end of a remote
  Python. A call is written as Python code for the handler at the other end, executed by the
  shell of the session, and the pickled answer becomes a value, the exception raised remotely
  or a time-out. The session, pickling, the text of floats and unique names are arguments.
\<close>

section \<open>Values and their conversions\<close>

text \<open>
  \<open>RReturn\<close> is \<open>_RemoteReturnValue\<close>, \<open>RHandled\<close> is \<open>_HandledReturnValue\<close>, \<open>RObj\<close> a local copy of an
  object and \<open>RProxy h rec\<close> a proxy of the remote object named \<open>h\<close>. \<open>as_recursive_proxy\<close> is a conversion
  without effects: a proxy is converted where it has just been made, in the session of the call, so that
  \<open>verify\<close> raises nothing, and \<open>initialize_if_needed\<close> of \<open>RunnerTerminal\<close> is \<open>pass\<close>. What the
  re-initialisation of an \<open>AutoRunnerTerminal\<close> would do at this point is not modelled.
\<close>

datatype 'o rvalue = RReturn bytes "'o pyobj" | RHandled bool "'o pyobj" | RObj "'o pyobj" | RProxy string bool

fun apply_wrap :: "response_wrap \<Rightarrow> 'o rvalue \<Rightarrow> exn + 'o rvalue" where
  "apply_wrap WrapId v = Inr v"
| "apply_wrap WrapObj (RReturn s x) = Inr (RObj x)"
| "apply_wrap WrapObj (RHandled b x) = Inr (RObj x)"
| "apply_wrap WrapHandled (RReturn s x) = Inr (RHandled (s = ''handled'') x)"
| "apply_wrap (WrapProxyOrBasic h) (RHandled b x) = Inr (if b then RObj x else RProxy h False)"
| "apply_wrap WrapRecursive (RProxy h r) = Inr (RProxy h True)"
| "apply_wrap WrapRecursive v = Inr v"
| "apply_wrap (WrapRecursiveName n) (RHandled b x) = Inr (if b then RObj x else RProxy n True)"
| "apply_wrap _ _ = Inl AttributeError"

fun apply_wraps :: "response_wrap list \<Rightarrow> 'o rvalue \<Rightarrow> exn + 'o rvalue" where
  "apply_wraps [] v = Inr v"
| "apply_wraps (w # ws) v = (case apply_wrap w v of Inl e \<Rightarrow> Inl e | Inr u \<Rightarrow> apply_wraps ws u)"

definition new_remote_timeout :: "nat \<Rightarrow> timeout_handle" where
  "new_remote_timeout i = (i, [])"

definition add_response_wraps :: "response_wrap list \<Rightarrow> timeout_handle \<Rightarrow> timeout_handle" where
  "add_response_wraps ws h = (fst h, snd h @ ws)"

definition remotetimeouthandler :: "response_wrap list \<Rightarrow> ('s, 'a) py \<Rightarrow> ('s, 'a) py" where
  "remotetimeouthandler ws m = catching m (\<lambda>e. case e of
     RemoteTimeout h \<Rightarrow> throw (RemoteTimeout (add_response_wraps ws h)) | _ \<Rightarrow> throw e)"

definition responsehandler :: "('s, 'o rvalue) py \<Rightarrow> response_wrap list \<Rightarrow> ('s, 'o rvalue) py" where
  "responsehandler f ws = remotetimeouthandler ws (bnd f (\<lambda>v. of_sum (apply_wraps ws v)))"

text \<open>The asynchronous handler returns the time-out, and \<open>None\<close> when there is none.\<close>

definition asyncresponsehandler ::
  "('s, 'o rvalue) py \<Rightarrow> response_wrap list \<Rightarrow> ('s, timeout_handle option) py" where
  "asyncresponsehandler f ws = catching (bnd (responsehandler f ws) (\<lambda>_. ret None))
     (\<lambda>e. case e of RemoteTimeout h \<Rightarrow> ret (Some h) | _ \<Rightarrow> throw e)"

section \<open>Garbage\<close>

text \<open>A handle is \<open>None\<close> when its proxy was emptied.\<close>

record garbage_manager =
  gm_max_garbage :: nat
  gm_session_id :: "nat option"
  gm_garbage :: "string option list"

definition new_garbage_manager :: "nat \<Rightarrow> garbage_manager" where
  "new_garbage_manager n = \<lparr>gm_max_garbage = n, gm_session_id = None, gm_garbage = []\<rparr>"

definition gm_add :: "nat option \<Rightarrow> string option \<Rightarrow> garbage_manager \<Rightarrow> garbage_manager" where
  "gm_add sid g m =
     (let m' = (if sid \<noteq> gm_session_id m then m\<lparr>gm_session_id := sid, gm_garbage := []\<rparr> else m)
      in m'\<lparr>gm_garbage := gm_garbage m' @ [g]\<rparr>)"

definition gm_clean_needed :: "nat option \<Rightarrow> garbage_manager \<Rightarrow> bool" where
  "gm_clean_needed sid m \<longleftrightarrow> sid = gm_session_id m \<and> gm_max_garbage m < length (gm_garbage m)"

section \<open>Code for the remote end\<close>

text \<open>
  \<open>repr\<close> of a string of code points below 256 and of bytes: single quotes unless the text has
  a single and no double quote, escapes for the quote, the backslash and what is not printable.
\<close>

definition hex2 :: "nat \<Rightarrow> string" where
  "hex2 n = [''0123456789abcdef'' ! (n div 16), ''0123456789abcdef'' ! (n mod 16)]"

definition escaped :: "bool \<Rightarrow> char \<Rightarrow> char \<Rightarrow> string" where
  "escaped is_bytes q c = (let n = of_char c :: nat in
     if c = q \<or> n = 92 then [char_of (92 :: nat), c]
     else if n = 9 then [char_of (92 :: nat), CHR ''t'']
     else if n = 10 then [char_of (92 :: nat), CHR ''n'']
     else if n = 13 then [char_of (92 :: nat), CHR ''r'']
     else if n < 32 \<or> (127 \<le> n \<and> (is_bytes \<or> n < 161)) \<or> n = 173
       then char_of (92 :: nat) # CHR ''x'' # hex2 n
     else [c])"

definition single_quote :: char where "single_quote = char_of (39 :: nat)"

definition double_quote :: char where "double_quote = char_of (34 :: nat)"

definition py_repr :: "bool \<Rightarrow> string \<Rightarrow> string" where
  "py_repr is_bytes s =
     (let q = (if single_quote \<in> set s \<and> double_quote \<notin> set s then double_quote else single_quote)
      in (if is_bytes then ''b'' else []) @ q # concat (map (escaped is_bytes q) s) @ [q])"

fun join_with :: "string \<Rightarrow> string list \<Rightarrow> string" where
  "join_with sep [] = []"
| "join_with sep [s] = s"
| "join_with sep (s # ss) = s @ sep @ join_with sep ss"

definition in_namespace :: "string \<Rightarrow> string" where
  "in_namespace n = ''runnerhandlerns['' @ [single_quote] @ n @ [single_quote] @ '']''"

definition runnercall :: "string \<Rightarrow> string \<Rightarrow> string" where
  "runnercall method args = in_namespace ''_RUNNERHANDLER'' @ ''.'' @ method @ ''('' @ args @ '')''"

definition runnerlocals :: "string \<Rightarrow> string \<Rightarrow> string" where
  "runnerlocals method args = runnercall method (args @ '', locals_=locals()'')"

definition run_template :: "string \<Rightarrow> string \<Rightarrow> string" where
  "run_template cmd timeout = runnerlocals ''run'' (py_repr False cmd @ '', timeout='' @ timeout)"

text \<open>
  \<open>assign_and_run_python\<close> also pickles \<open>HANDLED_TYPES\<close>, a constant, for an argument \<open>handled_types\<close> of
  \<open>format\<close> that no template names: the text of the command does not depend on it.
\<close>

definition assign_and_run_template :: "string \<Rightarrow> string \<Rightarrow> string \<Rightarrow> string" where
  "assign_and_run_template handle cmd timeout =
     runnerlocals ''assign_and_run'' (py_repr False handle @ '', '' @ py_repr False cmd @ '', timeout='' @ timeout)"

definition run_and_return_handled_template :: "string \<Rightarrow> string \<Rightarrow> string" where
  "run_and_return_handled_template handle timeout =
     runnerlocals ''run_and_return_handled'' (py_repr False handle @ '', timeout='' @ timeout)"

definition deserialize_template :: "bytes \<Rightarrow> string" where
  "deserialize_template obj = runnercall ''deserialize'' (py_repr True obj @ '', pickle.Unpickler'')"

definition get_response_template :: "nat \<Rightarrow> string \<Rightarrow> string" where
  "get_response_template i timeout = runnercall ''get_response'' (str_of_int (int i) @ '', timeout='' @ timeout)"

section \<open>The terminal\<close>

datatype proxy_session = Uninitialized | OfSession nat

record proxy =
  px_handle :: "string option"
  px_session_id :: "proxy_session option"
  px_is_remote_owned :: bool
  px_timeout :: rat
  px_async :: bool
  px_spec :: "string set option"
  px_recursive :: bool

record runner_terminal =
  rtm_session :: "nat option"
  rtm_initialized_session :: "nat option"
  rtm_session_id :: "nat option"
  rtm_default_timeout :: rat
  rtm_prompt_timeout :: "rat option"
  rtm_garbage :: garbage_manager

type_synonym ('w, 'a) rt_op = "(runner_terminal \<times> 'w, 'a) py"

record ('w, 'o) runner_env =
  rq_get_session :: "nat \<Rightarrow> 'w \<Rightarrow> nat option"
  rq_push_python :: "nat \<Rightarrow> ('w, unit) py"
  rq_exec_command :: "nat \<Rightarrow> string \<Rightarrow> rat option \<Rightarrow> ('w, bytes) py"
  rq_close_terminal :: "nat \<Rightarrow> ('w, unit) py"
  rq_setup :: "('w, unit) rt_op"
  rq_close :: "('w, unit) rt_op"
  rq_initialize_if_needed :: "('w, unit) rt_op"
  rq_error_handling :: "('w, 'o rvalue) rt_op \<Rightarrow> ('w, 'o rvalue) rt_op"
  rq_handler_source :: "'o pyobj"
  rq_pickler :: "'o pickler"
  rq_float_text :: "rat \<Rightarrow> string"
  rq_uuid :: "('w, string) py"

definition new_runner_terminal :: runner_terminal where
  "new_runner_terminal = \<lparr>rtm_session = None, rtm_initialized_session = None, rtm_session_id = None,
     rtm_default_timeout = 3600, rtm_prompt_timeout = Some 30, rtm_garbage = new_garbage_manager 100\<rparr>"

definition set_default_timeout :: "rat \<Rightarrow> ('w, unit) rt_op" where
  "set_default_timeout t = upd (\<lambda>r. r\<lparr>rtm_default_timeout := t\<rparr>)"

text \<open>\<open>get_session()\<close>; \<open>None\<close> and the session of \<open>None\<close> have no attributes.\<close>

definition rt_get_session :: "('w, 'o) runner_env \<Rightarrow> ('w, nat option) rt_op" where
  "rt_get_session q = (\<lambda>(r, w). case rtm_session r of
     None \<Rightarrow> Some (Inl AttributeError, (r, w)) | Some s \<Rightarrow> Some (Inr (rq_get_session q s w), (r, w)))"

definition rt_session :: "('w, 'o) runner_env \<Rightarrow> ('w, nat) rt_op" where
  "rt_session q = bnd (rt_get_session q) (\<lambda>s. case s of None \<Rightarrow> throw AttributeError | Some i \<Rightarrow> ret i)"

definition run_in_session :: "('w, 'o) runner_env \<Rightarrow> string \<Rightarrow> rat option \<Rightarrow> ('w, bytes) rt_op" where
  "run_in_session q cmd tmo = bnd (rt_session q) (\<lambda>i. in_world (rq_exec_command q i cmd tmo))"

definition clean_garbage :: "('w, 'o) runner_env \<Rightarrow> string option list \<Rightarrow> ('w, unit) rt_op" where
  "clean_garbage q gs = (if None \<in> set gs then throw TypeError
     else bnd (gets (\<lambda>(r, w). rtm_prompt_timeout r)) (\<lambda>t. case t of
       None \<Rightarrow> throw TypeError
     | Some p \<Rightarrow> bnd (run_in_session q (''del '' @ join_with '', '' (map the gs)) (Some (2 * p))) (\<lambda>_. ret ())))"

definition clean_if_gm_needed :: "('w, 'o) runner_env \<Rightarrow> ('w, unit) rt_op" where
  "clean_if_gm_needed q = bnd (gets fst) (\<lambda>r.
     if gm_clean_needed (rtm_session_id r) (rtm_garbage r)
     then andthen (clean_garbage q (gm_garbage (rtm_garbage r)))
       (upd (\<lambda>r. r\<lparr>rtm_garbage := (rtm_garbage r)\<lparr>gm_garbage := []\<rparr>\<rparr>))
     else ret ())"

definition session_broken :: "exn \<Rightarrow> ('s, 'a) py" where
  "session_broken e = (if is_Exception e then throw (RunnerTerminalSessionBroken (Some e)) else throw e)"

definition rt_run :: "('w, 'o) runner_env \<Rightarrow> string \<Rightarrow> rat option \<Rightarrow> ('w, bytes) rt_op" where
  "rt_run q cmd tmo = bnd (gets (\<lambda>(r, w). rtm_session r)) (\<lambda>s.
     if s = None then throw RunnerTerminalSessionClosed
     else catching (andthen (clean_if_gm_needed q) (run_in_session q cmd tmo)) session_broken)"

definition add_handle_to_garbage :: "nat option \<Rightarrow> string option \<Rightarrow> ('w, unit) rt_op" where
  "add_handle_to_garbage sid h = upd (\<lambda>r.
     if sid = rtm_session_id r then r\<lparr>rtm_garbage := gm_add sid h (rtm_garbage r)\<rparr> else r)"

section \<open>Answers\<close>

definition unpickle_output :: "'o pickler \<Rightarrow> bytes \<Rightarrow> exn + 'o pyobj" where
  "unpickle_output pk b = (if b = [] then Inr PyNone else pk_loads pk b)"

definition try_to_deserialize :: "'o pickler \<Rightarrow> bytes \<Rightarrow> exn + 'o pyobj" where
  "try_to_deserialize pk b = (case unpickle_output pk b of
     Inl e \<Rightarrow> if is_Exception e then Inl (RunnerTerminalSessionBroken None) else Inl e
   | Inr x \<Rightarrow> Inr x)"

definition try_to_unpickle :: "'o pickler \<Rightarrow> bytes \<Rightarrow> exn + 'o pyobj" where
  "try_to_unpickle pk b = (case unpickle_output pk b of
     Inl e \<Rightarrow> if is_Exception e then Inl RunnerTerminalUnableToDeserialize else Inl e
   | Inr x \<Rightarrow> Inr x)"

text \<open>
  What is not a pair cannot be unpacked; what is raised must be an exception. A time-out of the
  handler carries a response id.
\<close>

definition identity_or_raise :: "'o pickler \<Rightarrow> 'o pyobj \<Rightarrow> exn + 'o rvalue" where
  "identity_or_raise pk out = (case out of
     PyNone \<Rightarrow> Inl (RunnerTerminalSessionBroken None)
   | PyPair st b \<Rightarrow>
       (case try_to_unpickle pk b of
          Inl e \<Rightarrow> Inl e
        | Inr x \<Rightarrow>
            if st = ''exception'' then (case x of PyExn e \<Rightarrow> Inl e | _ \<Rightarrow> Inl TypeError)
            else if st = ''timeout'' then
              Inl (RemoteTimeout (new_remote_timeout (case x of PyId i \<Rightarrow> i | _ \<Rightarrow> 0)))
            else Inr (RReturn st x))
   | _ \<Rightarrow> Inl TypeError)"

definition get_response_or_raise :: "'o pickler \<Rightarrow> bytes \<Rightarrow> exn + 'o rvalue" where
  "get_response_or_raise pk b = (case try_to_deserialize pk b of
     Inl e \<Rightarrow> Inl e | Inr x \<Rightarrow> identity_or_raise pk x)"

section \<open>Calls\<close>

definition remote_timeout_of :: "rat option \<Rightarrow> runner_terminal \<Rightarrow> rat" where
  "remote_timeout_of tmo r = (case tmo of None \<Rightarrow> rtm_default_timeout r | Some t \<Rightarrow> t)"

definition run_timeout_of :: "rat option \<Rightarrow> runner_terminal \<Rightarrow> rat option" where
  "run_timeout_of tmo r = (case rtm_prompt_timeout r of
     None \<Rightarrow> None
   | Some p \<Rightarrow> Some (let t = remote_timeout_of tmo r in if t < 0 then p else t + p))"

text \<open>
  \<open>_RemoteRunner.run\<close> of the three classes, which differ in the conversion of the response.
\<close>

definition remote_run ::
  "('w, 'o) runner_env \<Rightarrow> response_wrap \<Rightarrow> (string \<Rightarrow> string) \<Rightarrow> rat option \<Rightarrow> ('w, 'o rvalue) rt_op" where
  "remote_run q wr template tmo = bnd (gets fst) (\<lambda>r.
     let cmd = template (rq_float_text q (remote_timeout_of tmo r)) in
     remotetimeouthandler [wr] (rq_error_handling q
       (bnd (rt_run q cmd (run_timeout_of tmo r)) (\<lambda>out.
         bnd (of_sum (get_response_or_raise (rq_pickler q) out)) (\<lambda>v. of_sum (apply_wrap wr v))))))"

definition run_python :: "('w, 'o) runner_env \<Rightarrow> string \<Rightarrow> rat option \<Rightarrow> ('w, 'o rvalue) rt_op" where
  "run_python q cmd tmo = remote_run q WrapObj (run_template cmd) tmo"

definition assign_and_run_python ::
  "('w, 'o) runner_env \<Rightarrow> string \<Rightarrow> string \<Rightarrow> rat option \<Rightarrow> ('w, 'o rvalue) rt_op" where
  "assign_and_run_python q handle cmd tmo = remote_run q WrapHandled (assign_and_run_template handle cmd) tmo"

definition run_and_return_handled_python :: "('w, 'o) runner_env \<Rightarrow> string \<Rightarrow> ('w, 'o rvalue) rt_op" where
  "run_and_return_handled_python q handle =
     remote_run q WrapHandled (run_and_return_handled_template handle) None"

definition get_response_raw :: "('w, 'o) runner_env \<Rightarrow> nat \<Rightarrow> rat option \<Rightarrow> ('w, 'o rvalue) rt_op" where
  "get_response_raw q i tmo = remote_run q WrapId (get_response_template i) tmo"

definition rt_get_response :: "('w, 'o) runner_env \<Rightarrow> timeout_handle \<Rightarrow> rat option \<Rightarrow> ('w, 'o rvalue) rt_op" where
  "rt_get_response q h tmo = remotetimeouthandler (snd h)
     (bnd (get_response_raw q (fst h) tmo) (\<lambda>v. of_sum (apply_wraps (snd h) v)))"

section \<open>Proxies as arguments\<close>

definition proxy_id_of :: "string option \<Rightarrow> runner_terminal \<Rightarrow> proxy_session option" where
  "proxy_id_of name r = (if name = None then None
     else Some (case rtm_session_id r of None \<Rightarrow> Uninitialized | Some i \<Rightarrow> OfSession i))"

definition remote_proxy_verify :: "proxy \<Rightarrow> ('w, unit) rt_op" where
  "remote_proxy_verify p = bnd (gets (\<lambda>(r, w). rtm_session_id r)) (\<lambda>sid.
     if px_session_id p \<noteq> Some Uninitialized \<and>
        (px_session_id p = None \<or> px_session_id p \<noteq> map_option OfSession sid)
     then throw InvalidProxySession else ret ())"

definition remote_proxy_autoprepare :: "('w, 'o) runner_env \<Rightarrow> proxy \<Rightarrow> ('w, unit) rt_op" where
  "remote_proxy_autoprepare q p = andthen (rq_initialize_if_needed q) (remote_proxy_verify p)"

definition get_proxy_handle :: "('w, 'o) runner_env \<Rightarrow> proxy \<Rightarrow> ('w, string) rt_op" where
  "get_proxy_handle q p = andthen (remote_proxy_autoprepare q p)
     (case px_handle p of None \<Rightarrow> throw TypeError | Some h \<Rightarrow> ret h)"

datatype 'o call_arg = ArgProxy proxy | ArgVal "'o pyobj"

definition get_python_arg :: "('w, 'o) runner_env \<Rightarrow> 'o call_arg \<Rightarrow> ('w, string) rt_op" where
  "get_python_arg q a = (case a of
     ArgProxy p \<Rightarrow> get_proxy_handle q p
   | ArgVal x \<Rightarrow> bnd (of_sum (pk_dumps (rq_pickler q) x)) (\<lambda>b. ret (deserialize_template b)))"

fun python_args :: "('w, 'o) runner_env \<Rightarrow> (string option \<times> 'o call_arg) list \<Rightarrow> ('w, string list) rt_op" where
  "python_args q [] = ret []"
| "python_args q ((n, a) # as) = bnd (get_python_arg q a) (\<lambda>s. bnd (python_args q as) (\<lambda>ss.
     ret ((case n of None \<Rightarrow> s | Some k \<Rightarrow> k @ ''='' @ s) # ss)))"

text \<open>Keyword arguments follow the positional ones, each with its name.\<close>

definition get_python_call ::
  "('w, 'o) runner_env \<Rightarrow> string \<Rightarrow> 'o call_arg list \<Rightarrow> (string \<times> 'o call_arg) list \<Rightarrow> ('w, string) rt_op" where
  "get_python_call q fn as kws =
     bnd (python_args q (map (Pair None) as @ map (\<lambda>(k, a). (Some k, a)) kws)) (\<lambda>ss.
       ret (fn @ ''('' @ join_with '', '' ss @ '')''))"

definition run_python_call_with_timeout ::
  "('w, 'o) runner_env \<Rightarrow> rat option \<Rightarrow> string \<Rightarrow> 'o call_arg list \<Rightarrow> (string \<times> 'o call_arg) list \<Rightarrow> ('w, 'o rvalue) rt_op" where
  "run_python_call_with_timeout q tmo fn as kws =
     bnd (get_python_call q fn as kws) (\<lambda>cmd. run_python q cmd tmo)"

definition run_python_call ::
  "('w, 'o) runner_env \<Rightarrow> string \<Rightarrow> 'o call_arg list \<Rightarrow> (string \<times> 'o call_arg) list \<Rightarrow> ('w, 'o rvalue) rt_op" where
  "run_python_call q fn as kws = bnd (gets fst) (\<lambda>r.
     run_python_call_with_timeout q (Some (rtm_default_timeout r)) fn as kws)"

definition import_libraries :: "('w, 'o) runner_env \<Rightarrow> string list \<Rightarrow> ('w, unit) rt_op" where
  "import_libraries q ls = bnd (rt_run q (''import '' @ join_with '', '' ls) (Some (- 1))) (\<lambda>_. ret ())"

text \<open>A new proxy has the session id of the moment and the default time-out of the class.\<close>

definition new_proxy :: "rat \<Rightarrow> string option \<Rightarrow> bool \<Rightarrow> bool \<Rightarrow> runner_terminal \<Rightarrow> proxy" where
  "new_proxy tmo name owned recursive r = \<lparr>px_handle = name, px_session_id = proxy_id_of name r,
     px_is_remote_owned = owned, px_timeout = tmo, px_async = False, px_spec = None, px_recursive = recursive\<rparr>"

definition get_proxy_object :: "rat \<Rightarrow> string \<Rightarrow> ('w, proxy) rt_op" where
  "get_proxy_object tmo name = bnd (gets fst) (\<lambda>r. ret (new_proxy tmo (Some name) False False r))"

definition get_recursive_proxy :: "rat \<Rightarrow> string \<Rightarrow> ('w, proxy) rt_op" where
  "get_recursive_proxy tmo name = bnd (gets fst) (\<lambda>r. ret (new_proxy tmo (Some name) False True r))"

definition create_empty_remote_proxy :: "rat \<Rightarrow> ('w, proxy) rt_op" where
  "create_empty_remote_proxy tmo = bnd (gets fst) (\<lambda>r. ret (new_proxy tmo None False False r))"

definition create_empty_recursive_proxy :: "rat \<Rightarrow> ('w, proxy) rt_op" where
  "create_empty_recursive_proxy tmo = bnd (gets fst) (\<lambda>r. ret (new_proxy tmo None False True r))"

definition random_handle_name :: "('w, 'o) runner_env \<Rightarrow> ('w, string) rt_op" where
  "random_handle_name q = bnd (in_world (rq_uuid q)) (\<lambda>u. ret (in_namespace (''_PROXY_CONTAINER.handle_'' @ u)))"

definition get_proxy_object_from_call ::
  "('w, 'o) runner_env \<Rightarrow> rat \<Rightarrow> string \<Rightarrow> 'o call_arg list \<Rightarrow> (string \<times> 'o call_arg) list \<Rightarrow> ('w, proxy) rt_op" where
  "get_proxy_object_from_call q tmo fn as kws = bnd (random_handle_name q) (\<lambda>h.
     bnd (get_python_call q fn as kws) (\<lambda>call.
       bnd (run_python q (h @ '' = '' @ call) None) (\<lambda>_.
         bnd (gets fst) (\<lambda>r. ret (new_proxy tmo (Some h) True False r)))))"

definition get_proxy_or_basic_from_call_with_timeout ::
  "('w, 'o) runner_env \<Rightarrow> rat option \<Rightarrow> string \<Rightarrow> 'o call_arg list \<Rightarrow> (string \<times> 'o call_arg) list \<Rightarrow> ('w, 'o rvalue) rt_op" where
  "get_proxy_or_basic_from_call_with_timeout q tmo fn as kws = bnd (random_handle_name q) (\<lambda>h.
     bnd (get_python_call q fn as kws) (\<lambda>call.
       remotetimeouthandler [WrapProxyOrBasic h]
         (bnd (assign_and_run_python q h call tmo) (\<lambda>v. of_sum (apply_wrap (WrapProxyOrBasic h) v)))))"

definition get_proxy_or_basic_from_call ::
  "('w, 'o) runner_env \<Rightarrow> string \<Rightarrow> 'o call_arg list \<Rightarrow> (string \<times> 'o call_arg) list \<Rightarrow> ('w, 'o rvalue) rt_op" where
  "get_proxy_or_basic_from_call q fn as kws = bnd (gets fst) (\<lambda>r.
     get_proxy_or_basic_from_call_with_timeout q (Some (rtm_default_timeout r)) fn as kws)"

definition iscallable :: "('w, 'o) runner_env \<Rightarrow> string \<Rightarrow> ('w, 'o rvalue) rt_op" where
  "iscallable q name = run_python q (''callable('' @ name @ '')'') None"

section \<open>Opening and closing\<close>

definition exec_handler_content :: "('w, 'o) runner_env \<Rightarrow> ('w, unit) rt_op" where
  "exec_handler_content q = bnd (of_sum (pk_dumps (rq_pickler q) (rq_handler_source q))) (\<lambda>b.
     for_each (\<lambda>c. bnd (rt_run q c (Some (- 1))) (\<lambda>_. ret ()))
       [''_handlercode = compile(pickle.loads('' @ py_repr True b @ ''), '' @
          py_repr False ''RunnerHandler'' @ '', '' @ py_repr False ''exec'' @ '')'',
        ''runnerhandlerns = {}'', ''exec(_handlercode, runnerhandlerns)''])"

definition initialize_runnerhandler :: "('w, 'o) runner_env \<Rightarrow> ('w, unit) rt_op" where
  "initialize_runnerhandler q = bnd (get_python_arg q (ArgVal PyNone)) (\<lambda>a.
     bnd (rt_run q (runnercall ''initialize'' (''contextmgr='' @ in_namespace ''_RUNNERHANDLER'' @ ''.pickle_errors'' @
         '', pickler=pickle, handled_types='' @ a)) (Some (- 1))) (\<lambda>_. ret ()))"

definition setup_handler :: "('w, 'o) runner_env \<Rightarrow> ('w, unit) rt_op" where
  "setup_handler q = andthen (import_libraries q [''pickle'', ''base64'', ''os''])
     (andthen (exec_handler_content q) (initialize_runnerhandler q))"

definition set_session_metadata :: "('w, 'o) runner_env \<Rightarrow> ('w, unit) rt_op" where
  "set_session_metadata q = andthen (upd (\<lambda>r. r\<lparr>rtm_initialized_session := rtm_session r\<rparr>))
     (bnd (rt_get_session q) (\<lambda>i. upd (\<lambda>r. r\<lparr>rtm_session_id := i\<rparr>)))"

definition setup_session :: "('w, 'o) runner_env \<Rightarrow> ('w, unit) rt_op" where
  "setup_session q = bnd (gets fst) (\<lambda>r.
     if rtm_session r \<noteq> rtm_initialized_session r then
       andthen (bnd (rt_session q) (\<lambda>i. in_world (rq_push_python q i)))
         (andthen (setup_handler q) (andthen (set_session_metadata q) (rq_setup q)))
     else ret ())"

definition rt_initialize :: "('w, 'o) runner_env \<Rightarrow> nat \<Rightarrow> ('w, unit) rt_op" where
  "rt_initialize q s = andthen (upd (\<lambda>r. r\<lparr>rtm_session := Some s\<rparr>)) (setup_session q)"

definition close_session :: "('w, 'o) runner_env \<Rightarrow> ('w, unit) rt_op" where
  "close_session q = andthen
     (bnd (gets (\<lambda>(r, w). rtm_session r)) (\<lambda>s. if s = None then ret ()
        else bnd (rt_get_session q) (\<lambda>i. case i of None \<Rightarrow> ret () | Some k \<Rightarrow> in_world (rq_close_terminal q k))))
     (upd (\<lambda>r. r\<lparr>rtm_session := None\<rparr>))"

definition rt_close :: "('w, 'o) runner_env \<Rightarrow> ('w, unit) rt_op" where
  "rt_close q = bnd (gets (\<lambda>(r, w). rtm_session r)) (\<lambda>s.
     if s = None then ret () else andthen (rq_close q) (close_session q))"
section \<open>What the handler answers is what the caller gets\<close>

text \<open>
  Pickling is faithful when what was written is read back, and nothing is written as nothing.
\<close>

definition faithful_pickler :: "'o pickler \<Rightarrow> bool" where
  "faithful_pickler pk \<longleftrightarrow> (\<forall>x b. pk_dumps pk x = Inr b \<longrightarrow> b \<noteq> [] \<and> pk_loads pk b = Inr x)"

lemma serialized_answer:
  assumes "faithful_pickler pk" "serialize_response pk (st, x) = Inr b"
  shows "get_response_or_raise pk b =
    (if st = ''exception'' then (case x of PyExn e \<Rightarrow> Inl e | _ \<Rightarrow> Inl TypeError)
     else if st = ''timeout'' then Inl (RemoteTimeout (new_remote_timeout (case x of PyId i \<Rightarrow> i | _ \<Rightarrow> 0)))
     else Inr (RReturn st x))"
proof -
  obtain c where c: "pk_dumps pk x = Inr c" "pk_dumps pk (PyPair st c) = Inr b"
    using assms(2) by (auto simp: serialize_response_def split: sum.splits)
  have "c \<noteq> []" "pk_loads pk c = Inr x" "b \<noteq> []" "pk_loads pk b = Inr (PyPair st c)"
    using assms(1) c unfolding faithful_pickler_def by blast+
  then show ?thesis
    by (simp add: get_response_or_raise_def try_to_deserialize_def unpickle_output_def identity_or_raise_def
        try_to_unpickle_def)
qed

text \<open>A remote call that takes \<open>dur\<close> is not waited for to its end.\<close>

definition times_out :: "rat option \<Rightarrow> rat option \<Rightarrow> bool" where
  "times_out dur tmo = (case tmo of None \<Rightarrow> False
     | Some t \<Rightarrow> t < 0 \<or> (case dur of None \<Rightarrow> True | Some d \<Rightarrow> t < d))"

lemma run_in_thread_app:
  assumes "case dur of None \<Rightarrow> tmo \<noteq> None | Some d \<Rightarrow> 0 \<le> d"
  shows "\<exists>h'. run_in_thread pk out dur tmo h =
    Some (if times_out dur tmo then serialize_response pk (''timeout'', PyId (rh_next_id h))
      else case pickle_errors out of None \<Rightarrow> Inl TypeError | Some x \<Rightarrow> serialize_response pk x, h')"
  using assms by (auto simp: run_in_thread_def get_response_with_timeout_def join_thread_def get_response_from_thread_def
      is_alive_def store_and_return_response_def times_out_def min_def max_def split: option.splits if_splits)

text \<open>
  C9: evaluation at the remote end and the answer at the local end agree, through both picklings: the
  caller gets the value the code evaluated to, or the exception it raised, or, if the code
  was still running when the time-out came, a time-out with the id of its response.
\<close>

theorem remote_outcome_arrives:
  assumes "faithful_pickler pk" "run_in_thread pk out dur tmo h = Some (Inr b, h')"
    and "case dur of None \<Rightarrow> True | Some d \<Rightarrow> 0 \<le> d"
    and "case out of Inl e \<Rightarrow> is_Exception e | Inr (st, x) \<Rightarrow> st \<noteq> ''exception'' \<and> st \<noteq> ''timeout''"
  shows "get_response_or_raise pk b =
    (if times_out dur tmo then Inl (RemoteTimeout (rh_next_id h, []))
     else case out of Inl e \<Rightarrow> Inl e | Inr (st, x) \<Rightarrow> Inr (RReturn st x))"
proof -
  have t: "case dur of None \<Rightarrow> tmo \<noteq> None | Some d \<Rightarrow> 0 \<le> d"
    using assms(2,3) by (cases dur; cases tmo)
      (auto simp: run_in_thread_def get_response_with_timeout_def join_thread_def)
  have "Inr b = (if times_out dur tmo then serialize_response pk (''timeout'', PyId (rh_next_id h))
      else case pickle_errors out of None \<Rightarrow> Inl TypeError | Some x \<Rightarrow> serialize_response pk x)"
    using run_in_thread_app [OF t, of pk out h] assms(2) by auto
  then show ?thesis
    using assms(4) by (cases out)
      (auto simp: serialized_answer [OF assms(1)] pickle_errors_def new_remote_timeout_def dest!: sym [of "Inr b"] split: if_splits)
qed

definition tiny_pickler :: "unit pickler" where
  "tiny_pickler = \<lparr>pk_dumps = \<lambda>x. if x = PyNone then Inr ''N'' else if x = PyPair ''run'' ''N'' then Inr ''R'' else Inl TypeError,
     pk_loads = \<lambda>b. if b = ''N'' then Inr PyNone else if b = ''R'' then Inr (PyPair ''run'' ''N'') else Inl ValueError\<rparr>"

lemma tiny_faithful: "faithful_pickler tiny_pickler"
  by (auto simp: faithful_pickler_def tiny_pickler_def split: if_splits)

lemma remote_outcome_arrives_witness:
  "get_response_or_raise tiny_pickler ''R'' = Inr (RReturn ''run'' PyNone)"
proof -
  have "\<exists>h'. run_in_thread tiny_pickler (Inr (''run'', PyNone)) (Some 1) None idle_handler = Some (Inr ''R'', h')"
    using run_in_thread_app [where dur = "Some 1" and tmo = None and pk = tiny_pickler and out = "Inr (''run'', PyNone)" and h = idle_handler]
    by (simp add: times_out_def pickle_errors_def serialize_response_def tiny_pickler_def)
  then obtain h' where "run_in_thread tiny_pickler (Inr (''run'', PyNone)) (Some 1) None idle_handler = Some (Inr ''R'', h')" ..
  from remote_outcome_arrives [OF tiny_faithful this] show ?thesis by (simp add: times_out_def)
qed

section \<open>Literals in commands\<close>

text \<open>How Python reads a short string literal: the part up to the quote \<open>q\<close>, and what follows it.\<close>

definition hex_value :: "char \<Rightarrow> nat option" where
  "hex_value c = (let n = of_char c :: nat in
     if 48 \<le> n \<and> n \<le> 57 then Some (n - 48) else if 97 \<le> n \<and> n \<le> 102 then Some (n - 87)
     else if 65 \<le> n \<and> n \<le> 70 then Some (n - 55) else None)"

fun literal_body :: "char \<Rightarrow> string \<Rightarrow> (string \<times> string) option" where
  "literal_body q [] = None"
| "literal_body q (c # cs) =
     (if c = q then Some ([], cs)
      else if of_char c = (10 :: nat) then None
      else if of_char c \<noteq> (92 :: nat) then map_option (apfst (Cons c)) (literal_body q cs)
      else (case cs of
          [] \<Rightarrow> None
        | e # r \<Rightarrow>
            if e = CHR ''n'' then map_option (apfst (Cons (char_of (10 :: nat)))) (literal_body q r)
            else if e = CHR ''r'' then map_option (apfst (Cons (char_of (13 :: nat)))) (literal_body q r)
            else if e = CHR ''t'' then map_option (apfst (Cons (char_of (9 :: nat)))) (literal_body q r)
            else if e = CHR ''x'' then (case r of
                a # b # r' \<Rightarrow> (case (hex_value a, hex_value b) of
                    (Some m, Some n) \<Rightarrow> map_option (apfst (Cons (char_of (m * 16 + n)))) (literal_body q r')
                  | _ \<Rightarrow> None)
              | _ \<Rightarrow> None)
            else map_option (apfst (Cons e)) (literal_body q r)))"

definition read_literal :: "string \<Rightarrow> (bool \<times> string \<times> string) option" where
  "read_literal s = (case s of
     [] \<Rightarrow> None
   | c # cs \<Rightarrow>
       if c = single_quote \<or> c = double_quote then map_option (Pair False) (literal_body c cs)
       else if c = CHR ''b'' then (case cs of
           [] \<Rightarrow> None
         | d # ds \<Rightarrow> if d = single_quote \<or> d = double_quote then map_option (Pair True) (literal_body d ds) else None)
       else None)"

lemma hex2_value: "n < 256 \<Longrightarrow> hex_value (''0123456789abcdef'' ! (n div 16)) = Some (n div 16) \<and>
    hex_value (''0123456789abcdef'' ! (n mod 16)) = Some (n mod 16)"
proof -
  have "\<forall>k \<in> set [0..<16]. hex_value (''0123456789abcdef'' ! k) = Some k" by code_simp
  moreover assume "n < 256"
  ultimately show ?thesis by simp
qed

lemma quote_chars: "single_quote = CHR 0x27" "double_quote = CHR 0x22" "char_of (92 :: nat) = CHR 0x5C"
  "char_of (9 :: nat) = CHR 0x09" "char_of (10 :: nat) = CHR 0x0A" "char_of (13 :: nat) = CHR 0x0D"
  by code_simp+

lemma literal_body_escaped:
  assumes q: "q = single_quote \<or> q = double_quote"
  shows "literal_body q (escaped ib q c @ rest) = map_option (apfst (Cons c)) (literal_body q rest)"
proof -
  let ?n = "of_char c :: nat" and ?b = "char_of (92 :: nat) :: char"
  have q1: "?b \<noteq> q" using q by (auto simp: quote_chars)
  have c: "c = char_of ?n" by simp
  consider (self) "c = q \<or> ?n = 92" | (tab) "?n = 9" | (nl) "?n = 10" | (cr) "?n = 13"
    | (hex) "\<not> (c = q \<or> ?n = 92 \<or> ?n = 9 \<or> ?n = 10 \<or> ?n = 13)" "?n < 32 \<or> (127 \<le> ?n \<and> (ib \<or> ?n < 161)) \<or> ?n = 173"
    | (plain) "\<not> (c = q \<or> ?n = 92 \<or> ?n = 9 \<or> ?n = 10 \<or> ?n = 13)" "\<not> (?n < 32 \<or> (127 \<le> ?n \<and> (ib \<or> ?n < 161)) \<or> ?n = 173)"
    by blast
  then show ?thesis
  proof cases
    case self
    have "c = q \<or> c = ?b" using self c by metis
    then show ?thesis
      using q q1 by (auto simp: escaped_def quote_chars)
  next
    case tab
    then have "c = char_of (9 :: nat)" using c by simp
    then show ?thesis using q q1 by (auto simp: escaped_def quote_chars)
  next
    case nl
    then have "c = char_of (10 :: nat)" using c by simp
    then show ?thesis using q q1 by (auto simp: escaped_def quote_chars)
  next
    case cr
    then have "c = char_of (13 :: nat)" using c by simp
    then show ?thesis using q q1 by (auto simp: escaped_def quote_chars)
  next
    case hex
    have "?n div 16 * 16 + ?n mod 16 = ?n" by simp
    then show ?thesis
      using hex q1 hex2_value [of ?n] by (simp add: escaped_def hex2_def Let_def)
  next
    case plain
    then show ?thesis using q1 by (auto simp: escaped_def Let_def)
  qed
qed

lemma literal_body_repr:
  "q = single_quote \<or> q = double_quote \<Longrightarrow>
     literal_body q (concat (map (escaped ib q) s) @ q # rest) = Some (s, rest)"
  by (induction s) (simp_all add: literal_body_escaped)

lemma repr_is_read_back:
  "read_literal (py_repr ib s @ rest) = Some (ib, s, rest)"
proof -
  let ?q = "if single_quote \<in> set s \<and> double_quote \<notin> set s then double_quote else single_quote"
  have "?q = single_quote \<or> ?q = double_quote" by simp
  from literal_body_repr [OF this, of ib s rest] show ?thesis
    by (auto simp: read_literal_def py_repr_def Let_def quote_chars)
qed

text \<open>
  C22: the code of a remote call cannot leave its quotes: in the commands for the handler the other end
  reads one literal for the code, one for the name of the object and one for every pickled argument,
  each is the string that was meant, with whatever quotes, backslashes, line ends and
  unprintable characters it has, and what follows the literal is the rest of the template.
\<close>

theorem templates_are_read_back:
  "read_literal (drop (length (in_namespace ''_RUNNERHANDLER'' @ ''.run('')) (run_template cmd tmo)) =
     Some (False, cmd, '', timeout='' @ tmo @ '', locals_=locals())'') \<and>
   (\<exists>rest. read_literal (drop (length (in_namespace ''_RUNNERHANDLER'' @ ''.assign_and_run(''))
         (assign_and_run_template n cmd tmo)) = Some (False, n, '', '' @ rest) \<and>
      read_literal rest = Some (False, cmd, '', timeout='' @ tmo @ '', locals_=locals())'')) \<and>
   read_literal (drop (length (in_namespace ''_RUNNERHANDLER'' @ ''.deserialize('')) (deserialize_template obj)) =
     Some (True, obj, '', pickle.Unpickler)'')"
proof -
  have "run_template cmd tmo = (in_namespace ''_RUNNERHANDLER'' @ ''.run('') @ py_repr False cmd @ '', timeout='' @ tmo @ '', locals_=locals())''"
    "assign_and_run_template n cmd tmo = (in_namespace ''_RUNNERHANDLER'' @ ''.assign_and_run('') @ py_repr False n @ '', '' @
       py_repr False cmd @ '', timeout='' @ tmo @ '', locals_=locals())''"
    "deserialize_template obj = (in_namespace ''_RUNNERHANDLER'' @ ''.deserialize('') @ py_repr True obj @ '', pickle.Unpickler)''"
    by (simp_all add: run_template_def assign_and_run_template_def deserialize_template_def runnerlocals_def runnercall_def)
  then show ?thesis
    using repr_is_read_back by (simp only: drop_append_exact) blast
qed

end
