(* ===== verification/ParamikoSpawn.thy ===== *)
theory ParamikoSpawn
  imports Prelude Compatibility
begin

text \<open>
  \<open>shells/paramikospawn.py\<close>: a terminal over a Paramiko channel. A thread moves what
  the channel receives to a queue; reads take from the queue and keep a rest in \<open>_buf\<close>.
  The channel is not under \<open>src/\<close>: what it delivers is a list of arrivals and what it
  accepts of each sent piece a list of sizes, both arbitrary. An item of the queue
  carries the time still to wait for it, so the list covers every timing of the
  reading thread against the reader. The encoding is the default (none).
\<close>

section \<open>The reading thread\<close>

text \<open>
  The expression \<open>ESC ([@-Z\\-_] | \[ [0-?]* [ -/]* [@-~])\<close>: \<open>ansi_end\<close> is the rest
  behind a match at an escape character, \<open>None\<close> when there is none. The three classes
  of the second alternative are disjoint, so a greedy match never has to give back.
\<close>

definition ansi_end :: "ustr \<Rightarrow> ustr option" where
  "ansi_end s =
     (case s of
        [] \<Rightarrow> None
      | c # cs \<Rightarrow>
          if 64 \<le> c \<and> c \<le> 95 \<and> c \<noteq> 91 then Some cs
          else if c = 91 then
            (case dropWhile (\<lambda>c. 32 \<le> c \<and> c \<le> 47) (dropWhile (\<lambda>c. 48 \<le> c \<and> c \<le> 63) cs) of
               [] \<Rightarrow> None
             | d # ds \<Rightarrow> if 64 \<le> d \<and> d \<le> 126 then Some ds else None)
          else None)"

lemma length_dropWhile2: "length (dropWhile P (dropWhile Q xs)) \<le> length xs"
  by (rule le_trans [OF length_dropWhile_le length_dropWhile_le])

lemma final_shorter:
  "(case xs of [] \<Rightarrow> None | d # ds \<Rightarrow> if P d then Some ds else None) = Some r \<Longrightarrow>
     length r < length xs"
  by (cases xs) (auto split: if_splits)

lemma ansi_end_shorter: "ansi_end s = Some r \<Longrightarrow> length r < length s"
proof (cases s)
  case (Cons c cs)
  assume "ansi_end s = Some r"
  then show ?thesis
    unfolding ansi_end_def Cons list.case
    by (auto dest!: final_shorter intro: less_le_trans [OF _ length_dropWhile2, THEN less_SucI]
        split: if_split_asm)
qed (simp add: ansi_end_def)

function ansi_sub :: "ustr \<Rightarrow> ustr" where
  "ansi_sub s =
     (case s of
        [] \<Rightarrow> []
      | c # cs \<Rightarrow>
          if c = 27 then (case ansi_end cs of Some r \<Rightarrow> ansi_sub r | None \<Rightarrow> c # ansi_sub cs)
          else c # ansi_sub cs)"
  by pat_completeness auto
termination
  by (relation "measure length") (auto dest: ansi_end_shorter)

declare ansi_sub.simps [simp del]

datatype recv = Recv bytes | RecvTimeout

text \<open>
  \<open>_read_incoming\<close> on what \<open>chan.recv\<close> gives: an empty buffer, also the one left by a
  \<open>socket.timeout\<close>, is the end of the stream. A decoding error of \<open>_remove_ansi_chars\<close>
  kills the thread, and nothing more comes, not even the end.
\<close>

fun read_incoming :: "bool \<Rightarrow> recv list \<Rightarrow> bytes option list" where
  "read_incoming ansi [] = []"
| "read_incoming ansi (RecvTimeout # rs) = [None]"
| "read_incoming ansi (Recv buf # rs) =
     (if buf = [] then [None]
      else if ansi then
        (case utf8_decode buf of
           Inl e \<Rightarrow> []
         | Inr u \<Rightarrow> (case utf8_encode (ansi_sub u) of
                       Inl e \<Rightarrow> []
                     | Inr b \<Rightarrow> Some b # read_incoming ansi rs))
      else Some buf # read_incoming ansi rs)"

section \<open>Reading\<close>

type_synonym arrivals = "(rat \<times> bytes option) list"

record paramiko_spawn =
  ps_timeout :: rat
  ps_buf :: bytes
  ps_read_reached_eof :: bool
  ps_flag_eof :: bool
  ps_queue :: arrivals
  ps_accepts :: "nat list"
  ps_sent :: bytes
  ps_closed :: bool

definition new_paramiko_spawn :: "rat \<Rightarrow> arrivals \<Rightarrow> nat list \<Rightarrow> paramiko_spawn" where
  "new_paramiko_spawn t q ks =
     \<lparr>ps_timeout = t, ps_buf = [], ps_read_reached_eof = False, ps_flag_eof = False,
      ps_queue = q, ps_accepts = ks, ps_sent = [], ps_closed = False\<rparr>"

text \<open>\<open>Queue.get_nowait\<close> and \<open>Queue.get(timeout)\<close>; \<open>None\<close> is \<open>Empty\<close>.\<close>

fun get_nowait :: "arrivals \<Rightarrow> bytes option option \<times> arrivals" where
  "get_nowait [] = (None, [])"
| "get_nowait ((d, x) # q) = (if d \<le> 0 then (Some x, q) else (None, (d, x) # q))"

fun get_timeout :: "rat \<Rightarrow> arrivals \<Rightarrow> bytes option option \<times> arrivals" where
  "get_timeout t [] = (None, [])"
| "get_timeout t ((d, x) # q) = (if d \<le> t then (Some x, q) else (None, (d - t, x) # q))"

text \<open>The last component says that the end of the stream was met.\<close>

fun read_from_queue_until_end_or_size :: "nat \<Rightarrow> bytes \<Rightarrow> arrivals \<Rightarrow> bytes \<times> arrivals \<times> bool" where
  "read_from_queue_until_end_or_size n buf [] = (buf, [], False)"
| "read_from_queue_until_end_or_size n buf ((d, x) # q) =
     (if length buf < n then
        if d \<le> 0 then
          (case x of
             None \<Rightarrow> (buf, q, True)
           | Some incoming \<Rightarrow> read_from_queue_until_end_or_size n (buf @ incoming) q)
        else (buf, (d, x) # q, False)
      else (buf, (d, x) # q, False))"

definition read_until_end_or_size :: "nat \<Rightarrow> bytes \<Rightarrow> (paramiko_spawn, bytes) py" where
  "read_until_end_or_size n buf p =
     (case read_from_queue_until_end_or_size n buf (ps_queue p) of
        (b, q, eof) \<Rightarrow>
          Some (Inr b, p\<lparr>ps_queue := q, ps_read_reached_eof := ps_read_reached_eof p \<or> eof\<rparr>))"

text \<open>The result \<open>None\<close> is the exception \<open>Empty\<close>.\<close>

definition read_from_queue :: "rat \<Rightarrow> nat \<Rightarrow> bytes \<Rightarrow> (paramiko_spawn, bytes option) py" where
  "read_from_queue t n buf p =
     (if t < 0 then Some (Inl ValueError, p)
      else case get_timeout t (ps_queue p) of
        (None, q) \<Rightarrow> Some (Inr None, p\<lparr>ps_queue := q\<rparr>)
      | (Some None, q) \<Rightarrow> Some (Inr (Some buf), p\<lparr>ps_queue := q, ps_read_reached_eof := True\<rparr>)
      | (Some (Some incoming), q) \<Rightarrow>
          seq_outcome (read_until_end_or_size n (buf @ incoming) (p\<lparr>ps_queue := q\<rparr>)) (\<lambda>b. ret (Some b)))"

definition read_with_or_without_timeout :: "rat \<Rightarrow> nat \<Rightarrow> bytes \<Rightarrow> (paramiko_spawn, bytes) py" where
  "read_with_or_without_timeout t n buf =
     (if buf = []
      then bnd (read_from_queue t n buf) (\<lambda>r. case r of
             Some b \<Rightarrow> ret b
           | None \<Rightarrow> bnd (gets ps_buf) (\<lambda>b. if b = [] then throw PexpectTimeout else ret buf))
      else read_until_end_or_size n buf)"

definition read_queue_and_buf :: "rat \<Rightarrow> nat \<Rightarrow> (paramiko_spawn, bytes) py" where
  "read_queue_and_buf t n =
     bnd (gets ps_buf) (\<lambda>b0. bnd (read_with_or_without_timeout t n b0) (\<lambda>buf.
       let r = take n buf in
       andthen (modify (\<lambda>p. p\<lparr>ps_buf := drop n buf\<rparr>))
         (bnd (gets ps_read_reached_eof) (\<lambda>eof.
            if eof \<and> r = []
            then andthen (modify (\<lambda>p. p\<lparr>ps_flag_eof := True\<rparr>)) (throw PexpectEOF)
            else ret r))))"

definition effective_timeout :: "rat option \<Rightarrow> paramiko_spawn \<Rightarrow> rat" where
  "effective_timeout t p =
     (case t of None \<Rightarrow> 1000000 | Some r \<Rightarrow> if r = - 1 then ps_timeout p else r)"

definition read_nonblocking :: "nat \<Rightarrow> rat option \<Rightarrow> (paramiko_spawn, bytes) py" where
  "read_nonblocking n t p =
     (if ps_read_reached_eof p
      then Some (Inl PexpectEOF, p\<lparr>ps_flag_eof := True\<rparr>)
      else if 0 < n then read_queue_and_buf (effective_timeout t p) n p
      else Some (Inr [], p))"

section \<open>Writing\<close>

text \<open>
  \<open>chan.send\<close> accepts some of the bytes and returns how many: the next of
  \<open>ps_accepts\<close>, and all of them when that list is used up.
\<close>

definition chan_send :: "bytes \<Rightarrow> (paramiko_spawn, nat) py" where
  "chan_send b p =
     (case ps_accepts p of
        [] \<Rightarrow> Some (Inr (length b), p\<lparr>ps_sent := ps_sent p @ b\<rparr>)
      | k # ks \<Rightarrow> Some (Inr (min k (length b)),
                       p\<lparr>ps_sent := ps_sent p @ take k b, ps_accepts := ks\<rparr>))"

definition ps_chunk_size :: nat where
  "ps_chunk_size = 32000"

definition send_starts :: "nat \<Rightarrow> nat list" where
  "send_starts n = map (\<lambda>i. i * ps_chunk_size) [0..<(n + ps_chunk_size - 1) div ps_chunk_size]"

fun send_pieces :: "bytes \<Rightarrow> nat list \<Rightarrow> nat \<Rightarrow> (paramiko_spawn, nat) py" where
  "send_pieces b [] sbytes = ret sbytes"
| "send_pieces b (i # is) sbytes =
     bnd (chan_send (take ps_chunk_size (drop i b))) (\<lambda>k. send_pieces b is (sbytes + k))"

definition send_in_chunks :: "bytes \<Rightarrow> (paramiko_spawn, nat) py" where
  "send_in_chunks b = send_pieces b (send_starts (length b)) 0"

definition ps_send :: "bytes \<Rightarrow> (paramiko_spawn, nat) py" where
  "ps_send s = send_in_chunks s"

definition ps_write :: "bytes \<Rightarrow> (paramiko_spawn, unit) py" where
  "ps_write s = bnd (ps_send s) (\<lambda>_. ret ())"

definition ps_writelines :: "bytes list \<Rightarrow> (paramiko_spawn, unit) py" where
  "ps_writelines ls = for_each (\<lambda>s. bnd (ps_send s) (\<lambda>_. ret ())) ls"

definition linesep :: bytes where
  "linesep = [char_of (10 :: nat)]"

definition ps_sendline :: "bytes \<Rightarrow> (paramiko_spawn, nat) py" where
  "ps_sendline s = bnd (ps_send s) (\<lambda>n. bnd (ps_send linesep) (\<lambda>k. ret (n + k)))"

definition ps_sendeof :: "(paramiko_spawn, unit) py" where
  "ps_sendeof = modify (\<lambda>p. p\<lparr>ps_closed := True\<rparr>)"

text \<open>\<open>close\<close> also waits for the reading thread, which ends with its channel.\<close>

definition ps_close :: "(paramiko_spawn, unit) py" where
  "ps_close = ps_sendeof"

definition ps_wait :: "(paramiko_spawn, unit) py" where
  "ps_wait = throw NotImplementedError"

definition ps_kill :: "(paramiko_spawn, unit) py" where
  "ps_kill = throw NotImplementedError"

section \<open>Nothing is lost\<close>

text \<open>The bytes still to be read: the rest of the last read and the queue up to its end.\<close>

fun pending :: "arrivals \<Rightarrow> bytes" where
  "pending [] = []"
| "pending ((d, None) # q) = []"
| "pending ((d, Some b) # q) = b @ pending q"

definition stream_left :: "paramiko_spawn \<Rightarrow> bytes" where
  "stream_left p = ps_buf p @ (if ps_read_reached_eof p then [] else pending (ps_queue p))"

text \<open>
  The early exit of \<open>read_nonblocking\<close> throws nothing away: once the end of the stream
  was met, \<open>_buf\<close> is empty.
\<close>

definition eof_inv :: "paramiko_spawn \<Rightarrow> bool" where
  "eof_inv p \<longleftrightarrow> (ps_read_reached_eof p \<longrightarrow> ps_buf p = [])"

lemma drain_pending:
  "read_from_queue_until_end_or_size n buf q = (b, q', eof) \<Longrightarrow>
     b @ (if eof then [] else pending q') = buf @ pending q \<and> (eof \<longrightarrow> length b < n) \<and> length buf \<le> length b"
proof (induction n buf q rule: read_from_queue_until_end_or_size.induct)
  case (2 n buf d x q)
  then show ?case by (fastforce split: if_splits option.splits)
qed simp

lemma get_timeout_pending:
  "get_timeout t q = (Some (Some b), q') \<Longrightarrow> pending q = b @ pending q'"
  "get_timeout t q = (Some None, q') \<Longrightarrow> pending q = []"
  "get_timeout t q = (None, q') \<Longrightarrow> pending q' = pending q"
  by (cases "(t, q)" rule: get_timeout.cases; auto split: if_splits; cases "snd (hd q)"; auto)+

lemma read_until_end_or_size_spec:
  assumes "read_until_end_or_size n buf p = Some (r, p')" "\<not> ps_read_reached_eof p"
  shows "\<exists>b. r = Inr b \<and> ps_buf p' = ps_buf p \<and> length buf \<le> length b \<and>
    b @ (if ps_read_reached_eof p' then [] else pending (ps_queue p')) = buf @ pending (ps_queue p) \<and>
    (ps_read_reached_eof p' \<longrightarrow> length b < n)"
  using assms drain_pending [of n buf "ps_queue p"]
  by (cases "read_from_queue_until_end_or_size n buf (ps_queue p)")
    (auto simp: read_until_end_or_size_def)

lemma take_drop_append: "take n xs @ drop n xs @ ys = xs @ ys"
  by simp

lemma read_from_queue_spec:
  assumes "read_from_queue t n buf p = Some (r, p')" "\<not> ps_read_reached_eof p"
  shows "ps_buf p' = ps_buf p \<and>
    (case r of
       Inl e \<Rightarrow> e = ValueError \<and> p' = p
     | Inr None \<Rightarrow> \<not> ps_read_reached_eof p' \<and> pending (ps_queue p') = pending (ps_queue p)
     | Inr (Some b) \<Rightarrow> (ps_read_reached_eof p' \<longrightarrow> length b < n \<or> b = buf) \<and>
         b @ (if ps_read_reached_eof p' then [] else pending (ps_queue p')) = buf @ pending (ps_queue p))"
proof (cases "t < 0")
  case True
  with assms show ?thesis by (auto simp: read_from_queue_def)
next
  case False
  obtain g q where g: "get_timeout t (ps_queue p) = (g, q)" by fastforce
  show ?thesis
  proof (cases g)
    case None
    with assms False g show ?thesis
      by (auto simp: read_from_queue_def get_timeout_pending(3))
  next
    case (Some x)
    show ?thesis
    proof (cases x)
      case None
      with assms False g Some show ?thesis
        by (auto simp: read_from_queue_def get_timeout_pending(2))
    next
      case (Some b)
      let ?p = "p\<lparr>ps_queue := q\<rparr>"
      obtain r1 p1 where s: "read_until_end_or_size n (buf @ b) ?p = Some (r1, p1)"
        by (cases "read_from_queue_until_end_or_size n (buf @ b) q")
          (auto simp: read_until_end_or_size_def)
      have "pending (ps_queue p) = b @ pending q"
        using g Some \<open>g = Some x\<close> by (simp add: get_timeout_pending(1))
      with read_until_end_or_size_spec [OF s] assms False g Some \<open>g = Some x\<close> s
      show ?thesis by (auto simp: read_from_queue_def)
    qed
  qed
qed

lemma read_with_or_without_timeout_spec:
  assumes "read_with_or_without_timeout t n (ps_buf p) p = Some (r, p')" "\<not> ps_read_reached_eof p" "0 < n"
  shows "ps_buf p' = ps_buf p \<and>
    (case r of
       Inl e \<Rightarrow> (e = ValueError \<or> e = PexpectTimeout) \<and> stream_left p' = stream_left p \<and>
         \<not> ps_read_reached_eof p'
     | Inr b \<Rightarrow> (ps_read_reached_eof p' \<longrightarrow> length b < n) \<and>
         b @ (if ps_read_reached_eof p' then [] else pending (ps_queue p')) = stream_left p)"
proof (cases "ps_buf p = []")
  case False
  then show ?thesis
    using assms read_until_end_or_size_spec [of n "ps_buf p" p r p']
    by (auto simp: read_with_or_without_timeout_def stream_left_def)
next
  case True
  obtain r1 p1 where s: "read_from_queue t n [] p = Some (r1, p1)"
    by (cases "read_from_queue t n [] p")
      (auto simp: read_from_queue_def read_until_end_or_size_def split: prod.splits option.splits if_splits)
  show ?thesis
  proof (cases r1)
    case (Inl e)
    then show ?thesis
      using read_from_queue_spec [OF s assms(2)] True s assms
      by (auto simp: read_with_or_without_timeout_def)
  next
    case (Inr ob)
    then show ?thesis
      using read_from_queue_spec [OF s assms(2)] True s assms
      by (cases ob) (auto simp: read_with_or_without_timeout_def stream_left_def)
  qed
qed

text \<open>
  A read returns the next bytes and leaves the others; an error leaves them all, and the
  end of the stream is reported only when there are none.
\<close>

lemma read_nonblocking_conserves:
  assumes "read_nonblocking n t p = Some (r, p')" "eof_inv p"
  shows "eof_inv p' \<and>
    (case r of
       Inl e \<Rightarrow> stream_left p' = stream_left p \<and>
         (e = PexpectEOF \<longrightarrow> stream_left p = [] \<and> ps_flag_eof p')
     | Inr b \<Rightarrow> b @ stream_left p' = stream_left p \<and> length b \<le> n)"
proof (cases "ps_read_reached_eof p \<or> n = 0")
  case True
  with assms show ?thesis
    by (auto simp: read_nonblocking_def eof_inv_def stream_left_def split: if_splits)
next
  case False
  then have e: "\<not> ps_read_reached_eof p" and n: "0 < n" by auto
  have s: "read_queue_and_buf (effective_timeout t p) n p = Some (r, p')"
    using assms(1) e n by (simp add: read_nonblocking_def)
  obtain r1 p1 where s1: "read_with_or_without_timeout (effective_timeout t p) n (ps_buf p) p = Some (r1, p1)"
    using s by (cases "read_with_or_without_timeout (effective_timeout t p) n (ps_buf p) p")
      (auto simp: read_queue_and_buf_def)
  note spec = read_with_or_without_timeout_spec [OF s1 e n]
  show ?thesis
  proof (cases r1)
    case (Inl x)
    with spec s s1 show ?thesis by (auto simp: read_queue_and_buf_def eof_inv_def)
  next
    case (Inr b)
    show ?thesis
    proof (cases "ps_read_reached_eof p1")
      case True
      with Inr spec s s1 n show ?thesis
        by (auto simp: read_queue_and_buf_def Let_def stream_left_def eof_inv_def split: if_splits)
    next
      case False
      with Inr spec have "b @ pending (ps_queue p1) = stream_left p" by simp
      then show ?thesis
        using False Inr s s1
        by (auto simp: read_queue_and_buf_def Let_def stream_left_def eof_inv_def
            take_drop_append simp del: append_take_drop_id)
    qed
  qed
qed

section \<open>What is sent\<close>

lemma send_pieces_all:
  "ps_accepts p = [] \<Longrightarrow>
     send_pieces b is k p =
       Some (Inr (k + (\<Sum>i\<leftarrow>is. length (take ps_chunk_size (drop i b)))),
         p\<lparr>ps_sent := ps_sent p @ concat (map (\<lambda>i. take ps_chunk_size (drop i b)) is)\<rparr>)"
  by (induction "is" arbitrary: k p) (simp_all add: chan_send_def add.assoc)

lemma send_starts_pieces: "concat (map (\<lambda>i. take ps_chunk_size (drop i b)) (send_starts (length b))) = b"
  using pieces_cover [of ps_chunk_size "length b"]
    concat_pieces [of ps_chunk_size b "(length b + ps_chunk_size - 1) div ps_chunk_size"]
  by (simp add: send_starts_def o_def ps_chunk_size_def)

lemma length_concat_pieces: "(\<Sum>i\<leftarrow>is. length (f i)) = length (concat (map f is))"
  by (induction "is") simp_all

text \<open>A channel that takes every piece whole gets everything.\<close>

lemma send_in_chunks_all:
  assumes "ps_accepts p = []"
  shows "send_in_chunks b p = Some (Inr (length b), p\<lparr>ps_sent := ps_sent p @ b\<rparr>)"
  using send_pieces_all [OF assms, of b "send_starts (length b)" 0]
  by (simp only: send_in_chunks_def length_concat_pieces send_starts_pieces add_0)

text \<open>
  In general the returned number is that of the accepted bytes, whatever was dropped
  after a piece accepted in part.
\<close>

lemma send_pieces_counts:
  "send_pieces b is k p = Some (r, p') \<Longrightarrow> \<exists>m. r = Inr (k + m) \<and> length (ps_sent p') = length (ps_sent p) + m"
proof (induction "is" arbitrary: k p)
  case Nil
  then show ?case by simp
next
  case (Cons i "is")
  obtain j p1 where c: "chan_send (take ps_chunk_size (drop i b)) p = Some (Inr j, p1)"
    "length (ps_sent p1) = length (ps_sent p) + j"
    by (cases "ps_accepts p") (auto simp: chan_send_def min_def)
  with Cons.IH [of "k + j" p1] Cons.prems show ?case by auto
qed

lemma send_pieces_returns: "\<exists>r p'. send_pieces b is k p = Some (r, p')"
proof (induction "is" arbitrary: k p)
  case (Cons i "is")
  obtain j p1 where "chan_send (take ps_chunk_size (drop i b)) p = Some (Inr j, p1)"
    by (cases "ps_accepts p") (auto simp: chan_send_def)
  with Cons.IH [of "k + j" p1] show ?case by simp
qed simp

section \<open>A stream that is coming in\<close>

text \<open>
  Every piece is one of bytes, none is empty, and none is waited for longer than \<open>t\<close>.
\<close>

definition coming :: "rat \<Rightarrow> arrivals \<Rightarrow> bool" where
  "coming t q \<longleftrightarrow> 0 \<le> t \<and> (\<forall>(d, x) \<in> set q. d \<le> t \<and> x \<noteq> None \<and> x \<noteq> Some [])"

lemma drain_coming:
  "coming t q \<Longrightarrow> \<exists>b q'. read_from_queue_until_end_or_size n buf q = (b, q', False) \<and>
     coming t q' \<and> b @ pending q' = buf @ pending q \<and> (buf \<noteq> [] \<longrightarrow> b \<noteq> [])"
proof (induction n buf q rule: read_from_queue_until_end_or_size.induct)
  case (1 n buf)
  then show ?case by simp
next
  case (2 n buf d x q)
  then obtain b where x: "x = Some b" by (auto simp: coming_def)
  have c: "coming t q" using "2.prems" by (simp add: coming_def)
  show ?case
  proof (cases "length buf < n \<and> d \<le> 0")
    case True
    with "2.IH" [OF _ _ x c] x show ?thesis by auto
  next
    case False
    with "2.prems" show ?thesis by auto
  qed
qed

lemma not_eof_update:
  "\<not> ps_read_reached_eof p \<Longrightarrow> p\<lparr>ps_queue := q, ps_read_reached_eof := False\<rparr> = p\<lparr>ps_queue := q\<rparr>"
  by (cases p) simp

lemma read_coming:
  assumes "coming m (ps_queue p)" "m \<le> effective_timeout t p" "\<not> ps_read_reached_eof p" "0 < n"
    and "ps_buf p @ pending (ps_queue p) \<noteq> []"
  shows "\<exists>b p'. read_nonblocking n t p = Some (Inr b, p') \<and> b \<noteq> [] \<and> length b \<le> n \<and>
    ps_buf p @ pending (ps_queue p) = b @ ps_buf p' @ pending (ps_queue p') \<and>
    (\<exists>q' buf'. p' = p\<lparr>ps_queue := q', ps_buf := buf'\<rparr> \<and> coming m q')"
proof -
  let ?t = "effective_timeout t p"
  obtain b q' where w: "read_with_or_without_timeout ?t n (ps_buf p) p =
      Some (Inr b, p\<lparr>ps_queue := q'\<rparr>)" "coming m q'" "b \<noteq> []"
    "b @ pending q' = ps_buf p @ pending (ps_queue p)"
  proof (cases "ps_buf p")
    case Nil
    with assms(5) obtain e y q where q0: "ps_queue p = (e, y) # q"
      by (cases "ps_queue p") auto
    with assms(1) obtain x where y: "y = Some x" "x \<noteq> []" "e \<le> m" "0 \<le> m" "coming m q"
      by (cases y) (auto simp: coming_def)
    have q: "ps_queue p = (e, Some x) # q" "x \<noteq> []" "e \<le> ?t" "0 \<le> ?t" "coming m q"
      using q0 y assms(2) by simp_all
    obtain b q' where "read_from_queue_until_end_or_size n x q = (b, q', False)" "coming m q'"
      "b @ pending q' = x @ pending q" "b \<noteq> []"
      using drain_coming [OF q(5), of n x] q(2) by blast
    with Nil q assms(3) that show thesis
      by (auto simp: read_with_or_without_timeout_def read_from_queue_def read_until_end_or_size_def
          not_eof_update)
  next
    case (Cons c cs)
    then obtain b q' where "read_from_queue_until_end_or_size n (ps_buf p) (ps_queue p) = (b, q', False)"
      "coming m q'" "b @ pending q' = ps_buf p @ pending (ps_queue p)" "b \<noteq> []"
      using drain_coming [OF assms(1), of n "ps_buf p"] by auto
    with Cons assms(3) that show thesis
      by (auto simp: read_with_or_without_timeout_def read_until_end_or_size_def not_eof_update)
  qed
  have ne: "take n b \<noteq> []" using w(3) assms(4) by (cases b) auto
  let ?p = "p\<lparr>ps_queue := q', ps_buf := drop n b\<rparr>"
  have r: "read_nonblocking n t p = Some (Inr (take n b), ?p)"
    using w(1) assms(3,4) by (simp add: read_nonblocking_def read_queue_and_buf_def Let_def)
  have "ps_buf p @ pending (ps_queue p) = take n b @ ps_buf ?p @ pending (ps_queue ?p)"
    unfolding w(4) [symmetric] by simp
  with ne r w(2) show ?thesis
    by (intro exI [of _ "take n b"] exI [of _ ?p] conjI exI [of _ q'] exI [of _ "drop n b"]) simp_all
qed

end
