(* ===== verification/TerminalClient.thy ===== *)
theory TerminalClient
  imports MsgManager ParamikoSpawn
begin

text \<open>
  \<open>shells/terminalclient.py\<close>: the chunk communication over a terminal, and the client
  which sends requests with retries and waits for replies. \<open>TerminalComm\<close> on a
  \<open>ParamikoSpawn\<close> is shown to be a \<open>duplex_channel\<close>, so everything the chunk and
  string layers promise holds of it. The readings of the monotonic clock are the values
  of a function \<open>clk\<close> of their number; the client's state counts them.
\<close>

section \<open>TerminalComm\<close>

record terminal_comm =
  tc_spawn :: paramiko_spawn
  tc_timeout :: "rat option"
  tc_chunk_ack_reading :: bool

definition new_terminal_comm :: "paramiko_spawn \<Rightarrow> terminal_comm" where
  "new_terminal_comm p =
     \<lparr>tc_spawn = p, tc_timeout = Some (- 1), tc_chunk_ack_reading = False\<rparr>"

definition on_spawn :: "(paramiko_spawn, 'a) py \<Rightarrow> (terminal_comm, 'a) py" where
  "on_spawn m = (\<lambda>c. map_option (\<lambda>p. (fst p, c\<lparr>tc_spawn := snd p\<rparr>)) (m (tc_spawn c)))"

definition tc_set_timeout :: "rat option \<Rightarrow> terminal_comm \<Rightarrow> terminal_comm" where
  "tc_set_timeout t c = c\<lparr>tc_timeout := t\<rparr>"

definition tc_read :: "nat \<Rightarrow> (terminal_comm, bytes) py" where
  "tc_read n = (\<lambda>c. on_spawn (read_nonblocking n (tc_timeout c)) c)"

definition tc_flush :: "(terminal_comm, unit) py" where
  "tc_flush = ret ()"

definition tc_write :: "bytes \<Rightarrow> (terminal_comm, unit) py" where
  "tc_write s = bnd (on_spawn (ps_send s)) (\<lambda>_. ret ())"

definition tc_set_ack_reading :: "bool \<Rightarrow> terminal_comm \<Rightarrow> terminal_comm" where
  "tc_set_ack_reading b c = c\<lparr>tc_chunk_ack_reading := b\<rparr>"

text \<open>
  \<open>tc_rep d c l v\<close>: \<open>l\<close> was sent so far, \<open>v\<close> is coming in with no delay longer than
  \<open>d\<close>, which is within the timeout, and the channel takes whole pieces.
\<close>

definition tc_rep :: "rat \<Rightarrow> terminal_comm \<Rightarrow> bytes \<Rightarrow> bytes \<Rightarrow> bool" where
  "tc_rep d c l v \<longleftrightarrow> (let p = tc_spawn c in
     ps_accepts p = [] \<and> ps_sent p = l \<and> \<not> ps_read_reached_eof p \<and>
     coming d (ps_queue p) \<and> d \<le> effective_timeout (tc_timeout c) p \<and>
     v = ps_buf p @ pending (ps_queue p))"

lemma effective_timeout_update [simp]:
  "effective_timeout t (p\<lparr>ps_queue := q, ps_buf := b\<rparr>) = effective_timeout t p"
  "effective_timeout t (p\<lparr>ps_sent := b\<rparr>) = effective_timeout t p"
  by (auto simp: effective_timeout_def split: option.splits)

lemma tc_read_law: "raw_source tc_read (\<lambda>c. tc_rep d c l)"
proof
  fix c v n
  assume rep: "tc_rep d c l v" and "v \<noteq> []" and n: "0 < (n :: nat)"
  then obtain b p' q' buf' where
    r: "read_nonblocking n (tc_timeout c) (tc_spawn c) = Some (Inr b, p')" "b \<noteq> []" "length b \<le> n"
    and v: "v = b @ ps_buf p' @ pending (ps_queue p')"
    and p': "p' = (tc_spawn c)\<lparr>ps_queue := q', ps_buf := buf'\<rparr>"
    and q': "coming d q'"
    using read_coming [of d "tc_spawn c" "tc_timeout c" n] by (auto simp: tc_rep_def Let_def)
  have "tc_rep d (c\<lparr>tc_spawn := p'\<rparr>) l (ps_buf p' @ pending (ps_queue p'))"
    using rep q' by (simp add: tc_rep_def Let_def p')
  then show "\<exists>b c' v'. tc_read n c = Some (Inr b, c') \<and> b \<noteq> [] \<and> length b \<le> n \<and> v = b @ v' \<and> tc_rep d c' l v'"
    using r v by (auto simp: tc_read_def on_spawn_def)
qed

lemma tc_write_law: "tc_rep d c l v \<Longrightarrow> \<exists>c'. tc_write b c = Some (Inr (), c') \<and> tc_rep d c' (l @ b) v"
  using send_in_chunks_all [of "tc_spawn c" b]
  by (auto simp: tc_write_def on_spawn_def ps_send_def tc_rep_def Let_def)

lemma tc_flag_law: "tc_rep d c l v \<Longrightarrow> tc_rep d (tc_set_ack_reading b c) l v"
  by (simp add: tc_set_ack_reading_def tc_rep_def)

interpretation tc: duplex_channel tc_read tc_write tc_flush tc_set_ack_reading "tc_rep d" for d
  by (rule duplex_channel.intro)
    (simp_all add: tc_read_law tc_write_law tc_flag_law tc_flush_def)

section \<open>Timer\<close>

record timer =
  tm_timeout :: rat
  tm_start_time :: rat

definition timer_remaining :: "timer \<Rightarrow> rat \<Rightarrow> rat" where
  "timer_remaining t now = tm_timeout t - (now - tm_start_time t)"

section \<open>TerminalClient\<close>

record client =
  cl_comm :: "terminal_comm \<times> shared_bytes_io"
  cl_uid_iter :: nat
  cl_retry :: retry
  cl_clock :: nat

definition on_comm :: "(terminal_comm \<times> shared_bytes_io, 'a) py \<Rightarrow> (client, 'a) py" where
  "on_comm m = (\<lambda>c. map_option (\<lambda>p. (fst p, c\<lparr>cl_comm := snd p\<rparr>)) (m (cl_comm c)))"

definition cl_read_until_size :: "int \<Rightarrow> (terminal_comm \<times> shared_bytes_io, bytes) py" where
  "cl_read_until_size = chunk_read_int tc_read (ack_write_ack tc_write tc_flush)"

definition cl_comm_write :: "bytes \<Rightarrow> (terminal_comm \<times> shared_bytes_io, unit) py" where
  "cl_comm_write s =
     on_transport (chunk_write tc_write tc_flush (ack_read_ack tc_read tc_set_ack_reading) s)"

definition cl_send :: "msg \<Rightarrow> (client, unit) py" where
  "cl_send m = bnd (of_sum (serialize msgmap m)) (\<lambda>s. on_comm (write_str cl_comm_write s))"

text \<open>
  \<open>_client_exception_wrap\<close>: the timeouts of the terminal become a \<open>TerminalClientError\<close>
  inside, so the outer wrapper, which looks for \<open>pexpect.TIMEOUT\<close>, sees none.
\<close>

definition client_exception_wrap :: "(client, 'a) py \<Rightarrow> (client, 'a) py" where
  "client_exception_wrap m = catching m (\<lambda>e.
     case e of PexpectTimeout \<Rightarrow> throw TerminalClientError
     | ShellTimeoutError b \<Rightarrow> throw TerminalClientError
     | _ \<Rightarrow> throw e)"

definition cl_receive :: "rat \<Rightarrow> (client, msg) py" where
  "cl_receive t =
     andthen (modify (\<lambda>c. c\<lparr>cl_comm := (tc_set_timeout (Some t) (fst (cl_comm c)), snd (cl_comm c))\<rparr>))
       (client_exception_wrap
          (bnd (on_comm (read_str cl_read_until_size)) (\<lambda>s. of_sum (deserialize msgmap s))))"

definition cl_send_ack :: "msg \<Rightarrow> (client, unit) py" where
  "cl_send_ack m = cl_send (create_reply Ack m NOARG)"

definition cl_send_ack_if_needed :: "msg \<Rightarrow> (client, unit) py" where
  "cl_send_ack_if_needed m = (if msg_cls m \<noteq> Ack then cl_send_ack m else ret ())"

definition receive_and_send_ack :: "rat \<Rightarrow> (client, msg) py" where
  "receive_and_send_ack t = bnd (cl_receive t) (\<lambda>m. andthen (cl_send_ack_if_needed m) (ret m))"

definition is_reply_or_ack :: "msg \<Rightarrow> msg \<Rightarrow> bool" where
  "is_reply_or_ack m reply \<longleftrightarrow> msg_uid m = msg_uid reply"

text \<open>The class that is looked at is that of the request, as in the source.\<close>

definition is_reply :: "msg \<Rightarrow> msg \<Rightarrow> bool" where
  "is_reply m reply \<longleftrightarrow> msg_cls m \<noteq> Ack \<and> is_reply_or_ack m reply"

definition read_clock :: "(nat \<Rightarrow> rat) \<Rightarrow> (client, rat) py" where
  "read_clock clk = bnd (gets (\<lambda>c. clk (cl_clock c)))
     (\<lambda>t. andthen (modify (\<lambda>c. c\<lparr>cl_clock := Suc (cl_clock c)\<rparr>)) (ret t))"

definition is_client_error :: "exn \<Rightarrow> bool" where
  "is_client_error e \<longleftrightarrow> e = TerminalClientError \<or> e = TerminalClientFatalError"

definition receive_or_error :: "rat \<Rightarrow> (client, msg option) py" where
  "receive_or_error t = catching (bnd (cl_receive t) (\<lambda>m. ret (Some m)))
     (\<lambda>e. if is_client_error e then ret None else throw e)"

partial_function (option) receive_loop :: "(nat \<Rightarrow> rat) \<Rightarrow> (msg \<Rightarrow> bool) \<Rightarrow> timer \<Rightarrow> (client, msg) py" where
  "receive_loop clk condition tm c =
     seq_outcome (read_clock clk c) (\<lambda>now c1.
       let r = timer_remaining tm now
       in if r \<le> 0 then Some (Inl TimerTimeout, c1)
          else seq_outcome (receive_or_error r c1) (\<lambda>om c2.
            case om of
              None \<Rightarrow> receive_loop clk condition tm c2
            | Some m \<Rightarrow> seq_outcome (cl_send_ack_if_needed m c2) (\<lambda>_ c3.
                if condition m then Some (Inr m, c3) else receive_loop clk condition tm c3)))"

definition receive_until_condition :: "(nat \<Rightarrow> rat) \<Rightarrow> rat \<Rightarrow> (msg \<Rightarrow> bool) \<Rightarrow> (client, msg) py" where
  "receive_until_condition clk t condition = bnd (read_clock clk) (\<lambda>start.
     receive_loop clk condition \<lparr>tm_timeout = t, tm_start_time = start\<rparr>)"

definition receive_until_reply :: "(nat \<Rightarrow> rat) \<Rightarrow> msg \<Rightarrow> rat \<Rightarrow> (client, msg) py" where
  "receive_until_reply clk m t = receive_until_condition clk t (is_reply m)"

definition receive_ack_or_reply :: "(nat \<Rightarrow> rat) \<Rightarrow> msg \<Rightarrow> rat \<Rightarrow> (client, msg) py" where
  "receive_ack_or_reply clk m t = receive_until_condition clk t (is_reply_or_ack m)"

definition raise_in_timertimeout :: "exn \<Rightarrow> (client, 'a) py \<Rightarrow> (client, 'a) py" where
  "raise_in_timertimeout x m = catching m (\<lambda>e. if e = TimerTimeout then throw x else throw e)"

definition try_to_receive_until_reply :: "(nat \<Rightarrow> rat) \<Rightarrow> msg \<Rightarrow> rat \<Rightarrow> (client, msg) py" where
  "try_to_receive_until_reply clk m t =
     raise_in_timertimeout TerminalClientError (receive_until_reply clk m t)"

definition final_try_to_receive_until_reply :: "(nat \<Rightarrow> rat) \<Rightarrow> msg \<Rightarrow> rat \<Rightarrow> (client, msg) py" where
  "final_try_to_receive_until_reply clk m t =
     raise_in_timertimeout TerminalClientFatalError (receive_until_reply clk m t)"

text \<open>One turn of the generator: \<open>None\<close> when it goes on to the next timeout.\<close>

definition received_msg_for_msg :: "(nat \<Rightarrow> rat) \<Rightarrow> msg \<Rightarrow> rat \<Rightarrow> (client, msg option) py" where
  "received_msg_for_msg clk m t = andthen (cl_send m)
     (catching (bnd (receive_ack_or_reply clk m t) (\<lambda>r. ret (Some r)))
        (\<lambda>e. if is_client_error e \<or> e = TimerTimeout then ret None else throw e))"

fun try_timeouts :: "(nat \<Rightarrow> rat) \<Rightarrow> msg \<Rightarrow> rat \<Rightarrow> rat list \<Rightarrow> (client, msg) py" where
  "try_timeouts clk m timeout [] = final_try_to_receive_until_reply clk m timeout"
| "try_timeouts clk m timeout (t # ts) = bnd (received_msg_for_msg clk m t) (\<lambda>r.
     case r of
       None \<Rightarrow> try_timeouts clk m timeout ts
     | Some received_msg \<Rightarrow>
         if msg_cls received_msg = Ack then try_to_receive_until_reply clk m timeout
         else ret received_msg)"

definition next_uid :: "(client, nat) py" where
  "next_uid = bnd (gets cl_uid_iter)
     (\<lambda>u. andthen (modify (\<lambda>c. c\<lparr>cl_uid_iter := Suc (cl_uid_iter c)\<rparr>)) (ret u))"

definition send_and_receive :: "(nat \<Rightarrow> rat) \<Rightarrow> msg \<Rightarrow> rat \<Rightarrow> (client, msg) py" where
  "send_and_receive clk m timeout = bnd next_uid (\<lambda>u.
     bnd (gets (\<lambda>c. retry_timeouts (cl_retry c))) (try_timeouts clk (set_uid (int u) m) timeout))"

definition new_client :: "paramiko_spawn \<Rightarrow> retry \<Rightarrow> client" where
  "new_client p r = \<lparr>cl_comm = (new_terminal_comm p, new_shared_bytes_io), cl_uid_iter = 0,
     cl_retry = r, cl_clock = 0\<rparr>"

section \<open>What the client gets\<close>

lemma cl_send_returns:
  assumes "serialize msgmap m = Inr s" "tc_rep d (fst (cl_comm c)) l (wire_acks s @ rest)"
  shows "\<exists>k. cl_send m c = Some (Inr (), c\<lparr>cl_comm := (k, snd (cl_comm c))\<rparr>) \<and> tc_rep d k (l @ wire s) rest"
proof -
  obtain k where "write_str (chunk_write tc_write tc_flush (ack_read_ack tc_read tc_set_ack_reading)) s
      (fst (cl_comm c)) = Some (Inr (), k)" "tc_rep d k (l @ wire s) rest"
    using tc.string_written [OF assms(2)] by blast
  then show ?thesis
    using assms(1)
    by (auto simp: cl_send_def on_comm_def write_str_def cl_comm_write_def on_transport_def)
qed

text \<open>The shared buffer between two messages.\<close>

definition buffer_empty :: "client \<Rightarrow> bool" where
  "buffer_empty c \<longleftrightarrow> sb_ok (snd (cl_comm c)) \<and> sb_content (snd (cl_comm c)) = []"

lemma cl_receive_returns:
  assumes "serialize msgmap m = Inr s" "length s < 10 ^ 11" "msg_cls m \<noteq> FatalPythonErrorReply"
    and "tc_rep d (tc_set_timeout (Some t) (fst (cl_comm c))) l (wire s @ rest)" "buffer_empty c"
  shows "\<exists>k. cl_receive t c = Some (Inr (received m), c\<lparr>cl_comm := k\<rparr>) \<and>
    tc_rep d (fst k) (l @ wire_acks s) rest \<and> buffer_empty (c\<lparr>cl_comm := k\<rparr>)"
proof -
  obtain k where "read_str cl_read_until_size (tc_set_timeout (Some t) (fst (cl_comm c)), snd (cl_comm c)) =
      Some (Inr s, k)" "tc_rep d (fst k) (l @ wire_acks s) rest" "sb_ok (snd k)" "sb_content (snd k) = []"
    using tc.string_read [OF assms(4) _ _ assms(2)] assms(5)
    unfolding cl_read_until_size_def buffer_empty_def by blast
  then show ?thesis
    using deserialize_serialize [OF assms(1,3)]
    by (intro exI [of _ k]) (simp add: cl_receive_def client_exception_wrap_def on_comm_def buffer_empty_def)
qed

text \<open>A message the loop returns satisfies the condition.\<close>

lemma receive_loop_condition:
  "receive_loop clk condition tm c = Some p \<Longrightarrow> (\<forall>m. fst p = Inr m \<longrightarrow> condition m)"
proof (erule receive_loop.raw_induct
    [where P = "\<lambda>clk condition tm c p. \<forall>m. fst p = Inr m \<longrightarrow> condition m", rotated])
  fix f :: "(nat \<Rightarrow> rat) \<Rightarrow> (msg \<Rightarrow> bool) \<Rightarrow> timer \<Rightarrow> (client, msg) py" and clk condition tm c p
  assume IH: "\<And>clk condition tm c p. f clk condition tm c = Some p \<Longrightarrow> \<forall>m. fst p = Inr m \<longrightarrow> condition m"
    and s: "seq_outcome (read_clock clk c) (\<lambda>now c1.
       let r = timer_remaining tm now
       in if r \<le> 0 then Some (Inl TimerTimeout, c1)
          else seq_outcome (receive_or_error r c1) (\<lambda>om c2.
            case om of
              None \<Rightarrow> f clk condition tm c2
            | Some m \<Rightarrow> seq_outcome (cl_send_ack_if_needed m c2) (\<lambda>_ c3.
                if condition m then Some (Inr m, c3) else f clk condition tm c3))) = Some p"
  show "\<forall>m. fst p = Inr m \<longrightarrow> condition m"
  proof (intro allI impI)
    fix m assume "fst p = Inr m"
    then obtain c' where p: "p = (Inr m, c')" by (cases p) auto
    from s show "condition m"
      unfolding p seq_outcome_Inr_iff Let_def
      by (auto simp: seq_outcome_Inr_iff split: if_splits option.splits dest!: IH)
  qed
qed

lemma receive_until_condition_holds:
  "receive_until_condition clk t condition c = Some (Inr m, c') \<Longrightarrow> condition m"
  using receive_loop_condition by (fastforce simp: receive_until_condition_def seq_outcome_Inr_iff)

lemma catching_Inr:
  assumes "catching m h c = Some (Inr a, c')" "\<And>e s. h e s \<noteq> Some (Inr a, c')"
  shows "m c = Some (Inr a, c')"
proof (cases "m c")
  case (Some p)
  then show ?thesis using assms by (cases p; cases "fst p") auto
qed (use assms in simp)

lemma raise_in_timertimeout_Inr:
  "raise_in_timertimeout x m c = Some (Inr a, c') \<Longrightarrow> m c = Some (Inr a, c')"
  unfolding raise_in_timertimeout_def by (erule catching_Inr) simp

lemma received_msg_for_msg_uid:
  assumes "received_msg_for_msg clk m t c = Some (Inr (Some r), c')"
  shows "msg_uid r = msg_uid m"
proof -
  obtain c1 where "catching (bnd (receive_ack_or_reply clk m t) (\<lambda>r. ret (Some r)))
      (\<lambda>e. if is_client_error e \<or> e = TimerTimeout then ret None else throw e) c1 = Some (Inr (Some r), c')"
    using assms by (auto simp: received_msg_for_msg_def seq_outcome_Inr_iff simp del: catching_app)
  then have "bnd (receive_ack_or_reply clk m t) (\<lambda>r. ret (Some r)) c1 = Some (Inr (Some r), c')"
    by (rule catching_Inr) simp
  then have "receive_ack_or_reply clk m t c1 = Some (Inr r, c')" by (auto simp: seq_outcome_Inr_iff)
  then show ?thesis
    using receive_until_condition_holds by (fastforce simp: receive_ack_or_reply_def is_reply_or_ack_def)
qed

lemma receive_until_reply_uid:
  "receive_until_reply clk m t c = Some (Inr r, c') \<Longrightarrow> msg_uid r = msg_uid m"
  using receive_until_condition_holds
  by (fastforce simp: receive_until_reply_def is_reply_def is_reply_or_ack_def)

lemma try_timeouts_uid:
  "try_timeouts clk m timeout ts c = Some (Inr r, c') \<Longrightarrow> msg_uid r = msg_uid m"
proof (induction ts arbitrary: c)
  case Nil
  then show ?case
    by (auto simp: final_try_to_receive_until_reply_def dest!: raise_in_timertimeout_Inr receive_until_reply_uid)
next
  case (Cons t ts)
  then obtain o' c1 where 1: "received_msg_for_msg clk m t c = Some (Inr o', c1)"
    and 2: "(case o' of None \<Rightarrow> try_timeouts clk m timeout ts
      | Some received_msg \<Rightarrow> if msg_cls received_msg = Ack then try_to_receive_until_reply clk m timeout
          else ret received_msg) c1 = Some (Inr r, c')"
    by (auto simp: seq_outcome_Inr_iff)
  show ?case
  proof (cases o')
    case None
    with 2 Cons.IH show ?thesis by simp
  next
    case (Some received_msg)
    show ?thesis
    proof (cases "msg_cls received_msg = Ack")
      case True
      with 2 Some show ?thesis
        by (auto simp: try_to_receive_until_reply_def dest!: raise_in_timertimeout_Inr receive_until_reply_uid)
    next
      case False
      with 1 2 Some received_msg_for_msg_uid show ?thesis by fastforce
    qed
  qed
qed

text \<open>Whatever \<open>send_and_receive\<close> returns carries the uid the request was sent with.\<close>

lemma send_and_receive_uid:
  "send_and_receive clk m timeout c = Some (Inr r, c') \<Longrightarrow> msg_uid r = int (cl_uid_iter c)"
  using try_timeouts_uid [of clk "set_uid (int (cl_uid_iter c)) m"]
  by (fastforce simp: send_and_receive_def next_uid_def set_uid_def)

section \<open>A request that is answered\<close>

lemma tc_rep_timeout: "tc_rep d k l v \<Longrightarrow> d \<le> t \<Longrightarrow> tc_rep d (tc_set_timeout (Some t) k) l v"
  by (auto simp: tc_rep_def Let_def tc_set_timeout_def effective_timeout_def coming_def)

lemma tc_rep_sent: "tc_rep d k l v \<Longrightarrow> ps_sent (tc_spawn k) = l"
  by (simp add: tc_rep_def Let_def)

lemma tc_rep_nonneg: "tc_rep d k l v \<Longrightarrow> 0 \<le> d"
  by (simp add: tc_rep_def Let_def coming_def)

lemma received_sel [simp]: "msg_cls (received m) = msg_cls m" "msg_uid (received m) = msg_uid m"
  by (simp_all add: received_def)

text \<open>The next message is one of the condition: it is acknowledged, unless it is an \<open>Ack\<close>, and returned.\<close>

lemma receive_next:
  assumes r: "serialize msgmap r = Inr s" "length s < 10 ^ 11" "msg_cls r \<noteq> FatalPythonErrorReply"
    and cond: "condition (received r)"
    and ack: "msg_cls r \<noteq> Ack \<Longrightarrow> serialize msgmap (create_reply Ack (received r) NOARG) = Inr s'"
    and clock: "\<forall>i j. d < t - (clk i - clk j)"
    and rep: "tc_rep d (fst (cl_comm c)) l (wire s @ (if msg_cls r = Ack then [] else wire_acks s') @ rest)"
    and empty: "buffer_empty c"
  shows "\<exists>k n. receive_until_condition clk t condition c = Some (Inr (received r), c\<lparr>cl_clock := n, cl_comm := k\<rparr>) \<and>
    tc_rep d (fst k) (l @ wire_acks s @ (if msg_cls r = Ack then [] else wire s')) rest \<and>
    buffer_empty (c\<lparr>cl_clock := n, cl_comm := k\<rparr>)"
proof -
  let ?c = "c\<lparr>cl_clock := Suc (Suc (cl_clock c))\<rparr>"
  let ?tm = "\<lparr>tm_timeout = t, tm_start_time = clk (cl_clock c)\<rparr>"
  let ?r = "timer_remaining ?tm (clk (Suc (cl_clock c)))"
  have r0: "d < ?r" using clock by (simp add: timer_remaining_def)
  have d: "0 \<le> d" using tc_rep_nonneg rep by blast
  have rp: "tc_rep d (tc_set_timeout (Some ?r) (fst (cl_comm ?c))) l
      (wire s @ (if msg_cls r = Ack then [] else wire_acks s') @ rest)"
    using tc_rep_timeout [OF rep, of ?r] r0 by simp
  have be: "buffer_empty ?c" using empty by (simp add: buffer_empty_def)
  from cl_receive_returns [OF r rp be] obtain k where
    k: "cl_receive ?r ?c = Some (Inr (received r), ?c\<lparr>cl_comm := k\<rparr>)"
    "tc_rep d (fst k) (l @ wire_acks s) ((if msg_cls r = Ack then [] else wire_acks s') @ rest)"
    "buffer_empty (?c\<lparr>cl_comm := k\<rparr>)" by blast
  obtain k' where k': "cl_send_ack_if_needed (received r) (?c\<lparr>cl_comm := k\<rparr>) = Some (Inr (), ?c\<lparr>cl_comm := k'\<rparr>)"
    "tc_rep d (fst k') (l @ wire_acks s @ (if msg_cls r = Ack then [] else wire s')) rest"
    "buffer_empty (?c\<lparr>cl_comm := k'\<rparr>)"
  proof (cases "msg_cls r = Ack")
    case True
    with k that [of k] show thesis by (simp add: cl_send_ack_if_needed_def)
  next
    case False
    with ack k(2) have "\<exists>k2. cl_send (create_reply Ack (received r) NOARG) (?c\<lparr>cl_comm := k\<rparr>) =
        Some (Inr (), ?c\<lparr>cl_comm := (k2, snd k)\<rparr>) \<and> tc_rep d k2 ((l @ wire_acks s) @ wire s') rest"
      using cl_send_returns [of "create_reply Ack (received r) NOARG" s' d "?c\<lparr>cl_comm := k\<rparr>"
        "l @ wire_acks s" rest] by simp
    with False k(3) that show thesis
      by (auto simp: cl_send_ack_if_needed_def cl_send_ack_def buffer_empty_def)
  qed
  have "receive_loop clk condition ?tm (c\<lparr>cl_clock := Suc (cl_clock c)\<rparr>) = Some (Inr (received r), ?c\<lparr>cl_comm := k'\<rparr>)"
    using k(1) k'(1) r0 d cond
    by (subst receive_loop.simps) (simp add: read_clock_def Let_def receive_or_error_def)
  then have "receive_until_condition clk t condition c = Some (Inr (received r), ?c\<lparr>cl_comm := k'\<rparr>)"
    by (simp add: receive_until_condition_def read_clock_def)
  with k'(2,3) show ?thesis by (intro exI [of _ k'] exI [of _ "Suc (Suc (cl_clock c))"]) simp
qed

text \<open>Request, acknowledgement, reply, acknowledgement of the reply.\<close>

lemma send_and_receive_returns:
  assumes req: "serialize msgmap (set_uid (int (cl_uid_iter c)) m) = Inr s0" "msg_cls m \<noteq> Ack"
    and a: "serialize msgmap a = Inr s1" "msg_cls a = Ack" "msg_uid a = int (cl_uid_iter c)" "length s1 < 10 ^ 11"
    and r: "serialize msgmap r = Inr s2" "msg_cls r \<noteq> Ack" "msg_cls r \<noteq> FatalPythonErrorReply"
      "msg_uid r = int (cl_uid_iter c)" "length s2 < 10 ^ 11"
    and ra: "serialize msgmap (create_reply Ack (received r) NOARG) = Inr s3"
    and clock: "\<forall>i j. d < hd (retry_timeouts (cl_retry c)) - (clk i - clk j) \<and> d < timeout - (clk i - clk j)"
    and rep: "tc_rep d (fst (cl_comm c)) l (wire_acks s0 @ wire s1 @ wire s2 @ wire_acks s3 @ rest)"
    and empty: "buffer_empty c"
  shows "\<exists>c'. send_and_receive clk m timeout c = Some (Inr (received r), c') \<and>
    tc_rep d (fst (cl_comm c')) (l @ wire s0 @ wire_acks s1 @ wire_acks s2 @ wire s3) rest \<and> buffer_empty c' \<and>
    cl_uid_iter c' = Suc (cl_uid_iter c) \<and> cl_retry c' = cl_retry c"
proof -
  let ?u = "int (cl_uid_iter c)"
  let ?m = "set_uid ?u m" and ?c = "c\<lparr>cl_uid_iter := Suc (cl_uid_iter c)\<rparr>"
  have "retry_timeouts (cl_retry c) \<noteq> []" by (simp add: retry_timeouts_def)
  then obtain t ts where ts: "retry_timeouts (cl_retry c) = t # ts"
    by (cases "retry_timeouts (cl_retry c)") auto
  obtain k1 where k1: "cl_send ?m ?c = Some (Inr (), ?c\<lparr>cl_comm := (k1, snd (cl_comm c))\<rparr>)"
    "tc_rep d k1 (l @ wire s0) (wire s1 @ wire s2 @ wire_acks s3 @ rest)"
    using cl_send_returns [OF req(1), of d ?c l] rep by auto
  let ?c1 = "?c\<lparr>cl_comm := (k1, snd (cl_comm c))\<rparr>"
  have ct: "\<forall>i j. d < t - (clk i - clk j)" "\<forall>i j. d < timeout - (clk i - clk j)"
    using clock ts by auto
  have e1: "buffer_empty ?c1" using empty by (simp add: buffer_empty_def)
  have na: "msg_cls a \<noteq> FatalPythonErrorReply" using a(2) by simp
  have ca: "is_reply_or_ack ?m (received a)" using a(3) by (simp add: is_reply_or_ack_def set_uid_def)
  have cr: "is_reply ?m (received r)"
    using r(4) req(2) by (simp add: is_reply_def is_reply_or_ack_def set_uid_def)
  obtain k2 n2 where k2: "receive_until_condition clk t (is_reply_or_ack ?m) ?c1 =
      Some (Inr (received a), ?c1\<lparr>cl_clock := n2, cl_comm := k2\<rparr>)"
    "tc_rep d (fst k2) (l @ wire s0 @ wire_acks s1) (wire s2 @ wire_acks s3 @ rest)"
    "buffer_empty (?c1\<lparr>cl_clock := n2, cl_comm := k2\<rparr>)"
    using receive_next [where c = ?c1 and l = "l @ wire s0" and rest = "wire s2 @ wire_acks s3 @ rest"
        and r = a and s = s1 and condition = "is_reply_or_ack ?m" and d = d and t = t and clk = clk,
        OF a(1,4) na ca _ ct(1) _ e1] a(2) k1(2) by auto
  let ?c2 = "?c1\<lparr>cl_clock := n2, cl_comm := k2\<rparr>"
  obtain k3 n3 where k3: "receive_until_condition clk timeout (is_reply ?m) ?c2 =
      Some (Inr (received r), ?c2\<lparr>cl_clock := n3, cl_comm := k3\<rparr>)"
    "tc_rep d (fst k3) ((l @ wire s0 @ wire_acks s1) @ wire_acks s2 @ wire s3) rest"
    "buffer_empty (?c2\<lparr>cl_clock := n3, cl_comm := k3\<rparr>)"
    using receive_next [where c = ?c2 and l = "l @ wire s0 @ wire_acks s1" and rest = rest
        and r = r and s = s2 and s' = s3 and condition = "is_reply ?m" and d = d and t = timeout and clk = clk,
        OF r(1,5,3) cr ra ct(2) _ k2(3)] r(2) k2(2) by auto
  have "received_msg_for_msg clk ?m t ?c = Some (Inr (Some (received a)), ?c2)"
    using k1(1) k2(1) by (simp add: received_msg_for_msg_def receive_ack_or_reply_def)
  moreover have "try_to_receive_until_reply clk ?m timeout ?c2 = Some (Inr (received r), ?c2\<lparr>cl_clock := n3, cl_comm := k3\<rparr>)"
    using k3(1) by (simp add: try_to_receive_until_reply_def raise_in_timertimeout_def receive_until_reply_def)
  ultimately have "send_and_receive clk m timeout c = Some (Inr (received r), ?c2\<lparr>cl_clock := n3, cl_comm := k3\<rparr>)"
    using ts a(2) by (simp add: send_and_receive_def next_uid_def)
  with k3(2,3) show ?thesis by (intro exI [of _ "?c2\<lparr>cl_clock := n3, cl_comm := k3\<rparr>"]) simp
qed

text \<open>
  Two acknowledgements of one request: the condition of the reply does not tell them
  from a reply, so the second one is returned.
\<close>

lemma second_ack_returned:
  assumes req: "serialize msgmap (set_uid (int (cl_uid_iter c)) m) = Inr s0" "msg_cls m \<noteq> Ack"
    and a: "serialize msgmap a = Inr s1" "msg_cls a = Ack" "msg_uid a = int (cl_uid_iter c)" "length s1 < 10 ^ 11"
    and clock: "\<forall>i j. d < hd (retry_timeouts (cl_retry c)) - (clk i - clk j) \<and> d < timeout - (clk i - clk j)"
    and rep: "tc_rep d (fst (cl_comm c)) l (wire_acks s0 @ wire s1 @ wire s1 @ rest)"
    and empty: "buffer_empty c"
  shows "\<exists>c'. send_and_receive clk m timeout c = Some (Inr (received a), c') \<and>
    tc_rep d (fst (cl_comm c')) (l @ wire s0 @ wire_acks s1 @ wire_acks s1) rest \<and> buffer_empty c'"
proof -
  let ?u = "int (cl_uid_iter c)"
  let ?m = "set_uid ?u m" and ?c = "c\<lparr>cl_uid_iter := Suc (cl_uid_iter c)\<rparr>"
  have "retry_timeouts (cl_retry c) \<noteq> []" by (simp add: retry_timeouts_def)
  then obtain t ts where ts: "retry_timeouts (cl_retry c) = t # ts"
    by (cases "retry_timeouts (cl_retry c)") auto
  obtain k1 where k1: "cl_send ?m ?c = Some (Inr (), ?c\<lparr>cl_comm := (k1, snd (cl_comm c))\<rparr>)"
    "tc_rep d k1 (l @ wire s0) (wire s1 @ wire s1 @ rest)"
    using cl_send_returns [OF req(1), of d ?c l] rep by auto
  let ?c1 = "?c\<lparr>cl_comm := (k1, snd (cl_comm c))\<rparr>"
  have ct: "\<forall>i j. d < t - (clk i - clk j)" "\<forall>i j. d < timeout - (clk i - clk j)"
    using clock ts by auto
  have e1: "buffer_empty ?c1" using empty by (simp add: buffer_empty_def)
  have na: "msg_cls a \<noteq> FatalPythonErrorReply" using a(2) by simp
  have ca: "is_reply_or_ack ?m (received a)" and cr: "is_reply ?m (received a)"
    using a(3) req(2) by (simp_all add: is_reply_def is_reply_or_ack_def set_uid_def)
  obtain k2 n2 where k2: "receive_until_condition clk t (is_reply_or_ack ?m) ?c1 =
      Some (Inr (received a), ?c1\<lparr>cl_clock := n2, cl_comm := k2\<rparr>)"
    "tc_rep d (fst k2) (l @ wire s0 @ wire_acks s1) (wire s1 @ rest)"
    "buffer_empty (?c1\<lparr>cl_clock := n2, cl_comm := k2\<rparr>)"
    using receive_next [where c = ?c1 and l = "l @ wire s0" and rest = "wire s1 @ rest"
        and r = a and s = s1 and condition = "is_reply_or_ack ?m" and d = d and t = t and clk = clk,
        OF a(1,4) na ca _ ct(1) _ e1] a(2) k1(2) by auto
  let ?c2 = "?c1\<lparr>cl_clock := n2, cl_comm := k2\<rparr>"
  obtain k3 n3 where k3: "receive_until_condition clk timeout (is_reply ?m) ?c2 =
      Some (Inr (received a), ?c2\<lparr>cl_clock := n3, cl_comm := k3\<rparr>)"
    "tc_rep d (fst k3) ((l @ wire s0 @ wire_acks s1) @ wire_acks s1) rest"
    "buffer_empty (?c2\<lparr>cl_clock := n3, cl_comm := k3\<rparr>)"
    using receive_next [where c = ?c2 and l = "l @ wire s0 @ wire_acks s1" and rest = rest
        and r = a and s = s1 and condition = "is_reply ?m" and d = d and t = timeout and clk = clk,
        OF a(1,4) na cr _ ct(2) _ k2(3)] a(2) k2(2) by auto
  have "received_msg_for_msg clk ?m t ?c = Some (Inr (Some (received a)), ?c2)"
    using k1(1) k2(1) by (simp add: received_msg_for_msg_def receive_ack_or_reply_def)
  moreover have "try_to_receive_until_reply clk ?m timeout ?c2 = Some (Inr (received a), ?c2\<lparr>cl_clock := n3, cl_comm := k3\<rparr>)"
    using k3(1) by (simp add: try_to_receive_until_reply_def raise_in_timertimeout_def receive_until_reply_def)
  ultimately have "send_and_receive clk m timeout c = Some (Inr (received a), ?c2\<lparr>cl_clock := n3, cl_comm := k3\<rparr>)"
    using ts a(2) by (simp add: send_and_receive_def next_uid_def)
  with k3(2,3) show ?thesis by (intro exI [of _ "?c2\<lparr>cl_clock := n3, cl_comm := k3\<rparr>"]) simp
qed

end
