(* ===== verification/PythonShells.thy ===== *)
theory PythonShells
  imports Shell RunnerTerminal TerminalClient
begin

text \<open>
  The Python shells: \<open>pythonshellbase.py\<close>, \<open>pythonshell.py\<close> (the interactive interpreter),
  \<open>rawpythonshell.py\<close> (the terminal without echo, in raw mode), \<open>modules.py\<close> with
  \<open>termserialization.py\<close> (the commands that bring modules to the other end) and
  \<open>msgpythonshell.py\<close> (the interpreter behind the message protocol).
\<close>

section \<open>The interactive interpreter\<close>

definition prompt0 :: ustr where "prompt0 = ustr_of ''>>> ''"
definition prompt1 :: ustr where "prompt1 = ustr_of ''... ''"

text \<open>The prompt of a Python shell is the list of both; the start command belongs to the object.\<close>

definition new_python_shell :: "bool \<Rightarrow> shell" where
  "new_python_shell echo = \<lparr>sh_prompt = Some (TriggerStrs [prompt0, prompt1]), sh_tty_echo = echo\<rparr>"

definition python_base_start :: "'t terminal_ops \<Rightarrow> ('t, unit) shell_op" where
  "python_base_start tp = bnd (read_until_prompt tp 30 False) (\<lambda>_. ret ())"

definition python_base_exit :: "'t terminal_ops \<Rightarrow> ('t, unit) shell_op" where
  "python_base_exit tp = send_input_line tp (ustr_of ''exit()'')"

definition verify_and_return_output :: "ustr \<Rightarrow> ('t, ustr) shell_op" where
  "verify_and_return_output out = (if out \<noteq> [] then throw UnexpectedOutputInPython else ret out)"

definition single_command :: "'t terminal_ops \<Rightarrow> ustr \<Rightarrow> rat \<Rightarrow> ('t, ustr) shell_op" where
  "single_command tp cmd tmo = andthen (send_input_line tp cmd) (read_until tp (TriggerStr prompt0) tmo False)"

definition single_command_no_output :: "'t terminal_ops \<Rightarrow> ustr \<Rightarrow> rat \<Rightarrow> ('t, ustr) shell_op" where
  "single_command_no_output tp cmd tmo = bnd (single_command tp cmd tmo) verify_and_return_output"

definition block_exec :: "'t terminal_ops \<Rightarrow> ustr \<Rightarrow> rat \<Rightarrow> ('t, ustr) shell_op" where
  "block_exec tp cmd tmo = andthen (send_input_line tp cmd)
     (bnd (read_until tp (TriggerStr prompt1) tmo False) verify_and_return_output)"

definition block_end_no_output :: "'t terminal_ops \<Rightarrow> rat \<Rightarrow> ('t, ustr) shell_op" where
  "block_end_no_output tp tmo = single_command_no_output tp [] tmo"

definition exec_single_with_trigger :: "'t terminal_ops \<Rightarrow> ustr \<Rightarrow> trigger \<Rightarrow> rat \<Rightarrow> ('t, ustr) shell_op" where
  "exec_single_with_trigger tp cmd tr tmo = andthen
     (catching (andthen (send_input_line tp cmd) (bnd (read_until tp tr 1 False) (\<lambda>_. ret ())))
       (\<lambda>e. if is_Exception e then throw PythonRunNotStarted else throw e))
     (read_until tp (TriggerStr prompt0) tmo False)"

definition stop_run :: "'t terminal_ops \<Rightarrow> rat \<Rightarrow> ('t, ustr) shell_op" where
  "stop_run tp tmo = andthen (send_interrupt tp) (read_until tp (TriggerStr prompt0) tmo False)"

definition setup_readline_if_needed :: "'t terminal_ops \<Rightarrow> ustr option \<Rightarrow> ('t, unit) shell_op" where
  "setup_readline_if_needed tp rl = (case rl of
     None \<Rightarrow> ret ()
   | Some [] \<Rightarrow> ret ()
   | Some r \<Rightarrow> bnd (single_command_no_output tp (ustr_of ''import readline'') 10) (\<lambda>_.
       bnd (single_command_no_output tp (ustr_of ''readline.parse_and_bind('' @ [39] @ r @ [39] @ ustr_of '')'') 10)
         (\<lambda>_. ret ())))"

definition python_start :: "'t terminal_ops \<Rightarrow> ustr option \<Rightarrow> ('t, unit) shell_op" where
  "python_start tp rl = andthen (python_base_start tp) (andthen (setup_readline_if_needed tp rl)
     (bnd (single_command_no_output tp (ustr_of ''import pickle, base64'') 10) (\<lambda>_. ret ())))"

text \<open>
  A text file is sent as the pickled list of its lines; \<open>encoded\<close> is \<open>repr\<close> of that text and
  the path is that of the destination.
\<close>

definition write_lines_to_file :: "'t terminal_ops \<Rightarrow> ustr \<Rightarrow> ustr \<Rightarrow> ('t, unit) shell_op" where
  "write_lines_to_file tp encoded path =
     bnd (block_exec tp (ustr_of ''with open('' @ [39] @ path @ [39] @ ustr_of '', '' @ [39, 119, 39] @ ustr_of '') as _f:'') 10)
       (\<lambda>_. bnd (block_exec tp (ustr_of ''  _f.writelines(pickle.loads(base64.b64decode('' @ encoded @ ustr_of '')))'') 10)
         (\<lambda>_. bnd (block_end_no_output tp 10) (\<lambda>_. ret ())))"

section \<open>Raw mode\<close>

definition setup_cmds_before_echo_off :: "ustr list" where
  "setup_cmds_before_echo_off = map ustr_of
     [''import sys, termios, tty'', ''_fdin = sys.stdin.fileno()'',
      ''_orig_inattrs = termios.tcgetattr(_fdin)'', ''_new_inattrs = termios.tcgetattr(_fdin)'',
      ''_new_inattrs[3] = _new_inattrs[3] & ~termios.ECHO'',
      ''_tmp_ret = termios.tcsetattr(_fdin, termios.TCSADRAIN, _new_inattrs)'']"

definition quoted :: "string \<Rightarrow> ustr" where
  "quoted s = [39] @ ustr_of s @ [39]"

definition setup_cmds :: "ustr list" where
  "setup_cmds = setup_cmds_before_echo_off @ [ustr_of ''_tmp_ret = tty.setraw(_fdin)'', quoted ''endofsetup'']"

definition teardown_cmd :: ustr where
  "teardown_cmd = ustr_of ''termios.tcsetattr(_fdin, termios.TCSADRAIN, _orig_inattrs)''"

definition raw_sendline :: "'t terminal_ops \<Rightarrow> ustr \<Rightarrow> ('t, unit) shell_op" where
  "raw_sendline tp cmd = in_world (tp_sendline tp cmd)"

text \<open>
  The last command is repeated after every tenth of a second without answer. When all tries
  are used up, \<open>raise TimeoutError\<close> without its argument is itself a \<open>TypeError\<close>.
\<close>

fun read_until_last_command :: "'t terminal_ops \<Rightarrow> nat \<Rightarrow> ustr \<Rightarrow> ('t, ustr) shell_op" where
  "read_until_last_command tp 0 out = throw TypeError"
| "read_until_last_command tp (Suc n) out = (\<lambda>s.
     case read_until tp (TriggerStr (last setup_cmds)) (1 / 10) False s of
       None \<Rightarrow> None
     | Some (Inr o1, s1) \<Rightarrow> Some (Inr (out @ o1), s1)
     | Some (Inl e, s1) \<Rightarrow> if is_timeout_error e
         then seq_outcome (raw_sendline tp (last setup_cmds) s1) (\<lambda>_. read_until_last_command tp n out)
         else Some (Inl e, s1))"

definition verify_that_terminal_is_ready :: "'t terminal_ops \<Rightarrow> rat \<Rightarrow> ('t, unit) shell_op" where
  "verify_that_terminal_is_ready tp short = andthen (raw_sendline tp (quoted ''ready''))
     (bnd (read_until tp (TriggerStr (quoted ''ready'')) short False) (\<lambda>_.
       bnd (read_until_prompt tp short False) (\<lambda>_. ret ())))"

definition read_until_prompt_after_last_command :: "'t terminal_ops \<Rightarrow> rat \<Rightarrow> ('t, ustr) shell_op" where
  "read_until_prompt_after_last_command tp short =
     bnd (read_until_last_command tp (nat \<lfloor>short * 10\<rfloor>) []) (\<lambda>o1.
       bnd (read_until_prompt tp short False) (\<lambda>o2.
         andthen (verify_that_terminal_is_ready tp short) (ret (o1 @ o2))))"

definition is_strip_char :: "nat \<Rightarrow> bool" where
  "is_strip_char c \<longleftrightarrow> c = 32 \<or> (9 \<le> c \<and> c \<le> 13) \<or> (28 \<le> c \<and> c \<le> 31) \<or> c = 133 \<or> c = 160 \<or> c = 5760 \<or>
     (8192 \<le> c \<and> c \<le> 8202) \<or> c = 8232 \<or> c = 8233 \<or> c = 8239 \<or> c = 8287 \<or> c = 12288"

definition strip_text :: "ustr \<Rightarrow> ustr" where
  "strip_text s = rev (dropWhile is_strip_char (rev (dropWhile is_strip_char s)))"

fun remove_prompts :: "ustr \<Rightarrow> ustr" where
  "remove_prompts (c1 # c2 # c3 # cs) =
     (if [c1, c2, c3] = [62, 62, 62] then remove_prompts cs else c1 # remove_prompts (c2 # c3 # cs))"
| "remove_prompts cs = cs"

definition split_to_cmds :: "ustr \<Rightarrow> ustr list" where
  "split_to_cmds out = filter (\<lambda>c. c \<noteq> []) (map strip_text (split_lines [] (remove_prompts out)))"

definition verify_cmds :: "ustr list \<Rightarrow> ('t, unit) shell_op" where
  "verify_cmds cmds = (if cmds \<noteq> [] \<and> cmds \<noteq> setup_cmds_before_echo_off
     then throw UnexpectedOutputInPython else ret ())"

definition setup_echo_off_and_raw :: "'t terminal_ops \<Rightarrow> ('t, unit) shell_op" where
  "setup_echo_off_and_raw tp = andthen (for_each (raw_sendline tp) setup_cmds) (upd (set_tty_echo False))"

definition raw_python_start :: "'t terminal_ops \<Rightarrow> ('t, unit) py \<Rightarrow> ('t, unit) py \<Rightarrow> rat \<Rightarrow> ('t, unit) shell_op" where
  "raw_python_start tp setwinsize no_delay short = andthen (python_base_start tp)
     (andthen (in_world setwinsize) (andthen (setup_echo_off_and_raw tp)
       (andthen (bnd (read_until_prompt_after_last_command tp short) (\<lambda>out. verify_cmds (split_to_cmds out)))
         (in_world no_delay))))"

definition raw_python_exit :: "'t terminal_ops \<Rightarrow> ('t, unit) py \<Rightarrow> ('t, unit) shell_op" where
  "raw_python_exit tp restore_delay = andthen (raw_sendline tp teardown_cmd)
     (andthen (in_world restore_delay) (python_base_exit tp))"

section \<open>Bringing modules to the other end\<close>

text \<open>
  A module with its name, the base name of its file, its text and the modules it imports.
  Pickling is an argument.
\<close>

datatype pymodule = PyModule (pm_name: string) (pm_basename: string) (pm_text: string) (pm_children: "pymodule list")

definition term_serialize :: "(string \<Rightarrow> bytes) \<Rightarrow> string \<Rightarrow> string" where
  "term_serialize dumps s = ''pickle.loads(base64.b64decode('' @ py_repr True (b64encode (dumps s)) @ ''))''"

definition in_quotes :: "string \<Rightarrow> string" where
  "in_quotes s = [single_quote] @ s @ [single_quote]"

definition main_module_var :: "pymodule \<Rightarrow> string" where
  "main_module_var m = ''__'' @ pm_name m"

definition child_module_var :: "string \<Rightarrow> string \<Rightarrow> string" where
  "child_module_var parent n = parent @ ''.__dict__['' @ in_quotes n @ '']''"

definition module_cmd :: "string \<Rightarrow> string" where
  "module_cmd n = ''types.ModuleType('' @ in_quotes n @ '')''"

definition compile_cmd :: "(string \<Rightarrow> bytes) \<Rightarrow> string \<Rightarrow> string \<Rightarrow> string" where
  "compile_cmd dumps base txt = ''compile('' @ term_serialize dumps txt @ '', filename='' @ in_quotes base @
     '', mode='' @ in_quotes ''exec'' @ '')''"

definition exec_cmd_of_module :: "(string \<Rightarrow> bytes) \<Rightarrow> string \<Rightarrow> string \<Rightarrow> string \<Rightarrow> string" where
  "exec_cmd_of_module dumps var base txt = ''exec('' @ compile_cmd dumps base txt @ '', '' @ var @ ''.__dict__)''"

text \<open>
  \<open>raw_cmds_gen\<close>. The dictionary \<open>_module_vars\<close> of the modules already there is that of the
  object, and every child is a new object with an empty dictionary.
\<close>

fun raw_cmds :: "(string \<Rightarrow> bytes) \<Rightarrow> string \<Rightarrow> bool \<Rightarrow> (string \<rightharpoonup> string) \<Rightarrow> pymodule \<Rightarrow> string list" where
  "raw_cmds dumps var is_main vars (PyModule n base txt children) = (case vars n of
     Some v \<Rightarrow> [var @ '' = '' @ v]
   | None \<Rightarrow> (if is_main then [''import pickle, base64, types''] else []) @
       [var @ '' = '' @ module_cmd n] @
       concat (map (\<lambda>c. raw_cmds dumps (child_module_var var (pm_name c)) False Map.empty c) children) @
       [exec_cmd_of_module dumps var base txt])"

definition cmd_treshold_len :: nat where
  "cmd_treshold_len = 5000"

fun group_cmds :: "string \<Rightarrow> string list \<Rightarrow> string list" where
  "group_cmds g [] = (if g = [] then [] else [g])"
| "group_cmds g (c # cs) = (let g' = (if g = [] then c else g @ ''; '' @ c) in
     if cmd_treshold_len < length g' then g' # group_cmds [] cs else group_cmds g' cs)"

definition cmds_gen :: "(string \<Rightarrow> bytes) \<Rightarrow> pymodule \<Rightarrow> string list" where
  "cmds_gen dumps m = group_cmds [] (raw_cmds dumps (main_module_var m) True Map.empty m)"

section \<open>The interpreter behind messages\<close>

record msg_shell =
  ms_fatalerror :: "exn option"
  ms_server_id :: "msg_arg option"
  ms_uid_iter :: nat

type_synonym 'a msg_op = "(msg_shell \<times> client, 'a) py"

definition new_msg_shell :: "nat \<Rightarrow> msg_shell" where
  "new_msg_shell cnt = \<lparr>ms_fatalerror = Some (FatalPythonError NoArgGiven), ms_server_id = None, ms_uid_iter = cnt\<rparr>"

text \<open>What a command gives: the argument of the reply, or the text of the fatal error.\<close>

datatype msg_output = OutArg msg_arg | OutError exn

definition out_of :: "msg \<Rightarrow> exn + msg_arg" where
  "out_of m = (if msg_cls m = ExecCommandReply then Inr (msg_arg m) else Inl AttributeError)"

definition server_id_of :: "msg \<Rightarrow> exn + msg_arg" where
  "server_id_of m = (if msg_cls m = ServerIdReply then Inr (msg_arg m) else Inl AttributeError)"

text \<open>\<open>create\<close> numbers the message; \<open>send_and_receive\<close> gives it the next number of the client.\<close>

definition created :: "msgcls \<Rightarrow> msg_arg \<Rightarrow> msg msg_op" where
  "created c a = bnd (gets (\<lambda>(s, k). ms_uid_iter s)) (\<lambda>n. andthen
     (upd (\<lambda>s. s\<lparr>ms_uid_iter := snd (create_msg c a n)\<rparr>)) (ret (fst (create_msg c a n))))"

definition exit_serve :: "unit msg_op" where
  "exit_serve = bnd (created ExitRequest NOARG) (\<lambda>m. in_world (cl_send m))"

definition set_fatalerror :: "exn option \<Rightarrow> unit msg_op" where
  "set_fatalerror e = upd (\<lambda>s. s\<lparr>ms_fatalerror := e\<rparr>)"

definition is_fatal_python_error :: "exn \<Rightarrow> bool" where
  "is_fatal_python_error e = (case e of FatalPythonError x \<Rightarrow> True | _ \<Rightarrow> False)"

text \<open>
  \<open>TerminalClientFatalError\<close> is a \<open>TerminalClientError\<close>, and is asked for first. What is caught
  last is not raised again: the server is told to stop.
\<close>

definition fatalerror_handling :: "'a msg_op \<Rightarrow> 'a option msg_op" where
  "fatalerror_handling m = catching (bnd m (\<lambda>x. ret (Some x))) (\<lambda>e.
     if is_fatal_python_error e then andthen (set_fatalerror (Some e)) (throw e)
     else if e = TerminalClientFatalError then andthen (set_fatalerror (Some (FatalPythonError NoArgGiven))) (throw e)
     else if is_timeout_error e \<or> e = TerminalClientError then throw e
     else if is_Exception e then
       andthen (set_fatalerror (Some (FatalPythonError NoArgGiven))) (andthen exit_serve (ret None))
     else throw e)"

definition exec_python_cmd :: "(nat \<Rightarrow> rat) \<Rightarrow> ustr \<Rightarrow> rat \<Rightarrow> msg_arg msg_op" where
  "exec_python_cmd clk cmd tmo = bnd (created ExecCommandRequest (Arg (PyStr cmd))) (\<lambda>m.
     bnd (in_world (send_and_receive clk m tmo)) (\<lambda>r. of_sum (out_of r)))"

definition msg_exec_command :: "(nat \<Rightarrow> rat) \<Rightarrow> ustr \<Rightarrow> rat \<Rightarrow> msg_output msg_op" where
  "msg_exec_command clk cmd tmo = bnd (gets (\<lambda>(s, k). (ms_fatalerror s, ps_timeout (tc_spawn (fst (cl_comm k))))))
     (\<lambda>(f, dflt). bnd (if f = None
         then fatalerror_handling (exec_python_cmd clk cmd (if tmo = - 1 then dflt else tmo))
         else ret None)
       (\<lambda>out. bnd (gets (\<lambda>(s, k). ms_fatalerror s)) (\<lambda>f'. case f' of
          Some e \<Rightarrow> ret (OutError e)
        | None \<Rightarrow> (case out of Some a \<Rightarrow> ret (OutArg a) | None \<Rightarrow> throw RuntimeError))))"

definition msg_get_server_id :: "(nat \<Rightarrow> rat) \<Rightarrow> rat \<Rightarrow> msg_arg msg_op" where
  "msg_get_server_id clk tmo = bnd (created ServerIdRequest NOARG) (\<lambda>m.
     bnd (in_world (send_and_receive clk m tmo)) (\<lambda>r. of_sum (server_id_of r)))"

text \<open>The prompt: the id of the server while it runs; afterwards that of the raw shell, arguments here.\<close>

definition msg_get_prompt_from_terminal :: "(nat \<Rightarrow> rat) \<Rightarrow> (client, msg_arg) py \<Rightarrow> rat \<Rightarrow> msg_arg msg_op" where
  "msg_get_prompt_from_terminal clk raw_prompt tmo = bnd (gets (\<lambda>(s, k). ms_fatalerror s)) (\<lambda>f.
     if f = None then msg_get_server_id clk tmo else in_world raw_prompt)"

definition msg_send_command :: "ustr \<Rightarrow> unit msg_op" where
  "msg_send_command cmd = bnd (created SendCommandRequest (Arg (PyStr cmd))) (\<lambda>m. in_world (cl_send m))"

text \<open>
  Serving: the line that starts the server in the raw Python shell is the argument \<open>start_server\<close>, a program
  of the same terminal, because the raw shell is one. What is recorded as sent on the message channel begins
  behind that line.
\<close>

definition msg_serve :: "(client, unit) py \<Rightarrow> rat \<Rightarrow> unit msg_op" where
  "msg_serve start_server short = andthen (in_world start_server)
     (bnd (in_world (receive_and_send_ack short)) (\<lambda>r. bnd (of_sum (server_id_of r)) (\<lambda>i.
       andthen (upd (\<lambda>s. s\<lparr>ms_server_id := Some i\<rparr>)) (set_fatalerror None))))"

text \<open>
  Starting: the raw shell, the modules of the server in groups of commands, the server. What
  the raw shell does is a program of the same terminal.
\<close>

definition msg_start ::
  "(client, unit) py \<Rightarrow> (string \<Rightarrow> (client, unit) py) \<Rightarrow> (client, unit) py \<Rightarrow> string list \<Rightarrow> retry \<Rightarrow> rat \<Rightarrow> unit msg_op" where
  "msg_start raw_start single start_server cmds retry short = andthen (in_world raw_start)
     (andthen (in_world (modify (\<lambda>k. k\<lparr>cl_retry := retry\<rparr>)))
       (andthen (for_each (\<lambda>c. in_world (single c)) cmds) (msg_serve start_server short)))"

definition msg_exit :: "(client, unit) py \<Rightarrow> unit msg_op" where
  "msg_exit raw_exit = andthen
     (bnd (gets (\<lambda>(s, k). ms_fatalerror s)) (\<lambda>f. if f = None
        then andthen exit_serve (set_fatalerror (Some (FatalPythonError NoArgGiven))) else ret ()))
     (in_world raw_exit)"
section \<open>What is sent for a module\<close>

lemma join_with_append: "us \<noteq> [] \<Longrightarrow> join_with sep (u # us) = u @ sep @ join_with sep us"
  by (cases us) simp_all

lemma join_with_merge: "join_with sep ((a @ sep @ b) # cs) = join_with sep (a # b # cs)"
  by (cases cs) simp_all

lemma group_cmds_nonempty: "g \<noteq> [] \<Longrightarrow> group_cmds g cs \<noteq> []"
  by (induction g cs rule: group_cmds.induct) (auto simp: Let_def)

lemma group_cmds_joined:
  "[] \<notin> set cs \<Longrightarrow> join_with ''; '' (group_cmds g cs) = join_with ''; '' (if g = [] then cs else g # cs)"
proof (induction g cs rule: group_cmds.induct)
  case (1 g)
  then show ?case by simp
next
  case (2 g c cs)
  let ?g = "if g = [] then c else g @ ''; '' @ c"
  have c: "c \<noteq> []" "[] \<notin> set cs" using 2(3) by auto
  have m: "join_with ''; '' (?g # cs) = join_with ''; '' (if g = [] then c # cs else g # c # cs)"
    using join_with_merge [of "''; ''" g c cs] by simp
  show ?case
  proof (cases "cmd_treshold_len < length ?g")
    case True
    have "join_with ''; '' (group_cmds [] cs) = join_with ''; '' cs" using 2(1) [OF refl] c(2) True by simp
    moreover have "cs \<noteq> [] \<Longrightarrow> group_cmds [] cs \<noteq> []"
      using c(2) by (cases cs) (auto simp: Let_def group_cmds_nonempty)
    ultimately have "join_with ''; '' (group_cmds g (c # cs)) = join_with ''; '' (?g # cs)"
      using True by (cases "cs = []") (simp_all add: Let_def join_with_append)
    then show ?thesis using m by simp
  next
    case False
    have "join_with ''; '' (group_cmds ?g cs) = join_with ''; '' (?g # cs)"
      using 2(2) [OF refl] c False by simp
    then show ?thesis using m False by (simp add: Let_def)
  qed
qed

lemma group_cmds_sizes:
  "length g \<le> cmd_treshold_len \<Longrightarrow> (\<And>c. c \<in> set cs \<Longrightarrow> length c \<le> L) \<Longrightarrow>
     (\<forall>h \<in> set (butlast (group_cmds g cs)). cmd_treshold_len < length h) \<and>
     (\<forall>h \<in> set (group_cmds g cs). length h \<le> cmd_treshold_len + 2 + L)"
proof (induction g cs rule: group_cmds.induct)
  case (1 g)
  then show ?case by simp
next
  case (2 g c cs)
  let ?g = "if g = [] then c else g @ ''; '' @ c"
  have l: "length ?g \<le> cmd_treshold_len + 2 + L" using 2(3,4) by fastforce
  show ?case
  proof (cases "cmd_treshold_len < length ?g")
    case True
    then show ?thesis using 2(1) [OF refl] 2(4) l by (auto simp: Let_def)
  next
    case False
    then show ?thesis using 2(2) [OF refl] 2(4) by (auto simp: Let_def)
  qed
qed

lemma raw_cmds_nonempty: "[] \<notin> set (raw_cmds dumps var b Map.empty m)"
  by (induction dumps var b "Map.empty :: string \<rightharpoonup> string" m rule: raw_cmds.induct)
    (auto simp: exec_cmd_of_module_def)

text \<open>
  C31: cutting the commands of a module into groups changes nothing the other end sees: the groups, joined
  again, are the commands in their order, none dropped, split or repeated. Every group
  but the last is over the threshold, so there are few, and no group is longer than the
  threshold and one command.
\<close>

theorem groups_are_the_commands:
  "join_with ''; '' (cmds_gen dumps m) = join_with ''; '' (raw_cmds dumps (main_module_var m) True Map.empty m) \<and>
   list_all (\<lambda>g. cmd_treshold_len < length g) (butlast (cmds_gen dumps m)) \<and>
   list_all (\<lambda>g. length g \<le> cmd_treshold_len + 2 +
      Max (length ` set (raw_cmds dumps (main_module_var m) True Map.empty m))) (cmds_gen dumps m)"
proof -
  let ?cs = "raw_cmds dumps (main_module_var m) True Map.empty m"
  have "length c \<le> Max (length ` set ?cs)" if "c \<in> set ?cs" for c using that by simp
  then show ?thesis
    unfolding cmds_gen_def list_all_iff
    using group_cmds_joined [OF raw_cmds_nonempty, of "[]"]
      group_cmds_sizes [where g = "[]" and cs = ?cs and L = "Max (length ` set ?cs)"] by simp
qed

text \<open>The number of ways a module and the modules it imports are reached.\<close>

fun import_paths :: "pymodule \<Rightarrow> nat" where
  "import_paths (PyModule n base txt children) = Suc (sum_list (map import_paths children))"

lemma raw_cmds_count:
  "length (raw_cmds dumps var b Map.empty m) = 2 * import_paths m + (if b then 1 else 0)"
proof (induction m arbitrary: var b)
  case (PyModule n base code children)
  have "(\<Sum>c\<leftarrow>children. length (raw_cmds dumps (child_module_var var (pm_name c)) False Map.empty c)) =
      2 * sum_list (map import_paths children)"
    using PyModule by (induction children) auto
  then show ?case by (simp add: length_concat comp_def)
qed

text \<open>
  The check for modules that are already at the other end never succeeds: every module object of a
  child starts with an empty table of modules, so a module is created and its text is sent
  and executed once for every chain of imports that leads to it, instead of once.
\<close>

theorem shared_modules_are_sent_again:
  "length (raw_cmds dumps (main_module_var m) True Map.empty m) = 2 * import_paths m + 1 \<and>
   (let c = PyModule ''c'' ''c.py'' txt []; a = PyModule ''a'' ''a.py'' t1 [c]; b = PyModule ''b'' ''b.py'' t2 [c];
        cmds = raw_cmds dumps ''__m'' True Map.empty (PyModule ''m'' ''m.py'' t0 [a, b])
    in exec_cmd_of_module dumps (child_module_var (child_module_var ''__m'' ''a'') ''c'') ''c.py'' txt \<in> set cmds \<and>
       exec_cmd_of_module dumps (child_module_var (child_module_var ''__m'' ''b'') ''c'') ''c.py'' txt \<in> set cmds)"
  using raw_cmds_count [of dumps "main_module_var m" True m]
  by simp

end
