(* ===== verification/Dialogue.thy ===== *)
theory Dialogue
  imports Server PythonShells
begin

text \<open>
  A whole session of a shell and its server, from the server's first message to its last. The bytes
  the two ends write are fixed beforehand, by the relation \<open>dialogue\<close>; each end, given the bytes of the
  other in any pieces, writes its own: the shell of \<open>shells/msgpythonshell.py\<close> with
  \<open>shells/terminalclient.py\<close>, and the loop of \<open>remotemodules/servers.py\<close> with its caches. The
  reference both are measured against is \<open>repl\<close>, an interpreter without processes or messages.
\<close>

section \<open>A server that waits for the acknowledgement of a reply\<close>

text \<open>
  \<open>quiet clk s\<close>: the clock moves on, and no reply that waits is sent again before the times of
  \<open>clk\<close> end. At most one reply waits when requests come one after the other.
\<close>

definition quiet :: "(nat \<Rightarrow> rat) \<Rightarrow> msg_caches \<Rightarrow> bool" where
  "quiet clk s \<longleftrightarrow> mo_delta (mcs_monotonic s) = 0 \<and> mo_previous_time (mcs_monotonic s) < clk (mcs_clock s) \<and>
     mcs_lap s \<le> mo_previous_time (mcs_monotonic s) \<and>
     (mcs_msgcaches s = [] \<or> (\<exists>u c t. mcs_msgcaches s = [(u, c)] \<and> mc_timeout c = Some t \<and>
        (\<forall>i \<ge> mcs_clock s. clk i - mcs_lap s < t)))"

text \<open>A reading of the clock.\<close>

lemma mcs_time_quiet:
  assumes "quiet clk s" "strict_mono clk"
  shows "mcs_time clk s = (clk (mcs_clock s), s\<lparr>mcs_monotonic := (mcs_monotonic s)\<lparr>mo_previous_time := clk (mcs_clock s)\<rparr>,
      mcs_clock := Suc (mcs_clock s)\<rparr>)"
  using assms by (simp add: quiet_def mcs_time_def monotonic_time_def Let_def)

lemma quiet_ticks:
  assumes "quiet clk s" "strict_mono clk"
  shows "quiet clk (snd (mcs_time clk s))"
  using assms strict_monoD [OF assms(2), of "mcs_clock s" "Suc (mcs_clock s)"]
  by (auto simp: mcs_time_quiet quiet_def)

text \<open>What stays the same while a server waits.\<close>

definition waiting_frame :: "'n server \<Rightarrow> 'n cmdline \<times> nat \<times> retry \<times> consecutive_set \<times> int list" where
  "waiting_frame st = (sc_cmdline (fst st), sc_uid_iter (fst st), mcs_retry (snd st), mcs_removed (snd st), map fst (mcs_msgcaches (snd st)))"

lemma send_expired_quiet:
  assumes "quiet clk (snd st)" "strict_mono clk"
  shows "\<exists>s. send_expired clk send st = Some (Inr (), (fst st, s)) \<and> quiet clk s \<and>
    mcs_retry s = mcs_retry (snd st) \<and> mcs_removed s = mcs_removed (snd st) \<and>
    map fst (mcs_msgcaches s) = map fst (mcs_msgcaches (snd st))"
proof (cases "mcs_msgcaches (snd st) = []")
  case True
  let ?s = "snd (mcs_time clk (snd st))"
  have "quiet clk ?s" using quiet_ticks [OF assms] .
  then have "quiet clk (?s\<lparr>mcs_lap := clk (mcs_clock (snd st))\<rparr>)"
    using assms True by (simp add: quiet_def mcs_time_quiet [OF assms])
  then show ?thesis
    using True assms by (simp add: send_expired_def on_caches_def mcs_time_quiet)
next
  case False
  then obtain u c t where c: "mcs_msgcaches (snd st) = [(u, c)]" "mc_timeout c = Some t"
    "\<forall>i \<ge> mcs_clock (snd st). clk i - mcs_lap (snd st) < t"
    using assms(1) by (auto simp: quiet_def)
  let ?n = "mcs_clock (snd st)" and ?s1 = "snd (mcs_time clk (snd st))"
  let ?e = "clk ?n - mcs_lap (snd st)"
  let ?c = "c\<lparr>mc_timeout := Some (t - ?e)\<rparr>"
  let ?s2 = "set_cache u ?c ?s1"
  have s1: "mcs_msgcaches ?s1 = [(u, c)]" "mcs_clock ?s1 = Suc ?n" "mcs_lap ?s1 = mcs_lap (snd st)"
    "mo_previous_time (mcs_monotonic ?s1) = clk ?n" "mo_delta (mcs_monotonic ?s1) = 0"
    using c(1) assms by (simp_all add: mcs_time_quiet quiet_def)
  have lt: "clk ?n < clk (Suc ?n)" "clk (Suc ?n) < clk (Suc (Suc ?n))" using assms(2) by (simp_all add: strict_mono_def)
  have later: "clk i - mcs_lap (snd st) < t" if "?n \<le> i" for i using c(3) that by blast
  have q: "mcs_time clk ?s2 = (clk (Suc ?n), ?s2\<lparr>mcs_monotonic := (mcs_monotonic ?s2)\<lparr>mo_previous_time := clk (Suc ?n)\<rparr>,
      mcs_clock := Suc (Suc ?n)\<rparr>)"
    using s1 lt by (simp add: mcs_time_def monotonic_time_def Let_def set_cache_def)
  have "cache_send_expired ?e c = Inr (?c, False)"
    using c(2) later [of ?n] by (simp add: cache_send_expired_def)
  then have "send_expired_item clk send (u, c) st = Some (Inr (), (fst st, ?s2))"
    using assms s1(3) by (simp add: send_expired_item_def on_caches_def mcs_elapsed_def Let_def mcs_time_quiet)
  then have "send_expired clk send st = Some (Inr (), (fst st, (snd (mcs_time clk ?s2))\<lparr>mcs_lap := clk (Suc ?n)\<rparr>))"
    using c(1) q by (simp add: send_expired_def on_caches_def)
  moreover have "clk i - clk (Suc ?n) < t - ?e" if "Suc ?n \<le> i" for i
    using later [of i] that lt(1) by simp
  then have "quiet clk ((snd (mcs_time clk ?s2))\<lparr>mcs_lap := clk (Suc ?n)\<rparr>)"
    using s1 lt unfolding q by (simp add: quiet_def set_cache_def)
  moreover have "mcs_retry ?s2 = mcs_retry (snd st)" "mcs_removed ?s2 = mcs_removed (snd st)"
    "map fst (mcs_msgcaches ?s2) = [u]"
    using s1(1) assms by (simp_all add: set_cache_def mcs_time_quiet)
  ultimately show ?thesis using c(1) unfolding q by simp
qed

text \<open>
  The server's communication while at most one reply waits, which is none of the two before it: nothing is
  sent again. \<open>F\<close> is what does not change.
\<close>

definition svl_rep ::
  "('n, 'o) python \<Rightarrow> 'n cmdline \<times> nat \<times> retry \<times> consecutive_set \<times> int list \<Rightarrow> 'n server \<Rightarrow> bytes \<Rightarrow> bytes \<Rightarrow> bool" where
  "svl_rep P F st l v \<longleftrightarrow> sva_rep st l v \<and> strict_mono (in_clock P) \<and> quiet (in_clock P) (snd st) \<and> waiting_frame st = F"

lemma quiet_timeouts: "quiet clk s \<Longrightarrow> t \<in> set (timeout_args s) \<Longrightarrow> 0 \<le> t"
  by (fastforce simp: quiet_def timeout_args_def mcs_timeout_def split: option.splits)

lemma hook_quiet:
  assumes "svl_rep P F (c, s) l v"
  shows "\<exists>s'. sv_send_expired P (c, s) = Some (Inr (), (c, s')) \<and> svl_rep P F (c, s') l v"
proof -
  have q: "quiet (in_clock P) (snd (c, s))" "strict_mono (in_clock P)" using assms by (simp_all add: svl_rep_def)
  from send_expired_quiet [OF q, of sv_send_reply] assms show ?thesis
    by (auto simp: sv_send_expired_def svl_rep_def sva_rep_def waiting_frame_def intro: quiet_timeouts)
qed

text \<open>The reading after a \<open>select\<close> that found something.\<close>

lemma sv_read_ready:
  assumes sel: "sv_select st = Some (Inr True, (c, s))" and rep: "svl_rep P F (c, s) l v"
    and c: "sc_infd c \<noteq> []" and n: "0 < n"
  shows "\<exists>b st' v'. sv_read P n st = Some (Inr b, st') \<and> b \<noteq> [] \<and> length b \<le> n \<and> v = b @ v' \<and> svl_rep P F st' l v'"
proof -
  let ?rest = "concat (map (\<lambda>(k, x). the x) (sc_arrivals c))"
  let ?c = "c\<lparr>sc_infd := drop n (sc_infd c)\<rparr>"
  obtain s' where s': "(if sc_chunk_ack_reading c then Some (Inr (), (c, s)) else sv_send_expired P (c, s)) =
      Some (Inr (), (c, s'))" "svl_rep P F (c, s') l v"
    using hook_quiet [OF rep] rep by (cases "sc_chunk_ack_reading c") auto
  have "sv_read P n st = Some (Inr (take n (sc_infd c)), (?c, s'))"
    using sel s'(1) c
    by (subst sv_read_def, subst server_read.simps) (simp add: sv_os_read_def Let_def)
  moreover have "take n (sc_infd c) \<noteq> []" using c n by (cases "sc_infd c") auto
  moreover have "v = take n (sc_infd c) @ drop n (sc_infd c) @ ?rest"
    using s'(2) by (simp add: svl_rep_def sva_rep_def)
  moreover have "svl_rep P F (?c, s') l (drop n (sc_infd c) @ ?rest)"
    using s'(2) by (simp add: svl_rep_def sva_rep_def waiting_frame_def)
  ultimately show ?thesis
    using length_take [of n "sc_infd c"] by (metis min.cobounded2)
qed

lemma sv_read_waits:
  assumes "svl_rep P F st l v" "sc_infd (fst st) = []" "sc_arrivals (fst st) = (k, Some b) # q" "b \<noteq> []" "0 < n"
  shows "\<exists>b st' v'. sv_read P n st = Some (Inr b, st') \<and> b \<noteq> [] \<and> length b \<le> n \<and> v = b @ v' \<and> svl_rep P F st' l v'"
  using assms(1-3)
proof (induction k arbitrary: st)
  case 0
  let ?c = "(fst st)\<lparr>sc_arrivals := q, sc_infd := b\<rparr>"
  have "sv_select st = Some (Inr True, (?c, snd st))"
    using "0.prems" by (cases "timeout_args (snd st)") (auto simp: sv_select_def svl_rep_def sva_rep_def Let_def arrive_def)
  moreover have "svl_rep P F (?c, snd st) l v"
    using "0.prems" by (simp add: svl_rep_def sva_rep_def waiting_frame_def)
  ultimately show ?case by (rule sv_read_ready) (use assms(4,5) in simp_all)
next
  case (Suc k)
  show ?case
  proof (cases "timeout_args (snd st)")
    case Nil
    let ?c = "(fst st)\<lparr>sc_arrivals := q, sc_infd := b\<rparr>"
    have "sv_select st = Some (Inr True, (?c, snd st))"
      using Suc.prems Nil by (auto simp: sv_select_def svl_rep_def sva_rep_def Let_def arrive_def)
    moreover have "svl_rep P F (?c, snd st) l v"
      using Suc.prems by (simp add: svl_rep_def sva_rep_def waiting_frame_def)
    ultimately show ?thesis by (rule sv_read_ready) (use assms(4,5) in simp_all)
  next
    case (Cons t ts)
    let ?c = "(fst st)\<lparr>sc_arrivals := (k, Some b) # q\<rparr>"
    have sel: "sv_select st = Some (Inr False, (?c, snd st))"
      using Suc.prems Cons by (auto simp: sv_select_def svl_rep_def sva_rep_def Let_def)
    have r: "svl_rep P F (?c, snd st) l v"
      using Suc.prems by (simp add: svl_rep_def sva_rep_def waiting_frame_def)
    obtain s' where s': "(if sc_chunk_ack_reading ?c then Some (Inr (), (?c, snd st)) else sv_send_expired P (?c, snd st)) =
        Some (Inr (), (?c, s'))" "svl_rep P F (?c, s') l v"
      using hook_quiet [OF r] r by (cases "sc_chunk_ack_reading ?c") auto
    have "sv_read P n st = sv_read P n (?c, s')"
      using sel s'(1) unfolding sv_read_def by (subst server_read.simps) simp
    moreover have "\<exists>b st' v'. sv_read P n (?c, s') = Some (Inr b, st') \<and> b \<noteq> [] \<and> length b \<le> n \<and> v = b @ v' \<and> svl_rep P F st' l v'"
      by (rule Suc.IH [OF s'(2)]) (use Suc.prems in simp_all)
    ultimately show ?thesis by simp
  qed
qed

lemma svl_read_law: "raw_source (sv_read P) (\<lambda>st. svl_rep P F st l)"
proof
  fix st v n
  assume rep: "svl_rep P F st l v" and v: "v \<noteq> []" and n: "0 < (n :: nat)"
  show "\<exists>b st' v'. sv_read P n st = Some (Inr b, st') \<and> b \<noteq> [] \<and> length b \<le> n \<and> v = b @ v' \<and> svl_rep P F st' l v'"
  proof (cases "sc_infd (fst st) = []")
    case False
    then have "sv_select st = Some (Inr True, (fst st, snd st))"
      using rep by (cases "timeout_args (snd st)") (auto simp: sv_select_def svl_rep_def sva_rep_def Let_def)
    from sv_read_ready [OF this _ False n] rep show ?thesis by simp
  next
    case True
    with rep v obtain k b q where "sc_arrivals (fst st) = (k, Some b) # q" "b \<noteq> []"
      by (cases "sc_arrivals (fst st)") (auto simp: svl_rep_def sva_rep_def)
    from sv_read_waits [OF rep True this n] show ?thesis .
  qed
qed

interpretation svl: duplex_channel "sv_read P" sv_write sv_flush sv_set_ack_reading "svl_rep P F" for P F
  by (rule duplex_channel.intro)
    (simp_all add: svl_read_law, auto simp: sv_write_def sv_flush_def sv_set_ack_reading_def svl_rep_def sva_rep_def waiting_frame_def)

text \<open>The next message is read; what happens to it is up to \<open>process_msg\<close>.\<close>

lemma next_msg_read:
  assumes rep: "svl_rep P F st l (wire s @ rest)" and sh: "sb_ok sh" "sb_content sh = []"
    and m: "serialize msgmap m = Inr s" "length s < 10 ^ 11" "msg_cls m \<noteq> FatalPythonErrorReply"
  shows "\<exists>st1 sh1. svl_rep P F st1 (l @ wire_acks s) rest \<and> sb_ok sh1 \<and> sb_content sh1 = [] \<and>
    handle_next_msg P (st, sh) = catch_outcome (on_transport (process_msg P (received m)) (st1, sh1))
      (\<lambda>e. if is_Exception e then andthen (on_transport (send_fatal_reply P e)) (throw ExitFromServe) else throw e)"
proof -
  obtain st1 sh1 where r: "read_str (sv_read_until_size P) (st, sh) = Some (Inr s, (st1, sh1))"
    "svl_rep P F st1 (l @ wire_acks s) rest" "sb_ok sh1" "sb_content sh1 = []"
    using svl.string_read [OF rep sh m(2)] unfolding sv_read_until_size_def by auto
  with deserialize_serialize [OF m(1,3)] show ?thesis
    by (intro exI [of _ st1] exI [of _ sh1]) (simp add: handle_next_msg_def)
qed

lemma handle_next_msg_returns:
  assumes "svl_rep P F st l (wire s @ rest)" "sb_ok sh" "sb_content sh = []"
    and "serialize msgmap m = Inr s" "length s < 10 ^ 11" "msg_cls m \<noteq> FatalPythonErrorReply"
    and processed: "\<And>st1. svl_rep P F st1 (l @ wire_acks s) rest \<Longrightarrow>
      \<exists>st2. process_msg P (received m) st1 = Some (Inr (), st2) \<and> Q st2"
  shows "\<exists>st2 sh2. handle_next_msg P (st, sh) = Some (Inr (), (st2, sh2)) \<and> Q st2 \<and> sb_ok sh2 \<and> sb_content sh2 = []"
proof -
  obtain st1 sh1 where r: "svl_rep P F st1 (l @ wire_acks s) rest" "sb_ok sh1" "sb_content sh1 = []"
    "handle_next_msg P (st, sh) = catch_outcome (on_transport (process_msg P (received m)) (st1, sh1))
      (\<lambda>e. if is_Exception e then andthen (on_transport (send_fatal_reply P e)) (throw ExitFromServe) else throw e)"
    using next_msg_read [OF assms(1-6)] by blast
  from processed [OF r(1)] obtain st2 where "process_msg P (received m) st1 = Some (Inr (), st2)" "Q st2" by blast
  with r show ?thesis by (simp add: on_transport_def)
qed

text \<open>The acknowledgement of the waiting reply.\<close>

lemma ack_processed:
  assumes "svl_rep P (p, k, r, cs, [u]) st l v" "msg_cls m = Ack" "msg_uid m = u"
  shows "\<exists>st'. process_msg P m st = Some (Inr (), st') \<and> svl_rep P (p, k, r, cs_add u cs, []) st' l v"
proof -
  obtain c where c: "mcs_msgcaches (snd st) = [(u, c)]"
    using assms(1) by (auto simp: svl_rep_def waiting_frame_def quiet_def)
  then have "mcs_remove m (snd st) = (snd st)\<lparr>mcs_msgcaches := [], mcs_removed := cs_add u (mcs_removed (snd st))\<rparr>"
    using assms(3) by (simp add: mcs_remove_def remove_uid_def)
  then have "process_msg P m st = Some (Inr (), (fst st, (snd st)\<lparr>mcs_msgcaches := [], mcs_removed := cs_add u (mcs_removed (snd st))\<rparr>))"
    using assms(2) by (simp add: process_msg_def on_caches_def)
  with assms(1) show ?thesis
    by (auto simp: svl_rep_def sva_rep_def waiting_frame_def quiet_def timeout_args_empty)
qed

text \<open>A reply that was just sent waits quietly, if the clock stays within the first time-out.\<close>

lemma quiet_answered:
  assumes q: "quiet clk s" "strict_mono clk" and "mcs_msgcaches s = []"
    and short: "\<forall>i j. clk i - clk j < hd (retry_timeouts (mcs_retry s))"
  shows "quiet clk (answered clk m s)"
proof -
  let ?n = "mcs_clock s"
  have lt: "clk ?n < clk (Suc ?n)" "clk (Suc ?n) < clk (Suc (Suc ?n))" using q(2) by (simp_all add: strict_mono_def)
  show ?thesis
    using q assms(3) short lt
    by (simp add: answered_def Let_def mcs_elapsed_def mcs_time_def monotonic_time_def push_msg_def set_cache_def quiet_def)
qed

definition fast_clock :: "(nat \<Rightarrow> rat) \<Rightarrow> retry \<Rightarrow> bool" where
  "fast_clock clk r \<longleftrightarrow> strict_mono clk \<and> (\<forall>i j. clk i - clk j < hd (retry_timeouts r)) \<and>
     (\<forall>t \<in> set (retry_timeouts r). 0 \<le> t)"

lemma svl_idle: "svl_rep P (p, k, r, cs, []) st l v \<Longrightarrow> fast_clock (in_clock P) r \<Longrightarrow> idle (snd st)"
  by (auto simp: svl_rep_def waiting_frame_def idle_def quiet_def fast_clock_def)

lemma svl_known: "svl_rep P (p, k, r, cs, []) st l v \<Longrightarrow> known u (snd st) \<longleftrightarrow> cs_contains u cs"
  by (auto simp: svl_rep_def waiting_frame_def known_def)

lemma svl_answered:
  assumes "svl_rep P (p, k, r, cs, []) st l v" "fast_clock (in_clock P) r"
    and "sva_rep st' l' v'" "sc_cmdline (fst st') = p'" "sc_uid_iter (fst st') = k'"
    "snd st' = answered (in_clock P) m (snd st)"
  shows "svl_rep P (p', k', r, cs, [msg_uid m]) st' l' v'"
  using assms quiet_answered [of "in_clock P" "snd st" m]
  by (simp add: svl_rep_def waiting_frame_def fast_clock_def answered_caches)

lemma request_processed:
  assumes rep: "svl_rep P (p, k, r, cs, []) st l (wire_acks s1 @ wire_acks s2 @ rest)" and fast: "fast_clock (in_clock P) r"
    and m: "msg_cls m = ExecCommandRequest" "cmd_of m = Inr cmd" "\<not> cs_contains (msg_uid m) cs"
    and exec: "repl_step P cmd p = Some (Inr a, p')"
    and ser: "serialize msgmap (create_reply Ack m NOARG) = Inr s1"
      "serialize msgmap (create_reply ExecCommandReply m a) = Inr s2"
  shows "\<exists>st'. process_msg P m st = Some (Inr (), st') \<and> svl_rep P (p', k, r, cs, [msg_uid m]) st' (l @ wire s1 @ wire s2) rest"
proof -
  have new: "\<not> known (msg_uid m) (snd st)" using m(3) svl_known [OF rep] by simp
  have fr: "sc_cmdline (fst st) = p" "sc_uid_iter (fst st) = k" "sva_rep st l (wire_acks s1 @ wire_acks s2 @ rest)"
    using rep by (simp_all add: svl_rep_def waiting_frame_def)
  have ex: "repl_step P cmd (sc_cmdline (fst st)) = Some (Inr a, p')" using exec fr(1) by simp
  from process_exec_answers [OF m(1,2) new svl_idle [OF rep fast] ex ser fr(3)] fr(2) obtain st' where st': "process_msg P m st = Some (Inr (), st')" "sva_rep st' (l @ wire s1 @ wire s2) rest"
    "sc_cmdline (fst st') = p'" "sc_uid_iter (fst st') = k"
    "snd st' = answered (in_clock P) (create_reply ExecCommandReply m a) (snd st)"
    by auto
  with svl_answered [OF rep fast st'(2-5)] show ?thesis
    by (auto simp: create_reply_def create_with_uid_and_args_def)
qed

text \<open>
  The end. \<open>ExitFromServe\<close> is an \<open>Exception\<close>, so the server sends a \<open>FatalPythonErrorReply\<close>
  with its text before it stops.
\<close>

definition last_words :: "('n, 'o) python \<Rightarrow> nat \<Rightarrow> msg" where
  "last_words P k = create_with_uid_and_args FatalPythonErrorReply (int k)
     (Arg (PyStr (fst (in_error_text P ExitFromServe) @ [10] @ ustr_of ''Traceback:'' @ [10] @
        snd (in_error_text P ExitFromServe))))"

lemma exit_processed:
  assumes rep: "svl_rep P (p, k, r, cs, []) st l (wire s @ wire_acks s1 @ wire_acks s2 @ rest)"
    and sh: "sb_ok sh" "sb_content sh = []"
    and m: "serialize msgmap m = Inr s" "length s < 10 ^ 11" "msg_cls m = ExitRequest" "msg_arg m = NOARG"
    and new: "\<not> cs_contains (msg_uid m) cs"
    and ser: "serialize msgmap (create_reply Ack m NOARG) = Inr s1" "serialize msgmap (last_words P k) = Inr s2"
  shows "\<exists>st' sh'. handle_next_msg P (st, sh) = Some (Inl ExitFromServe, (st', sh')) \<and>
    sva_rep st' (l @ wire_acks s @ wire s1 @ wire s2) rest \<and> sc_cmdline (fst st') = p"
proof -
  have rm: "received m = m" using m(3) by (simp add: received_def received_arg_def)
  have nf: "msg_cls m \<noteq> FatalPythonErrorReply" using m(3) by simp
  obtain st1 sh1 where r: "svl_rep P (p, k, r, cs, []) st1 (l @ wire_acks s) (wire_acks s1 @ wire_acks s2 @ rest)"
    "handle_next_msg P (st, sh) = catch_outcome (on_transport (process_msg P (received m)) (st1, sh1))
      (\<lambda>e. if is_Exception e then andthen (on_transport (send_fatal_reply P e)) (throw ExitFromServe) else throw e)"
    using next_msg_read [OF rep sh m(1,2) nf] by blast
  have fr: "sc_cmdline (fst st1) = p" "sc_uid_iter (fst st1) = k"
    "sva_rep st1 (l @ wire_acks s) (wire_acks s1 @ wire_acks s2 @ rest)"
    using r(1) by (simp_all add: svl_rep_def waiting_frame_def)
  obtain st2 where st2: "sv_send_reply (create_reply Ack m NOARG) st1 = Some (Inr (), st2)"
    "sva_rep st2 ((l @ wire_acks s) @ wire s1) (wire_acks s2 @ rest)" "io_only st1 st2"
    using sv_send_reply_returns [OF ser(1) fr(3)] by blast
  have "\<not> known (msg_uid m) (snd st2)" using new svl_known [OF r(1)] st2(3) by (simp add: io_only_def)
  then have p: "process_msg P m st1 = Some (Inl ExitFromServe, st2)"
    using st2(1) m(3)
    by (simp add: process_msg_def sv_send_ack_if_needed_def is_response_expected_def reply_cached_or_handle_msg_def
        not_found_iff [symmetric] handle_msg_def serve_exit_request_handler_def)
  let ?st3 = "((fst st2)\<lparr>sc_uid_iter := Suc k\<rparr>, snd st2)"
  have "sva_rep ?st3 ((l @ wire_acks s) @ wire s1) (wire_acks s2 @ rest)" using st2(2) by (simp add: sva_rep_def)
  from sv_send_reply_returns [OF ser(2) this] obtain st4 where
    st4: "sv_send_reply (last_words P k) ?st3 = Some (Inr (), st4)"
    "sva_rep st4 (((l @ wire_acks s) @ wire s1) @ wire s2) rest" "io_only ?st3 st4"
    by blast
  have "send_fatal_reply P ExitFromServe st2 = Some (Inr (), st4)"
    using st4(1) st2(3) fr(2) by (simp add: send_fatal_reply_def next_class_uid_def last_words_def io_only_def)
  then have "handle_next_msg P (st, sh) = Some (Inl ExitFromServe, (st4, sh1))"
    using r(2) p by (simp add: rm on_transport_def is_Exception_def)
  moreover have "sc_cmdline (fst st4) = p" using fr(1) st2(3) st4(3) by (simp add: io_only_def)
  ultimately show ?thesis using st4(2) by auto
qed

section \<open>The dialogue\<close>

text \<open>
  What the two ends of a session say: \<open>u\<close> is the number of the client's next request, \<open>n\<close> that of the
  shell's next message, \<open>k\<close> that of the server's; the last two are the bytes the client
  and the server write.
\<close>

inductive dialogue ::
  "('n, 'o) python \<Rightarrow> nat \<Rightarrow> nat \<Rightarrow> nat \<Rightarrow> ustr list \<Rightarrow> 'n cmdline \<Rightarrow> msg_arg list \<Rightarrow> 'n cmdline \<Rightarrow> bytes \<Rightarrow> bytes \<Rightarrow> bool"
  for P :: "('n, 'o) python" where
  bye: "serialize msgmap (create_with_uid_and_args ExitRequest (int n) NOARG) = Inr s0 \<Longrightarrow> length s0 < 10 ^ 11 \<Longrightarrow>
    serialize msgmap (create_with_uid_and_args Ack (int n) NOARG) = Inr s1 \<Longrightarrow> wire_acks s1 = [] \<Longrightarrow>
    serialize msgmap (last_words P k) = Inr s2 \<Longrightarrow> wire_acks s2 = [] \<Longrightarrow>
    dialogue P u n k [] p [] p (wire s0) (wire_acks s0 @ wire s1 @ wire s2)"
| turn: "serialize msgmap (create_with_uid_and_args ExecCommandRequest (int u) (Arg (PyStr cmd))) = Inr s0 \<Longrightarrow> length s0 < 10 ^ 11 \<Longrightarrow>
    serialize msgmap (create_with_uid_and_args Ack (int u) NOARG) = Inr s1 \<Longrightarrow> length s1 < 10 ^ 11 \<Longrightarrow>
    repl_step P cmd p = Some (Inr a, p1) \<Longrightarrow>
    serialize msgmap (create_with_uid_and_args ExecCommandReply (int u) a) = Inr s2 \<Longrightarrow> length s2 < 10 ^ 11 \<Longrightarrow>
    dialogue P (Suc u) (Suc n) k cmds p1 as p' up down \<Longrightarrow>
    dialogue P u n k (cmd # cmds) p (a # as) p' (wire s0 @ wire_acks s1 @ wire_acks s2 @ wire s1 @ up)
      (wire_acks s0 @ wire s1 @ wire s2 @ wire_acks s1 @ down)"

lemma serve_loop_step:
  assumes "handle_next_msg P s = Some (Inr (), s1)" "serve_loop P s1 = Some (Inr (), s')"
  shows "serve_loop P s = Some (Inr (), s')"
  using assms by (subst serve_loop.simps) simp

lemma serve_loop_stop:
  "handle_next_msg P s = Some (Inl ExitFromServe, s') \<Longrightarrow> serve_loop P s = Some (Inr (), s')"
  by (subst serve_loop.simps) simp

text \<open>The acknowledgement of a reply goes through the loop.\<close>

lemma serve_ack:
  assumes "svl_rep P (p, k, r, cs, [u]) st l (wire s @ rest)" "sb_ok sh" "sb_content sh = []"
    and "serialize msgmap (create_with_uid_and_args Ack u NOARG) = Inr s" "length s < 10 ^ 11"
    and then_: "\<And>st1 sh1. svl_rep P (p, k, r, cs_add u cs, []) st1 (l @ wire_acks s) rest \<Longrightarrow> sb_ok sh1 \<Longrightarrow>
      sb_content sh1 = [] \<Longrightarrow> \<exists>s'. serve_loop P (st1, sh1) = Some (Inr (), s') \<and> Q s'"
  shows "\<exists>s'. serve_loop P (st, sh) = Some (Inr (), s') \<and> Q s'"
proof -
  let ?a = "create_with_uid_and_args Ack u NOARG"
  have a: "received ?a = ?a" "msg_cls ?a = Ack" "msg_uid ?a = u" "msg_cls ?a \<noteq> FatalPythonErrorReply"
    by (simp_all add: create_with_uid_and_args_def received_def received_arg_def)
  have "\<exists>st2 sh2. handle_next_msg P (st, sh) = Some (Inr (), (st2, sh2)) \<and>
      svl_rep P (p, k, r, cs_add u cs, []) st2 (l @ wire_acks s) rest \<and> sb_ok sh2 \<and> sb_content sh2 = []"
    by (rule handle_next_msg_returns [OF assms(1-5) a(4)]) (simp only: a(1), rule ack_processed [OF _ a(2,3)])
  then obtain st2 sh2 where "handle_next_msg P (st, sh) = Some (Inr (), (st2, sh2))"
    "svl_rep P (p, k, r, cs_add u cs, []) st2 (l @ wire_acks s) rest" "sb_ok sh2" "sb_content sh2 = []" by blast
  with then_ [of st2 sh2] show ?thesis using serve_loop_step by blast
qed

text \<open>The server's end.\<close>

lemma server_dialogue:
  assumes "dialogue P u n k cmds p as p' up down"
    and "svl_rep P (p, k, r, cs, []) st l up" "sb_ok sh" "sb_content sh = []" "fast_clock (in_clock P) r"
    and "cs_inv cs" "\<And>i. int u \<le> i \<or> int n \<le> i \<Longrightarrow> \<not> cs_contains i cs" "u \<le> n"
  shows "\<exists>s'. serve_loop P (st, sh) = Some (Inr (), s') \<and> sc_out (fst (fst s')) = l @ down \<and> sc_cmdline (fst (fst s')) = p'"
  using assms
proof (induction arbitrary: st sh l cs rule: dialogue.induct)
  case (bye n s0 s1 k s2 u p)
  let ?m = "create_with_uid_and_args ExitRequest (int n) NOARG"
  have m: "msg_cls ?m = ExitRequest" "msg_arg ?m = NOARG" "msg_uid ?m = int n"
    "create_reply Ack ?m NOARG = create_with_uid_and_args Ack (int n) NOARG"
    by (simp_all add: create_with_uid_and_args_def create_reply_def)
  have rep: "svl_rep P (p, k, r, cs, []) st l (wire s0 @ wire_acks s1 @ wire_acks s2 @ [])"
    using bye.prems(1) bye.hyps(4,6) by simp
  have new: "\<not> cs_contains (msg_uid ?m) cs" using bye.prems(6) m(3) by simp
  have ser: "serialize msgmap (create_reply Ack ?m NOARG) = Inr s1" using bye.hyps(3) m(4) by simp
  from exit_processed [OF rep bye.prems(2,3) bye.hyps(1,2) m(1,2) new ser bye.hyps(5)]
  obtain st' sh' where "handle_next_msg P (st, sh) = Some (Inl ExitFromServe, (st', sh'))"
    "sva_rep st' (l @ wire_acks s0 @ wire s1 @ wire s2) []" "sc_cmdline (fst st') = p" by blast
  then show ?case
    by (intro exI [of _ "(st', sh')"] conjI) (rule serve_loop_stop, simp_all add: sva_rep_def)
next
  case (turn u cmd s0 s1 p a p1 s2 n k cmds as p' up down)
  let ?m = "create_with_uid_and_args ExecCommandRequest (int u) (Arg (PyStr cmd))"
  have m: "received ?m = ?m" "msg_cls ?m = ExecCommandRequest" "cmd_of ?m = Inr cmd" "msg_uid ?m = int u"
    "msg_cls ?m \<noteq> FatalPythonErrorReply"
    "create_reply Ack ?m NOARG = create_with_uid_and_args Ack (int u) NOARG"
    "create_reply ExecCommandReply ?m a = create_with_uid_and_args ExecCommandReply (int u) a"
    by (simp_all add: create_with_uid_and_args_def create_reply_def received_def received_arg_def cmd_of_def)
  have new: "\<not> cs_contains (msg_uid ?m) cs" using turn.prems(6) m(4) by simp
  have ser: "serialize msgmap (create_reply Ack ?m NOARG) = Inr s1"
    "serialize msgmap (create_reply ExecCommandReply ?m a) = Inr s2" using turn.hyps(3,6) unfolding m(6,7) .
  have later: "\<not> cs_contains i (cs_add (int u) cs)" if "int (Suc u) \<le> i \<or> int (Suc n) \<le> i" for i
    using turn.prems(6) [of i] turn.prems(7) that unfolding cs_contains_add [OF turn.prems(5)] by auto
  have "\<exists>st2 sh2. handle_next_msg P (st, sh) = Some (Inr (), (st2, sh2)) \<and>
      svl_rep P (p1, k, r, cs, [int u]) st2 ((l @ wire_acks s0) @ wire s1 @ wire s2) (wire s1 @ up) \<and>
      sb_ok sh2 \<and> sb_content sh2 = []"
  proof (rule handle_next_msg_returns [OF turn.prems(1,2,3) turn.hyps(1,2) m(5)])
    fix st1
    assume "svl_rep P (p, k, r, cs, []) st1 (l @ wire_acks s0) (wire_acks s1 @ wire_acks s2 @ wire s1 @ up)"
    from request_processed [OF this turn.prems(4) m(2,3) new turn.hyps(5) ser]
    show "\<exists>st2. process_msg P (received ?m) st1 = Some (Inr (), st2) \<and>
        svl_rep P (p1, k, r, cs, [int u]) st2 ((l @ wire_acks s0) @ wire s1 @ wire s2) (wire s1 @ up)"
      unfolding m(1,4) .
  qed
  then obtain st2 sh2 where 2: "handle_next_msg P (st, sh) = Some (Inr (), (st2, sh2))"
    "svl_rep P (p1, k, r, cs, [int u]) st2 ((l @ wire_acks s0) @ wire s1 @ wire s2) (wire s1 @ up)"
    "sb_ok sh2" "sb_content sh2 = []" by blast
  have "\<exists>s'. serve_loop P (st2, sh2) = Some (Inr (), s') \<and>
      sc_out (fst (fst s')) = l @ wire_acks s0 @ wire s1 @ wire s2 @ wire_acks s1 @ down \<and> sc_cmdline (fst (fst s')) = p'"
  proof (rule serve_ack [OF 2(2-4) turn.hyps(3,4)])
    fix st1 sh1
    assume "svl_rep P (p1, k, r, cs_add (int u) cs, []) st1 (((l @ wire_acks s0) @ wire s1 @ wire s2) @ wire_acks s1) up"
      "sb_ok sh1" "sb_content sh1 = []"
    from turn.IH [OF this turn.prems(4) cs_inv_add [OF turn.prems(5)] later Suc_le_mono [THEN iffD2, OF turn.prems(7)]] show "\<exists>s'. serve_loop P (st1, sh1) = Some (Inr (), s') \<and>
        sc_out (fst (fst s')) = l @ wire_acks s0 @ wire s1 @ wire s2 @ wire_acks s1 @ down \<and> sc_cmdline (fst (fst s')) = p'"
      by (simp only: append_assoc)
  qed
  then show ?case using serve_loop_step [OF 2(1)] by blast
qed

text \<open>The client's end: one command, then all of them and the request to stop.\<close>

lemma msg_exec_command_returns:
  assumes s: "ms_fatalerror s = None" "tmo \<noteq> - 1"
    and ser: "serialize msgmap (create_with_uid_and_args ExecCommandRequest (int (cl_uid_iter c)) (Arg (PyStr cmd))) = Inr s0"
      "serialize msgmap (create_with_uid_and_args Ack (int (cl_uid_iter c)) NOARG) = Inr s1" "length s1 < 10 ^ 11"
      "serialize msgmap (create_with_uid_and_args ExecCommandReply (int (cl_uid_iter c)) a) = Inr s2" "length s2 < 10 ^ 11"
    and clock: "\<forall>i j. d < hd (retry_timeouts (cl_retry c)) - (clk i - clk j) \<and> d < tmo - (clk i - clk j)"
    and rep: "tc_rep d (fst (cl_comm c)) l (wire_acks s0 @ wire s1 @ wire s2 @ wire_acks s1 @ rest)" "buffer_empty c"
  shows "\<exists>c'. msg_exec_command clk cmd tmo (s, c) =
      Some (Inr (OutArg (Arg (get_string_or_bytes a))), (s\<lparr>ms_uid_iter := Suc (ms_uid_iter s)\<rparr>, c')) \<and>
    tc_rep d (fst (cl_comm c')) (l @ wire s0 @ wire_acks s1 @ wire_acks s2 @ wire s1) rest \<and> buffer_empty c' \<and>
    cl_uid_iter c' = Suc (cl_uid_iter c) \<and> cl_retry c' = cl_retry c"
proof -
  let ?m = "create_with_uid_and_args ExecCommandRequest (int (ms_uid_iter s)) (Arg (PyStr cmd))"
  let ?a = "create_with_uid_and_args Ack (int (cl_uid_iter c)) NOARG"
  let ?r = "create_with_uid_and_args ExecCommandReply (int (cl_uid_iter c)) a"
  have m: "set_uid (int (cl_uid_iter c)) ?m = create_with_uid_and_args ExecCommandRequest (int (cl_uid_iter c)) (Arg (PyStr cmd))"
    "msg_cls ?m \<noteq> Ack" "msg_cls ?a = Ack" "msg_uid ?a = int (cl_uid_iter c)" "msg_cls ?r \<noteq> Ack"
    "msg_cls ?r \<noteq> FatalPythonErrorReply" "msg_uid ?r = int (cl_uid_iter c)" "create_reply Ack (received ?r) NOARG = ?a"
    "out_of (received ?r) = Inr (Arg (get_string_or_bytes a))"
    by (simp_all add: set_uid_def create_with_uid_and_args_def create_reply_def out_of_def received_def received_arg_def)
  have s0: "serialize msgmap (set_uid (int (cl_uid_iter c)) ?m) = Inr s0" using ser(1) m(1) by simp
  have s3: "serialize msgmap (create_reply Ack (received ?r) NOARG) = Inr s1" using ser(2) m(8) by simp
  from send_and_receive_returns [OF s0 m(2) ser(2) m(3,4) ser(3,4) m(5-7) ser(5) s3 clock rep]
  obtain c' where c': "send_and_receive clk ?m tmo c = Some (Inr (received ?r), c')"
    "tc_rep d (fst (cl_comm c')) (l @ wire s0 @ wire_acks s1 @ wire_acks s2 @ wire s1) rest" "buffer_empty c'"
    "cl_uid_iter c' = Suc (cl_uid_iter c)" "cl_retry c' = cl_retry c" by blast
  have "msg_exec_command clk cmd tmo (s, c) =
      Some (Inr (OutArg (Arg (get_string_or_bytes a))), (s\<lparr>ms_uid_iter := Suc (ms_uid_iter s)\<rparr>, c'))"
    using s c'(1) m(9)
    by (simp add: msg_exec_command_def fatalerror_handling_def exec_python_cmd_def created_def create_msg_def)
  with c' show ?thesis by blast
qed

fun run_commands :: "(nat \<Rightarrow> rat) \<Rightarrow> rat \<Rightarrow> ustr list \<Rightarrow> msg_output list msg_op" where
  "run_commands clk tmo [] = ret []"
| "run_commands clk tmo (cmd # cmds) = bnd (msg_exec_command clk cmd tmo) (\<lambda>a.
     bnd (run_commands clk tmo cmds) (\<lambda>as. ret (a # as)))"

definition commands_then_exit :: "(nat \<Rightarrow> rat) \<Rightarrow> rat \<Rightarrow> ustr list \<Rightarrow> msg_output list msg_op" where
  "commands_then_exit clk tmo cmds = bnd (run_commands clk tmo cmds) (\<lambda>as. andthen exit_serve (ret as))"

lemma commands_then_exit_Cons:
  assumes "msg_exec_command clk cmd tmo x = Some (Inr a, y)" "commands_then_exit clk tmo cmds y = Some (Inr as, z)"
  shows "commands_then_exit clk tmo (cmd # cmds) x = Some (Inr (a # as), z)"
  using assms by (fastforce simp: commands_then_exit_def seq_outcome_Inr_iff)

lemma client_dialogue:
  assumes "dialogue P u n k cmds p as p' up down"
    and "tc_rep d (fst (cl_comm c)) l down" "buffer_empty c" "cl_uid_iter c = u"
    and "\<forall>i j. d < hd (retry_timeouts (cl_retry c)) - (clk i - clk j) \<and> d < tmo - (clk i - clk j)"
    and "ms_fatalerror s = None" "ms_uid_iter s = n" "tmo \<noteq> - 1"
  shows "\<exists>s' c' rest. commands_then_exit clk tmo cmds (s, c) =
      Some (Inr (map (\<lambda>a. OutArg (Arg (get_string_or_bytes a))) as), (s', c')) \<and>
    tc_rep d (fst (cl_comm c')) (l @ up) rest"
  using assms
proof (induction arbitrary: s c l rule: dialogue.induct)
  case (bye n s0 s1 k s2 u p)
  from cl_send_returns [OF bye.hyps(1) bye.prems(1)] obtain k1 where
    "cl_send (create_with_uid_and_args ExitRequest (int n) NOARG) c = Some (Inr (), c\<lparr>cl_comm := (k1, snd (cl_comm c))\<rparr>)"
    "tc_rep d k1 (l @ wire s0) (wire s1 @ wire s2)" by blast
  then show ?case
    using bye.prems(6)
    by (intro exI [of _ "s\<lparr>ms_uid_iter := Suc n\<rparr>"] exI [of _ "c\<lparr>cl_comm := (k1, snd (cl_comm c))\<rparr>"] exI [of _ "wire s1 @ wire s2"])
      (simp add: commands_then_exit_def exit_serve_def created_def create_msg_def)
next
  case (turn u cmd s0 s1 p a p1 s2 n k cmds as p' up down)
  have ser: "serialize msgmap (create_with_uid_and_args ExecCommandRequest (int (cl_uid_iter c)) (Arg (PyStr cmd))) = Inr s0"
    "serialize msgmap (create_with_uid_and_args Ack (int (cl_uid_iter c)) NOARG) = Inr s1"
    "serialize msgmap (create_with_uid_and_args ExecCommandReply (int (cl_uid_iter c)) a) = Inr s2"
    using turn.hyps(1,3,6) turn.prems(3) by simp_all
  from msg_exec_command_returns [OF turn.prems(5,7) ser(1,2) turn.hyps(4) ser(3) turn.hyps(7) turn.prems(4,1,2)]
  obtain c1 where c1: "msg_exec_command clk cmd tmo (s, c) =
      Some (Inr (OutArg (Arg (get_string_or_bytes a))), (s\<lparr>ms_uid_iter := Suc (ms_uid_iter s)\<rparr>, c1))"
    "tc_rep d (fst (cl_comm c1)) (l @ wire s0 @ wire_acks s1 @ wire_acks s2 @ wire s1) down" "buffer_empty c1"
    "cl_uid_iter c1 = Suc (cl_uid_iter c)" "cl_retry c1 = cl_retry c" by blast
  have "cl_uid_iter c1 = Suc u" using c1(4) turn.prems(3) by simp
  from turn.IH [OF c1(2,3) this, where s = "s\<lparr>ms_uid_iter := Suc (ms_uid_iter s)\<rparr>"] obtain s' c' rest where
    "commands_then_exit clk tmo cmds (s\<lparr>ms_uid_iter := Suc (ms_uid_iter s)\<rparr>, c1) =
      Some (Inr (map (\<lambda>a. OutArg (Arg (get_string_or_bytes a))) as), (s', c'))"
    "tc_rep d (fst (cl_comm c')) ((l @ wire s0 @ wire_acks s1 @ wire_acks s2 @ wire s1) @ up) rest"
    using turn.prems(4-7) c1(5) by auto
  with commands_then_exit_Cons [OF c1(1) this(1)] show ?case by auto
qed

section \<open>Starting\<close>

text \<open>The server says its id first, and the shell acknowledges it.\<close>

definition server_hello :: "ustr \<Rightarrow> msg" where
  "server_hello i = create_with_uid_and_args ServerIdReply (- 1) (Arg (PyStr i))"

lemma base_serve_returns:
  assumes d: "dialogue P u n (Suc k) cmds p as p' up down" "u \<le> n"
    and hello: "serialize msgmap (server_hello (sc_server_id (fst st))) = Inr s0"
      "serialize msgmap (create_with_uid_and_args Ack (- 1) NOARG) = Inr s1" "length s1 < 10 ^ 11"
    and rep: "svl_rep P (p, k, r, new_consecutive_set, []) st [] (wire_acks s0 @ wire s1 @ up)" "fast_clock (in_clock P) r"
    and sh: "sb_ok sh" "sb_content sh = []"
  shows "\<exists>s'. base_serve P (st, sh) = Some (Inr (), s') \<and> sc_out (fst (fst s')) = wire s0 @ wire_acks s1 @ down \<and>
    sc_cmdline (fst (fst s')) = p'"
proof -
  let ?m = "server_hello (sc_server_id (fst st))"
  let ?st = "((fst st)\<lparr>sc_uid_iter := Suc k\<rparr>, snd st)"
  have m: "set_uid (- 1) (create_with_uid_and_args ServerIdReply (int k) (Arg (PyStr (sc_server_id (fst st))))) = ?m"
    "msg_uid ?m = - 1" by (simp_all add: set_uid_def create_with_uid_and_args_def server_hello_def)
  have fr: "sc_uid_iter (fst st) = k" "sc_cmdline (fst st) = p" using rep(1) by (simp_all add: svl_rep_def waiting_frame_def)
  have rep': "svl_rep P (p, Suc k, r, new_consecutive_set, []) ?st [] (wire_acks s0 @ wire s1 @ up)"
    using rep(1) by (simp add: svl_rep_def sva_rep_def waiting_frame_def)
  then have sva: "sva_rep ?st [] (wire_acks s0 @ wire s1 @ up)" by (simp add: svl_rep_def)
  from send_reply_via_cache_returns [OF svl_idle [OF rep' rep(2)] hello(1) sva, of P] fr(2) obtain st1 where
    st1: "send_reply_via_cache P ?m ?st = Some (Inr (), st1)" "sva_rep st1 (wire s0) (wire s1 @ up)"
    "sc_cmdline (fst st1) = p" "sc_uid_iter (fst st1) = Suc k" "snd st1 = answered (in_clock P) ?m (snd ?st)" by auto
  have h: "send_server_id_reply P st = Some (Inr (), st1)"
    using st1(1) fr(1) m(1) by (simp add: send_server_id_reply_def next_class_uid_def)
  have rep1: "svl_rep P (p, Suc k, r, new_consecutive_set, [- 1]) st1 (wire s0) (wire s1 @ up)"
    using svl_answered [OF rep' rep(2) st1(2-5)] m(2) by simp
  have fresh: "\<not> cs_contains i (cs_add (- 1) new_consecutive_set)" if "int u \<le> i \<or> int n \<le> i" for i
    using that by (auto simp: cs_contains_add cs.inv_empty cs.contains_empty)
  have "\<exists>s'. serve_loop P (st1, sh) = Some (Inr (), s') \<and>
      sc_out (fst (fst s')) = wire s0 @ wire_acks s1 @ down \<and> sc_cmdline (fst (fst s')) = p'"
  proof (rule serve_ack [OF rep1 sh hello(2,3)])
    fix st2 sh2
    assume "svl_rep P (p, Suc k, r, cs_add (- 1) new_consecutive_set, []) st2 (wire s0 @ wire_acks s1) up"
      "sb_ok sh2" "sb_content sh2 = []"
    from server_dialogue [OF d(1) this rep(2) cs_inv_add [OF cs.inv_empty] fresh d(2)]
    show "\<exists>s'. serve_loop P (st2, sh2) = Some (Inr (), s') \<and>
        sc_out (fst (fst s')) = wire s0 @ wire_acks s1 @ down \<and> sc_cmdline (fst (fst s')) = p'"
      by (simp only: append_assoc)
  qed
  then show ?thesis using h by (simp add: base_serve_def on_transport_def)
qed

lemma msg_serve_returns:
  assumes hello: "serialize msgmap (server_hello i) = Inr s0" "length s0 < 10 ^ 11"
      "serialize msgmap (create_with_uid_and_args Ack (- 1) NOARG) = Inr s1"
    and start: "start kk = Some (Inr (), c)"
    and rep: "tc_rep d (fst (cl_comm c)) l (wire s0 @ wire_acks s1 @ rest)" "buffer_empty c" "d \<le> short"
  shows "\<exists>c'. msg_serve start short (s, kk) =
      Some (Inr (), (s\<lparr>ms_server_id := Some (Arg (PyStr i)), ms_fatalerror := None\<rparr>, c')) \<and>
    tc_rep d (fst (cl_comm c')) (l @ wire_acks s0 @ wire s1) rest \<and> buffer_empty c' \<and>
    cl_uid_iter c' = cl_uid_iter c \<and> cl_retry c' = cl_retry c"
proof -
  let ?m = "server_hello i"
  have m: "msg_cls ?m = ServerIdReply" "received ?m = ?m" "create_reply Ack ?m NOARG = create_with_uid_and_args Ack (- 1) NOARG"
    "server_id_of ?m = Inr (Arg (PyStr i))" "msg_cls ?m \<noteq> FatalPythonErrorReply"
    by (simp_all add: server_hello_def create_with_uid_and_args_def received_def received_arg_def create_reply_def server_id_of_def)
  obtain k where k: "cl_receive short c = Some (Inr ?m, c\<lparr>cl_comm := k\<rparr>)"
    "tc_rep d (fst k) (l @ wire_acks s0) (wire_acks s1 @ rest)" "buffer_empty (c\<lparr>cl_comm := k\<rparr>)"
    using cl_receive_returns [OF hello(1,2) m(5) tc_rep_timeout [OF rep(1,3)] rep(2)] m(2) by auto
  obtain k2 where k2: "cl_send (create_with_uid_and_args Ack (- 1) NOARG) (c\<lparr>cl_comm := k\<rparr>) =
      Some (Inr (), c\<lparr>cl_comm := (k2, snd k)\<rparr>)" "tc_rep d k2 ((l @ wire_acks s0) @ wire s1) rest"
    using cl_send_returns [OF hello(3), of d "c\<lparr>cl_comm := k\<rparr>" "l @ wire_acks s0" rest] k(2) by auto
  have "receive_and_send_ack short c = Some (Inr ?m, c\<lparr>cl_comm := (k2, snd k)\<rparr>)"
    using k(1) k2(1) m(1,3) by (simp add: receive_and_send_ack_def cl_send_ack_if_needed_def cl_send_ack_def)
  then have "msg_serve start short (s, kk) =
      Some (Inr (), (s\<lparr>ms_server_id := Some (Arg (PyStr i)), ms_fatalerror := None\<rparr>, c\<lparr>cl_comm := (k2, snd k)\<rparr>))"
    using start m(4) by (simp add: msg_serve_def set_fatalerror_def)
  with k2(2) k(3) show ?thesis by (auto simp: buffer_empty_def)
qed

section \<open>Messages that go through\<close>

definition fits :: "msg \<Rightarrow> bool" where
  "fits m \<longleftrightarrow> (\<exists>s. serialize msgmap m = Inr s \<and> length s < 10 ^ 11)"

definition one_chunk :: "msg \<Rightarrow> bool" where
  "one_chunk m \<longleftrightarrow> (\<exists>s. serialize msgmap m = Inr s \<and> length s \<le> 1969)"

lemma wire_acks_short: "length s \<le> 1969 \<Longrightarrow> wire_acks s = []"
proof -
  assume s: "length s \<le> 1969"
  have "length (str_frame s) = 31 + length s"
    using s by (simp add: str_frame_def str_token_def str_len_width_def length_zpad)
  then have "chunk_starts (length (str_frame s)) = map (\<lambda>i. i * CHUNKSIZE) [0..<(2030 + length s) div 2000]"
    by (simp add: chunk_starts_def CHUNKSIZE_def)
  moreover have "(2030 + length s) div 2000 = 1" using s by (intro div_nat_eqI) simp_all
  ultimately have "chunk_starts (length (str_frame s)) = [0]" by (simp only:) simp
  then show ?thesis by (simp add: wire_acks_def chunks_of_def item_acks_def item_ack_def)
qed

lemma length_str_of_int: "- (10 ^ k) < i \<Longrightarrow> i < 10 ^ k \<Longrightarrow> 0 < k \<Longrightarrow> length (str_of_int i) \<le> Suc k"
proof -
  assume i: "- (10 ^ k) < i" "i < 10 ^ k" and k: "0 < k"
  have "nat i < 10 ^ k" "nat (- i) < 10 ^ k" using i by (simp_all add: nat_less_iff)
  then have "length (nat_digits (nat i)) \<le> k" "length (nat_digits (nat (- i))) \<le> k"
    using length_nat_digits_le k by blast+
  then show ?thesis by (simp add: str_of_int_def)
qed

lemma length_b64encode: "length (b64encode s) \<le> 2 * length s + 4"
proof (induction s rule: b64encode.induct)
  case (4 a b c r)
  from 4 [OF refl refl refl] show ?case by (simp add: Let_def)
qed (simp_all add: Let_def)

lemma length_utf8: "length (concat (map utf8_char t)) \<le> 4 * length t"
  by (induction t) (auto simp: utf8_char_def)

text \<open>Text that UTF-8 can encode, or bytes, of a gigabyte at most.\<close>

definition sendable :: "str_or_bytes \<Rightarrow> bool" where
  "sendable x = (case x of PyStr t \<Rightarrow> list_all valid_cp t \<and> length t \<le> 10 ^ 9 | PyBytes b \<Rightarrow> length b \<le> 10 ^ 9)"

lemma text_serialized:
  assumes "list_all valid_cp t"
  shows "\<exists>s. serialize_string_or_bytes (PyStr t) = Inr s \<and> length s \<le> 8 * length t + 6"
  using assms length_utf8 [of t] length_b64encode [of "CHR ''s'' # concat (map utf8_char t)"]
  by (simp add: serialize_string_or_bytes_def utf8_encode_def)

lemma sendable_serialized:
  assumes "sendable x"
  shows "\<exists>s. serialize_string_or_bytes x = Inr s \<and> length s \<le> 8 * 10 ^ 9 + 6"
proof (cases x)
  case (PyStr t)
  with assms text_serialized [of t] show ?thesis by (force simp: sendable_def)
next
  case (PyBytes b)
  with assms length_b64encode [of "CHR ''b'' # b"] show ?thesis
    by (simp add: sendable_def serialize_string_or_bytes_def)
qed

lemma arg_serialized:
  assumes "serialize_arg (create_with_uid_and_args c i a) = Inr s" "- (10 ^ 100) < i" "i < 10 ^ 100"
  shows "\<exists>s'. serialize msgmap (create_with_uid_and_args c i a) = Inr s' \<and> length s' \<le> 106 + length s"
proof -
  obtain j where j: "get_msgid msgmap c = Inr j" using msgmap_total by blast
  have "j < 8"
    using j by (cases c) (auto simp: get_msgid_def msgmap_def set_msgclses_def protocol_msgclses_def add_msgcls_def new_msg_map_def)
  then have "length (str_of_int (int j)) \<le> 2" using length_str_of_int [of 1 "int j"] by simp
  moreover have "length (str_of_int i) \<le> 101" using length_str_of_int [of 100 i] assms(2,3) by simp
  ultimately show ?thesis
    using j assms(1)
    by (simp add: serialize_def create_with_uid_and_args_def string_conversion_to_bytes_def)
qed

lemma bare_serialized:
  assumes "c \<noteq> ExecCommandReply" "- (10 ^ 100) < i" "i < 10 ^ 100"
  shows "\<exists>s. serialize msgmap (create_with_uid_and_args c i NOARG) = Inr s \<and> length s \<le> 106"
  using arg_serialized [of c i NOARG "[]"] assms by (simp add: serialize_arg_def create_with_uid_and_args_def)

lemma sendable_fits:
  assumes "if c = ExecCommandReply then sendable (get_string_or_bytes a) else \<exists>x. a = Arg x \<and> sendable x"
    and i: "- (10 ^ 100) < i" "i < 10 ^ 100"
  shows "fits (create_with_uid_and_args c i a)"
proof -
  obtain s where s: "serialize_arg (create_with_uid_and_args c i a) = Inr s" "length s \<le> 8 * 10 ^ 9 + 6"
    using assms(1) sendable_serialized
    by (force simp: serialize_arg_def create_with_uid_and_args_def split: if_splits)
  from arg_serialized [OF s(1) i] s(2) show ?thesis by (auto simp: fits_def)
qed

section \<open>A session from end to end\<close>

text \<open>The interpreter alone.\<close>

fun repl :: "('n, 'o) python \<Rightarrow> ustr list \<Rightarrow> ('n cmdline, msg_arg list) py" where
  "repl P [] = ret []"
| "repl P (cmd # cmds) = bnd (repl_step P cmd) (\<lambda>a. bnd (repl P cmds) (\<lambda>as. ret (a # as)))"

lemma repl_length: "repl P cmds p = Some (Inr as, p') \<Longrightarrow> length as = length cmds"
  by (induction cmds arbitrary: p as) (auto simp: seq_outcome_Inr_iff)

lemma dialogue_exists:
  assumes "repl P cmds p = Some (Inr as, p')"
    and "list_all (\<lambda>cmd. sendable (PyStr cmd)) cmds" "list_all (\<lambda>a. sendable (get_string_or_bytes a)) as"
    and "one_chunk (last_words P k)" "u \<le> n" "n + length cmds < 10 ^ 100"
  shows "\<exists>up down. dialogue P u n k cmds p as p' up down"
  using assms
proof (induction cmds arbitrary: p as u n)
  case Nil
  have n: "int n < 10 ^ 100" using Nil.prems(6) by (metis add.right_neutral list.size(3) of_nat_less_numeral_power_cancel_iff)
  obtain s0 where s0: "serialize msgmap (create_with_uid_and_args ExitRequest (int n) NOARG) = Inr s0" "length s0 \<le> 106"
    using bare_serialized [of ExitRequest "int n"] n by auto
  obtain s1 where s1: "serialize msgmap (create_with_uid_and_args Ack (int n) NOARG) = Inr s1" "length s1 \<le> 106"
    using bare_serialized [of Ack "int n"] n by auto
  obtain s2 where s2: "serialize msgmap (last_words P k) = Inr s2" "length s2 \<le> 1969"
    using Nil.prems(4) by (auto simp: one_chunk_def)
  have "length s0 < 10 ^ 11" "wire_acks s1 = []" "wire_acks s2 = []" using s0(2) s1(2) s2(2) by (auto intro: wire_acks_short)
  from dialogue.bye [OF s0(1) this(1) s1(1) this(2) s2(1) this(3)] Nil.prems(1) show ?case by auto
next
  case (Cons cmd cmds)
  obtain a p1 as' where r: "repl_step P cmd p = Some (Inr a, p1)" "repl P cmds p1 = Some (Inr as', p')" "as = a # as'"
    using Cons.prems(1) by (auto simp: seq_outcome_Inr_iff)
  have u: "int u < 10 ^ 100"
    using Cons.prems(5,6) by (metis add_lessD1 le_less_trans of_nat_less_numeral_power_cancel_iff)
  obtain s0 where s0: "serialize msgmap (create_with_uid_and_args ExecCommandRequest (int u) (Arg (PyStr cmd))) = Inr s0" "length s0 < 10 ^ 11"
    using Cons.prems(2) u sendable_fits [of ExecCommandRequest "Arg (PyStr cmd)" "int u"] by (auto simp: fits_def)
  obtain s1 where s1: "serialize msgmap (create_with_uid_and_args Ack (int u) NOARG) = Inr s1" "length s1 \<le> 106"
    using bare_serialized [of Ack "int u"] u by auto
  obtain s2 where s2: "serialize msgmap (create_with_uid_and_args ExecCommandReply (int u) a) = Inr s2" "length s2 < 10 ^ 11"
    using Cons.prems(3) r(3) u sendable_fits [of ExecCommandReply a "int u"] by (auto simp: fits_def)
  obtain up down where "dialogue P (Suc u) (Suc n) k cmds p1 as' p' up down"
    using Cons.IH [OF r(2), of "Suc u" "Suc n"] Cons.prems r(3) by auto
  from dialogue.turn [OF s0 s1(1) _ r(1) s2 this] s1(2) r(3) show ?case by fastforce
qed

text \<open>
  A dialogue is the execution of its commands, and its bytes are determined by them. They can be computed.
\<close>

inductive_cases dialogue_ConsE: "dialogue P u n k (cmd # cmds) p as p' up down"
inductive_simps dialogue_Nil: "dialogue P u n k [] p as p' up down"

lemma dialogue_is_repl: "dialogue P u n k cmds p as p' up down \<Longrightarrow> repl P cmds p = Some (Inr as, p')"
  by (induction rule: dialogue.induct) simp_all

lemma dialogue_unique:
  assumes "dialogue P u n k cmds p as p' up down" "dialogue P u n k cmds p as2 p2 up2 down2"
  shows "as2 = as \<and> p2 = p' \<and> up2 = up \<and> down2 = down"
  using assms
proof (induction arbitrary: as2 p2 up2 down2 rule: dialogue.induct)
  case (bye n s0 s1 k s2 u p)
  from bye.prems show ?case unfolding dialogue_Nil using bye.hyps by auto
next
  case (turn u cmd s0 s1 p a p1 s2 n k cmds as p' up down)
  from turn.prems show ?case
  proof (rule dialogue_ConsE)
    fix t0 t1 b q1 t2 bs vp down'
    assume "as2 = b # bs" "up2 = wire t0 @ wire_acks t1 @ wire_acks t2 @ wire t1 @ vp"
      "down2 = wire_acks t0 @ wire t1 @ wire t2 @ wire_acks t1 @ down'"
      "serialize msgmap (create_with_uid_and_args ExecCommandRequest (int u) (Arg (PyStr cmd))) = Inr t0"
      "serialize msgmap (create_with_uid_and_args Ack (int u) NOARG) = Inr t1"
      "repl_step P cmd p = Some (Inr b, q1)"
      "serialize msgmap (create_with_uid_and_args ExecCommandReply (int u) b) = Inr t2"
      "dialogue P (Suc u) (Suc n) k cmds q1 bs p2 vp down'"
    with turn.hyps(1,3,5,6) turn.IH [of bs p2 vp down'] show ?thesis by simp
  qed
qed

code_pred (modes: i \<Rightarrow> i \<Rightarrow> i \<Rightarrow> i \<Rightarrow> i \<Rightarrow> i \<Rightarrow> o \<Rightarrow> o \<Rightarrow> o \<Rightarrow> o \<Rightarrow> bool) dialogue .

text \<open>
  C1: a session from end to end is local execution. Whenever the interpreter alone answers the
  commands with the values \<open>as\<close>, there are the bytes \<open>up\<close> and \<open>down\<close> of a session such that a shell which
  finds \<open>down\<close> coming in starts, returns just those values from \<open>exec_command\<close>, stops, and has written
  \<open>up\<close>; and a server which finds \<open>up\<close> coming in, in whatever pieces, leaves its loop, has written \<open>down\<close>,
  and its command line is in the state the interpreter alone reaches. The clocks stay within the
  first time-out, and the reply by which the server reports \<open>ExitFromServe\<close> fits into one chunk, as
  nobody acknowledges it.
\<close>

theorem session_is_local_execution:
  assumes repl: "repl P cmds p = Some (Inr as, p')"
    and msgs: "list_all (\<lambda>cmd. sendable (PyStr cmd)) cmds" "list_all (\<lambda>a. sendable (get_string_or_bytes a)) as"
    "sendable (PyStr i)" "one_chunk (last_words P (Suc k))" "u \<le> n" "n + length cmds < 10 ^ 100"
  shows "\<exists>up down.
    (\<forall>start short clk tmo s c0 c d. start c0 = Some (Inr (), c) \<and> buffer_empty c \<and> cl_uid_iter c = u \<and> ms_uid_iter s = n \<and>
       tmo \<noteq> - 1 \<and> d \<le> short \<and>
       (\<forall>i j. d < hd (retry_timeouts (cl_retry c)) - (clk i - clk j) \<and> d < tmo - (clk i - clk j)) \<and>
       tc_rep d (fst (cl_comm c)) [] down \<longrightarrow>
       (\<exists>s' c'. andthen (msg_serve start short) (commands_then_exit clk tmo cmds) (s, c0) =
           Some (Inr (map (\<lambda>a. OutArg (Arg (get_string_or_bytes a))) as), (s', c')) \<and>
         ps_sent (tc_spawn (fst (cl_comm c'))) = up)) \<and>
    (\<forall>st sh r. svl_rep P (p, k, r, new_consecutive_set, []) st [] up \<and> sc_server_id (fst st) = i \<and>
       fast_clock (in_clock P) r \<and> sb_ok sh \<and> sb_content sh = [] \<longrightarrow>
       (\<exists>s'. base_serve P (st, sh) = Some (Inr (), s') \<and> sc_out (fst (fst s')) = down \<and> sc_cmdline (fst (fst s')) = p'))"
proof -
  obtain up down where d: "dialogue P u n (Suc k) cmds p as p' up down"
    using dialogue_exists [OF repl msgs(1,2,4-6)] by blast
  obtain s0 where s0: "serialize msgmap (server_hello i) = Inr s0" "length s0 < 10 ^ 11"
    using msgs(3) sendable_fits [of ServerIdReply "Arg (PyStr i)" "- 1"] by (auto simp: fits_def server_hello_def)
  obtain s1 where s1: "serialize msgmap (create_with_uid_and_args Ack (- 1) NOARG) = Inr s1" "length s1 < 10 ^ 11"
    using bare_serialized [of Ack "- 1"] by fastforce
  have client: "\<exists>s' c'. andthen (msg_serve start short) (commands_then_exit clk tmo cmds) (s, c0) =
           Some (Inr (map (\<lambda>a. OutArg (Arg (get_string_or_bytes a))) as), (s', c')) \<and>
         ps_sent (tc_spawn (fst (cl_comm c'))) = wire_acks s0 @ wire s1 @ up"
    if c: "start c0 = Some (Inr (), c)" "buffer_empty c" "cl_uid_iter c = u" "ms_uid_iter s = n" "tmo \<noteq> - 1" "e \<le> short"
      "\<forall>i j. e < hd (retry_timeouts (cl_retry c)) - (clk i - clk j) \<and> e < tmo - (clk i - clk j)"
      "tc_rep e (fst (cl_comm c)) [] (wire s0 @ wire_acks s1 @ down)"
    for start short clk tmo s c0 c e
  proof -
    let ?s = "s\<lparr>ms_server_id := Some (Arg (PyStr i)), ms_fatalerror := None\<rparr>"
    obtain c1 where c1: "msg_serve start short (s, c0) = Some (Inr (), (?s, c1))"
      "tc_rep e (fst (cl_comm c1)) ([] @ wire_acks s0 @ wire s1) down" "buffer_empty c1"
      "cl_uid_iter c1 = u" "cl_retry c1 = cl_retry c"
      using msg_serve_returns [where start = start and kk = c0 and rest = down, OF s0 s1(1) c(1,8,2,6)] c(3) by metis
    have "\<forall>i j. e < hd (retry_timeouts (cl_retry c1)) - (clk i - clk j) \<and> e < tmo - (clk i - clk j)"
      using c(7) c1(5) by simp
    from client_dialogue [OF d c1(2-4) this, of ?s] c(4,5) obtain s' c' rest where
      "commands_then_exit clk tmo cmds (?s, c1) = Some (Inr (map (\<lambda>a. OutArg (Arg (get_string_or_bytes a))) as), (s', c'))"
      "tc_rep e (fst (cl_comm c')) (([] @ wire_acks s0 @ wire s1) @ up) rest" by auto
    with c1(1) show ?thesis by (auto dest: tc_rep_sent)
  qed
  have server: "\<exists>s'. base_serve P (st, sh) = Some (Inr (), s') \<and> sc_out (fst (fst s')) = wire s0 @ wire_acks s1 @ down \<and>
      sc_cmdline (fst (fst s')) = p'"
    if "svl_rep P (p, k, r, new_consecutive_set, []) st [] (wire_acks s0 @ wire s1 @ up)" "sc_server_id (fst st) = i"
      "fast_clock (in_clock P) r" "sb_ok sh" "sb_content sh = []" for st sh r
    using base_serve_returns [OF d msgs(5) _ s1 that(1,3-5)] s0(1) that(2) by blast
  from client server show ?thesis by blast
qed

text \<open>An interpreter that counts its commands, and a clock that stays below one.\<close>

abbreviation session_python :: "(nat, ustr) python" where
  "session_python \<equiv> \<lparr>in_compile = (\<lambda>mode cmd. CodeObject cmd), in_eval = (\<lambda>code n. Some (Inr ArgNone, Suc n)),
     in_setitem = (\<lambda>k n. n), in_error_text = (\<lambda>e. ([], [])), in_clock = (\<lambda>n. 1 - 1 / of_nat (Suc n))\<rparr>"

abbreviation session_retry :: retry where
  "session_retry \<equiv> \<lparr>rt_tries = 3, rt_interval = 1, rt_timeout = 10\<rparr>"

abbreviation session_client :: "bytes \<Rightarrow> client" where
  "session_client down \<equiv> new_client ((new_paramiko_spawn 30 [] [])\<lparr>ps_buf := down\<rparr>) session_retry"

abbreviation session_server :: "bytes \<Rightarrow> nat server" where
  "session_server up \<equiv> ((fst (new_server session_python session_retry [] 0 []))\<lparr>sc_infd := up\<rparr>,
     snd (new_server session_python session_retry [] 0 []))"

lemma session_retry_first: "hd (retry_timeouts session_retry) = 1" "\<forall>t \<in> set (retry_timeouts session_retry). 0 \<le> t"
  by (simp_all add: retry_timeouts_def upt_rec)

lemma session_clock: "fast_clock (in_clock session_python) session_retry"
proof -
  have "(1 :: rat) - 1 / of_nat (Suc i) < 1 - 1 / of_nat (Suc j)" if "i < j" for i j
    using that by (simp add: divide_strict_left_mono)
  moreover have "((1 :: rat) - 1 / of_nat (Suc i)) - (1 - 1 / of_nat (Suc j)) < 1" for i j
  proof -
    have "(1 :: rat) / of_nat (Suc j) \<le> 1" "(0 :: rat) < 1 / of_nat (Suc i)" by simp_all
    then show ?thesis by linarith
  qed
  ultimately show ?thesis
    unfolding fast_clock_def session_retry_first(1) using session_retry_first(2) by (simp add: strict_mono_def)
qed

lemma session_client_ready: "tc_rep 0 (fst (cl_comm (session_client down))) [] down"
  by (simp add: tc_rep_def new_client_def new_terminal_comm_def new_paramiko_spawn_def coming_def effective_timeout_def)

lemma session_server_ready:
  "svl_rep session_python (new_cmdline 0, 0, session_retry, new_consecutive_set, []) (session_server up) [] up"
  using session_clock
  by (simp add: svl_rep_def sva_rep_def quiet_def waiting_frame_def new_server_def new_msg_caches_def monotonic_time_def
      new_monotonic_def Let_def timeout_args_def mcs_timeout_def fast_clock_def)

lemma session_last_words: "one_chunk (last_words session_python 1)"
proof -
  let ?t = "[10] @ ustr_of ''Traceback:'' @ [10]"
  have t: "list_all valid_cp ?t" "length ?t = 12" by (simp_all add: ustr_of_def valid_cp_def)
  from text_serialized [OF t(1)] obtain s where s: "serialize_string_or_bytes (PyStr ?t) = Inr s" "length s \<le> 102"
    unfolding t(2) by auto
  have m: "last_words session_python 1 = create_with_uid_and_args FatalPythonErrorReply 1 (Arg (PyStr ?t))"
    by (simp add: last_words_def)
  have a: "serialize_arg (create_with_uid_and_args FatalPythonErrorReply 1 (Arg (PyStr ?t))) = Inr s"
    using s(1) by (simp only: serialize_arg_def create_with_uid_and_args_def msg.select_convs msgcls.distinct if_False msg_arg.case)
  have "\<exists>s'. serialize msgmap (last_words session_python 1) = Inr s' \<and> length s' \<le> 106 + length s"
    unfolding m by (rule arg_serialized [OF a]) simp_all
  then obtain s' where "serialize msgmap (last_words session_python 1) = Inr s'" "length s' \<le> 106 + length s" by blast
  with s(2) show ?thesis unfolding one_chunk_def by (intro exI [of _ s'] conjI) simp_all
qed

theorem session_is_local_execution_witness:
  "\<exists>up down.
     (\<exists>s' c'. andthen (msg_serve (ret ()) 5) (commands_then_exit (\<lambda>n. 0) 10 [[49], [50]]) (new_msg_shell 0, session_client down) =
        Some (Inr [OutArg (Arg (PyBytes [])), OutArg (Arg (PyBytes []))], (s', c')) \<and>
        ps_sent (tc_spawn (fst (cl_comm c'))) = up) \<and>
     (\<exists>s'. base_serve session_python (session_server up, new_shared_bytes_io) = Some (Inr (), s') \<and>
        sc_out (fst (fst s')) = down \<and> pc_namespace (sc_cmdline (fst (fst s'))) = 2)"
proof -
  have r: "repl session_python [[49], [50]] (new_cmdline 0) =
      Some (Inr [ArgNone, ArgNone], \<lparr>pc_multilinecmd = [], pc_namespace = 2, pc_current_cmd = Some [50]\<rparr>)"
    by (simp add: repl_step_def exec_command_def new_cmdline_def get_code_object_def pc_eval_def Let_def)
  have out: "list_all (\<lambda>a. sendable (get_string_or_bytes a)) [ArgNone, ArgNone]"
    "list_all (\<lambda>cmd. sendable (PyStr cmd)) [[49], [50]]" "sendable (PyStr [])"
    by (simp_all add: sendable_def get_string_or_bytes_def valid_cp_def)
  have lw: "one_chunk (last_words session_python (Suc 0))" using session_last_words by simp
  have n: "0 + length [[49 :: nat], [50]] < 10 ^ 100" by simp
  have tm: "\<forall>i j. (0 :: rat) < hd (retry_timeouts (cl_retry (session_client down))) - ((\<lambda>n. 0) (i :: nat) - (\<lambda>n. 0) (j :: nat)) \<and>
      0 < 10 - ((\<lambda>n. 0 :: rat) i - (\<lambda>n. 0) j)" for down
    by (simp add: new_client_def session_retry_first)
  obtain up down where
    c: "\<forall>start short clk tmo s c0 c d. start c0 = Some (Inr (), c) \<and> buffer_empty c \<and> cl_uid_iter c = 0 \<and> ms_uid_iter s = 0 \<and>
       tmo \<noteq> - 1 \<and> d \<le> short \<and>
       (\<forall>i j. d < hd (retry_timeouts (cl_retry c)) - (clk i - clk j) \<and> d < tmo - (clk i - clk j)) \<and>
       tc_rep d (fst (cl_comm c)) [] down \<longrightarrow>
       (\<exists>s' c'. andthen (msg_serve start short) (commands_then_exit clk tmo [[49], [50]]) (s, c0) =
           Some (Inr (map (\<lambda>a. OutArg (Arg (get_string_or_bytes a))) [ArgNone, ArgNone]), (s', c')) \<and>
         ps_sent (tc_spawn (fst (cl_comm c'))) = up)"
    and s: "\<forall>st sh r. svl_rep session_python (new_cmdline 0, 0, r, new_consecutive_set, []) st [] up \<and> sc_server_id (fst st) = [] \<and>
       fast_clock (in_clock session_python) r \<and> sb_ok sh \<and> sb_content sh = [] \<longrightarrow>
       (\<exists>s'. base_serve session_python (st, sh) = Some (Inr (), s') \<and> sc_out (fst (fst s')) = down \<and>
         sc_cmdline (fst (fst s')) = \<lparr>pc_multilinecmd = [], pc_namespace = 2, pc_current_cmd = Some [50]\<rparr>)"
    using session_is_local_execution [OF r out(2,1,3) lw le_refl n] by (elim exE conjE) (rule that)
  have "\<exists>s' c'. andthen (msg_serve (ret ()) 5) (commands_then_exit (\<lambda>n. 0) 10 [[49], [50]]) (new_msg_shell 0, session_client down) =
           Some (Inr (map (\<lambda>a. OutArg (Arg (get_string_or_bytes a))) [ArgNone, ArgNone]), (s', c')) \<and>
         ps_sent (tc_spawn (fst (cl_comm c'))) = up"
    by (rule c [rule_format, where d = 0 and c = "session_client down"])
      (intro conjI, simp_all only: tm session_client_ready, simp_all add: new_msg_shell_def buffer_empty_def new_client_def)
  moreover have "\<exists>s'. base_serve session_python (session_server up, new_shared_bytes_io) = Some (Inr (), s') \<and> sc_out (fst (fst s')) = down \<and>
         sc_cmdline (fst (fst s')) = \<lparr>pc_multilinecmd = [], pc_namespace = 2, pc_current_cmd = Some [50]\<rparr>"
    by (rule s [rule_format, where r = session_retry])
      (intro conjI session_server_ready session_clock, simp_all add: new_server_def)
  ultimately show ?thesis by (fastforce simp: get_string_or_bytes_def)
qed

end
