(* ===== verification/AutoTerminal.thy ===== *)
theory AutoTerminal
  imports RunnerTerminal
begin

text \<open>
  \<open>autorecoveringterminal.py\<close> and \<open>autorunnerterminal.py\<close>: a terminal that opens its session on
  demand, verifies it, closes it when a call breaks it and opens it again. The shells, the
  interactive session and the clock are programs of the rest of the world; the callbacks
  \<open>prepare\<close>, \<open>finalize\<close> and \<open>verify\<close> may use the terminal itself.
\<close>

section \<open>AutoRecoveringTerminal\<close>

record auto_terminal =
  at_shells :: "nat list"
  at_session :: "nat option"
  at_max_tries :: nat
  at_sleep_between_tries :: rat
  at_in_verify :: bool

text \<open>\<open>'s\<close> is the state the terminal is a part of; \<open>av_terminal\<close> and \<open>av_update\<close> reach it there.\<close>

record 's auto_env =
  av_terminal :: "'s \<Rightarrow> auto_terminal"
  av_update :: "(auto_terminal \<Rightarrow> auto_terminal) \<Rightarrow> 's \<Rightarrow> 's"
  av_new_session :: "('s, nat) py"
  av_spawn :: "nat \<Rightarrow> nat \<Rightarrow> ('s, unit) py"
  av_push :: "nat \<Rightarrow> nat \<Rightarrow> ('s, unit) py"
  av_close_terminal :: "nat \<Rightarrow> ('s, unit) py"
  av_sleep :: "rat \<Rightarrow> ('s, unit) py"
  av_prepare :: "('s, unit) py"
  av_finalize :: "('s, unit) py"
  av_verify :: "('s, unit) py"
  av_broken_exceptions :: "exn \<Rightarrow> bool"
  av_init_broken_exceptions :: "exn \<Rightarrow> bool"

definition new_auto_terminal :: "nat list \<Rightarrow> rat \<Rightarrow> nat \<Rightarrow> auto_terminal" where
  "new_auto_terminal shells sl tries = \<lparr>at_shells = shells, at_session = None, at_max_tries = tries,
     at_sleep_between_tries = sl, at_in_verify = False\<rparr>"

text \<open>\<open>initialize\<close> sets everything but the session and the verify flag.\<close>

definition at_initialize :: "nat list \<Rightarrow> rat \<Rightarrow> nat \<Rightarrow> auto_terminal \<Rightarrow> auto_terminal" where
  "at_initialize shells sl tries t =
     t\<lparr>at_shells := shells, at_sleep_between_tries := sl, at_max_tries := tries\<rparr>"

definition set_broken_exceptions :: "(exn \<Rightarrow> bool) \<Rightarrow> 's auto_env \<Rightarrow> 's auto_env" where
  "set_broken_exceptions b v = v\<lparr>av_broken_exceptions := b\<rparr>"

definition set_verify :: "('s, unit) py \<Rightarrow> 's auto_env \<Rightarrow> 's auto_env" where
  "set_verify m v = v\<lparr>av_verify := m\<rparr>"

definition ignoring_exceptions :: "('s, unit) py \<Rightarrow> ('s, unit) py" where
  "ignoring_exceptions m = catching m (\<lambda>e. if is_Exception e then ret () else throw e)"

definition set_at_session :: "'s auto_env \<Rightarrow> nat option \<Rightarrow> ('s, unit) py" where
  "set_at_session v i = modify (av_update v (\<lambda>t. t\<lparr>at_session := i\<rparr>))"

definition at_try_to_finalize :: "'s auto_env \<Rightarrow> ('s, unit) py" where
  "at_try_to_finalize v = ignoring_exceptions (av_finalize v)"

text \<open>
  Finalising may close the session, which leaves \<open>None\<close> to close.
\<close>

definition at_close :: "'s auto_env \<Rightarrow> ('s, unit) py" where
  "at_close v = bnd (gets (\<lambda>s. at_session (av_terminal v s))) (\<lambda>i. case i of
     None \<Rightarrow> ret ()
   | Some _ \<Rightarrow> andthen
       (ignoring_exceptions (andthen (at_try_to_finalize v)
         (bnd (gets (\<lambda>s. at_session (av_terminal v s))) (\<lambda>j. case j of
            None \<Rightarrow> throw AttributeError | Some k \<Rightarrow> av_close_terminal v k))))
       (set_at_session v None))"

definition init_session :: "'s auto_env \<Rightarrow> ('s, unit) py" where
  "init_session v = andthen (at_close v) (bnd (av_new_session v) (\<lambda>i. set_at_session v (Some i)))"

definition on_session :: "'s auto_env \<Rightarrow> (nat \<Rightarrow> ('s, unit) py) \<Rightarrow> ('s, unit) py" where
  "on_session v f = bnd (gets (\<lambda>s. at_session (av_terminal v s))) (\<lambda>i. case i of
     None \<Rightarrow> throw AttributeError | Some k \<Rightarrow> f k)"

definition initialize_terminal_once :: "'s auto_env \<Rightarrow> ('s, unit) py" where
  "initialize_terminal_once v = andthen (init_session v)
     (bnd (gets (\<lambda>s. at_shells (av_terminal v s))) (\<lambda>shells. case shells of
        [] \<Rightarrow> throw IndexError
      | sh # shs \<Rightarrow> andthen (on_session v (\<lambda>i. av_spawn v i sh))
          (andthen (for_each (\<lambda>x. on_session v (\<lambda>i. av_push v i x)) shs) (av_prepare v))))"

text \<open>\<open>_retry\<close>: the exception of the last try is kept for \<open>SessionInitializationFailed\<close>.\<close>

fun retry_tries :: "('s, unit) py \<Rightarrow> ('s, unit) py \<Rightarrow> (exn \<Rightarrow> bool) \<Rightarrow> nat \<Rightarrow> exn option \<Rightarrow> ('s, unit) py" where
  "retry_tries f sl broken 0 le = throw (SessionInitializationFailed le)"
| "retry_tries f sl broken (Suc n) le = (\<lambda>s. case f s of
     None \<Rightarrow> None
   | Some (Inr u, s1) \<Rightarrow> Some (Inr u, s1)
   | Some (Inl e, s1) \<Rightarrow>
       if broken e then seq_outcome (sl s1) (\<lambda>_. retry_tries f sl broken n (Some e))
       else Some (Inl e, s1))"

definition at_retry :: "'s auto_env \<Rightarrow> ('s, unit) py \<Rightarrow> (exn \<Rightarrow> bool) \<Rightarrow> ('s, unit) py" where
  "at_retry v f broken = bnd (gets (av_terminal v)) (\<lambda>t.
     retry_tries f (av_sleep v (at_sleep_between_tries t)) broken (at_max_tries t) None)"

definition initialize_auto_terminal :: "'s auto_env \<Rightarrow> ('s, unit) py" where
  "initialize_auto_terminal v = at_retry v (initialize_terminal_once v) (av_init_broken_exceptions v)"

definition auto_close :: "'s auto_env \<Rightarrow> ('s, 'a) py \<Rightarrow> ('s, 'a) py" where
  "auto_close v m = catching m (\<lambda>e.
     if av_broken_exceptions v e then andthen (at_close v) (throw e) else throw e)"

definition verify_only_once :: "'s auto_env \<Rightarrow> ('s, unit) py" where
  "verify_only_once v = bnd (gets (\<lambda>s. at_in_verify (av_terminal v s))) (\<lambda>b.
     if b then ret ()
     else andthen (modify (av_update v (\<lambda>t. t\<lparr>at_in_verify := True\<rparr>)))
       (finally_do (av_verify v) (modify (av_update v (\<lambda>t. t\<lparr>at_in_verify := False\<rparr>)))))"

definition recover_if_needed :: "'s auto_env \<Rightarrow> ('s, unit) py" where
  "recover_if_needed v = catching (verify_only_once v) (\<lambda>e.
     if av_broken_exceptions v e then andthen (at_close v) (initialize_auto_terminal v) else throw e)"

definition at_initialize_if_needed :: "'s auto_env \<Rightarrow> ('s, unit) py" where
  "at_initialize_if_needed v = bnd (gets (\<lambda>s. at_session (av_terminal v s))) (\<lambda>i.
     if i = None then initialize_auto_terminal v else recover_if_needed v)"

section \<open>AutoRunnerTerminal\<close>

text \<open>
  The session of an \<open>AutoRunnerTerminal\<close> is an \<open>AutoRecoveringTerminal\<close>; one state holds both,
  the proxy used to verify the session and the rest of the world.
\<close>

record auto_runner =
  aw_terminal :: runner_terminal
  aw_session :: "auto_terminal option"
  aw_verify_proxy :: "proxy option"

type_synonym ('w, 'a) auto_op = "(auto_runner \<times> 'w, 'a) py"

definition new_auto_runner :: auto_runner where
  "new_auto_runner = \<lparr>aw_terminal = new_runner_terminal, aw_session = None, aw_verify_proxy = None\<rparr>"

definition on_runner :: "('w, 'a) rt_op \<Rightarrow> ('w, 'a) auto_op" where
  "on_runner m = (\<lambda>(a, w). case m (aw_terminal a, w) of
     None \<Rightarrow> None | Some (r, (t, w')) \<Rightarrow> Some (r, (a\<lparr>aw_terminal := t\<rparr>, w')))"

definition is_session_broken :: "exn \<Rightarrow> bool" where
  "is_session_broken e = (case e of RunnerTerminalSessionBroken x \<Rightarrow> True | _ \<Rightarrow> False)"

text \<open>
  \<open>_setup\<close>: the proxy that verifies the session stands for the remote object \<open>None\<close> and has a
  short time-out; then the proxies of the user are prepared.
\<close>

definition auto_setup :: "rat \<Rightarrow> rat \<Rightarrow> ('w, unit) auto_op \<Rightarrow> ('w, unit) auto_op" where
  "auto_setup default_tmo verify_tmo prepare =
     bnd (on_runner (get_proxy_object default_tmo ''None'')) (\<lambda>p.
       andthen (upd (\<lambda>a. a\<lparr>aw_verify_proxy := Some (p\<lparr>px_timeout := verify_tmo\<rparr>)\<rparr>)) prepare)"

text \<open>\<open>_verify\<close>: evaluating the proxy is \<open>as_local_value\<close>, an argument here.\<close>

definition auto_verify :: "(proxy \<Rightarrow> ('w, unit) auto_op) \<Rightarrow> ('w, unit) auto_op" where
  "auto_verify as_local = bnd (gets (\<lambda>(a, w). aw_verify_proxy a)) (\<lambda>p. case p of
     None \<Rightarrow> throw (RunnerTerminalSessionBroken None) | Some x \<Rightarrow> as_local x)"

definition auto_initialize_if_needed :: "(auto_runner \<times> 'w) auto_env \<Rightarrow> ('w, unit) auto_op" where
  "auto_initialize_if_needed v = bnd (gets (\<lambda>(a, w). aw_session a)) (\<lambda>s.
     if s = None then throw RunnerTerminalSessionClosed else at_initialize_if_needed v)"

definition auto_error_handling :: "(auto_runner \<times> 'w) auto_env \<Rightarrow> ('w, 'a) auto_op \<Rightarrow> ('w, 'a) auto_op" where
  "auto_error_handling v m = bnd (gets (\<lambda>(a, w). aw_session a)) (\<lambda>s.
     if s = None then m else auto_close v m)"

definition close_in_auto_close :: "('w, unit) auto_op \<Rightarrow> ('w, unit) auto_op" where
  "close_in_auto_close finalize = finally_do finalize
     (upd (\<lambda>a. a\<lparr>aw_terminal := (aw_terminal a)\<lparr>rtm_initialized_session := None, rtm_session_id := None\<rparr>\<rparr>))"

text \<open>
  \<open>_set_session_callbacks\<close>: the session prepares itself by setting up the terminal, and only a
  broken session counts as broken.
\<close>

definition set_session_callbacks ::
  "('w, unit) auto_op \<Rightarrow> ('w, unit) auto_op \<Rightarrow> (proxy \<Rightarrow> ('w, unit) auto_op) \<Rightarrow>
   (auto_runner \<times> 'w) auto_env \<Rightarrow> (auto_runner \<times> 'w) auto_env" where
  "set_session_callbacks setup finalize as_local v =
     v\<lparr>av_prepare := setup, av_finalize := close_in_auto_close finalize,
       av_broken_exceptions := is_session_broken, av_verify := auto_verify as_local\<rparr>"

definition auto_initialize :: "auto_terminal \<Rightarrow> ('w, unit) auto_op" where
  "auto_initialize t = upd (\<lambda>a. a\<lparr>aw_session := Some t, aw_terminal := (aw_terminal a)\<lparr>rtm_session := Some 0\<rparr>\<rparr>)"

text \<open>By default the session is opened in three tries, three seconds apart.\<close>

definition auto_initialize_with_shells :: "nat list \<Rightarrow> ('w, unit) auto_op" where
  "auto_initialize_with_shells shells =
     auto_initialize (at_initialize shells 3 3 (new_auto_terminal [] 0 0))"
section \<open>Retrying\<close>

text \<open>
  \<open>counted\<close>: a program of which every run fails, the \<open>k\<close>-th one with \<open>err k\<close>, in a world where
  \<open>c\<close> counts the runs.
\<close>

definition counted :: "('s \<Rightarrow> nat) \<Rightarrow> (nat \<Rightarrow> exn) \<Rightarrow> ('s, unit) py \<Rightarrow> bool" where
  "counted c err f \<longleftrightarrow> (\<forall>s. \<exists>s'. f s = Some (Inl (err (c s)), s') \<and> c s' = Suc (c s))"

definition uncounted :: "('s \<Rightarrow> nat) \<Rightarrow> ('s, unit) py \<Rightarrow> bool" where
  "uncounted c m \<longleftrightarrow> (\<forall>s. \<exists>s'. m s = Some (Inr (), s') \<and> c s' = c s)"

text \<open>
  C27: opening the session is tried exactly as often as \<open>max_tries\<close> says when every try breaks, and the
  exception of the last try is the one that is reported; no try at all reports none. A try
  that fails otherwise ends the retrying at once.
\<close>

theorem retry_runs_max_tries:
  assumes "counted c err f" "uncounted c sl"
  shows "if \<forall>k < n. broken (err (c s + k))
    then \<exists>s'. retry_tries f sl broken n le s =
        Some (Inl (SessionInitializationFailed (if n = 0 then le else Some (err (c s + n - 1)))), s') \<and> c s' = c s + n
    else \<exists>s' k. k < n \<and> \<not> broken (err (c s + k)) \<and>
      retry_tries f sl broken n le s = Some (Inl (err (c s + k)), s') \<and> c s' = Suc (c s + k)"
proof (induction n arbitrary: s le)
  case 0
  show ?case by simp
next
  case (Suc n)
  obtain s1 where s1: "f s = Some (Inl (err (c s)), s1)" "c s1 = Suc (c s)"
    using assms(1) unfolding counted_def by blast
  obtain s2 where s2: "sl s1 = Some (Inr (), s2)" "c s2 = Suc (c s)"
    using assms(2) s1(2) unfolding uncounted_def by metis
  show ?case
  proof (cases "broken (err (c s))")
    case False
    then show ?thesis using s1 by fastforce
  next
    case True
    have all: "(\<forall>k < Suc n. broken (err (c s + k))) \<longleftrightarrow> (\<forall>k < n. broken (err (c s2 + k)))"
      using True s2(2) by (auto simp: less_Suc_eq_0_disj)
    have step: "retry_tries f sl broken (Suc n) le s = retry_tries f sl broken n (Some (err (c s))) s2"
      using True s1 s2 by simp
    show ?thesis
    proof (cases "\<forall>k < n. broken (err (c s2 + k))")
      case t: True
      then show ?thesis
        using Suc.IH [of s2 "Some (err (c s))"] all step s2(2) by (cases n) auto
    next
      case f: False
      then obtain s' k where "k < n" "\<not> broken (err (c s2 + k))"
        "retry_tries f sl broken n (Some (err (c s))) s2 = Some (Inl (err (c s2 + k)), s')" "c s' = Suc (c s2 + k)"
        using Suc.IH [of s2 "Some (err (c s))", unfolded if_not_P [OF f]] by blast
      then have "Suc k < Suc n \<and> \<not> broken (err (c s + Suc k)) \<and>
        retry_tries f sl broken (Suc n) le s = Some (Inl (err (c s + Suc k)), s') \<and> c s' = Suc (c s + Suc k)"
        using step s2(2) by simp
      then show ?thesis using f all by (simp only: if_False) blast
    qed
  qed
qed

lemma retry_runs_max_tries_witness:
  "\<exists>s'. retry_tries (\<lambda>k. Some (Inl (OSError (int k)), Suc k)) (ret ()) is_Exception 3 None 0 =
    Some (Inl (SessionInitializationFailed (Some (OSError 2))), s') \<and> s' = 3"
  using retry_runs_max_tries [of "\<lambda>k. k" "\<lambda>k. OSError (int k)" "\<lambda>k. Some (Inl (OSError (int k)), Suc k)" "ret ()"
      3 is_Exception 0 None]
  by (simp add: counted_def uncounted_def is_Exception_def)

section \<open>The state of the session\<close>

text \<open>
  What may be relied on: an update of the terminal is an update, and the callbacks and the calls
  to the shells leave the fields of the terminal alone; the callbacks may drop the session
  when they fail.
\<close>

definition same_at :: "'s auto_env \<Rightarrow> 's \<Rightarrow> 's \<Rightarrow> bool" where
  "same_at v s s' \<longleftrightarrow> av_terminal v s' = av_terminal v s"

definition lenient :: "'s auto_env \<Rightarrow> ('s, unit) py \<Rightarrow> bool" where
  "lenient v m \<longleftrightarrow> (\<forall>s r s'. m s = Some (r, s') \<longrightarrow>
     av_terminal v s' = av_terminal v s \<or>
     (\<exists>e. r = Inl e) \<and> av_terminal v s' = av_terminal v s\<lparr>at_session := None\<rparr>)"

definition auto_laws :: "'s auto_env \<Rightarrow> bool" where
  "auto_laws v \<longleftrightarrow> (\<forall>f s. av_terminal v (av_update v f s) = f (av_terminal v s)) \<and>
     keeps (same_at v) (av_new_session v) \<and> (\<forall>i x. keeps (same_at v) (av_spawn v i x)) \<and>
     (\<forall>i x. keeps (same_at v) (av_push v i x)) \<and> (\<forall>i. keeps (same_at v) (av_close_terminal v i)) \<and>
     (\<forall>d. keeps (same_at v) (av_sleep v d)) \<and> lenient v (av_prepare v) \<and> lenient v (av_verify v) \<and>
     (\<forall>s r s'. av_finalize v s = Some (r, s') \<longrightarrow> av_terminal v s' = av_terminal v s \<or>
        av_terminal v s' = av_terminal v s\<lparr>at_session := None\<rparr>)"

text \<open>\<open>flag_kept\<close>: everything but the session is as before.\<close>

definition flag_kept :: "'s auto_env \<Rightarrow> 's \<Rightarrow> 's \<Rightarrow> bool" where
  "flag_kept v s s' \<longleftrightarrow> (av_terminal v s')\<lparr>at_session := None\<rparr> = (av_terminal v s)\<lparr>at_session := None\<rparr>"

interpretation fk: step_relation "flag_kept v" for v
  by unfold_locales (auto simp: flag_kept_def)

lemma same_at_flag: "keeps (same_at v) m \<Longrightarrow> keeps (flag_kept v) m"
  by (auto simp: keeps_def same_at_def flag_kept_def)

lemma lenient_flag: "lenient v m \<Longrightarrow> keeps (flag_kept v) m"
  unfolding keeps_def lenient_def flag_kept_def by (metis auto_terminal.cases_scheme auto_terminal.update_convs(2))

lemma flag_calls:
  assumes "auto_laws v"
  shows "keeps (flag_kept v) (av_new_session v)" "keeps (flag_kept v) (av_spawn v i x)" "keeps (flag_kept v) (av_push v i x)"
    "keeps (flag_kept v) (av_close_terminal v i)" "keeps (flag_kept v) (av_sleep v d)" "keeps (flag_kept v) (av_prepare v)"
    "keeps (flag_kept v) (av_finalize v)" "keeps (flag_kept v) (set_at_session v j)"
proof -
  note l = assms [unfolded auto_laws_def]
  show "keeps (flag_kept v) (av_finalize v)"
    unfolding keeps_def flag_kept_def
  proof (intro allI impI)
    fix s r s' assume "av_finalize v s = Some (r, s')"
    then have "av_terminal v s' = av_terminal v s \<or> av_terminal v s' = av_terminal v s\<lparr>at_session := None\<rparr>"
      using l by blast
    then show "(av_terminal v s')\<lparr>at_session := None\<rparr> = (av_terminal v s)\<lparr>at_session := None\<rparr>" by auto
  qed
  show "keeps (flag_kept v) (set_at_session v j)"
    using l by (simp add: set_at_session_def keeps_def flag_kept_def)
qed (use assms in \<open>auto simp: auto_laws_def intro: same_at_flag lenient_flag\<close>)

lemma flag_close: "auto_laws v \<Longrightarrow> keeps (flag_kept v) (at_close v)"
  unfolding at_close_def at_try_to_finalize_def ignoring_exceptions_def
  by (intro fk.keeps_bnd fk.keeps_simple keeps_case_option fk.keeps_andthen fk.keeps_catching keeps_if flag_calls)

lemma flag_once: "auto_laws v \<Longrightarrow> keeps (flag_kept v) (initialize_terminal_once v)"
  unfolding initialize_terminal_once_def init_session_def on_session_def
  by (intro fk.keeps_andthen fk.keeps_bnd flag_close flag_calls fk.keeps_simple)
    (auto split: list.split intro!: fk.keeps_andthen fk.keeps_bnd fk.keeps_simple keeps_case_option fk.keeps_for_each flag_calls)

lemma flag_retry: "keeps (flag_kept v) f \<Longrightarrow> keeps (flag_kept v) sl \<Longrightarrow> keeps (flag_kept v) (retry_tries f sl broken n le)"
proof (induction n arbitrary: le)
  case 0
  show ?case unfolding retry_tries.simps by (rule fk.keeps_simple)
next
  case (Suc n)
  have e: "retry_tries f sl broken (Suc n) le = catching f (\<lambda>e. if broken e
      then andthen sl (retry_tries f sl broken n (Some e)) else throw e)"
    by (rule ext) (simp add: catch_outcome_def split: option.split sum.split)
  show ?case unfolding e by (intro fk.keeps_catching keeps_if fk.keeps_andthen fk.keeps_simple Suc)
qed

lemma flag_initialize: "auto_laws v \<Longrightarrow> keeps (flag_kept v) (initialize_auto_terminal v)"
  unfolding initialize_auto_terminal_def at_retry_def
  by (intro fk.keeps_bnd fk.keeps_simple flag_retry flag_once flag_calls)

lemma flag_verify:
  assumes l: "auto_laws v"
  shows "keeps (flag_kept v) (verify_only_once v)"
proof (rule keeps_gen)
  fix s r s' assume e: "verify_only_once v s = Some (r, s')"
  have u: "av_terminal v (av_update v f s) = f (av_terminal v s)" for f s
    using l by (simp add: auto_laws_def)
  show "flag_kept v s s'"
  proof (cases "at_in_verify (av_terminal v s)")
    case True
    then show ?thesis using e by (simp add: verify_only_once_def fk.R_refl)
  next
    case False
    let ?s = "av_update v (\<lambda>t. t\<lparr>at_in_verify := True\<rparr>) s"
    obtain x t where t: "av_verify v ?s = Some (x, t)" and s': "s' = av_update v (\<lambda>t. t\<lparr>at_in_verify := False\<rparr>) t"
      using e False by (auto simp: verify_only_once_def elim!: finally_do_cases)
    have "keeps (flag_kept v) (av_verify v)" using l by (simp add: auto_laws_def lenient_flag)
    then have "flag_kept v ?s t" using t by (rule keepsD)
    then have "(av_terminal v t)\<lparr>at_session := None\<rparr>\<lparr>at_in_verify := False\<rparr> =
        (av_terminal v s)\<lparr>at_in_verify := True\<rparr>\<lparr>at_session := None\<rparr>\<lparr>at_in_verify := False\<rparr>"
      by (simp add: flag_kept_def u)
    then show ?thesis
      using False by (cases "av_terminal v s"; cases "av_terminal v t") (simp add: flag_kept_def u s')
  qed
qed

text \<open>A successful opening leaves a session.\<close>

definition opens :: "'s auto_env \<Rightarrow> ('s, unit) py \<Rightarrow> bool" where
  "opens v m \<longleftrightarrow> (\<forall>s s'. m s = Some (Inr (), s') \<longrightarrow> at_session (av_terminal v s') \<noteq> None)"

lemma on_session_result:
  assumes "\<And>i. keeps (same_at v) (f i)" "on_session v f s = Some (Inr (), s')"
  shows "at_session (av_terminal v s') = at_session (av_terminal v s) \<and> at_session (av_terminal v s) \<noteq> None"
proof (cases "at_session (av_terminal v s)")
  case None
  then show ?thesis using assms(2) by (simp add: on_session_def)
next
  case (Some k)
  then have "f k s = Some (Inr (), s')" using assms(2) by (simp add: on_session_def)
  from keepsD [OF assms(1) this] show ?thesis using Some by (simp add: same_at_def)
qed

lemma pushes_result:
  assumes l: "auto_laws v"
    and "for_each (\<lambda>x. on_session v (\<lambda>i. av_push v i x)) xs s = Some (Inr (), s')" "at_session (av_terminal v s) \<noteq> None"
  shows "at_session (av_terminal v s') \<noteq> None"
  using assms(2,3)
proof (induction xs arbitrary: s)
  case Nil
  then show ?case by simp
next
  case (Cons x xs)
  then obtain t where t: "on_session v (\<lambda>i. av_push v i x) s = Some (Inr (), t)"
    "for_each (\<lambda>x. on_session v (\<lambda>i. av_push v i x)) xs t = Some (Inr (), s')"
    by (auto simp: seq_outcome_Inr_iff)
  have "keeps (same_at v) (av_push v i x)" for i using l by (simp add: auto_laws_def)
  from on_session_result [where f = "\<lambda>i. av_push v i x", OF this t(1)] show ?case using Cons.IH [OF t(2)] by simp
qed

lemma once_opens:
  assumes l: "auto_laws v"
  shows "opens v (initialize_terminal_once v)"
  unfolding opens_def
proof (intro allI impI)
  fix s s' assume e: "initialize_terminal_once v s = Some (Inr (), s')"
  obtain t where t0: "init_session v s = Some (Inr (), t)"
    using e by (auto simp: initialize_terminal_once_def seq_outcome_Inr_iff)
  then obtain sh shs where shells: "at_shells (av_terminal v t) = sh # shs"
    using e by (cases "at_shells (av_terminal v t)") (simp_all add: initialize_terminal_once_def)
  then obtain t1 t2 where t: "on_session v (\<lambda>i. av_spawn v i sh) t = Some (Inr (), t1)"
    "for_each (\<lambda>x. on_session v (\<lambda>i. av_push v i x)) shs t1 = Some (Inr (), t2)" "av_prepare v t2 = Some (Inr (), s')"
    using e t0 by (auto simp: initialize_terminal_once_def seq_outcome_Inr_iff)
  have "keeps (same_at v) (av_spawn v i sh)" for i using l by (simp add: auto_laws_def)
  from on_session_result [where f = "\<lambda>i. av_spawn v i sh", OF this t(1)]
  have "at_session (av_terminal v t2) \<noteq> None" using pushes_result [OF l t(2)] by simp
  moreover have "av_terminal v s' = av_terminal v t2"
    using l t(3) unfolding auto_laws_def lenient_def by blast
  ultimately show "at_session (av_terminal v s') \<noteq> None" by simp
qed

lemma retry_opens: "opens v f \<Longrightarrow> opens v (retry_tries f sl broken n le)"
proof (induction n arbitrary: le)
  case 0
  show ?case by (simp add: opens_def)
next
  case (Suc n)
  then show ?case
    by (fastforce simp: opens_def seq_outcome_Inr_iff split: option.splits sum.splits if_splits)
qed

lemma verify_keeps_session:
  assumes l: "auto_laws v" and e: "verify_only_once v s = Some (Inr (), s')"
  shows "at_session (av_terminal v s') = at_session (av_terminal v s)"
proof (cases "at_in_verify (av_terminal v s)")
  case True
  then show ?thesis using e by (simp add: verify_only_once_def)
next
  case False
  have u: "av_terminal v (av_update v f s) = f (av_terminal v s)" for f s
    using l by (simp add: auto_laws_def)
  let ?s = "av_update v (\<lambda>t. t\<lparr>at_in_verify := True\<rparr>) s"
  obtain t where t: "av_verify v ?s = Some (Inr (), t)" and s': "s' = av_update v (\<lambda>t. t\<lparr>at_in_verify := False\<rparr>) t"
    using e False by (auto simp: verify_only_once_def elim!: finally_do_cases)
  have "av_terminal v t = av_terminal v ?s" using l t unfolding auto_laws_def lenient_def by blast
  then show ?thesis by (simp add: u s')
qed

text \<open>
  C14: \<open>initialize_if_needed\<close> returns only with an open session, whether the session was there, was
  verified, or had to be closed and opened again; and whether it returns or raises, the
  terminal is otherwise as it was: in particular the flag that keeps the verification from
  calling itself is never left set.
\<close>

theorem initialized_has_session:
  assumes "auto_laws v" "at_initialize_if_needed v s = Some (r, s')"
  shows "(r = Inr () \<longrightarrow> at_session (av_terminal v s') \<noteq> None) \<and>
    (av_terminal v s')\<lparr>at_session := None\<rparr> = (av_terminal v s)\<lparr>at_session := None\<rparr>"
proof
  have o: "opens v (initialize_auto_terminal v)"
    using retry_opens [OF once_opens [OF assms(1)]]
    by (simp add: opens_def initialize_auto_terminal_def at_retry_def)
  show "r = Inr () \<longrightarrow> at_session (av_terminal v s') \<noteq> None"
  proof
    assume r: "r = Inr ()"
    show "at_session (av_terminal v s') \<noteq> None"
    proof (cases "at_session (av_terminal v s) = None")
      case True
      then show ?thesis using assms(2) r o by (simp add: at_initialize_if_needed_def opens_def)
    next
      case False
      then obtain i where "at_session (av_terminal v s) = Some i" by blast
      then have "recover_if_needed v s = Some (Inr (), s')" using assms(2) r by (simp add: at_initialize_if_needed_def)
      then consider "verify_only_once v s = Some (Inr (), s')" | t where "initialize_auto_terminal v t = Some (Inr (), s')"
        by (auto simp: recover_if_needed_def seq_outcome_Inr_iff elim!: catch_outcome_cases split: if_splits)
      then show ?thesis
        using verify_keeps_session [OF assms(1)] False o unfolding opens_def by cases auto
    qed
  qed
  have "keeps (flag_kept v) (at_initialize_if_needed v)"
    unfolding at_initialize_if_needed_def recover_if_needed_def
    by (intro fk.keeps_bnd fk.keeps_simple keeps_if fk.keeps_catching fk.keeps_andthen flag_initialize flag_verify
        flag_close assms(1))
  from keepsD [OF this assms(2)]
  show "(av_terminal v s')\<lparr>at_session := None\<rparr> = (av_terminal v s)\<lparr>at_session := None\<rparr>"
    by (simp add: flag_kept_def)
qed

text \<open>A terminal of one shell that nothing disturbs.\<close>

definition demo_auto :: "auto_terminal auto_env" where
  "demo_auto = \<lparr>av_terminal = \<lambda>t. t, av_update = \<lambda>f. f, av_new_session = ret 4, av_spawn = \<lambda>_ _. ret (),
     av_push = \<lambda>_ _. ret (), av_close_terminal = \<lambda>_. ret (), av_sleep = \<lambda>_. ret (), av_prepare = ret (),
     av_finalize = ret (), av_verify = ret (), av_broken_exceptions = is_session_broken,
     av_init_broken_exceptions = is_Exception\<rparr>"

lemma initialized_has_session_witness:
  "\<exists>s'. at_initialize_if_needed demo_auto (new_auto_terminal [7] 3 3) = Some (Inr (), s') \<and> at_session s' \<noteq> None"
proof -
  have l: "auto_laws demo_auto"
    by (simp add: auto_laws_def demo_auto_def lenient_def keeps_def same_at_def)
  have "\<exists>s'. at_initialize_if_needed demo_auto (new_auto_terminal [7] 3 3) = Some (Inr (), s')"
    by (simp add: at_initialize_if_needed_def demo_auto_def new_auto_terminal_def initialize_auto_terminal_def at_retry_def
        numeral_3_eq_3 initialize_terminal_once_def init_session_def at_close_def set_at_session_def on_session_def)
  then show ?thesis using initialized_has_session [OF l] by (auto simp: demo_auto_def)
qed

end
