(* ===== verification/FileCopier.thy ===== *)
theory FileCopier
  imports RunnerHandler ChunkComm
begin

text \<open>
  \<open>_filecopier.py\<close>: files of the local and the remote host, the proxy of an open remote file
  that reads and writes through the raw terminal, and the copying of files and directories. The
  operating system at either end and the terminal are programs; the path functions of POSIX are
  written out.
\<close>

section \<open>Paths and modes\<close>

text \<open>\<open>os.path\<close> on POSIX systems.\<close>

fun path_join :: "string \<Rightarrow> string list \<Rightarrow> string" where
  "path_join p [] = p"
| "path_join p (q # qs) = path_join
     (if take 1 q = ''/'' then q
      else if p = [] \<or> last p = CHR ''/'' then p @ q else p @ ''/'' @ q) qs"

definition path_dirname :: "string \<Rightarrow> string" where
  "path_dirname p = (let h = rev (dropWhile (\<lambda>c. c \<noteq> CHR ''/'') (rev p)) in
     if \<forall>c \<in> set h. c = CHR ''/'' then h else rev (dropWhile (\<lambda>c. c = CHR ''/'') (rev h)))"

text \<open>
  \<open>int(mode, 8)\<close>: surrounding white space, a sign, the prefix \<open>0o\<close> and single underscores
  between digits are accepted.
\<close>

fun octal_value :: "nat \<Rightarrow> bool \<Rightarrow> string \<Rightarrow> nat option" where
  "octal_value n d [] = (if d then Some n else None)"
| "octal_value n d (c # cs) =
     (if c = CHR ''_'' then (if d then octal_value n False cs else None)
      else case char_digit c of None \<Rightarrow> None
        | Some k \<Rightarrow> if k < 8 then octal_value (8 * n + k) True cs else None)"

definition octal_body :: "string \<Rightarrow> string" where
  "octal_body s = (if take 2 s = ''0o'' \<or> take 2 s = ''0O'' then
     (if take 1 (drop 2 s) = ''_'' then drop 3 s else drop 2 s) else s)"

definition int8 :: "string \<Rightarrow> exn + int" where
  "int8 s = (let t = py_strip s; neg = (take 1 t = ''-'');
       u = (if neg \<or> take 1 t = ''+'' then drop 1 t else t)
     in case octal_value 0 False (octal_body u) of
        None \<Rightarrow> Inl ValueError
      | Some n \<Rightarrow> Inr (if neg then - int n else int n))"

section \<open>Files\<close>

text \<open>
  The operating system a file lives in. \<open>os_stat_is_dir\<close> is \<open>os.stat\<close> followed by
  \<open>S_ISDIR\<close>; an open file is a handle. \<open>os_new\<close> is what creating the file object does first:
  nothing for a local file, the initialisation of the terminal for a remote one.
\<close>

record 'w file_os =
  os_new :: "('w, unit) py"
  os_join :: "string \<Rightarrow> string list \<Rightarrow> ('w, string) py"
  os_basename :: "string \<Rightarrow> ('w, string) py"
  os_dirname :: "string \<Rightarrow> ('w, string) py"
  os_makedirs :: "string \<Rightarrow> ('w, unit) py"
  os_chmod :: "string \<Rightarrow> int \<Rightarrow> ('w, unit) py"
  os_stat_is_dir :: "string \<Rightarrow> ('w, bool) py"
  os_open :: "string \<Rightarrow> string \<Rightarrow> ('w, nat) py"
  os_read :: "nat \<Rightarrow> nat \<Rightarrow> ('w, bytes) py"
  os_write :: "nat \<Rightarrow> bytes \<Rightarrow> ('w, unit) py"
  os_close :: "nat \<Rightarrow> ('w, unit) py"

text \<open>
  The classes: \<open>_LocalFile\<close> and \<open>_RemoteFile\<close> differ only in the operating system;
  \<open>CopyDirFile\<close> carries the parts of \<open>_CopyDirRemoteFile\<close>.
\<close>

datatype file_kind = PlainFile | ScriptFile | DirFile | CopyDirFile "string list"

record file_obj =
  fo_kind :: file_kind
  fo_destination :: "string option"
  fo_source_file :: "string option"
  fo_handle :: "nat option"
  fo_filename :: "string option"

type_synonym ('w, 'a) file_op = "(file_obj \<times> 'w, 'a) py"

definition new_file :: "file_kind \<Rightarrow> string option \<Rightarrow> string option \<Rightarrow> file_obj" where
  "new_file k d s = \<lparr>fo_kind = k,
     fo_destination = (if k = ScriptFile \<and> d = None then Some [] else d),
     fo_source_file = s, fo_handle = None, fo_filename = None\<rparr>"

definition given :: "'a option \<Rightarrow> ('s, 'a) py" where
  "given x = (case x of None \<Rightarrow> throw TypeError | Some a \<Rightarrow> ret a)"

definition is_existing_directory :: "'w file_os \<Rightarrow> string \<Rightarrow> ('w, bool) py" where
  "is_existing_directory os p = catching (os_stat_is_dir os p)
     (\<lambda>e. if e = OSError 2 then ret False else throw e)"

definition is_directory :: "'w file_os \<Rightarrow> string \<Rightarrow> ('w, bool) py" where
  "is_directory os p = bnd (os_basename os p) (\<lambda>b.
     if b = [] then ret True else is_existing_directory os p)"

definition filename_with_source_file :: "'w file_os \<Rightarrow> string option \<Rightarrow> string \<Rightarrow> ('w, string) py" where
  "filename_with_source_file os dest src =
     bnd (case dest of Some (c # cs) \<Rightarrow> ret (c # cs) | _ \<Rightarrow> os_join os ''.'' [''''])
       (\<lambda>d. bnd (is_directory os d) (\<lambda>b.
          if b then bnd (os_basename os src) (\<lambda>n. os_join os d [n]) else ret d))"

text \<open>\<open>_set_filename\<close> of the classes; \<open>None\<close> cannot be joined.\<close>

definition filename_of :: "'w file_os \<Rightarrow> file_obj \<Rightarrow> ('w, string option) py" where
  "filename_of os f = (case fo_kind f of
     ScriptFile \<Rightarrow> bnd (given (fo_destination f)) (\<lambda>d. bnd (given (fo_source_file f)) (\<lambda>s.
       bnd (os_join os d [s]) (\<lambda>n. ret (Some n))))
   | CopyDirFile parts \<Rightarrow> bnd (given (fo_destination f)) (\<lambda>d.
       bnd (os_join os d parts) (\<lambda>n. ret (Some n)))
   | _ \<Rightarrow> (case fo_source_file f of
       None \<Rightarrow> ret (fo_destination f)
     | Some s \<Rightarrow> bnd (filename_with_source_file os (fo_destination f) s) (\<lambda>n. ret (Some n))))"

definition file_name :: "'w file_os \<Rightarrow> ('w, string) file_op" where
  "file_name os = andthen
     (bnd (gets fst) (\<lambda>f. if fo_filename f = None
        then bnd (in_world (filename_of os f)) (\<lambda>n. upd (\<lambda>f. f\<lparr>fo_filename := n\<rparr>)) else ret ()))
     (bnd (gets (\<lambda>(f, w). fo_filename f)) given)"

definition makedirs_with_mode :: "'w file_os \<Rightarrow> string \<Rightarrow> int option \<Rightarrow> ('w, unit) py" where
  "makedirs_with_mode os p mode = andthen (os_makedirs os p)
     (case mode of None \<Rightarrow> ret () | Some m \<Rightarrow> os_chmod os p m)"

definition mode_value :: "string option \<Rightarrow> exn + int option" where
  "mode_value mode = (case mode of None \<Rightarrow> Inr None | Some m \<Rightarrow> map_sum id Some (int8 m))"

text \<open>\<open>makedirs\<close> of the classes: the directory of the file, or the file as a directory.\<close>

definition file_makedirs :: "'w file_os \<Rightarrow> string option \<Rightarrow> ('w, unit) file_op" where
  "file_makedirs os mode = bnd (gets fst) (\<lambda>f. case fo_kind f of
     DirFile \<Rightarrow> bnd (of_sum (mode_value mode)) (\<lambda>m. bnd (given (fo_destination f)) (\<lambda>d.
       in_world (makedirs_with_mode os d m)))
   | CopyDirFile _ \<Rightarrow> bnd (file_name os) (\<lambda>n. bnd (of_sum (mode_value mode)) (\<lambda>m.
       in_world (makedirs_with_mode os n m)))
   | _ \<Rightarrow> bnd (file_name os) (\<lambda>n. bnd (in_world (os_dirname os n)) (\<lambda>d.
       if d = [] then ret ()
       else bnd (of_sum (mode_value mode)) (\<lambda>m. in_world (makedirs_with_mode os d m)))))"

text \<open>\<open>errno.EEXIST\<close> is 17.\<close>

definition makedirs_if_needed :: "'w file_os \<Rightarrow> string option \<Rightarrow> ('w, unit) file_op" where
  "makedirs_if_needed os mode = catching (file_makedirs os mode)
     (\<lambda>e. if e = OSError 17 then ret () else throw e)"

definition file_chmod :: "'w file_os \<Rightarrow> string \<Rightarrow> ('w, unit) file_op" where
  "file_chmod os mode = bnd (file_name os) (\<lambda>n.
     bnd (of_sum (int8 mode)) (\<lambda>m. in_world (os_chmod os n m)))"

definition file_open :: "'w file_os \<Rightarrow> string \<Rightarrow> ('w, nat) file_op" where
  "file_open os options = bnd (file_name os) (\<lambda>n.
     bnd (in_world (os_open os n options)) (\<lambda>h.
       andthen (upd (\<lambda>f. f\<lparr>fo_handle := Some h\<rparr>)) (ret h)))"

definition file_close :: "'w file_os \<Rightarrow> ('w, unit) file_op" where
  "file_close os = bnd (gets (\<lambda>(f, w). fo_handle f)) (\<lambda>h. case h of
     None \<Rightarrow> ret ()
   | Some k \<Rightarrow> andthen (in_world (os_close os k)) (upd (\<lambda>f. f\<lparr>fo_handle := None\<rparr>)))"

section \<open>Copying\<close>

definition BUFFER_SIZE :: nat where
  "BUFFER_SIZE = 4092"

text \<open>Reading ends with the first empty block.\<close>

partial_function (option) copy_blocks ::
  "(nat \<Rightarrow> ('w, bytes) py) \<Rightarrow> (bytes \<Rightarrow> ('w, unit) py) \<Rightarrow> 'w \<Rightarrow> ((exn + unit) \<times> 'w) option" where
  "copy_blocks rd wr w = seq_outcome (rd BUFFER_SIZE w) (\<lambda>b w1.
     if b = [] then Some (Inr (), w1)
     else seq_outcome (wr b w1) (\<lambda>_ w2. copy_blocks rd wr w2))"

text \<open>The source, the target and the world; each \<open>with\<close> closes its file.\<close>

definition on_source :: "('w, 'a) file_op \<Rightarrow> (file_obj \<times> file_obj \<times> 'w, 'a) py" where
  "on_source m = (\<lambda>(f, g, w). case m (f, w) of
     None \<Rightarrow> None | Some (r, (f', w')) \<Rightarrow> Some (r, (f', g, w')))"

definition on_target :: "('w, 'a) file_op \<Rightarrow> (file_obj \<times> file_obj \<times> 'w, 'a) py" where
  "on_target m = in_world m"

definition copy_file_no_dir_create ::
  "'w file_os \<Rightarrow> 'w file_os \<Rightarrow> string option \<Rightarrow> (file_obj \<times> file_obj \<times> 'w, unit) py" where
  "copy_file_no_dir_create sos tos mode = andthen
     (finally_do
       (bnd (on_source (file_open sos ''rb'')) (\<lambda>r.
          finally_do
            (bnd (on_target (file_open tos ''wb'')) (\<lambda>t.
               in_world (in_world (copy_blocks (os_read sos r) (os_write tos t)))))
            (on_target (file_close tos))))
       (on_source (file_close sos)))
     (case mode of None \<Rightarrow> ret () | Some m \<Rightarrow> on_target (file_chmod tos m))"

definition copy_file ::
  "'w file_os \<Rightarrow> 'w file_os \<Rightarrow> string option \<Rightarrow> (file_obj \<times> file_obj \<times> 'w, unit) py" where
  "copy_file sos tos mode =
     andthen (on_target (makedirs_if_needed tos mode)) (copy_file_no_dir_create sos tos mode)"

text \<open>
  A file object created for one purpose and forgotten afterwards; creating a remote one
  initialises its terminal.
\<close>

definition forget_file :: "'p \<Rightarrow> (exn + 'a) \<times> 'f \<times> 'w \<Rightarrow> (exn + 'a) \<times> 'p \<times> 'w" where
  "forget_file t x = (fst x, t, snd (snd x))"

definition nested_file :: "'f \<Rightarrow> ('f \<times> 'w, 'a) py \<Rightarrow> ('p \<times> 'w, 'a) py" where
  "nested_file f m = (\<lambda>(t, w). Option.bind (m (f, w)) (\<lambda>x. Some (forget_file t x)))"

definition with_new_file :: "'w file_os \<Rightarrow> file_obj \<Rightarrow> ('w, 'a) file_op \<Rightarrow> ('p \<times> 'w, 'a) py" where
  "with_new_file os f m = andthen (in_world (os_new os)) (nested_file f m)"

lemma mono_nested_file [partial_function_mono]:
  assumes "\<And>s. mono_option (\<lambda>g. m g s)"
  shows "mono_option (\<lambda>g. nested_file f (m g) x)"
proof (cases x)
  case (Pair t w)
  have "mono_option (\<lambda>g. Option.bind (m g (f, w)) (\<lambda>x. Some (forget_file t x)))"
    by (rule bind_mono [OF assms]) (simp add: monotone_def option.leq_refl)
  then show ?thesis by (simp add: nested_file_def Pair)
qed

section \<open>Directories\<close>

text \<open>
  \<open>next(os.walk(dir))\<close> is an argument: the names of the directories and of the files, or
  \<open>StopIteration\<close> when the directory cannot be listed. A target is the target directory with
  the parts appended so far.
\<close>

definition append_part :: "string \<Rightarrow> file_obj \<Rightarrow> file_obj" where
  "append_part p f = new_file (CopyDirFile ((case fo_kind f of CopyDirFile ps \<Rightarrow> ps | _ \<Rightarrow> []) @ [p]))
     (fo_destination f) None"

definition copy_new_files ::
  "'w file_os \<Rightarrow> 'w file_os \<Rightarrow> string option \<Rightarrow> file_obj \<Rightarrow> file_obj \<Rightarrow> bool \<Rightarrow> ('p \<times> 'w, unit) py" where
  "copy_new_files sos tos mode src tgt make_dirs =
     andthen (in_world (os_new sos)) (andthen (in_world (os_new tos)) (\<lambda>(p, w).
       Option.bind ((if make_dirs then copy_file else copy_file_no_dir_create) sos tos mode (src, tgt, w))
         (\<lambda>x. Some (fst x, p, snd (snd (snd x))))))"

definition copy_one_file :: "'w file_os \<Rightarrow> 'w file_os \<Rightarrow> string \<Rightarrow> string \<Rightarrow> string \<Rightarrow> ('w, unit) file_op" where
  "copy_one_file sos tos mode dir f = bnd (gets fst) (\<lambda>tgt.
     copy_new_files sos tos (Some mode) (new_file PlainFile (Some (path_join dir [f])) None) (append_part f tgt) False)"

partial_function (option) copy_directory ::
  "'w file_os \<Rightarrow> 'w file_os \<Rightarrow> (string \<Rightarrow> ('w, string list \<times> string list) py) \<Rightarrow> string \<Rightarrow>
   string \<times> file_obj \<times> 'w \<Rightarrow> ((exn + unit) \<times> file_obj \<times> 'w) option" where
  "copy_directory sos tos walk mode x = (case x of (dir, tgt, w) \<Rightarrow>
     catch_outcome
       (seq_outcome (in_world (walk dir) (tgt, w)) (\<lambda>lst s1.
          seq_outcome (for_each (copy_one_file sos tos mode dir) (snd lst) s1) (\<lambda>_ s2.
            seq_outcome (for_each (\<lambda>d s. seq_outcome (in_world (os_new tos) s) (\<lambda>_.
                nested_file (append_part d tgt) (\<lambda>s. seq_outcome (makedirs_if_needed tos (Some ''0o777'') s)
                  (\<lambda>_ s'. copy_directory sos tos walk mode (path_join dir [d], s'))))) (fst lst) s2) (\<lambda>_.
              file_chmod tos mode))))
       (\<lambda>e s. if e = StopIteration then Some (Inr (), s) else Some (Inl e, s)))"

definition copy_directory_to_target ::
  "'w file_os \<Rightarrow> 'w file_os \<Rightarrow> (string \<Rightarrow> ('w, string list \<times> string list) py) \<Rightarrow> string \<Rightarrow>
   string \<Rightarrow> string \<Rightarrow> (unit \<times> 'w, unit) py" where
  "copy_directory_to_target sos tos walk mode source_dir target_dir =
     with_new_file tos (new_file (CopyDirFile []) (Some target_dir) None)
       (andthen (makedirs_if_needed tos (Some ''0o777''))
         (\<lambda>s. copy_directory sos tos walk mode (source_dir, s)))"

section \<open>An open remote file\<close>

text \<open>
  The proxy talks to the \<open>FileHandle\<close> of the other end through the terminal of the session.
\<close>

record 'w file_proxy =
  fp_handle_name :: "('w, string) py"
  fp_send_command :: "string \<Rightarrow> ('w, unit) py"
  fp_read_nonblocking :: "nat \<Rightarrow> ('w, bytes) py"
  fp_expect :: "bytes \<Rightarrow> ('w, unit) py"
  fp_send :: "bytes \<Rightarrow> ('w, unit) py"
  fp_before :: "('w, bytes option) py"
  fp_get_prompt :: "rat \<Rightarrow> ('w, unit) py"
  fp_close_remote :: "('w, unit) py"

definition timeouthandling :: "'w file_proxy \<Rightarrow> ('w, 'a) py \<Rightarrow> ('w, 'a) py" where
  "timeouthandling fp m = catching m (\<lambda>e. if e = PexpectTimeout
     then bnd (fp_before fp) (\<lambda>b. throw (RemoteFileOperationTimeout (case b of None \<Rightarrow> [] | Some x \<Rightarrow> x)))
     else throw e)"

partial_function (option) read_sized_loop ::
  "(nat \<Rightarrow> ('w, bytes) py) \<Rightarrow> nat \<Rightarrow> bytes \<Rightarrow> 'w \<Rightarrow> ((exn + bytes) \<times> 'w) option" where
  "read_sized_loop rd n buf w = (if 0 < n
     then seq_outcome (rd n w) (\<lambda>b w1. read_sized_loop rd (n - length b) (buf @ b) w1)
     else Some (Inr buf, w))"

definition read_sized :: "(nat \<Rightarrow> ('w, bytes) py) \<Rightarrow> nat \<Rightarrow> ('w, bytes) py" where
  "read_sized rd n = read_sized_loop rd n []"

definition read_buffer_size :: "(nat \<Rightarrow> ('w, bytes) py) \<Rightarrow> nat \<Rightarrow> ('w, nat) py" where
  "read_buffer_size rd maxsize = bnd (read_until_token rd TOKEN) (\<lambda>_. bnd (rd 4) (\<lambda>b.
     let size = size_unpack b in if maxsize < size then throw RemoteFileReadingFailed else ret size))"

definition remote_read :: "'w file_proxy \<Rightarrow> nat \<Rightarrow> ('w, bytes) py" where
  "remote_read fp n = bnd (fp_handle_name fp) (\<lambda>h.
     andthen (fp_send_command fp (h @ ''.read('' @ str_of_int (int n) @ '')''))
       (timeouthandling fp (bnd (read_buffer_size (read_sized (fp_read_nonblocking fp)) n)
         (read_sized (fp_read_nonblocking fp)))))"

definition remote_write :: "'w file_proxy \<Rightarrow> bytes \<Rightarrow> ('w, unit) py" where
  "remote_write fp buf = (let b = b64encode buf in timeouthandling fp
     (bnd (fp_handle_name fp) (\<lambda>h.
       andthen (fp_send_command fp (h @ ''.write('' @ str_of_int (int (length b)) @ '')''))
         (andthen (fp_expect fp ''reading start'') (andthen (fp_send fp b) (fp_expect fp ''reading stop''))))))"

definition remote_close :: "'w file_proxy \<Rightarrow> ('w, unit) py" where
  "remote_close fp = andthen (fp_get_prompt fp 20) (fp_close_remote fp)"
section \<open>Blocks of a remote file\<close>

text \<open>A loop that asks for the rest until it is complete makes an exact source of a raw one.\<close>

context raw_source
begin

lemma read_sized_loop_returns:
  "rep s v \<Longrightarrow> n \<le> length v \<Longrightarrow>
     \<exists>s'. read_sized_loop rd n buf s = Some (Inr (buf @ take n v), s') \<and> rep s' (drop n v)"
proof (induction n arbitrary: s v buf rule: less_induct)
  case (less n)
  show ?case
  proof (cases "n = 0")
    case True
    then show ?thesis using less.prems by (subst read_sized_loop.simps) simp
  next
    case False
    then obtain b s1 v1 where b: "rd n s = Some (Inr b, s1)" "b \<noteq> []" "length b \<le> n" "v = b @ v1" "rep s1 v1"
      using raw [OF less.prems(1), of n] less.prems(2) by fastforce
    then have "n - length b < n" "n - length b \<le> length v1" using False less.prems(2) by auto
    from less.IH [OF this(1) b(5) this(2), of "buf @ b"] show ?thesis
      using False b by (subst read_sized_loop.simps) simp
  qed
qed

lemma read_sized_returns:
  "rep s v \<Longrightarrow> n \<le> length v \<Longrightarrow> \<exists>s'. read_sized rd n s = Some (Inr (take n v), s') \<and> rep s' (drop n v)"
  using read_sized_loop_returns [of s v n "[]"] by (simp add: read_sized_def)

end

sublocale raw_source \<subseteq> blocks: exact_source "read_sized rd" rep
  by unfold_locales (rule read_sized_returns)

lemma size_pack_unpack: "size_pack n = Inr b \<Longrightarrow> length b = 4 \<and> size_unpack b = n"
proof -
  assume p: "size_pack n = Inr b"
  then have n: "n < 2 ^ 32" and b: "b = map (\<lambda>k. char_of (n div 256 ^ k mod 256)) [3, 2, 1, 0]"
    by (auto simp: size_pack_def split: if_splits)
  have "n div 16777216 mod 256 * 16777216 + n div 65536 mod 256 * 65536 + n div 256 mod 256 * 256 + n mod 256 = n"
  proof -
    have d: "n div 65536 = n div 256 div 256" "n div 16777216 = n div 256 div 256 div 256"
      by (simp_all add: div_mult2_eq [symmetric])
    have "n div 256 div 256 div 256 < 256" using n unfolding d(2) [symmetric] by (simp add: less_mult_imp_div_less)
    then have "n div 256 div 256 div 256 mod 256 = n div 256 div 256 div 256" by simp
    then show ?thesis
      unfolding d using div_mult_mod_eq [of n 256] div_mult_mod_eq [of "n div 256" 256]
        div_mult_mod_eq [of "n div 256 div 256" 256] by linarith
  qed
  moreover have "n div 16777216 mod 256 = n div 16777216" using n by (simp add: less_mult_imp_div_less)
  ultimately show ?thesis using b by (simp add: size_unpack_def)
qed

context raw_source
begin

lemma block_arrives:
  assumes "gap_ok TOKEN k g gap" "rep s (gapped TOKEN k g gap @ sz @ d @ rest)" "size_pack (length d) = Inr sz" "length d \<le> n"
  shows "\<exists>s'. bnd (read_buffer_size (read_sized rd) n) (read_sized rd) s = Some (Inr d, s') \<and> rep s' rest"
proof -
  obtain s1 where s1: "read_until_token (read_sized rd) TOKEN s = Some (Inr g, s1)" "rep s1 (sz @ d @ rest)"
    using blocks.read_until_token_returns [OF assms(1,2)] by blast
  have z: "length sz = 4" "size_unpack sz = length d" using size_pack_unpack [OF assms(3)] by auto
  obtain s2 where s2: "read_sized rd 4 s1 = Some (Inr sz, s2)" "rep s2 (d @ rest)"
    using read_sized_returns [OF s1(2), of 4] z(1) by auto
  obtain s3 where s3: "read_sized rd (length d) s2 = Some (Inr d, s3)" "rep s3 rest"
    using read_sized_returns [OF s2(2), of "length d"] by auto
  show ?thesis using s1 s2 s3 z assms(4) by (simp add: read_buffer_size_def Let_def)
qed

end

lemma filehandle_read_output:
  assumes "filehandle_read n f = Some (Inr (), f')"
  shows "\<exists>sz. size_pack (length (take n (drop (fh_pos f) (fh_content f)))) = Inr sz \<and>
    fh_out f' = fh_out f @ TOKEN @ sz @ take n (drop (fh_pos f) (fh_content f))"
  using assms by (auto simp: filehandle_read_def handle_file_read_def write_stdout_with_flush_def seq_outcome_Inr_iff)

lemma remote_block_read:
  assumes "raw_source (fp_read_nonblocking fp) rep"
    and "fp_handle_name fp s = Some (Inr h, s0)"
    and "fp_send_command fp (h @ ''.read('' @ str_of_int (int n) @ '')'') s0 = Some (Inr (), s1)"
    and "filehandle_read n f = Some (Inr (), f')" "fh_out f = []"
    and "gap_ok TOKEN k g gap" "rep s1 (gapped TOKEN k g gap @ drop (length TOKEN) (fh_out f') @ rest)"
  shows "\<exists>s2. remote_read fp n s = Some (Inr (take n (drop (fh_pos f) (fh_content f))), s2) \<and> rep s2 rest"
proof -
  let ?d = "take n (drop (fh_pos f) (fh_content f))"
  obtain sz where sz: "size_pack (length ?d) = Inr sz" "fh_out f' = TOKEN @ sz @ ?d"
    using filehandle_read_output [OF assms(4)] assms(5) by auto
  have "rep s1 (gapped TOKEN k g gap @ sz @ ?d @ rest)" using assms(7) sz(2) by simp
  from raw_source.block_arrives [OF assms(1,6) this sz(1), of n] obtain s2 where
    "bnd (read_buffer_size (read_sized (fp_read_nonblocking fp)) n) (read_sized (fp_read_nonblocking fp)) s1 =
      Some (Inr ?d, s2)" "rep s2 rest" by auto
  then show ?thesis
    using assms(2,3) by (simp add: remote_read_def timeouthandling_def)
qed

text \<open>
  C16: reading from an open remote file returns the bytes the file has at its position at the other end,
  as many as asked for and there are: through a terminal that delivers its bytes in any
  pieces, with other output before the token and one interruption within it. Nothing behind
  the block is taken from the terminal.
\<close>

theorem remote_block_arrives:
  assumes "raw_source (fp_read_nonblocking fp) rep"
    and "fp_handle_name fp s = Some (Inr h, s0)"
    and "fp_send_command fp (h @ ''.read('' @ str_of_int (int n) @ '')'') s0 = Some (Inr (), s1)"
    and "filehandle_read n f = Some (Inr (), f')" "fh_out f = []"
    and "gap_ok TOKEN k g gap" "rep s1 (gapped TOKEN k g gap @ drop (length TOKEN) (fh_out f') @ rest)"
  shows "\<exists>s2. remote_read fp n s = Some (Inr (take n (drop (fh_pos f) (fh_content f))), s2) \<and> rep s2 rest"
  by (rule remote_block_read [OF assms])

text \<open>A terminal that is a string, beside a file at the other end whose output it shows.\<close>

definition string_proxy :: "bytes file_proxy" where
  "string_proxy = \<lparr>fp_handle_name = ret ''h'', fp_send_command = \<lambda>_. ret (),
     fp_read_nonblocking = \<lambda>n w. Some (Inr (take n w), drop n w), fp_expect = \<lambda>_. ret (), fp_send = \<lambda>_. ret (),
     fp_before = ret None, fp_get_prompt = \<lambda>_. ret (), fp_close_remote = ret ()\<rparr>"

definition demo_file :: file_handle where
  "demo_file = \<lparr>fh_content = ''abcdef'', fh_pos = 2, fh_in = [], fh_out = []\<rparr>"

lemma string_source: "raw_source (fp_read_nonblocking string_proxy) (=)"
  by unfold_locales (auto simp: string_proxy_def intro: exI [of _ "take _ _"])

lemma remote_block_arrives_witness:
  "\<exists>s2. remote_read string_proxy 3 (gapped TOKEN 3 ''echo'' [CHR 0x0A] @ [CHR 0x00, CHR 0x00, CHR 0x00, CHR 0x03] @ ''cde>>> '') =
    Some (Inr ''cde'', s2) \<and> s2 = ''>>> ''"
proof -
  have c: "char_of (0 :: nat) = CHR 0x00" "char_of (Suc (Suc (Suc 0))) = CHR 0x03" by code_simp+
  have f: "filehandle_read 3 demo_file = Some (Inr (), demo_file\<lparr>fh_pos := 5,
      fh_out := TOKEN @ [CHR 0x00, CHR 0x00, CHR 0x00, CHR 0x03] @ ''cde''\<rparr>)"
    by (simp add: filehandle_read_def handle_file_read_def demo_file_def size_pack_def write_stdout_with_flush_def
        take_Cons' drop_Cons' c)
  have "gap_ok TOKEN 3 ''echo'' [CHR 0x0A]" by (simp add: gap_ok_def TOKEN_def)
  from remote_block_arrives [OF string_source _ _ f _ this, of _ "''h''" _ _ "''>>> ''"]
  show ?thesis by (simp add: string_proxy_def demo_file_def take_Cons' drop_Cons')
qed

section \<open>Copying a file\<close>

text \<open>
  What \<open>copy_blocks\<close> needs of its two ends: \<open>holds w v out\<close> says that the bytes \<open>v\<close> are still to be
  read in \<open>w\<close> and \<open>out\<close> has been written.
\<close>

locale block_copy =
  fixes rd :: "nat \<Rightarrow> ('w, bytes) py" and wr :: "bytes \<Rightarrow> ('w, unit) py" and holds :: "'w \<Rightarrow> bytes \<Rightarrow> bytes \<Rightarrow> bool"
  assumes reads_block: "holds w v out \<Longrightarrow>
      \<exists>b v' w'. rd BUFFER_SIZE w = Some (Inr b, w') \<and> v = b @ v' \<and> (b = [] \<longrightarrow> v = []) \<and> holds w' v' out"
    and writes_block: "holds w v out \<Longrightarrow> \<exists>w'. wr b w = Some (Inr (), w') \<and> holds w' v (out @ b)"
begin

lemma copy_blocks_copies: "holds w v out \<Longrightarrow> \<exists>w'. copy_blocks rd wr w = Some (Inr (), w') \<and> holds w' [] (out @ v)"
proof (induction v arbitrary: w out rule: length_induct)
  case (1 v)
  obtain b v' w1 where b: "rd BUFFER_SIZE w = Some (Inr b, w1)" "v = b @ v'" "b = [] \<longrightarrow> v = []" "holds w1 v' out"
    using reads_block [OF 1(2)] by blast
  show ?case
  proof (cases "b = []")
    case True
    then show ?thesis using b by (subst copy_blocks.simps) simp
  next
    case False
    obtain w2 where w2: "wr b w1 = Some (Inr (), w2)" "holds w2 v' (out @ b)" using writes_block [OF b(4)] by blast
    have "length v' < length v" using b(2) False by simp
    with 1(1) w2(2) obtain w3 where "copy_blocks rd wr w2 = Some (Inr (), w3)" "holds w3 [] ((out @ b) @ v')" by blast
    then show ?thesis using b w2 False by (subst copy_blocks.simps) simp
  qed
qed

end

text \<open>Two open files side by side.\<close>

definition on_first :: "('f, 'a) py \<Rightarrow> ('f \<times> 'g, 'a) py" where
  "on_first m = (\<lambda>(f, g). case m f of None \<Rightarrow> None | Some (r, f') \<Rightarrow> Some (r, (f', g)))"

definition still_to_copy :: "file_handle \<times> file_handle \<Rightarrow> bytes \<Rightarrow> bytes \<Rightarrow> bool" where
  "still_to_copy x v out \<longleftrightarrow> v = drop (fh_pos (fst x)) (fh_content (fst x)) \<and>
     fh_content (snd x) = out \<and> fh_pos (snd x) = length out"

interpretation files: block_copy "\<lambda>n. on_first (handle_file_read n)" "\<lambda>b. in_world (handle_file_write b)" still_to_copy
proof
  fix w v out assume h: "still_to_copy w v out"
  have n: "0 < BUFFER_SIZE" by (simp add: BUFFER_SIZE_def)
  obtain f g where w: "w = (f, g)" by (cases w)
  let ?f = "f\<lparr>fh_pos := min (fh_pos f + BUFFER_SIZE) (max (fh_pos f) (length (fh_content f)))\<rparr>"
  have d: "drop (fh_pos ?f) (fh_content f) = drop BUFFER_SIZE v"
    using h by (simp add: still_to_copy_def w min_def max_def add.commute)
  have "v = take BUFFER_SIZE v @ drop BUFFER_SIZE v" by simp
  moreover have "on_first (handle_file_read BUFFER_SIZE) w = Some (Inr (take BUFFER_SIZE v), (?f, g)) \<and>
      (take BUFFER_SIZE v = [] \<longrightarrow> v = []) \<and> still_to_copy (?f, g) (drop BUFFER_SIZE v) out"
    using h d n by (simp add: w on_first_def handle_file_read_def still_to_copy_def)
  ultimately show "\<exists>b v' w'. on_first (handle_file_read BUFFER_SIZE) w = Some (Inr b, w') \<and> v = b @ v' \<and> (b = [] \<longrightarrow> v = []) \<and> still_to_copy w' v' out"
    by blast
next
  fix w v out b assume "still_to_copy w v out"
  then show "\<exists>w'. in_world (handle_file_write b) w = Some (Inr (), w') \<and> still_to_copy w' v (out @ b)"
    by (cases w) (auto simp: handle_file_write_def still_to_copy_def)
qed

text \<open>
  C15: copying block by block ends and the target holds exactly what the source had from its position
  on: no block is lost, repeated or cut, for any size, the empty file and multiples of the
  buffer size included.
\<close>

theorem copy_transfers_content:
  "\<exists>f' g'. copy_blocks (\<lambda>n. on_first (handle_file_read n)) (\<lambda>b. in_world (handle_file_write b))
      (f, \<lparr>fh_content = [], fh_pos = 0, fh_in = i, fh_out = o'\<rparr>) = Some (Inr (), (f', g')) \<and>
    fh_content g' = drop (fh_pos f) (fh_content f) \<and> drop (fh_pos f') (fh_content f') = []"
  using files.copy_blocks_copies [of "(f, \<lparr>fh_content = [], fh_pos = 0, fh_in = i, fh_out = o'\<rparr>)"
      "drop (fh_pos f) (fh_content f)" "[]"]
  by (auto simp: still_to_copy_def)

text \<open>
  What a copy does with open files: every opening, use and closing is recorded, of either side. \<open>FileClosed\<close>
  says whether closing returned.
\<close>

datatype file_side = SourceFile | TargetFile

datatype file_event = FileOpened file_side nat | FileUsed file_side nat | FileClosed file_side nat bool

definition recording_os :: "file_side \<Rightarrow> 'w file_os \<Rightarrow> ('w \<times> file_event list) file_os" where
  "recording_os d os =
     \<lparr>os_new = unrecorded (os_new os), os_join = (\<lambda>p ps. unrecorded (os_join os p ps)),
      os_basename = (\<lambda>p. unrecorded (os_basename os p)), os_dirname = (\<lambda>p. unrecorded (os_dirname os p)),
      os_makedirs = (\<lambda>p. unrecorded (os_makedirs os p)), os_chmod = (\<lambda>p m. unrecorded (os_chmod os p m)),
      os_stat_is_dir = (\<lambda>p. unrecorded (os_stat_is_dir os p)),
      os_open = (\<lambda>n opts. recording (\<lambda>r. case r of Inl e \<Rightarrow> [] | Inr h \<Rightarrow> [FileOpened d h]) (os_open os n opts)),
      os_read = (\<lambda>h n. recording (\<lambda>_. [FileUsed d h]) (os_read os h n)),
      os_write = (\<lambda>h b. recording (\<lambda>_. [FileUsed d h]) (os_write os h b)),
      os_close = (\<lambda>h. recording (\<lambda>r. [FileClosed d h (r = Inr ())]) (os_close os h))\<rparr>"

text \<open>Nothing is recorded, and the handle of the file stays.\<close>

definition silent :: "file_obj \<times> 'w \<times> file_event list \<Rightarrow> file_obj \<times> 'w \<times> file_event list \<Rightarrow> bool" where
  "silent x y \<longleftrightarrow> fo_handle (fst y) = fo_handle (fst x) \<and> snd (snd y) = snd (snd x)"

interpretation silent: step_relation silent
  by unfold_locales (auto simp: silent_def)

definition silent_world :: "'w \<times> file_event list \<Rightarrow> 'w \<times> file_event list \<Rightarrow> bool" where
  "silent_world x y \<longleftrightarrow> snd y = snd x"

interpretation silent_world: step_relation silent_world
  by unfold_locales (auto simp: silent_world_def)

lemma silent_unrecorded: "keeps silent_world (unrecorded m)"
  by (rule keeps_gen) (auto simp: silent_world_def recording_def split: option.splits)

lemma silent_in_world: "keeps silent_world m \<Longrightarrow> keeps silent (in_world m)"
  by (rule keeps_gen) (auto simp: in_world_def silent_def silent_world_def dest!: keepsD split: option.splits)

lemmas os_fields = file_os.select_convs

lemma silent_filename: "keeps silent_world (filename_of (recording_os d os) f)"
  unfolding filename_of_def given_def filename_with_source_file_def is_directory_def is_existing_directory_def recording_os_def os_fields
  by (auto split: file_kind.split option.split list.split
      intro!: silent_world.keeps keeps_if silent_unrecorded keeps_case_option)

lemma silent_name: "keeps silent (file_name (recording_os d os))"
  unfolding file_name_def given_def
  by (intro silent.keeps keeps_if keeps_case_option silent_in_world silent_filename)
    (auto intro!: keeps_gen simp: silent_def)

lemma silent_chmod: "keeps silent (file_chmod (recording_os d os) mode)"
  unfolding file_chmod_def
  by (intro silent.keeps silent_name silent_in_world) (simp add: recording_os_def silent_unrecorded)

lemma open_recorded:
  assumes "file_open (recording_os d os) opts (f, w, l) = Some (r, (f', w', l'))" "fo_handle f = None"
  shows "case r of Inl e \<Rightarrow> l' = l \<and> fo_handle f' = None | Inr h \<Rightarrow> l' = l @ [FileOpened d h] \<and> fo_handle f' = Some h"
proof -
  have "seq_outcome (file_name (recording_os d os) (f, w, l)) (\<lambda>n.
     bnd (in_world (os_open (recording_os d os) n opts)) (\<lambda>h. andthen (upd (\<lambda>f. f\<lparr>fo_handle := Some h\<rparr>)) (ret h))) =
     Some (r, (f', w', l'))"
    using assms(1) by (simp add: file_open_def)
  then show ?thesis
  proof (cases rule: seq_outcome_cases)
    case (error e)
    then show ?thesis using keepsD [OF silent_name error(1)] assms(2) by (simp add: silent_def)
  next
    case (ok n s)
    obtain f1 w1 where s: "s = (f1, w1, l)" "fo_handle f1 = None"
      using keepsD [OF silent_name ok(1)] assms(2) by (cases s) (auto simp: silent_def)
    show ?thesis
      using ok(2) s by (auto simp: recording_os_def recording_def in_world_def upd_def split: option.splits sum.splits
          elim!: seq_outcome_cases)
  qed
qed

lemma close_recorded:
  assumes "file_close (recording_os d os) (f, w, l) = Some (r, (f', w', l'))"
  shows "case fo_handle f of None \<Rightarrow> r = Inr () \<and> f' = f \<and> l' = l
    | Some h \<Rightarrow> l' = l @ [FileClosed d h (r = Inr ())] \<and> fo_handle f' = (if r = Inr () then None else Some h)"
proof (cases "fo_handle f")
  case (Some h)
  then have "seq_outcome (in_world (os_close (recording_os d os) h) (f, w, l)) (\<lambda>_. upd (\<lambda>f. f\<lparr>fo_handle := None\<rparr>)) =
      Some (r, (f', w', l'))"
    using assms by (simp add: file_close_def)
  then show ?thesis
    using Some by (auto simp: recording_os_def recording_def upd_def split: option.splits elim!: seq_outcome_cases)
qed (use assms in \<open>simp add: file_close_def\<close>)

text \<open>The loop only uses the two open files.\<close>

definition uses_only :: "nat \<Rightarrow> nat \<Rightarrow> 'w \<times> file_event list \<Rightarrow> 'w \<times> file_event list \<Rightarrow> bool" where
  "uses_only h k x y \<longleftrightarrow> (\<exists>us. snd y = snd x @ us \<and> set us \<subseteq> {FileUsed SourceFile h, FileUsed TargetFile k})"

interpretation uses: step_relation "uses_only h k" for h k
proof
  fix s t u assume "uses_only h k s t" "uses_only h k t u"
  then obtain us vs where "snd t = snd s @ us" "snd u = snd t @ vs"
    "set us \<subseteq> {FileUsed SourceFile h, FileUsed TargetFile k}" "set vs \<subseteq> {FileUsed SourceFile h, FileUsed TargetFile k}"
    by (auto simp: uses_only_def)
  then show "uses_only h k s u" unfolding uses_only_def by (intro exI [of _ "us @ vs"]) simp
qed (simp add: uses_only_def)

lemma uses_recording:
  "e \<in> {FileUsed SourceFile h, FileUsed TargetFile k} \<Longrightarrow> keeps (uses_only h k) (recording (\<lambda>_. [e]) m)"
  by (rule keeps_gen) (auto simp: recording_def uses_only_def split: option.splits)

context step_relation
begin

lemma loop_step:
  assumes "seq_outcome (m s) k = Some (x, t)" "keeps R m" "\<And>a u. k a u = Some (x, t) \<Longrightarrow> R u t"
  shows "R s t"
  using assms(1)
proof (cases rule: seq_outcome_cases)
  case (error e)
  then show ?thesis using keepsD [OF assms(2)] by blast
next
  case (ok a u)
  then show ?thesis using keepsD [OF assms(2) ok(1)] assms(3) [OF ok(2)] R_trans by blast
qed

lemma copy_blocks_rel:
  assumes rd: "\<And>n. keeps R (rd n)" and wr: "\<And>b. keeps R (wr b)" and "copy_blocks rd wr s = Some p"
  shows "R s (snd p)"
proof -
  have "rd' = rd \<and> wr' = wr \<longrightarrow> R s' (snd q)" if "copy_blocks rd' wr' s' = Some q" for rd' wr' s' q
    using that
  proof (elim copy_blocks.raw_induct [where P = "\<lambda>rd' wr' s p. rd' = rd \<and> wr' = wr \<longrightarrow> R s (snd p)", rotated])
    fix f :: "(nat \<Rightarrow> ('s, bytes) py) \<Rightarrow> (bytes \<Rightarrow> ('s, unit) py) \<Rightarrow> 's \<Rightarrow> ((exn + unit) \<times> 's) option" and rd' wr' s p
    assume 1: "\<And>rd' wr' s p. f rd' wr' s = Some p \<Longrightarrow> rd' = rd \<and> wr' = wr \<longrightarrow> R s (snd p)"
      "seq_outcome (rd' BUFFER_SIZE s) (\<lambda>b w1. if b = [] then Some (Inr (), w1)
         else seq_outcome (wr' b w1) (\<lambda>_ w2. f rd' wr' w2)) = Some p"
    show "rd' = rd \<and> wr' = wr \<longrightarrow> R s (snd p)"
    proof
      assume e: "rd' = rd \<and> wr' = wr"
      obtain x t where p: "p = (x, t)" by fastforce
      have "R s t"
      proof (rule loop_step [OF _ rd])
        show "seq_outcome (rd BUFFER_SIZE s) (\<lambda>b w1. if b = [] then Some (Inr (), w1)
            else seq_outcome (wr b w1) (\<lambda>_ w2. f rd wr w2)) = Some (x, t)" using 1(2) e p by (simp cong del: if_weak_cong)
        fix b u assume b: "(if b = [] then Some (Inr (), u) else seq_outcome (wr b u) (\<lambda>_ w2. f rd wr w2)) = Some (x, t)"
        show "R u t"
        proof (cases "b = []")
          case True
          then show ?thesis using b R_refl by simp
        next
          case False
          then have "seq_outcome (wr b u) (\<lambda>_ w2. f rd wr w2) = Some (x, t)" using b by simp
          then show ?thesis by (rule loop_step [OF _ wr]) (use 1(1) in fastforce)
        qed
      qed
      then show "R s (snd p)" by (simp add: p)
    qed
  qed
  then show ?thesis using assms(3) by blast
qed

end

lemma blocks_recorded:
  assumes "copy_blocks (os_read (recording_os SourceFile sos) h) (os_write (recording_os TargetFile tos) k) (w, l) = Some (r, (w', l'))"
  shows "\<exists>us. l' = l @ us \<and> set us \<subseteq> {FileUsed SourceFile h, FileUsed TargetFile k}"
proof -
  have "uses_only h k (w, l) (snd (r, (w', l')))"
    by (rule uses.copy_blocks_rel [OF _ _ assms]) (simp_all add: recording_os_def uses_recording)
  then show ?thesis by (simp add: uses_only_def)
qed

text \<open>The inner \<open>with\<close>: the target is opened, used and closed, and the source untouched.\<close>

lemma on_source_frame: "on_source m (f, g, w) = Some (r, (f', g', w')) \<Longrightarrow> g' = g \<and> m (f, w) = Some (r, (f', w'))"
  by (auto simp: on_source_def split: option.splits)

lemma on_target_frame: "on_target m (f, g, w) = Some (r, (f', g', w')) \<Longrightarrow> f' = f \<and> m (g, w) = Some (r, (g', w'))"
  by (auto simp: on_target_def in_world_def split: option.splits)

definition copy_to_open_source ::
  "'w file_os \<Rightarrow> 'w file_os \<Rightarrow> nat \<Rightarrow> (file_obj \<times> file_obj \<times> 'w, unit) py" where
  "copy_to_open_source sos tos r = finally_do
     (bnd (on_target (file_open tos ''wb'')) (\<lambda>t. in_world (in_world (copy_blocks (os_read sos r) (os_write tos t)))))
     (on_target (file_close tos))"

lemma target_recorded:
  assumes "copy_to_open_source (recording_os SourceFile sos) (recording_os TargetFile tos) h (f, g, w, l) = Some (r, (f', g', w', l'))"
    and "fo_handle g = None"
  shows "f' = f \<and> ((\<exists>e. r = Inl e) \<and> l' = l \<and> fo_handle g' = None \<or>
    (\<exists>k us b. l' = l @ FileOpened TargetFile k # us @ [FileClosed TargetFile k b] \<and>
      set us \<subseteq> {FileUsed SourceFile h, FileUsed TargetFile k} \<and> fo_handle g' = (if b then None else Some k) \<and>
      (r = Inr () \<longrightarrow> b)))"
proof -
  let ?sos = "recording_os SourceFile sos" and ?tos = "recording_os TargetFile tos"
  let ?m = "bnd (on_target (file_open ?tos ''wb'')) (\<lambda>t. in_world (in_world (copy_blocks (os_read ?sos h) (os_write ?tos t))))"
  obtain x f1 g1 w1 l1 y where 1: "?m (f, g, w, l) = Some (x, (f1, g1, w1, l1))"
    and 2: "on_target (file_close ?tos) (f1, g1, w1, l1) = Some (y, (f', g', w', l'))"
    and r: "r = (case y of Inl e \<Rightarrow> Inl e | Inr _ \<Rightarrow> x)"
    using assms(1) unfolding copy_to_open_source_def by (elim finally_do_cases) (metis prod_cases4)
  note c = on_target_frame [OF 2]
  note close = close_recorded [OF conjunct2 [OF c]]
  have "seq_outcome (on_target (file_open ?tos ''wb'') (f, g, w, l))
      (\<lambda>t. in_world (in_world (copy_blocks (os_read ?sos h) (os_write ?tos t)))) = Some (x, (f1, g1, w1, l1))"
    using 1 by simp
  then show ?thesis
  proof (cases rule: seq_outcome_cases)
    case (error e)
    note o = on_target_frame [OF error(1)]
    then have "l1 = l" "fo_handle g1 = None" "f1 = f" using open_recorded [OF _ assms(2)] by fastforce+
    then show ?thesis using close c r error by auto
  next
    case (ok k u)
    obtain f2 g2 w2 l2 where u: "u = (f2, g2, w2, l2)" by (cases u) auto
    note o = on_target_frame [OF ok(1) [unfolded u]]
    then have o2: "l2 = l @ [FileOpened TargetFile k]" "fo_handle g2 = Some k" "f2 = f"
      using open_recorded [OF _ assms(2)] by fastforce+
    have b: "f1 = f2" "g1 = g2" "copy_blocks (os_read ?sos h) (os_write ?tos k) (w2, l2) = Some (x, (w1, l1))"
      using ok(2) u by (auto simp: in_world_def split: option.splits)
    obtain us where us: "l1 = l2 @ us" "set us \<subseteq> {FileUsed SourceFile h, FileUsed TargetFile k}"
      using blocks_recorded [OF b(3)] by blast
    have "l' = l @ FileOpened TargetFile k # us @ [FileClosed TargetFile k (y = Inr ())]"
      "fo_handle g' = (if y = Inr () then None else Some k)"
      using close b o2 us by simp_all
    moreover have "r = Inr () \<longrightarrow> y = Inr ()" using r by (auto split: sum.splits)
    ultimately show ?thesis using us(2) c b o2(3) by (intro conjI disjI2 exI) auto
  qed
qed

text \<open>What is recorded of a copy: nothing opened; the source only; or both.\<close>

definition copy_record ::
  "nat option \<Rightarrow> nat option \<Rightarrow> bool \<Rightarrow> file_event list \<Rightarrow> bool" where
  "copy_record hf hg returned es \<longleftrightarrow>
    (es = [] \<and> hf = None \<and> hg = None \<and> \<not> returned \<or>
     (\<exists>h c. es = [FileOpened SourceFile h, FileClosed SourceFile h c] \<and>
        hf = (if c then None else Some h) \<and> hg = None \<and> \<not> returned) \<or>
     (\<exists>h k us b c. es = FileOpened SourceFile h # FileOpened TargetFile k # us @
          [FileClosed TargetFile k b, FileClosed SourceFile h c] \<and>
        set us \<subseteq> {FileUsed SourceFile h, FileUsed TargetFile k} \<and>
        hf = (if c then None else Some h) \<and> hg = (if b then None else Some k) \<and>
        (returned \<longrightarrow> b \<and> c)))"

lemma copy_record_weaken: "copy_record hf hg True es \<Longrightarrow> copy_record hf hg q es"
  unfolding copy_record_def by blast

lemma source_recorded:
  assumes "finally_do (bnd (on_source (file_open (recording_os SourceFile sos) ''rb''))
      (copy_to_open_source (recording_os SourceFile sos) (recording_os TargetFile tos)))
      (on_source (file_close (recording_os SourceFile sos))) (f, g, w, l) = Some (r, (f', g', w', l'))"
    and n: "fo_handle f = None" "fo_handle g = None"
  shows "\<exists>es. l' = l @ es \<and> copy_record (fo_handle f') (fo_handle g') (r = Inr ()) es"
proof -
  let ?sos = "recording_os SourceFile sos" and ?tos = "recording_os TargetFile tos"
  let ?m = "bnd (on_source (file_open ?sos ''rb'')) (copy_to_open_source ?sos ?tos)"
  obtain x f1 g1 w1 l1 y where 1: "?m (f, g, w, l) = Some (x, (f1, g1, w1, l1))"
    and 2: "on_source (file_close ?sos) (f1, g1, w1, l1) = Some (y, (f', g', w', l'))"
    and r: "r = (case y of Inl e \<Rightarrow> Inl e | Inr _ \<Rightarrow> x)"
    using assms(1) by (elim finally_do_cases) (metis prod_cases4)
  note c = on_source_frame [OF 2]
  note close = close_recorded [OF conjunct2 [OF c]]
  have ret: "r = Inr () \<longrightarrow> y = Inr () \<and> x = Inr ()" using r by (auto split: sum.splits)
  have "seq_outcome (on_source (file_open ?sos ''rb'') (f, g, w, l)) (copy_to_open_source ?sos ?tos) =
      Some (x, (f1, g1, w1, l1))"
    using 1 by simp
  then show ?thesis
  proof (cases rule: seq_outcome_cases)
    case (error e)
    note o = on_source_frame [OF error(1)]
    then have "l1 = l" "fo_handle f1 = None" "g1 = g" using open_recorded [OF _ n(1)] by fastforce+
    then show ?thesis using close c ret error n by (intro exI [of _ "[]"]) (auto simp: copy_record_def)
  next
    case (ok h u)
    obtain f2 g2 w2 l2 where u: "u = (f2, g2, w2, l2)" by (cases u) auto
    note o = on_source_frame [OF ok(1) [unfolded u]]
    then have o2: "l2 = l @ [FileOpened SourceFile h]" "fo_handle f2 = Some h" "g2 = g"
      using open_recorded [OF _ n(1)] by fastforce+
    have t: "f1 = f2 \<and> ((\<exists>e. x = Inl e) \<and> l1 = l2 \<and> fo_handle g1 = None \<or>
      (\<exists>k us b. l1 = l2 @ FileOpened TargetFile k # us @ [FileClosed TargetFile k b] \<and>
        set us \<subseteq> {FileUsed SourceFile h, FileUsed TargetFile k} \<and> fo_handle g1 = (if b then None else Some k) \<and>
        (x = Inr () \<longrightarrow> b)))"
      by (rule target_recorded [OF ok(2) [unfolded u]]) (simp add: o2(3) n(2))
    have cl: "l' = l1 @ [FileClosed SourceFile h (y = Inr ())]" "fo_handle f' = (if y = Inr () then None else Some h)" "g' = g1"
      using close t o2(2) c by auto
    from conjunct2 [OF t] show ?thesis
    proof (elim disjE exE conjE)
      fix e assume "x = Inl e" "l1 = l2" "fo_handle g1 = None"
      then show ?thesis using cl o2(1) ret
        by (intro exI [of _ "[FileOpened SourceFile h, FileClosed SourceFile h (y = Inr ())]"]) (simp add: copy_record_def)
    next
      fix k us b assume "l1 = l2 @ FileOpened TargetFile k # us @ [FileClosed TargetFile k b]"
        and us: "set us \<subseteq> {FileUsed SourceFile h, FileUsed TargetFile k}" "fo_handle g1 = (if b then None else Some k)"
        "x = Inr () \<longrightarrow> b"
      then have "l' = l @ FileOpened SourceFile h # FileOpened TargetFile k # us @
          [FileClosed TargetFile k b, FileClosed SourceFile h (y = Inr ())]"
        using cl(1) o2(1) by simp
      then show ?thesis using us cl(2,3) ret unfolding copy_record_def by blast
    qed
  qed
qed

text \<open>
  C26: whatever fails while a file is copied, naming or opening either file, reading, writing, closing or
  changing the mode, the handles that were opened are closed, each exactly once, the target before the
  source, and neither is used afterwards; a file object keeps a handle only if closing it failed. When the
  copy returns both files were opened and closed.
\<close>

theorem copy_closes_both_files:
  assumes "copy_file_no_dir_create (recording_os SourceFile sos) (recording_os TargetFile tos) mode (f, g, w, l) =
      Some (r, (f', g', w', l'))"
    and "fo_handle f = None" "fo_handle g = None"
  shows "\<exists>es. l' = l @ es \<and>
    (es = [] \<and> fo_handle f' = None \<and> fo_handle g' = None \<and> r \<noteq> Inr () \<or>
     (\<exists>h c. es = [FileOpened SourceFile h, FileClosed SourceFile h c] \<and>
        fo_handle f' = (if c then None else Some h) \<and> fo_handle g' = None \<and> r \<noteq> Inr ()) \<or>
     (\<exists>h k us b c. es = FileOpened SourceFile h # FileOpened TargetFile k # us @
          [FileClosed TargetFile k b, FileClosed SourceFile h c] \<and>
        set us \<subseteq> {FileUsed SourceFile h, FileUsed TargetFile k} \<and>
        fo_handle f' = (if c then None else Some h) \<and> fo_handle g' = (if b then None else Some k) \<and>
        (r = Inr () \<longrightarrow> b \<and> c)))"
proof -
  let ?sos = "recording_os SourceFile sos" and ?tos = "recording_os TargetFile tos"
  have e: "seq_outcome (finally_do (bnd (on_source (file_open ?sos ''rb'')) (copy_to_open_source ?sos ?tos))
      (on_source (file_close ?sos)) (f, g, w, l)) (\<lambda>_. case mode of None \<Rightarrow> ret () | Some m \<Rightarrow> on_target (file_chmod ?tos m)) =
      Some (r, (f', g', w', l'))"
    using assms(1) by (simp add: copy_file_no_dir_create_def copy_to_open_source_def [abs_def])
  then have "\<exists>es. l' = l @ es \<and> copy_record (fo_handle f') (fo_handle g') (r = Inr ()) es"
  proof (cases rule: seq_outcome_cases)
    case (error e)
    then show ?thesis using source_recorded [OF error(1) assms(2,3)] by simp
  next
    case (ok a u)
    obtain f1 g1 w1 l1 where u: "u = (f1, g1, w1, l1)" by (cases u) auto
    obtain es where es: "l1 = l @ es" "copy_record (fo_handle f1) (fo_handle g1) True es"
      using source_recorded [OF ok(1) [unfolded u] assms(2,3)] by auto
    have "f' = f1 \<and> silent (g1, w1, l1) (g', w', l')"
    proof (cases mode)
      case None
      then show ?thesis using ok(2) u silent.R_refl by simp
    next
      case (Some m)
      then have "on_target (file_chmod ?tos m) (f1, g1, w1, l1) = Some (r, (f', g', w', l'))" using ok(2) u by simp
      from on_target_frame [OF this] show ?thesis using keepsD [OF silent_chmod] by blast
    qed
    then have "l' = l @ es" "fo_handle f' = fo_handle f1" "fo_handle g' = fo_handle g1" using es(1) by (auto simp: silent_def)
    then show ?thesis using copy_record_weaken [OF es(2)] by metis
  qed
  then show ?thesis unfolding copy_record_def .
qed

text \<open>A source that opens but cannot be read.\<close>

definition failing_os :: "unit file_os" where
  "failing_os = \<lparr>os_new = ret (), os_join = \<lambda>p _. ret p, os_basename = ret, os_dirname = ret, os_makedirs = \<lambda>_. ret (),
     os_chmod = \<lambda>_ _. ret (), os_stat_is_dir = \<lambda>_. ret False, os_open = \<lambda>_ _. ret 3, os_read = \<lambda>_ _. throw (OSError 5),
     os_write = \<lambda>_ _. ret (), os_close = \<lambda>_. ret ()\<rparr>"

definition named_file :: "string \<Rightarrow> file_obj" where
  "named_file n = \<lparr>fo_kind = PlainFile, fo_destination = None, fo_source_file = None, fo_handle = None, fo_filename = Some n\<rparr>"

lemma failing_copy:
  "\<exists>f g w. copy_file_no_dir_create (recording_os SourceFile failing_os) (recording_os TargetFile failing_os) None
      (named_file ''a'', named_file ''b'', (), []) =
    Some (Inl (OSError 5), (f, g, w, [FileOpened SourceFile 3, FileOpened TargetFile 3, FileUsed SourceFile 3,
      FileClosed TargetFile 3 True, FileClosed SourceFile 3 True]))"
  by (simp add: copy_file_no_dir_create_def finally_do_app on_source_def on_target_def file_open_def file_close_def
      file_name_def given_def failing_os_def recording_os_def recording_def named_file_def in_world_def upd_def copy_blocks.simps)

lemma copy_closes_both_files_witness:
  "\<exists>f g w l. copy_file_no_dir_create (recording_os SourceFile failing_os) (recording_os TargetFile failing_os) None
      (named_file ''a'', named_file ''b'', (), []) = Some (Inl (OSError 5), (f, g, w, l)) \<and>
    fo_handle f = None \<and> fo_handle g = None \<and> length l = 5"
proof -
  let ?l = "[FileOpened SourceFile 3, FileOpened TargetFile 3, FileUsed SourceFile 3,
      FileClosed TargetFile 3 True, FileClosed SourceFile 3 True]"
  obtain f g w where c: "copy_file_no_dir_create (recording_os SourceFile failing_os) (recording_os TargetFile failing_os) None
      (named_file ''a'', named_file ''b'', (), []) = Some (Inl (OSError 5), (f, g, w, ?l))" using failing_copy by blast
  have "fo_handle f = None \<and> fo_handle g = None"
    using copy_closes_both_files [OF c] by (auto simp: named_file_def Cons_eq_append_conv)
  then show ?thesis using c by (intro exI [of _ f] exI [of _ g] exI [of _ w] exI [of _ ?l]) simp
qed

end
