(* ===== verification/RemoteProxies.thy ===== *)
theory RemoteProxies
  imports RunnerTerminal
begin

text \<open>
  \<open>remoteproxies.py\<close>: local objects that stand for remote ones. Every use of a proxy is a
  command for the terminal of \<open>RunnerTerminal\<close>; the state of a proxy is the record
  \<open>proxy\<close> there. The truth value of an object that was fetched is an argument.
\<close>

section \<open>Settings of a proxy\<close>

definition set_remote_proxy_timeout :: "rat \<Rightarrow> rat option \<Rightarrow> proxy \<Rightarrow> proxy" where
  "set_remote_proxy_timeout dflt t p = p\<lparr>px_timeout := (case t of None \<Rightarrow> dflt | Some x \<Rightarrow> x)\<rparr>"

definition use_synchronous_response :: "proxy \<Rightarrow> proxy" where
  "use_synchronous_response p = p\<lparr>px_async := False\<rparr>"

definition use_asynchronous_response :: "proxy \<Rightarrow> proxy" where
  "use_asynchronous_response p = p\<lparr>px_async := True\<rparr>"

definition proxy_timeout :: "proxy \<Rightarrow> rat" where
  "proxy_timeout p = (if px_async p then - 1 else px_timeout p)"

definition set_proxy_spec :: "string set \<Rightarrow> proxy \<Rightarrow> exn + proxy" where
  "set_proxy_spec methods p = (if px_spec p \<noteq> None then Inl RuntimeError else Inr (p\<lparr>px_spec := Some methods\<rparr>))"

text \<open>
  The content moves from one proxy to another. The name that is set to \<open>False\<close> in the emptied proxy
  is \<open>is_remote_owned\<close>, not \<open>_is_remote_owned\<close>: only its handle changes.
\<close>

definition set_from_remote_proxy :: "proxy \<Rightarrow> proxy \<Rightarrow> proxy \<times> proxy" where
  "set_from_remote_proxy self p =
     (self\<lparr>px_handle := px_handle p, px_session_id := px_session_id p, px_is_remote_owned := px_is_remote_owned p,
        px_async := px_async p, px_spec := px_spec p\<rparr>,
      p\<lparr>px_handle := None\<rparr>)"

text \<open>When the object goes, its remote counterpart becomes garbage, of the session it belongs to.\<close>

definition session_id_of_proxy :: "proxy \<Rightarrow> nat option option" where
  "session_id_of_proxy p = (case px_session_id p of
     None \<Rightarrow> Some None | Some Uninitialized \<Rightarrow> None | Some (OfSession i) \<Rightarrow> Some (Some i))"

definition delete_remote_proxy :: "proxy \<Rightarrow> ('w, unit) rt_op" where
  "delete_remote_proxy p = (if px_is_remote_owned p
     then case session_id_of_proxy p of None \<Rightarrow> ret () | Some i \<Rightarrow> add_handle_to_garbage i (px_handle p)
     else ret ())"

section \<open>Calls\<close>

text \<open>What a call gives: a value, or in asynchronous mode the time-out, if there is one.\<close>

datatype 'o proxy_result = ProxyValue "'o rvalue" | ProxyHandle "timeout_handle option"

definition proxy_response :: "proxy \<Rightarrow> response_wrap list \<Rightarrow> ('w, 'o rvalue) rt_op \<Rightarrow> ('w, 'o proxy_result) rt_op" where
  "proxy_response p ws f = (if px_async p
     then bnd (asyncresponsehandler f ws) (\<lambda>h. ret (ProxyHandle h))
     else bnd (responsehandler f ws) (\<lambda>v. ret (ProxyValue v)))"

text \<open>
  \<open>None\<close> cannot be joined with a name, and as code it is refused with the same exception.
\<close>

definition handle_text :: "proxy \<Rightarrow> ('w, string) rt_op" where
  "handle_text p = (case px_handle p of None \<Rightarrow> throw TypeError | Some h \<Rightarrow> ret h)"

definition as_local_value :: "('w, 'o) runner_env \<Rightarrow> proxy \<Rightarrow> ('w, 'o rvalue) rt_op" where
  "as_local_value q p = andthen (remote_proxy_autoprepare q p) (bnd (handle_text p) (\<lambda>h.
     run_python q h (Some (proxy_timeout p))))"

definition as_recursive_proxy :: "('w, 'o) runner_env \<Rightarrow> proxy \<Rightarrow> ('w, proxy) rt_op" where
  "as_recursive_proxy q p = andthen (remote_proxy_autoprepare q p)
     (bnd (gets fst) (\<lambda>r. ret (new_proxy (px_timeout p) (px_handle p) False True r)))"

definition get_remote_proxy_response ::
  "('w, 'o) runner_env \<Rightarrow> proxy \<Rightarrow> timeout_handle \<Rightarrow> rat option \<Rightarrow> ('w, 'o rvalue) rt_op" where
  "get_remote_proxy_response q p h tmo = andthen (remote_proxy_verify p) (rt_get_response q h tmo)"

definition remote_proxy_run_python_call ::
  "('w, 'o) runner_env \<Rightarrow> proxy \<Rightarrow> string \<Rightarrow> 'o call_arg list \<Rightarrow> (string \<times> 'o call_arg) list \<Rightarrow> ('w, 'o proxy_result) rt_op" where
  "remote_proxy_run_python_call q p fn as kws =
     proxy_response p [] (run_python_call_with_timeout q (Some (proxy_timeout p)) fn as kws)"

definition proxy_call ::
  "('w, 'o) runner_env \<Rightarrow> proxy \<Rightarrow> 'o call_arg list \<Rightarrow> (string \<times> 'o call_arg) list \<Rightarrow> ('w, 'o proxy_result) rt_op" where
  "proxy_call q p as kws = andthen (remote_proxy_autoprepare q p) (bnd (handle_text p) (\<lambda>h.
     remote_proxy_run_python_call q p h as kws))"

definition proxy_method_call ::
  "('w, 'o) runner_env \<Rightarrow> proxy \<Rightarrow> string \<Rightarrow> 'o call_arg list \<Rightarrow> (string \<times> 'o call_arg) list \<Rightarrow> ('w, 'o proxy_result) rt_op" where
  "proxy_method_call q p n as kws = bnd (handle_text p) (\<lambda>h.
     remote_proxy_run_python_call q p (h @ ''.'' @ n) as kws)"

text \<open>An attribute: a method that is remembered, or the value.\<close>

datatype 'o attribute = Method string | AttrValue "'o rvalue"

definition proxy_getattr :: "('w, 'o) runner_env \<Rightarrow> ('o rvalue \<Rightarrow> bool) \<Rightarrow> proxy \<Rightarrow> string \<Rightarrow> ('w, 'o attribute) rt_op" where
  "proxy_getattr q truth p n = andthen (remote_proxy_autoprepare q p) (bnd (handle_text p) (\<lambda>h.
     let a = h @ ''.'' @ n; value = bnd (run_python q a (Some (proxy_timeout p))) (\<lambda>v. ret (AttrValue v)) in
     if px_spec p = None
     then bnd (iscallable q a) (\<lambda>v. if truth v then ret (Method n) else value)
     else value))"

definition proxy_setattr ::
  "('w, 'o) runner_env \<Rightarrow> (string \<Rightarrow> 'o pyobj) \<Rightarrow> proxy \<Rightarrow> string \<Rightarrow> 'o call_arg \<Rightarrow> ('w, 'o proxy_result) rt_op" where
  "proxy_setattr q str p n v = andthen (remote_proxy_autoprepare q p)
     (remote_proxy_run_python_call q p ''setattr'' [ArgProxy p, ArgVal (str n), v] [])"

definition proxy_getitem :: "('w, 'o) runner_env \<Rightarrow> proxy \<Rightarrow> 'o call_arg \<Rightarrow> ('w, 'o proxy_result) rt_op" where
  "proxy_getitem q p k = andthen (remote_proxy_autoprepare q p) (proxy_method_call q p ''__getitem__'' [k] [])"

definition proxy_setitem :: "('w, 'o) runner_env \<Rightarrow> proxy \<Rightarrow> 'o call_arg \<Rightarrow> 'o call_arg \<Rightarrow> ('w, 'o proxy_result) rt_op" where
  "proxy_setitem q p k v = andthen (remote_proxy_autoprepare q p) (proxy_method_call q p ''__setitem__'' [k, v] [])"

section \<open>Recursive proxies\<close>

definition recursive_or_basic_from_call ::
  "('w, 'o) runner_env \<Rightarrow> proxy \<Rightarrow> string \<Rightarrow> 'o call_arg list \<Rightarrow> (string \<times> 'o call_arg) list \<Rightarrow> ('w, 'o proxy_result) rt_op" where
  "recursive_or_basic_from_call q p fn as kws = proxy_response p [WrapRecursive]
     (get_proxy_or_basic_from_call_with_timeout q (Some (proxy_timeout p)) fn as kws)"

definition recursive_call ::
  "('w, 'o) runner_env \<Rightarrow> proxy \<Rightarrow> 'o call_arg list \<Rightarrow> (string \<times> 'o call_arg) list \<Rightarrow> ('w, 'o proxy_result) rt_op" where
  "recursive_call q p as kws = andthen (remote_proxy_autoprepare q p) (bnd (handle_text p) (\<lambda>h.
     recursive_or_basic_from_call q p h as kws))"

definition recursive_iter :: "('w, 'o) runner_env \<Rightarrow> proxy \<Rightarrow> ('w, 'o proxy_result) rt_op" where
  "recursive_iter q p = andthen (remote_proxy_autoprepare q p) (bnd (handle_text p) (\<lambda>h.
     recursive_or_basic_from_call q p (h @ ''.__iter__'') [] []))"

definition recursive_next :: "('w, 'o) runner_env \<Rightarrow> proxy \<Rightarrow> ('w, 'o proxy_result) rt_op" where
  "recursive_next q p = andthen (remote_proxy_verify p) (recursive_or_basic_from_call q p ''next'' [ArgProxy p] [])"

definition recursive_str :: "('w, 'o) runner_env \<Rightarrow> proxy \<Rightarrow> ('w, 'o proxy_result) rt_op" where
  "recursive_str q p = andthen (remote_proxy_autoprepare q p) (proxy_method_call q p ''__str__'' [] [])"

definition recursive_getattr ::
  "('w, 'o) runner_env \<Rightarrow> ('o rvalue \<Rightarrow> bool) \<Rightarrow> proxy \<Rightarrow> string \<Rightarrow> ('w, 'o proxy_result) rt_op" where
  "recursive_getattr q truth p n = andthen (remote_proxy_autoprepare q p) (bnd (handle_text p) (\<lambda>h.
     bnd (run_python q (''hasattr('' @ h @ '', '' @ py_repr False n @ '')'') (Some (proxy_timeout p))) (\<lambda>v.
       if \<not> truth v then throw AttributeError
       else proxy_response p [WrapRecursiveName (h @ ''.'' @ n)]
         (run_and_return_handled_python q (h @ ''.'' @ n)))))"
section \<open>A proxy whose content was moved\<close>

lemma clean_garbage_None: "None \<in> set gs \<Longrightarrow> clean_garbage q gs s = Some (Inl TypeError, s)"
  by (simp add: clean_garbage_def)

lemma run_with_None_garbage:
  assumes "rtm_session r \<noteq> None" "gm_clean_needed (rtm_session_id r) (rtm_garbage r)" "None \<in> set (gm_garbage (rtm_garbage r))"
  shows "rt_run q cmd tmo (r, w) = Some (Inl (RunnerTerminalSessionBroken (Some TypeError)), (r, w))"
  using assms by (simp add: rt_run_def clean_if_gm_needed_def clean_garbage_None session_broken_def is_Exception_def)

lemma run_without_cleaning:
  assumes "rtm_session r \<noteq> None" "\<not> gm_clean_needed (rtm_session_id r) (rtm_garbage r)"
  shows "rt_run q cmd tmo (r, w) = catching (run_in_session q cmd tmo) session_broken (r, w)"
  using assms by (auto simp: rt_run_def clean_if_gm_needed_def)

text \<open>The terminal after more garbage of its session.\<close>

definition with_garbage :: "string option list \<Rightarrow> runner_terminal \<Rightarrow> runner_terminal" where
  "with_garbage hs r = r\<lparr>rtm_garbage := (rtm_garbage r)\<lparr>gm_garbage := gm_garbage (rtm_garbage r) @ hs\<rparr>\<rparr>"

lemma with_garbage_simps [simp]:
  "rtm_session (with_garbage hs r) = rtm_session r" "rtm_session_id (with_garbage hs r) = rtm_session_id r"
  "gm_session_id (rtm_garbage (with_garbage hs r)) = gm_session_id (rtm_garbage r)"
  "gm_max_garbage (rtm_garbage (with_garbage hs r)) = gm_max_garbage (rtm_garbage r)"
  "gm_garbage (rtm_garbage (with_garbage hs r)) = gm_garbage (rtm_garbage r) @ hs"
  "with_garbage hs (with_garbage gs r) = with_garbage (gs @ hs) r" "with_garbage [] r = r"
  by (simp_all add: with_garbage_def)

lemma add_to_garbage_of_session:
  assumes "rtm_session_id r = Some i" "gm_session_id (rtm_garbage r) = Some i"
  shows "add_handle_to_garbage (Some i) h (r, w) = Some (Inr (), (with_garbage [h] r, w))"
  using assms by (simp add: add_handle_to_garbage_def gm_add_def with_garbage_def Let_def)

lemma add_all_to_garbage:
  assumes "rtm_session_id r = Some i" "gm_session_id (rtm_garbage r) = Some i"
  shows "for_each (add_handle_to_garbage (Some i)) hs (r, w) = Some (Inr (), (with_garbage hs r, w))"
  using assms by (induction hs arbitrary: r) (simp_all add: add_to_garbage_of_session)

text \<open>
  C39: \<open>set_from_remote_proxy\<close> leaves the emptied proxy without a handle, but valid (checking it raises
  nothing) and still the owner of a remote object of the session. When it goes, \<open>None\<close> joins the garbage of
  the session. From then on, whatever other handles \<open>hs\<close> become garbage, a command runs as if nothing had
  happened exactly as long as there are at most \<open>MAX_GARBAGE\<close> handles; as soon as there are more, and the
  garbage is to be collected, every command fails with \<open>RunnerTerminalSessionBroken\<close> before it is sent and
  leaves the state as it is: the garbage is never collected and the session is broken for good.
\<close>

theorem emptied_proxy_breaks_session:
  assumes "px_is_remote_owned p" "px_session_id p = Some (OfSession i)" "rtm_session_id r = Some i"
    and "gm_session_id (rtm_garbage r) = Some i" "rtm_session r \<noteq> None"
    and "e = snd (set_from_remote_proxy self p)"
  shows "px_handle e = None \<and> px_is_remote_owned e \<and> px_session_id e = Some (OfSession i) \<and>
    remote_proxy_verify e (r, w) = Some (Inr (), (r, w)) \<and>
    delete_remote_proxy e (r, w) = Some (Inr (), (with_garbage [None] r, w)) \<and>
    (\<forall>hs v. for_each (add_handle_to_garbage (Some i)) hs (with_garbage [None] r, v) =
       Some (Inr (), (with_garbage (None # hs) r, v))) \<and>
    (\<forall>hs q cmd tmo v. rt_run q cmd tmo (with_garbage (None # hs) r, v) =
       (if gm_max_garbage (rtm_garbage r) < length (gm_garbage (rtm_garbage r) @ None # hs)
        then Some (Inl (RunnerTerminalSessionBroken (Some TypeError)), (with_garbage (None # hs) r, v))
        else catching (run_in_session q cmd tmo) session_broken (with_garbage (None # hs) r, v)))"
proof (intro conjI allI)
  note e = assms(1-3,6) [unfolded set_from_remote_proxy_def snd_conv]
  show "px_handle e = None" "px_is_remote_owned e" "px_session_id e = Some (OfSession i)" using e by simp_all
  then show "remote_proxy_verify e (r, w) = Some (Inr (), (r, w))"
    "delete_remote_proxy e (r, w) = Some (Inr (), (with_garbage [None] r, w))"
    using assms(3,4)
    by (simp_all add: remote_proxy_verify_def delete_remote_proxy_def session_id_of_proxy_def add_to_garbage_of_session)
  show "for_each (add_handle_to_garbage (Some i)) hs (with_garbage [None] r, v) = Some (Inr (), (with_garbage (None # hs) r, v))"
    for hs v
    using add_all_to_garbage [of "with_garbage [None] r" i hs v] assms(3,4) by simp
  show "rt_run q cmd tmo (with_garbage (None # hs) r, v) =
       (if gm_max_garbage (rtm_garbage r) < length (gm_garbage (rtm_garbage r) @ None # hs)
        then Some (Inl (RunnerTerminalSessionBroken (Some TypeError)), (with_garbage (None # hs) r, v))
        else catching (run_in_session q cmd tmo) session_broken (with_garbage (None # hs) r, v))" for q hs cmd tmo v
  proof -
    have "gm_clean_needed (rtm_session_id (with_garbage (None # hs) r)) (rtm_garbage (with_garbage (None # hs) r)) \<longleftrightarrow>
        gm_max_garbage (rtm_garbage r) < length (gm_garbage (rtm_garbage r) @ None # hs)"
      using assms(3,4) by (simp add: gm_clean_needed_def)
    then show ?thesis using assms(5) by (simp add: run_with_None_garbage run_without_cleaning)
  qed
qed

definition crowded_terminal :: runner_terminal where
  "crowded_terminal = new_runner_terminal\<lparr>rtm_session := Some 0, rtm_session_id := Some 5,
     rtm_garbage := \<lparr>gm_max_garbage = 100, gm_session_id = Some 5, gm_garbage = replicate 100 (Some ''h'')\<rparr>\<rparr>"

lemma emptied_proxy_breaks_session_witness:
  "\<forall>(q :: (unit, unit) runner_env) cmd. rt_run q cmd None (with_garbage [None] crowded_terminal, ()) =
     Some (Inl (RunnerTerminalSessionBroken (Some TypeError)), (with_garbage [None] crowded_terminal, ()))"
proof -
  let ?p = "\<lparr>px_handle = Some ''h'', px_session_id = Some (OfSession 5), px_is_remote_owned = True, px_timeout = 1,
       px_async = False, px_spec = None, px_recursive = False\<rparr>"
  have r: "rtm_session_id crowded_terminal = Some 5" "gm_session_id (rtm_garbage crowded_terminal) = Some 5"
    "rtm_session crowded_terminal \<noteq> None" by (simp_all add: crowded_terminal_def)
  have p: "px_is_remote_owned ?p" "px_session_id ?p = Some (OfSession 5)" by simp_all
  have "gm_max_garbage (rtm_garbage crowded_terminal) < length (gm_garbage (rtm_garbage crowded_terminal) @ [None])"
    by (simp add: crowded_terminal_def)
  then show ?thesis
    by (simp add: emptied_proxy_breaks_session [where self = "new_proxy 1 None False False crowded_terminal", OF p r refl,
      THEN conjunct2, THEN conjunct2, THEN conjunct2, THEN conjunct2, THEN conjunct2, THEN conjunct2, THEN spec [of _ "[]"]])
qed

section \<open>Late responses\<close>

text \<open>
  What a call makes of the bytes it was answered with: another time-out, an exception, or the
  value after the conversions \<open>ws\<close>.
\<close>

definition settled :: "('w, 'o) runner_env \<Rightarrow> bytes \<Rightarrow> response_wrap list \<Rightarrow> 's \<Rightarrow> ('s, 'o rvalue) outcome" where
  "settled q out ws s = (case get_response_or_raise (rq_pickler q) out of
     Inl e \<Rightarrow> (case e of RemoteTimeout h \<Rightarrow> Some (Inl (RemoteTimeout (fst h, snd h @ ws)), s) | _ \<Rightarrow> Some (Inl e, s))
   | Inr v \<Rightarrow> Some (apply_wraps ws v, s))"

lemma apply_wraps_append: "apply_wraps (us @ ws) v = (case apply_wraps us v of Inl e \<Rightarrow> Inl e | Inr u \<Rightarrow> apply_wraps ws u)"
  by (induction us arbitrary: v) (auto split: sum.split)

lemma apply_wrap_error: "apply_wrap w v = Inl e \<Longrightarrow> e = AttributeError"
  by (induction w v rule: apply_wrap.induct) auto

lemma apply_wraps_error: "apply_wraps ws v = Inl e \<Longrightarrow> e = AttributeError"
  by (induction ws arbitrary: v) (auto dest: apply_wrap_error split: sum.splits)

lemma pass_on_timeout:
  "(case e of RemoteTimeout h \<Rightarrow> throw (RemoteTimeout (add_response_wraps ws h)) | _ \<Rightarrow> throw e) s =
   Some (Inl (case e of RemoteTimeout h \<Rightarrow> RemoteTimeout (fst h, snd h @ ws) | _ \<Rightarrow> e), s)"
  by (cases e) (simp_all add: add_response_wraps_def)

lemma settled_alt: "settled q out ws s = Some (case get_response_or_raise (rq_pickler q) out of
     Inl e \<Rightarrow> Inl (case e of RemoteTimeout h \<Rightarrow> RemoteTimeout (fst h, snd h @ ws) | _ \<Rightarrow> e)
   | Inr v \<Rightarrow> apply_wraps ws v, s)"
  unfolding settled_def by (cases "get_response_or_raise (rq_pickler q) out") (auto split: exn.split)

lemma handler_settled:
  assumes "m s = settled q out us s1"
  shows "remotetimeouthandler ws (bnd m (\<lambda>v. of_sum (apply_wraps ws v))) s = settled q out (us @ ws) s1"
proof (cases "get_response_or_raise (rq_pickler q) out")
  case (Inl e)
  then show ?thesis
    using assms by (cases e) (simp_all add: remotetimeouthandler_def settled_alt add_response_wraps_def)
next
  case (Inr v)
  have "apply_wraps (us @ ws) v = Inl e \<Longrightarrow> e = AttributeError" for e using apply_wraps_error .
  then show ?thesis
    using assms Inr apply_wraps_error [of us v]
    by (cases "apply_wraps us v"; cases "apply_wraps (us @ ws) v")
      (auto simp: remotetimeouthandler_def settled_alt apply_wraps_append)
qed

lemma remote_run_settled:
  assumes "\<And>m. rq_error_handling q m = m"
    and "rt_run q (template (rq_float_text q (remote_timeout_of tmo (fst s)))) (run_timeout_of tmo (fst s)) s = Some (Inr out, s1)"
  shows "remote_run q wr template tmo s = settled q out [wr] s1"
proof (cases "get_response_or_raise (rq_pickler q) out")
  case (Inl e)
  then show ?thesis
    using assms by (cases e) (simp_all add: remote_run_def Let_def remotetimeouthandler_def settled_alt add_response_wraps_def)
next
  case (Inr v)
  then show ?thesis
    using assms apply_wrap_error [of wr v]
    by (cases "apply_wrap wr v") (auto simp: remote_run_def Let_def remotetimeouthandler_def settled_alt)
qed

definition method_wraps :: "string \<Rightarrow> response_wrap list" where
  "method_wraps n = [WrapHandled, WrapProxyOrBasic n, WrapRecursive]"

text \<open>
  C28: a method call through a recursive proxy that times out is continued where it was: the handle of
  the time-out carries the conversions that were still to come, and fetching the response with
  it makes of an answer exactly what the call would have made of the same answer.
\<close>

theorem late_response_converts_alike:
  assumes "\<And>m. rq_error_handling q m = m"
    and "rt_run q (assign_and_run_template n code (rq_float_text q (remote_timeout_of tmo (fst s)))) (run_timeout_of tmo (fst s)) s =
      Some (Inr out, s1)"
    and "rt_run q (get_response_template i (rq_float_text q (remote_timeout_of tmo2 (fst s2)))) (run_timeout_of tmo2 (fst s2)) s2 =
      Some (Inr late, s3)"
  shows "responsehandler (remotetimeouthandler [WrapProxyOrBasic n] (bnd (assign_and_run_python q n code tmo)
        (\<lambda>v. of_sum (apply_wrap (WrapProxyOrBasic n) v)))) [WrapRecursive] s = settled q out (method_wraps n) s1 \<and>
    rt_get_response q (i, method_wraps n) tmo2 s2 = settled q late (WrapId # method_wraps n) s3"
proof
  have one: "(\<lambda>v. of_sum (apply_wrap w v)) = (\<lambda>v. of_sum (apply_wraps [w] v) :: ('s, 'b rvalue) py)" for w
    by (auto simp: fun_eq_iff split: sum.split)
  have "assign_and_run_python q n code tmo s = settled q out [WrapHandled] s1"
    unfolding assign_and_run_python_def by (rule remote_run_settled) (use assms in auto)
  from handler_settled [where m = "assign_and_run_python q n code tmo", OF this, of "[WrapProxyOrBasic n]"]
  have "remotetimeouthandler [WrapProxyOrBasic n] (bnd (assign_and_run_python q n code tmo)
      (\<lambda>v. of_sum (apply_wraps [WrapProxyOrBasic n] v))) s = settled q out [WrapHandled, WrapProxyOrBasic n] s1" by simp
  from handler_settled [where m = "remotetimeouthandler _ _", OF this, of "[WrapRecursive]"]
  show "responsehandler (remotetimeouthandler [WrapProxyOrBasic n] (bnd (assign_and_run_python q n code tmo)
        (\<lambda>v. of_sum (apply_wrap (WrapProxyOrBasic n) v)))) [WrapRecursive] s = settled q out (method_wraps n) s1"
    unfolding responsehandler_def one method_wraps_def by simp
  have "get_response_raw q i tmo2 s2 = settled q late [WrapId] s3"
    unfolding get_response_raw_def by (rule remote_run_settled) (use assms in auto)
  from handler_settled [where m = "get_response_raw q i tmo2", OF this, of "method_wraps n"]
  show "rt_get_response q (i, method_wraps n) tmo2 s2 = settled q late (WrapId # method_wraps n) s3"
    by (simp add: rt_get_response_def)
qed

definition demo_env :: "(unit, unit) runner_env" where
  "demo_env = \<lparr>rq_get_session = \<lambda>_ _. Some 0, rq_push_python = \<lambda>_. ret (), rq_exec_command = \<lambda>_ _ _. ret ''R'',
     rq_close_terminal = \<lambda>_. ret (), rq_setup = ret (), rq_close = ret (), rq_initialize_if_needed = ret (),
     rq_error_handling = \<lambda>m. m, rq_handler_source = PyNone, rq_pickler = tiny_pickler, rq_float_text = \<lambda>_. ''1.0'',
     rq_uuid = ret ''u''\<rparr>"

lemma demo_env_run:
  "rt_run demo_env cmd tmo (crowded_terminal, ()) = Some (Inr ''R'', (crowded_terminal, ()))"
  by (simp add: rt_run_def demo_env_def crowded_terminal_def clean_if_gm_needed_def gm_clean_needed_def run_in_session_def
      rt_session_def rt_get_session_def)

lemma late_response_converts_alike_witness:
  "rt_get_response demo_env (3, method_wraps ''n'') None (crowded_terminal, ()) =
    settled demo_env ''R'' (WrapId # method_wraps ''n'') (crowded_terminal, ())"
  by (rule conjunct2 [OF late_response_converts_alike [OF _ demo_env_run demo_env_run]]) (simp add: demo_env_def)

end
