(* ===== verification/RemoteImports.thy ===== *)
theory RemoteImports
  imports RemoteProxies
begin

text \<open>
  \<open>remoteimporter.py\<close> and \<open>_remoterunnerproxies.py\<close>: importing a local module at the other end and
  the proxies the processes of a terminal are run with. The proxies of a terminal are created
  empty, once, and filled again for every session by \<open>prepare\<close>. The state is the record of the
  proxies beside the state of the terminal; the local interpreter and the files are arguments.
\<close>

section \<open>Names of files and modules\<close>

text \<open>The first part of \<open>os.path.splitext\<close>, for POSIX paths.\<close>

definition splitext_root :: "string \<Rightarrow> string" where
  "splitext_root p =
     (let b = path_basename p; n = length (takeWhile (\<lambda>c. c \<noteq> CHR ''.'') (rev b)) + 1 in
      if CHR ''.'' \<in> set b \<and> list_ex (\<lambda>c. c \<noteq> CHR ''.'') (take (length b - n) b) then take (length p - n) p else p)"

section \<open>Importing a module at one end\<close>

text \<open>
  The three operations an end offers: a new module, executing a source in it, entering it into
  \<open>sys.modules\<close>. What stands for the module is given up when the import is over.
\<close>

record ('s, 'm, 'o) module_importer =
  mi_moduletype :: "string \<Rightarrow> ('s, 'm) py"
  mi_exec_in_module :: "'o pyobj \<Rightarrow> 'm \<Rightarrow> ('s, unit) py"
  mi_set_module :: "string \<Rightarrow> 'm \<Rightarrow> ('s, unit) py"
  mi_release :: "'m \<Rightarrow> ('s, unit) py"

definition import_at :: "('s, 'm, 'o) module_importer \<Rightarrow> string \<Rightarrow> 'o pyobj \<Rightarrow> ('s, unit) py" where
  "import_at i name content = bnd (mi_moduletype i name) (\<lambda>m.
     finally_do (andthen (mi_exec_in_module i content m) (mi_set_module i name m)) (mi_release i m))"

section \<open>The importer\<close>

record remote_importer =
  ri_sys_modules :: proxy
  ri_moduletype :: proxy
  ri_exec_in_module :: proxy
  ri_timeout :: rat

type_synonym ('p, 'w, 'a) proxies_op = "('p \<times> runner_terminal \<times> 'w, 'a) py"

text \<open>
  The text of a name as an object, the default time-out of proxies, the local end and the files.
\<close>

record ('w, 'm, 'o) import_env =
  ie_str :: "string \<Rightarrow> 'o pyobj"
  ie_default_timeout :: rat
  ie_local :: "('w, 'm, 'o) module_importer"
  ie_read_file :: "string \<Rightarrow> ('w, 'o pyobj) py"

definition new_remote_importer :: "('w, 'm, 'o) import_env \<Rightarrow> rat \<Rightarrow> ('w, remote_importer) rt_op" where
  "new_remote_importer e tmo = bnd (create_empty_remote_proxy (ie_default_timeout e)) (\<lambda>s.
     bnd (create_empty_recursive_proxy (ie_default_timeout e)) (\<lambda>m.
       bnd (create_empty_remote_proxy (ie_default_timeout e)) (\<lambda>x.
         ret \<lparr>ri_sys_modules = s, ri_moduletype = m, ri_exec_in_module = x, ri_timeout = tmo\<rparr>)))"

definition get_remote_obj :: "string \<Rightarrow> string" where
  "get_remote_obj n = in_namespace n"

text \<open>\<open>set_from_remote_proxy\<close> on one of several proxies; the emptied one is not needed any more.\<close>

definition set_proxy ::
  "((proxy \<Rightarrow> proxy) \<Rightarrow> 'p \<Rightarrow> 'p) \<Rightarrow> ('w, proxy) rt_op \<Rightarrow> ('p, 'w, unit) proxies_op" where
  "set_proxy update m = bnd (in_world m) (\<lambda>p.
     andthen (upd (update (\<lambda>self. fst (set_from_remote_proxy self p))))
       (in_world (delete_remote_proxy (snd (set_from_remote_proxy p p)))))"

definition setup_importer_proxies :: "('w, 'm, 'o) import_env \<Rightarrow> (remote_importer, 'w, unit) proxies_op" where
  "setup_importer_proxies e = (let t = ie_default_timeout e in
     andthen (set_proxy ri_sys_modules_update (get_proxy_object t ''sys.modules''))
       (andthen (set_proxy ri_moduletype_update (get_recursive_proxy t (get_remote_obj ''create_module'')))
         (set_proxy ri_exec_in_module_update (get_proxy_object t (get_remote_obj ''exec_in_module'')))))"

definition prepare_importer ::
  "('w, 'o) runner_env \<Rightarrow> ('w, 'm, 'o) import_env \<Rightarrow> (remote_importer, 'w, unit) proxies_op" where
  "prepare_importer q e = andthen (in_world (import_libraries q [''sys'', ''types''])) (setup_importer_proxies e)"

text \<open>
  What a call of a recursive proxy returns: an object, or a recursive proxy whose parent owns
  the remote object. The proxies of the importer are synchronous.
\<close>

definition returned_object ::
  "('w, 'o) runner_env \<Rightarrow> rat \<Rightarrow> 'o proxy_result \<Rightarrow> ('w, 'o call_arg \<times> proxy option) rt_op" where
  "returned_object q tmo res = (case res of
     ProxyValue (RObj x) \<Rightarrow> ret (ArgVal x, None)
   | ProxyValue (RProxy h b) \<Rightarrow> bnd (gets fst) (\<lambda>r. let owner = new_proxy tmo (Some h) True False r in
       if b then bnd (as_recursive_proxy q owner) (\<lambda>p. ret (ArgProxy p, Some owner))
       else ret (ArgProxy owner, Some owner))
   | _ \<Rightarrow> throw TypeError)"

definition remote_module_importer ::
  "('w, 'o) runner_env \<Rightarrow> ('w, 'm, 'o) import_env \<Rightarrow> remote_importer \<Rightarrow>
   (runner_terminal \<times> 'w, 'o call_arg \<times> proxy option, 'o) module_importer" where
  "remote_module_importer q e ri =
     \<lparr>mi_moduletype = (\<lambda>n. bnd (recursive_call q (ri_moduletype ri) [ArgVal (ie_str e n)] [])
        (returned_object q (ie_default_timeout e))),
      mi_exec_in_module = (\<lambda>c m. bnd (proxy_call q (ri_exec_in_module ri) [ArgVal c, fst m] []) (\<lambda>_. ret ())),
      mi_set_module = (\<lambda>n m. bnd (proxy_setitem q (ri_sys_modules ri) (ArgVal (ie_str e n)) (fst m)) (\<lambda>_. ret ())),
      mi_release = (\<lambda>m. case snd m of None \<Rightarrow> ret () | Some p \<Rightarrow> delete_remote_proxy p)\<rparr>"

definition importfile ::
  "('w, 'o) runner_env \<Rightarrow> ('w, 'm, 'o) import_env \<Rightarrow> remote_importer \<Rightarrow> string \<Rightarrow> ('w, unit) rt_op" where
  "importfile q e ri path = (let name = splitext_root (path_basename path) in
     bnd (in_world (ie_read_file e path)) (\<lambda>content.
       andthen (import_at (remote_module_importer q e ri) name content)
         (andthen (in_world (import_at (ie_local e) name content)) (import_libraries q [name]))))"

text \<open>The source of a module stands beside what it was loaded from.\<close>

definition importmodule ::
  "('w, 'o) runner_env \<Rightarrow> ('w, 'm, 'o) import_env \<Rightarrow> remote_importer \<Rightarrow> string \<Rightarrow> ('w, unit) rt_op" where
  "importmodule q e ri file = importfile q e ri (splitext_root file @ ''.py'')"

section \<open>The proxies of a terminal\<close>

record runner_proxies =
  rp_killpg :: proxy
  rp_getpgid :: proxy
  rp_setsid :: proxy
  rp_environ :: proxy
  rp_popen :: proxy
  rp_pipe :: proxy
  rp_iter_until_empty :: proxy
  rp_daemon_popen :: proxy
  rp_proxy_timeout :: rat
  rp_importer :: remote_importer

definition setup_proxy_timeout :: "rat \<Rightarrow> runner_proxies \<Rightarrow> runner_proxies" where
  "setup_proxy_timeout dflt s = (let t = set_remote_proxy_timeout dflt (Some (rp_proxy_timeout s)) in
     s\<lparr>rp_killpg := t (rp_killpg s), rp_getpgid := t (rp_getpgid s), rp_setsid := t (rp_setsid s),
       rp_popen := t (rp_popen s), rp_pipe := t (rp_pipe s), rp_iter_until_empty := t (rp_iter_until_empty s),
       rp_environ := t (rp_environ s), rp_daemon_popen := t (rp_daemon_popen s)\<rparr>)"

definition new_runner_proxies :: "('w, 'm, 'o) import_env \<Rightarrow> ('w, runner_proxies) rt_op" where
  "new_runner_proxies e = (let d = ie_default_timeout e in
     bnd (create_empty_remote_proxy d) (\<lambda>p. bnd (create_empty_recursive_proxy d) (\<lambda>r.
       bnd (new_remote_importer e 30) (\<lambda>i. ret (setup_proxy_timeout d
         \<lparr>rp_killpg = p, rp_getpgid = p, rp_setsid = p, rp_environ = p, rp_popen = r, rp_pipe = p,
          rp_iter_until_empty = r, rp_daemon_popen = p, rp_proxy_timeout = 30, rp_importer = i\<rparr>)))))"

definition with_importer :: "(remote_importer, 'w, 'a) proxies_op \<Rightarrow> (runner_proxies, 'w, 'a) proxies_op" where
  "with_importer m = (\<lambda>(s, rw). case m (rp_importer s, rw) of
     None \<Rightarrow> None | Some (x, (i, rw')) \<Rightarrow> Some (x, (s\<lparr>rp_importer := i\<rparr>, rw')))"

definition setup_subprocess_proxies :: "rat \<Rightarrow> (runner_proxies, 'w, unit) proxies_op" where
  "setup_subprocess_proxies d = andthen (set_proxy rp_popen_update (get_recursive_proxy d ''subprocess.Popen''))
     (set_proxy rp_pipe_update (get_proxy_object d ''subprocess.PIPE''))"

definition setup_os_proxies :: "('w, 'o) runner_env \<Rightarrow> rat \<Rightarrow> (runner_proxies, 'w, unit) proxies_op" where
  "setup_os_proxies q d = andthen (set_proxy rp_killpg_update (get_proxy_object d ''os.killpg''))
     (andthen (set_proxy rp_getpgid_update (get_proxy_object d ''os.getpgid''))
       (andthen (set_proxy rp_setsid_update (get_proxy_object d ''os.setsid''))
         (bnd (in_world (run_python q ''_dictenviron = dict(os.environ)'' None)) (\<lambda>_.
           set_proxy rp_environ_update (get_proxy_object d ''_dictenviron'')))))"

text \<open>\<open>daemonizer.py\<close> is imported from the file it was loaded from here.\<close>

definition setup_daemonizer_proxy ::
  "('w, 'o) runner_env \<Rightarrow> ('w, 'm, 'o) import_env \<Rightarrow> string \<Rightarrow> (runner_proxies, 'w, unit) proxies_op" where
  "setup_daemonizer_proxy q e file = bnd (gets (\<lambda>(s, rw). rp_importer s)) (\<lambda>ri.
     andthen (in_world (importmodule q e ri file))
       (set_proxy rp_daemon_popen_update (get_proxy_object (ie_default_timeout e) ''daemonizer.daemon_popen'')))"

definition setup_runner_proxies ::
  "('w, 'o) runner_env \<Rightarrow> ('w, 'm, 'o) import_env \<Rightarrow> string \<Rightarrow> (runner_proxies, 'w, unit) proxies_op" where
  "setup_runner_proxies q e file = (let d = ie_default_timeout e in
     andthen (setup_subprocess_proxies d) (andthen (setup_os_proxies q d)
       (andthen (set_proxy rp_iter_until_empty_update (get_recursive_proxy d (get_remote_obj ''iter_until_empty'')))
         (setup_daemonizer_proxy q e file))))"

definition prepare_runner_proxies ::
  "('w, 'o) runner_env \<Rightarrow> ('w, 'm, 'o) import_env \<Rightarrow> string \<Rightarrow> (runner_proxies, 'w, unit) proxies_op" where
  "prepare_runner_proxies q e file = andthen (in_world (import_libraries q [''os'', ''subprocess'']))
     (andthen (with_importer (prepare_importer q e)) (setup_runner_proxies q e file))"

section \<open>Calls that stay in their session\<close>

definition same_sid :: "runner_terminal \<times> 'w \<Rightarrow> runner_terminal \<times> 'w \<Rightarrow> bool" where
  "same_sid s t \<longleftrightarrow> rtm_session_id (fst t) = rtm_session_id (fst s)"

interpretation sid: step_relation same_sid
  by unfold_locales (simp_all add: same_sid_def)

lemma sid_in_world [intro]: "keeps same_sid (in_world m)"
  by (auto simp: keeps_def same_sid_def in_world_def split: option.splits)

lemma sid_upd [intro]: "(\<And>r. rtm_session_id (f r) = rtm_session_id r) \<Longrightarrow> keeps same_sid (upd f)"
  by (auto simp: keeps_def same_sid_def upd_def)

lemma sid_rt_get_session: "keeps same_sid (rt_get_session q)"
  by (auto simp: keeps_def same_sid_def rt_get_session_def split: option.splits)

text \<open>The session of the terminal is not replaced by its own recovery: the hypotheses of this section.\<close>

definition stays_in_session :: "('w, 'o) runner_env \<Rightarrow> bool" where
  "stays_in_session q \<longleftrightarrow> keeps same_sid (rq_initialize_if_needed q) \<and>
     (\<forall>m. keeps same_sid m \<longrightarrow> keeps same_sid (rq_error_handling q m))"

lemmas sid_splits = keeps_splits sid.keeps

lemma sid_run_in_session: "keeps same_sid (run_in_session q cmd tmo)"
  unfolding run_in_session_def rt_session_def
  by (intro sid_splits sid_in_world sid_rt_get_session)

lemma sid_rt_run: "keeps same_sid (rt_run q cmd tmo)"
  unfolding rt_run_def clean_if_gm_needed_def clean_garbage_def session_broken_def
  by (intro sid_splits sid_run_in_session sid_upd) simp_all

lemma sid_remotetimeouthandler:
  assumes "keeps same_sid m"
  shows "keeps same_sid (remotetimeouthandler ws m)"
  unfolding remotetimeouthandler_def
proof (rule sid.keeps_catching [OF assms])
  show "keeps same_sid (case e of RemoteTimeout h \<Rightarrow> throw (RemoteTimeout (add_response_wraps ws h)) | _ \<Rightarrow> throw e)" for e
    by (cases e) (simp_all add: sid.keeps_simple)
qed

lemma stays_in_sessionD:
  assumes "stays_in_session q"
  shows "keeps same_sid (rq_initialize_if_needed q)" "keeps same_sid m \<Longrightarrow> keeps same_sid (rq_error_handling q m)"
  using assms by (simp_all add: stays_in_session_def)

lemma sid_run_python:
  assumes "stays_in_session q"
  shows "keeps same_sid (run_python q cmd tmo)" "keeps same_sid (assign_and_run_python q h cmd tmo)"
  unfolding run_python_def assign_and_run_python_def remote_run_def Let_def
  by (intro sid.keeps sid_remotetimeouthandler stays_in_sessionD [OF assms] sid_rt_run)+

lemma sid_autoprepare:
  assumes "stays_in_session q"
  shows "keeps same_sid (remote_proxy_autoprepare q p)"
  unfolding remote_proxy_autoprepare_def remote_proxy_verify_def
  by (intro sid_splits stays_in_sessionD [OF assms])

lemma sid_handle_text: "keeps same_sid (handle_text p)"
  by (simp add: handle_text_def sid.keeps_simple split: option.split)

lemma sid_get_python_call:
  assumes "stays_in_session q"
  shows "keeps same_sid (get_python_call q fn as kws)"
proof -
  have "keeps same_sid (get_python_arg q a)" for a
    unfolding get_python_arg_def get_proxy_handle_def
    by (cases a) (auto intro!: sid_splits sid_autoprepare [OF assms])
  then have "keeps same_sid (python_args q xs)" for xs
    by (induction q xs rule: python_args.induct) (auto intro!: sid.keeps)
  then show ?thesis unfolding get_python_call_def by (intro sid.keeps)
qed

lemma sid_proxy_response:
  assumes "keeps same_sid f"
  shows "keeps same_sid (proxy_response p ws f)"
proof -
  have r: "keeps same_sid (responsehandler f ws)"
    unfolding responsehandler_def by (intro sid_remotetimeouthandler sid.keeps assms)
  have "keeps same_sid (asyncresponsehandler f ws)"
    unfolding asyncresponsehandler_def
  proof (rule sid.keeps_catching)
    show "keeps same_sid (case e of RemoteTimeout h \<Rightarrow> ret (Some h) | _ \<Rightarrow> throw e)" for e
      by (cases e) (simp_all add: sid.keeps_simple)
  qed (intro sid.keeps r)
  with r show ?thesis unfolding proxy_response_def by (intro sid_splits)
qed

lemma sid_proxy_calls:
  assumes "stays_in_session q"
  shows "keeps same_sid (proxy_call q p as kws)" "keeps same_sid (proxy_setitem q p k x)"
    "keeps same_sid (recursive_call q p as kws)" "keeps same_sid (as_recursive_proxy q p)"
  unfolding proxy_call_def proxy_setitem_def proxy_method_call_def remote_proxy_run_python_call_def
    run_python_call_with_timeout_def recursive_call_def recursive_or_basic_from_call_def
    get_proxy_or_basic_from_call_with_timeout_def random_handle_name_def as_recursive_proxy_def
  by (intro sid.keeps sid_proxy_response sid_remotetimeouthandler sid_autoprepare [OF assms] sid_handle_text
      sid_get_python_call [OF assms] sid_run_python [OF assms] sid_in_world)+

lemma sid_delete: "keeps same_sid (delete_remote_proxy p)"
  unfolding delete_remote_proxy_def add_handle_to_garbage_def
  by (intro sid_splits sid_upd) simp

lemma sid_import_libraries: "keeps same_sid (import_libraries q ls)"
  unfolding import_libraries_def by (intro sid.keeps sid_rt_run)

lemma sid_importmodule:
  assumes "stays_in_session q"
  shows "keeps same_sid (importmodule q e ri file)"
proof -
  have "keeps same_sid (returned_object q t res)" for t res
    unfolding returned_object_def Let_def
    by (cases res) (auto split: rvalue.split intro!: sid_splits sid_proxy_calls [OF assms])
  then show ?thesis
    unfolding importmodule_def importfile_def import_at_def remote_module_importer_def Let_def
    by (simp, intro sid_splits sid_proxy_calls [OF assms] sid_delete sid_in_world sid_import_libraries)
qed

section \<open>Prepared proxies\<close>

definition filled :: "proxy \<Rightarrow> rat \<Rightarrow> string \<Rightarrow> bool \<Rightarrow> runner_terminal \<Rightarrow> proxy" where
  "filled self d n rec r = fst (set_from_remote_proxy self (new_proxy d (Some n) False rec r))"

lemma set_proxy_app:
  "set_proxy u (get_proxy_object d n) (s, r, w) = Some (Inr (), (u (\<lambda>self. filled self d n False r) s, r, w))"
  "set_proxy u (get_recursive_proxy d n) (s, r, w) = Some (Inr (), (u (\<lambda>self. filled self d n True r) s, r, w))"
  by (simp_all add: set_proxy_def get_proxy_object_def get_recursive_proxy_def delete_remote_proxy_def
      set_from_remote_proxy_def new_proxy_def filled_def)

text \<open>A proxy that can be used in the session \<open>i\<close>, for the remote object \<open>n\<close>, with its time-out.\<close>

definition usable :: "nat \<Rightarrow> rat \<Rightarrow> string \<Rightarrow> proxy \<Rightarrow> bool" where
  "usable i t n p \<longleftrightarrow> px_handle p = Some n \<and> px_session_id p = Some (OfSession i) \<and> px_timeout p = t \<and>
     \<not> px_is_remote_owned p \<and> \<not> px_async p"

lemma usable_filled:
  "rtm_session_id r = Some i \<Longrightarrow> usable i (px_timeout self) n (filled self d n rec r)"
  by (simp add: usable_def filled_def set_from_remote_proxy_def new_proxy_def proxy_id_of_def)

text \<open>The proxies of a terminal with the names of what they stand for.\<close>

definition prepared :: "nat \<Rightarrow> runner_proxies \<Rightarrow> runner_proxies \<Rightarrow> bool" where
  "prepared i s s' \<longleftrightarrow> list_all (\<lambda>(f, n). usable i (px_timeout (f s)) n (f s'))
     [(rp_killpg, ''os.killpg''), (rp_getpgid, ''os.getpgid''), (rp_setsid, ''os.setsid''),
      (rp_environ, ''_dictenviron''), (rp_popen, ''subprocess.Popen''), (rp_pipe, ''subprocess.PIPE''),
      (rp_iter_until_empty, get_remote_obj ''iter_until_empty''), (rp_daemon_popen, ''daemonizer.daemon_popen''),
      (ri_sys_modules \<circ> rp_importer, ''sys.modules''),
      (ri_moduletype \<circ> rp_importer, get_remote_obj ''create_module''),
      (ri_exec_in_module \<circ> rp_importer, get_remote_obj ''exec_in_module'')]"

lemma in_world_result:
  assumes "in_world m (s, r, w) = Some (x, (s', r', w'))"
  shows "s' = s" "m (r, w) = Some (x, (r', w'))"
  using assms by (auto split: option.splits)

lemma prepare_importer_result:
  assumes "prepare_importer q e (s, r, w) = Some (Inr (), (s', r', w'))" "rtm_session_id r = Some i"
  shows "rtm_session_id r' = Some i" "ri_timeout s' = ri_timeout s"
    "usable i (px_timeout (ri_sys_modules s)) ''sys.modules'' (ri_sys_modules s')"
    "usable i (px_timeout (ri_moduletype s)) (get_remote_obj ''create_module'') (ri_moduletype s')"
    "usable i (px_timeout (ri_exec_in_module s)) (get_remote_obj ''exec_in_module'') (ri_exec_in_module s')"
proof -
  obtain r1 w1 where l: "import_libraries q [''sys'', ''types''] (r, w) = Some (Inr (), (r1, w1))"
    and s: "setup_importer_proxies e (s, r1, w1) = Some (Inr (), (s', r', w'))"
    using assms(1) by (auto simp: prepare_importer_def elim!: seq_outcome_cases split: option.splits)
  have "rtm_session_id r1 = Some i"
    using keepsD [OF sid_import_libraries l] assms(2) by (simp add: same_sid_def)
  with s show "rtm_session_id r' = Some i" "ri_timeout s' = ri_timeout s"
    "usable i (px_timeout (ri_sys_modules s)) ''sys.modules'' (ri_sys_modules s')"
    "usable i (px_timeout (ri_moduletype s)) (get_remote_obj ''create_module'') (ri_moduletype s')"
    "usable i (px_timeout (ri_exec_in_module s)) (get_remote_obj ''exec_in_module'') (ri_exec_in_module s')"
    by (auto simp: setup_importer_proxies_def Let_def set_proxy_app usable_filled)
qed

text \<open>
  C30: when the preparation of a terminal returns, each of its proxies stands for the remote object it is
  named after, in the session that is open, without owning it and with the time-out it had: after
  a recovered session the same proxies work as before.
\<close>

theorem prepared_proxies_work:
  assumes "stays_in_session q" "rtm_session_id r = Some i"
    and "prepare_runner_proxies q e file (s, r, w) = Some (Inr (), (s', r', w'))"
  shows "prepared i s s' \<and> rtm_session_id r' = Some i"
proof -
  have sid: "rtm_session_id r2 = Some i" if "keeps same_sid m" "m (r1, w1) = Some (x, (r2, w2))" "rtm_session_id r1 = Some i"
    for m :: "('a, 'z) rt_op" and r1 w1 x r2 w2
    using keepsD [OF that(1,2)] that(3) by (simp add: same_sid_def)
  obtain r1 w1 where 1: "import_libraries q [''os'', ''subprocess''] (r, w) = Some (Inr (), (r1, w1))"
    and p: "andthen (with_importer (prepare_importer q e)) (setup_runner_proxies q e file) (s, r1, w1) = Some (Inr (), (s', r', w'))"
    using assms(3) by (auto simp: prepare_runner_proxies_def elim!: seq_outcome_cases split: option.splits)
  obtain j r2 w2 where 2: "prepare_importer q e (rp_importer s, r1, w1) = Some (Inr (), (j, r2, w2))"
    and "setup_runner_proxies q e file (s\<lparr>rp_importer := j\<rparr>, r2, w2) = Some (Inr (), (s', r', w'))"
    using p by (auto simp: with_importer_def elim!: seq_outcome_cases split: option.splits)
  then obtain v r3 w3 where 3: "run_python q ''_dictenviron = dict(os.environ)'' None (r2, w2) = Some (Inr v, (r3, w3))"
    and 4: "importmodule q e j file (r3, w3) = Some (Inr (), (r', w'))"
    and s': "s' = (let d = ie_default_timeout e in s\<lparr>rp_importer := j, rp_popen := filled (rp_popen s) d ''subprocess.Popen'' True r2,
       rp_pipe := filled (rp_pipe s) d ''subprocess.PIPE'' False r2, rp_killpg := filled (rp_killpg s) d ''os.killpg'' False r2,
       rp_getpgid := filled (rp_getpgid s) d ''os.getpgid'' False r2, rp_setsid := filled (rp_setsid s) d ''os.setsid'' False r2,
       rp_environ := filled (rp_environ s) d ''_dictenviron'' False r3,
       rp_iter_until_empty := filled (rp_iter_until_empty s) d (get_remote_obj ''iter_until_empty'') True r3,
       rp_daemon_popen := filled (rp_daemon_popen s) d ''daemonizer.daemon_popen'' False r'\<rparr>)"
    by (auto simp: setup_runner_proxies_def setup_subprocess_proxies_def setup_os_proxies_def setup_daemonizer_proxy_def
        set_proxy_app Let_def elim!: seq_outcome_cases split: option.splits)
  note r1 = sid [OF sid_import_libraries 1 assms(2)]
  note imp = prepare_importer_result [OF 2 r1]
  note r3 = sid [OF sid_run_python(1) [OF assms(1)] 3 imp(1)]
  note r4 = sid [OF sid_importmodule [OF assms(1)] 4 r3]
  show ?thesis
    using imp r3 r4 by (simp add: s' prepared_def Let_def usable_filled)
qed

definition idle_terminal :: runner_terminal where
  "idle_terminal = new_runner_terminal\<lparr>rtm_session := Some 0, rtm_session_id := Some 5\<rparr>"

definition demo_import :: "(unit, unit, unit) import_env" where
  "demo_import = \<lparr>ie_str = \<lambda>_. PyNone, ie_default_timeout = 3600,
     ie_local = \<lparr>mi_moduletype = \<lambda>_. ret (), mi_exec_in_module = \<lambda>_ _. ret (), mi_set_module = \<lambda>_ _. ret (), mi_release = \<lambda>_. ret ()\<rparr>,
     ie_read_file = \<lambda>_. ret PyNone\<rparr>"

definition demo_ready :: "runner_terminal \<Rightarrow> bool" where
  "demo_ready r \<longleftrightarrow> rtm_session r = Some 0 \<and> rtm_session_id r = Some 5 \<and> length (gm_garbage (rtm_garbage r)) < 2 \<and>
     gm_max_garbage (rtm_garbage r) = 100"

lemma demo_rt_run: "demo_ready r \<Longrightarrow> rt_run demo_env cmd tmo (r, ()) = Some (Inr ''R'', (r, ()))"
  by (auto simp: demo_ready_def rt_run_def demo_env_def clean_if_gm_needed_def gm_clean_needed_def run_in_session_def
      rt_session_def rt_get_session_def)

lemma demo_answer: "get_response_or_raise (rq_pickler demo_env) ''R'' = Inr (RReturn ''run'' PyNone)"
  by (simp add: demo_env_def tiny_pickler_def get_response_or_raise_def try_to_deserialize_def unpickle_output_def
      identity_or_raise_def try_to_unpickle_def)

lemma demo_runs:
  assumes "demo_ready r"
  shows "run_python demo_env cmd tmo (r, ()) = Some (Inr (RObj PyNone), (r, ()))"
    "assign_and_run_python demo_env h cmd tmo (r, ()) = Some (Inr (RHandled False PyNone), (r, ()))"
    "import_libraries demo_env ls (r, ()) = Some (Inr (), (r, ()))"
proof -
  have e: "rq_error_handling demo_env m = m" for m by (simp add: demo_env_def)
  show "run_python demo_env cmd tmo (r, ()) = Some (Inr (RObj PyNone), (r, ()))"
    "assign_and_run_python demo_env h cmd tmo (r, ()) = Some (Inr (RHandled False PyNone), (r, ()))"
    unfolding run_python_def assign_and_run_python_def
    by (simp_all add: remote_run_settled [OF e demo_rt_run [OF assms]] settled_def demo_answer)
qed (simp add: import_libraries_def demo_rt_run [OF assms])

definition demo_proxies :: runner_proxies where
  "demo_proxies = (let p = new_proxy 3600 None False False idle_terminal in
     setup_proxy_timeout 3600 \<lparr>rp_killpg = p, rp_getpgid = p, rp_setsid = p, rp_environ = p, rp_popen = p\<lparr>px_recursive := True\<rparr>,
       rp_pipe = p, rp_iter_until_empty = p\<lparr>px_recursive := True\<rparr>, rp_daemon_popen = p, rp_proxy_timeout = 30,
       rp_importer = \<lparr>ri_sys_modules = p, ri_moduletype = p\<lparr>px_recursive := True\<rparr>, ri_exec_in_module = p, ri_timeout = 30\<rparr>\<rparr>)"

lemma demo_new_proxies: "new_runner_proxies demo_import (idle_terminal, ()) = Some (Inr demo_proxies, (idle_terminal, ()))"
  by (simp add: new_runner_proxies_def create_empty_remote_proxy_def create_empty_recursive_proxy_def
      new_remote_importer_def demo_import_def demo_proxies_def Let_def new_proxy_def)

fun good_arg :: "unit call_arg \<Rightarrow> bool" where
  "good_arg (ArgVal x) = (x = PyNone)"
| "good_arg (ArgProxy p) = (px_session_id p = Some (OfSession 5) \<and> px_handle p \<noteq> None)"

lemma demo_autoprepare:
  "demo_ready r \<Longrightarrow> px_session_id p = Some (OfSession 5) \<Longrightarrow>
     remote_proxy_autoprepare demo_env p (r, ()) = Some (Inr (), (r, ()))"
  by (simp add: remote_proxy_autoprepare_def remote_proxy_verify_def demo_env_def demo_ready_def)

lemma demo_call_text:
  assumes "demo_ready r" "list_all good_arg as"
  shows "\<exists>c. get_python_call demo_env fn as [] (r, ()) = Some (Inr c, (r, ()))"
proof -
  have "\<exists>s. get_python_arg demo_env a (r, ()) = Some (Inr s, (r, ()))" if "good_arg a" for a
    using that demo_autoprepare [OF assms(1)]
    by (cases a) (auto simp: get_python_arg_def get_proxy_handle_def demo_env_def tiny_pickler_def)
  then have "\<exists>ss. python_args demo_env (map (Pair None) as) (r, ()) = Some (Inr ss, (r, ()))"
    using assms(2) by (induction as) (auto, fastforce)
  then show ?thesis by (auto simp: get_python_call_def)
qed

lemma demo_proxy:
  assumes "demo_ready r" "px_session_id p = Some (OfSession 5)" "px_handle p = Some h" "\<not> px_async p" "list_all good_arg as"
  shows "\<exists>c. recursive_call demo_env p as [] (r, ()) = Some (Inr (ProxyValue (RProxy c True)), (r, ()))"
    "proxy_call demo_env p as [] (r, ()) = Some (Inr (ProxyValue (RObj PyNone)), (r, ()))"
    "as = [k, x] \<Longrightarrow> proxy_setitem demo_env p k x (r, ()) = Some (Inr (ProxyValue (RObj PyNone)), (r, ()))"
proof -
  have u: "random_handle_name demo_env (r, ()) = Some (Inr (in_namespace ''_PROXY_CONTAINER.handle_u''), (r, ()))"
    by (simp add: random_handle_name_def demo_env_def)
  have call: "remote_proxy_run_python_call demo_env p fn as [] (r, ()) = Some (Inr (ProxyValue (RObj PyNone)), (r, ()))" for fn
    using demo_call_text [OF assms(1,5), of fn] assms(4)
    by (auto simp: remote_proxy_run_python_call_def proxy_response_def responsehandler_def remotetimeouthandler_def
        run_python_call_with_timeout_def demo_runs [OF assms(1)])
  show "\<exists>c. recursive_call demo_env p as [] (r, ()) = Some (Inr (ProxyValue (RProxy c True)), (r, ()))"
    using demo_call_text [OF assms(1,5), of h] assms(3,4)
    by (auto simp: recursive_call_def demo_autoprepare [OF assms(1,2)] handle_text_def recursive_or_basic_from_call_def
        proxy_response_def responsehandler_def remotetimeouthandler_def get_proxy_or_basic_from_call_with_timeout_def u
        demo_runs [OF assms(1)])
  show "proxy_call demo_env p as [] (r, ()) = Some (Inr (ProxyValue (RObj PyNone)), (r, ()))"
    using call assms(3) by (simp add: proxy_call_def demo_autoprepare [OF assms(1,2)] handle_text_def)
  show "proxy_setitem demo_env p k x (r, ()) = Some (Inr (ProxyValue (RObj PyNone)), (r, ()))" if "as = [k, x]"
    using call assms(3) that
    by (simp add: proxy_setitem_def proxy_method_call_def demo_autoprepare [OF assms(1,2)] handle_text_def)
qed

lemma demo_moduletype:
  assumes "demo_ready r" "px_session_id p = Some (OfSession 5)" "px_handle p = Some h" "\<not> px_async p"
  shows "\<exists>m o'. bnd (recursive_call demo_env p [ArgVal PyNone] []) (returned_object demo_env 3600) (r, ()) =
      Some (Inr (m, Some o'), (r, ())) \<and> good_arg m \<and> px_session_id o' = Some (OfSession 5)"
proof -
  obtain c where c: "recursive_call demo_env p [ArgVal PyNone] [] (r, ()) = Some (Inr (ProxyValue (RProxy c True)), (r, ()))"
    using demo_proxy(1) [OF assms, of "[ArgVal PyNone]"] by auto
  have sid: "px_session_id (new_proxy 3600 (Some c) b b' r) = Some (OfSession 5)" for b b'
    using assms(1) by (simp add: new_proxy_def proxy_id_of_def demo_ready_def)
  show ?thesis
    by (simp add: c returned_object_def Let_def as_recursive_proxy_def demo_autoprepare [OF assms(1) sid] sid)
      (use assms(1) in \<open>simp add: new_proxy_def proxy_id_of_def demo_ready_def\<close>)
qed

lemma demo_import_daemonizer:
  assumes "demo_ready r" "list_all (\<lambda>f. px_session_id (f ri) = Some (OfSession 5) \<and> px_handle (f ri) \<noteq> None \<and> \<not> px_async (f ri))
    [ri_sys_modules, ri_moduletype, ri_exec_in_module]" "gm_garbage (rtm_garbage r) = []"
  shows "\<exists>r'. importmodule demo_env demo_import ri file (r, ()) = Some (Inr (), (r', ()))"
proof -
  obtain h1 h2 h3 where h: "px_handle (ri_sys_modules ri) = Some h1" "px_handle (ri_moduletype ri) = Some h2"
    "px_handle (ri_exec_in_module ri) = Some h3"
    using assms(2) by auto
  obtain m o' where m: "bnd (recursive_call demo_env (ri_moduletype ri) [ArgVal PyNone] []) (returned_object demo_env 3600) (r, ()) =
      Some (Inr (m, Some o'), (r, ()))" "good_arg m" "px_session_id o' = Some (OfSession 5)"
    using demo_moduletype [OF assms(1) _ h(2)] assms(2) by auto
  have x: "proxy_call demo_env (ri_exec_in_module ri) [ArgVal PyNone, m] [] (r, ()) = Some (Inr (ProxyValue (RObj PyNone)), (r, ()))"
    "proxy_setitem demo_env (ri_sys_modules ri) (ArgVal PyNone) m (r, ()) = Some (Inr (ProxyValue (RObj PyNone)), (r, ()))"
    using assms(2) m(2) demo_proxy(2) [OF assms(1) _ h(3), of "[ArgVal PyNone, m]"]
      demo_proxy(3) [OF assms(1) _ h(1), of "[ArgVal PyNone, m]" "ArgVal PyNone" m]
    by auto
  obtain r' where d: "delete_remote_proxy o' (r, ()) = Some (Inr (), (r', ()))" "demo_ready r'"
    using assms(1,3) m(3) by (cases "px_is_remote_owned o'") (auto simp: delete_remote_proxy_def session_id_of_proxy_def
        add_handle_to_garbage_def demo_ready_def gm_add_def)
  show ?thesis
    using m(1) by (simp add: importmodule_def importfile_def Let_def import_at_def remote_module_importer_def
        demo_import_def x d finally_do_app demo_runs [OF d(2)])
qed

lemma demo_prepare:
  "\<exists>s' r'. prepare_runner_proxies demo_env demo_import ''/lib/daemonizer.pyc'' (demo_proxies, idle_terminal, ()) = Some (Inr (), (s', r', ()))"
proof -
  have r: "demo_ready idle_terminal" "gm_garbage (rtm_garbage idle_terminal) = []" "ie_default_timeout demo_import = 3600"
    by (simp_all add: demo_ready_def idle_terminal_def new_runner_terminal_def new_garbage_manager_def demo_import_def)
  obtain j where j: "prepare_importer demo_env demo_import (rp_importer demo_proxies, idle_terminal, ()) =
      Some (Inr (), (j, idle_terminal, ()))"
    by (simp add: prepare_importer_def demo_runs [OF r(1)] setup_importer_proxies_def Let_def set_proxy_app)
  have "rtm_session_id idle_terminal = Some 5" by (simp add: idle_terminal_def)
  from prepare_importer_result [OF j this] obtain r' where
    "importmodule demo_env demo_import j ''/lib/daemonizer.pyc'' (idle_terminal, ()) = Some (Inr (), (r', ()))"
    using demo_import_daemonizer [OF r(1) _ r(2), of j "''/lib/daemonizer.pyc''"] by (auto simp: usable_def)
  then show ?thesis
    by (simp add: prepare_runner_proxies_def demo_runs [OF r(1)] with_importer_def j setup_runner_proxies_def Let_def
        setup_subprocess_proxies_def setup_os_proxies_def setup_daemonizer_proxy_def set_proxy_app)
qed

lemma prepared_proxies_work_witness:
  "\<exists>s' r'. prepare_runner_proxies demo_env demo_import ''/lib/daemonizer.pyc'' (demo_proxies, idle_terminal, ()) = Some (Inr (), (s', r', ())) \<and>
     prepared 5 demo_proxies s'"
proof -
  obtain s' r' where p: "prepare_runner_proxies demo_env demo_import ''/lib/daemonizer.pyc'' (demo_proxies, idle_terminal, ()) = Some (Inr (), (s', r', ()))"
    using demo_prepare by blast
  have "stays_in_session demo_env" by (simp add: stays_in_session_def demo_env_def sid.keeps_simple)
  from prepared_proxies_work [OF this _ p, of 5] p show ?thesis by (auto simp: idle_terminal_def)
qed
end
