(* ===== verification/RemoteFiles.thy ===== *)
theory RemoteFiles
  imports FileCopier RemoteImports
begin

text \<open>
  \<open>_filecopier.py\<close> over \<open>remoteproxies.py\<close>: the operating system of a remote host as \<open>_RemoteFile\<close> reaches it
  through proxies, and the open remote file, whose \<open>FileHandle\<close> at the other end is made by the
  first use. Both are given in the form in which \<open>FileCopier\<close> takes them as arguments, so that what is proved
  there of copying holds for remote files.
\<close>

section \<open>The terminal under a session\<close>

text \<open>
  What a remote file uses of the shell and the terminal of session \<open>i\<close>, past the proxies; the objects
  of texts and numbers and back; \<open>rw_local_is_dir\<close> is \<open>os.stat\<close> of the local host.
\<close>

record ('w, 'o) raw_terminal =
  rw_stdout_str :: "nat \<Rightarrow> ('w, string) py"
  rw_send_command :: "nat \<Rightarrow> string \<Rightarrow> ('w, unit) py"
  rw_get_prompt :: "nat \<Rightarrow> rat \<Rightarrow> ('w, unit) py"
  rw_read_nonblocking :: "nat \<Rightarrow> nat \<Rightarrow> rat \<Rightarrow> ('w, bytes) py"
  rw_expect :: "nat \<Rightarrow> bytes \<Rightarrow> ('w, unit) py"
  rw_send :: "nat \<Rightarrow> bytes \<Rightarrow> ('w, unit) py"
  rw_before :: "nat \<Rightarrow> 'w \<Rightarrow> bytes option"
  rw_local_is_dir :: "string \<Rightarrow> ('w, bool) py"
  rw_str :: "string \<Rightarrow> 'o pyobj"
  rw_int :: "int \<Rightarrow> 'o pyobj"
  rw_text :: "'o pyobj \<Rightarrow> string option"
  rw_truth :: "'o rvalue \<Rightarrow> bool"
  rw_default_timeout :: rat

section \<open>Open remote files\<close>

text \<open>An open file: the proxy of the file, the \<open>FileHandle\<close> around it once it was made, and its name.\<close>

record open_remote =
  or_fileproxy :: proxy
  or_filehandle :: "proxy option"
  or_proxy_handle :: "string option"

record remote_files =
  rf_open :: "nat \<Rightarrow> open_remote option"
  rf_next :: nat

type_synonym ('w, 'a) rf_op = "(remote_files \<times> runner_terminal \<times> 'w, 'a) py"

definition the_open :: "nat \<Rightarrow> ('w, open_remote) rf_op" where
  "the_open k = bnd (gets (\<lambda>(f, rw). rf_open f k)) (\<lambda>x. case x of None \<Rightarrow> throw AttributeError | Some e \<Rightarrow> ret e)"

definition set_open :: "nat \<Rightarrow> (open_remote \<Rightarrow> open_remote) \<Rightarrow> ('w, unit) rf_op" where
  "set_open k g = upd (\<lambda>f. f\<lparr>rf_open := (rf_open f)(k := map_option g (rf_open f k))\<rparr>)"

definition in_session :: "('w, 'o) runner_env \<Rightarrow> (nat \<Rightarrow> ('w, 'a) py) \<Rightarrow> ('w, 'a) rf_op" where
  "in_session q m = bnd (in_world (rt_session q)) (\<lambda>i. in_world (in_world (m i)))"

text \<open>Getting an attribute of a proxy and calling it; a value that is not a method cannot be called.\<close>

definition call_method ::
  "('w, 'o) runner_env \<Rightarrow> ('w, 'o) raw_terminal \<Rightarrow> proxy \<Rightarrow> string \<Rightarrow> 'o call_arg list \<Rightarrow> ('w, 'o proxy_result) rt_op" where
  "call_method q rw p n as = bnd (proxy_getattr q (rw_truth rw) p n) (\<lambda>a. case a of
     Method m \<Rightarrow> proxy_method_call q p m as [] | AttrValue v \<Rightarrow> throw TypeError)"

text \<open>The \<open>FileHandle\<close> is made by the first use, and kept even if giving it its output fails.\<close>

definition set_filehandle :: "('w, 'o) runner_env \<Rightarrow> ('w, 'o) raw_terminal \<Rightarrow> nat \<Rightarrow> ('w, unit) rf_op" where
  "set_filehandle q rw k = bnd (the_open k) (\<lambda>e.
     bnd (in_world (get_proxy_object_from_call q (rw_default_timeout rw) (get_remote_obj ''FileHandle'') [ArgProxy (or_fileproxy e)] []))
       (\<lambda>h. andthen (set_open k (\<lambda>e. e\<lparr>or_filehandle := Some h\<rparr>))
         (bnd (in_session q (rw_stdout_str rw)) (\<lambda>s.
           bnd (in_world (get_proxy_object (rw_default_timeout rw) s)) (\<lambda>out.
             bnd (in_world (call_method q rw h ''set_io_outfile'' [ArgProxy out])) (\<lambda>_. ret ()))))))"

definition filehandle :: "('w, 'o) runner_env \<Rightarrow> ('w, 'o) raw_terminal \<Rightarrow> nat \<Rightarrow> ('w, proxy) rf_op" where
  "filehandle q rw k = andthen
     (bnd (the_open k) (\<lambda>e. if or_filehandle e = None then set_filehandle q rw k else ret ()))
     (bnd (the_open k) (\<lambda>e. case or_filehandle e of None \<Rightarrow> throw AttributeError | Some h \<Rightarrow> ret h))"

definition proxy_handle :: "('w, 'o) runner_env \<Rightarrow> ('w, 'o) raw_terminal \<Rightarrow> nat \<Rightarrow> ('w, string) rf_op" where
  "proxy_handle q rw k = bnd (the_open k) (\<lambda>e. case or_proxy_handle e of
     Some n \<Rightarrow> ret n
   | None \<Rightarrow> bnd (filehandle q rw k) (\<lambda>h. bnd (in_world (get_proxy_handle q h)) (\<lambda>n.
       andthen (set_open k (\<lambda>e. e\<lparr>or_proxy_handle := Some n\<rparr>)) (ret n))))"

text \<open>\<open>pterm.before\<close>: without a session there is no terminal; \<open>None\<close> when nothing was read yet.\<close>

definition before_of :: "('w, 'o) runner_env \<Rightarrow> ('w, 'o) raw_terminal \<Rightarrow> ('w, bytes option) rf_op" where
  "before_of q rw = in_session q (\<lambda>i. gets (rw_before rw i))"

definition compatibility_methods :: "string set" where
  "compatibility_methods = {''close'', ''fileno'', ''flush'', ''isatty'', ''next'', ''read'', ''readinto'', ''readline'',
     ''readlines'', ''seek'', ''tell'', ''truncate'', ''write'', ''writelines'', ''xreadlines''}"

text \<open>The file behind number \<open>k\<close>, as \<open>FileCopier\<close> uses it: \<open>_RemoteFileProxy\<close>.\<close>

definition remote_file_proxy ::
  "('w, 'o) runner_env \<Rightarrow> ('w, 'o) raw_terminal \<Rightarrow> rat \<Rightarrow> nat \<Rightarrow> (remote_files \<times> runner_terminal \<times> 'w) file_proxy" where
  "remote_file_proxy q rw tmo k =
     \<lparr>fp_handle_name = proxy_handle q rw k,
      fp_send_command = (\<lambda>c. in_session q (\<lambda>i. rw_send_command rw i c)),
      fp_read_nonblocking = (\<lambda>n. in_session q (\<lambda>i. rw_read_nonblocking rw i n tmo)),
      fp_expect = (\<lambda>b. in_session q (\<lambda>i. rw_expect rw i b)),
      fp_send = (\<lambda>b. in_session q (\<lambda>i. rw_send rw i b)),
      fp_before = before_of q rw,
      fp_get_prompt = (\<lambda>t. in_session q (\<lambda>i. rw_get_prompt rw i t)),
      fp_close_remote = bnd (the_open k) (\<lambda>e.
        bnd (in_world (proxy_method_call q (or_fileproxy e) ''close'' [] [])) (\<lambda>_. ret ()))\<rparr>"

section \<open>The remote operating system\<close>

record os_proxies =
  op_chmod :: proxy
  op_makedirs :: proxy
  op_path :: proxy

definition new_os_proxies :: "('w, 'o) runner_env \<Rightarrow> rat \<Rightarrow> rat \<Rightarrow> ('w, os_proxies) rt_op" where
  "new_os_proxies q dflt tmo = andthen (rq_initialize_if_needed q)
     (let timed = \<lambda>n. bnd (get_proxy_object dflt (''os.'' @ n)) (\<lambda>p. ret (set_remote_proxy_timeout dflt (Some tmo) p)) in
      bnd (timed ''chmod'') (\<lambda>c. bnd (timed ''makedirs'') (\<lambda>m. bnd (timed ''path'') (\<lambda>p.
        ret \<lparr>op_chmod = c, op_makedirs = m, op_path = p\<rparr>))))"

definition text_result :: "('w, 'o) raw_terminal \<Rightarrow> 'o proxy_result \<Rightarrow> ('s, string) py" where
  "text_result rw res = (case res of
     ProxyValue (RObj x) \<Rightarrow> (case rw_text rw x of None \<Rightarrow> throw TypeError | Some t \<Rightarrow> ret t)
   | _ \<Rightarrow> throw TypeError)"

definition path_call :: "('w, 'o) runner_env \<Rightarrow> ('w, 'o) raw_terminal \<Rightarrow> os_proxies \<Rightarrow> string \<Rightarrow> string list \<Rightarrow> ('w, string) rf_op" where
  "path_call q rw op n as =
     bnd (in_world (call_method q rw (op_path op) n (map (ArgVal \<circ> rw_str rw) as))) (text_result rw)"

definition open_remote_file ::
  "('w, 'o) runner_env \<Rightarrow> ('w, 'o) raw_terminal \<Rightarrow> rat \<Rightarrow> string \<Rightarrow> string \<Rightarrow> ('w, nat) rf_op" where
  "open_remote_file q rw tmo name options =
     bnd (in_world (get_proxy_object_from_call q (rw_default_timeout rw) ''open'' [ArgVal (rw_str rw name), ArgVal (rw_str rw options)] []))
       (\<lambda>p0. bnd (of_sum (set_proxy_spec compatibility_methods p0)) (\<lambda>p1.
         let p = set_remote_proxy_timeout (rw_default_timeout rw) (Some tmo) p1 in
         bnd (gets (\<lambda>(f, s). rf_next f)) (\<lambda>k.
           andthen (upd (\<lambda>f. f\<lparr>rf_open := (rf_open f)(k \<mapsto> \<lparr>or_fileproxy = p, or_filehandle = None, or_proxy_handle = None\<rparr>),
               rf_next := Suc k\<rparr>)) (ret k))))"

text \<open>
  \<open>_RemoteFile\<close> replaces \<open>chmod\<close>, \<open>makedirs\<close> and the path functions of \<open>_LocalFile\<close> by proxies, but not the test
  for an existing directory: that is asked of the local host.
\<close>

definition remote_file_os ::
  "('w, 'o) runner_env \<Rightarrow> ('w, 'o) raw_terminal \<Rightarrow> rat \<Rightarrow> os_proxies \<Rightarrow> (remote_files \<times> runner_terminal \<times> 'w) file_os" where
  "remote_file_os q rw tmo op =
     \<lparr>os_new = bnd (in_world (new_os_proxies q (rw_default_timeout rw) tmo)) (\<lambda>_. ret ()),
      os_join = (\<lambda>p ps. path_call q rw op ''join'' (p # ps)),
      os_basename = (\<lambda>p. path_call q rw op ''basename'' [p]),
      os_dirname = (\<lambda>p. path_call q rw op ''dirname'' [p]),
      os_makedirs = (\<lambda>p. bnd (in_world (proxy_call q (op_makedirs op) [ArgVal (rw_str rw p)] [])) (\<lambda>_. ret ())),
      os_chmod = (\<lambda>p m. bnd (in_world (proxy_call q (op_chmod op) [ArgVal (rw_str rw p), ArgVal (rw_int rw m)] [])) (\<lambda>_. ret ())),
      os_stat_is_dir = (\<lambda>p. in_world (in_world (rw_local_is_dir rw p))),
      os_open = open_remote_file q rw tmo,
      os_read = (\<lambda>k. remote_read (remote_file_proxy q rw tmo k)),
      os_write = (\<lambda>k. remote_write (remote_file_proxy q rw tmo k)),
      os_close = (\<lambda>k. remote_close (remote_file_proxy q rw tmo k))\<rparr>"

section \<open>Reading blocks\<close>

text \<open>
  The reads of a remote file are those of the terminal of the session, so a terminal that
  delivers a stream makes the remote file a source of it.
\<close>

lemma remote_file_source:
  fixes rw :: "('w, 'o) raw_terminal"
  assumes "raw_source (\<lambda>n. rw_read_nonblocking rw i n tmo) rep"
    and "\<And>w v. rep w v \<Longrightarrow> rq_get_session q j w = Some i"
  shows "raw_source (fp_read_nonblocking (remote_file_proxy q rw tmo k)) (\<lambda>(f, r, w) v. rtm_session r = Some j \<and> rep w v)"
proof
  fix s :: "remote_files \<times> runner_terminal \<times> 'w" and v and n :: nat
  assume s: "(case s of (f, r, w) \<Rightarrow> \<lambda>v. rtm_session r = Some j \<and> rep w v) v" "v \<noteq> []" "0 < n"
  obtain f r w where srw: "s = (f, r, w)" by (cases s)
  with s(1) have r: "rtm_session r = Some j" "rep w v" by simp_all
  obtain b w' v' where b: "rw_read_nonblocking rw i n tmo w = Some (Inr b, w')" "b \<noteq> []" "length b \<le> n" "v = b @ v'" "rep w' v'"
    using raw_source.raw [OF assms(1) r(2) s(2,3)] by blast
  have "fp_read_nonblocking (remote_file_proxy q rw tmo k) n s = Some (Inr b, (f, r, w'))"
    using r b(1) assms(2) by (simp add: srw remote_file_proxy_def in_session_def rt_session_def rt_get_session_def)
  with b r(1) show "\<exists>b s' v'. fp_read_nonblocking (remote_file_proxy q rw tmo k) n s = Some (Inr b, s') \<and> b \<noteq> [] \<and>
      length b \<le> n \<and> v = b @ v' \<and> (case s' of (f, r, w) \<Rightarrow> \<lambda>v. rtm_session r = Some j \<and> rep w v) v'"
    by (intro exI [of _ b] exI [of _ "(f, r, w')"] exI [of _ v']) simp
qed

context step_relation
begin

lemma token_loop_rel:
  assumes rd: "\<And>n. keeps R (rd n)" and "token_loop rd tok io ms r s = Some p"
  shows "R s (snd p)"
proof -
  have "rd' = rd \<longrightarrow> R s' (snd q)" if "token_loop rd' tok' io' ms' r' s' = Some q" for rd' tok' io' ms' r' s' q
    using that
  proof (elim token_loop.raw_induct [where P = "\<lambda>rd' tok io ms r s p. rd' = rd \<longrightarrow> R s (snd p)", rotated])
    fix f :: "(nat \<Rightarrow> ('s, bytes) py) \<Rightarrow> bytes \<Rightarrow> bytes \<Rightarrow> matchers \<Rightarrow> nat \<Rightarrow> ('s, bytes \<times> matchers) py"
      and rd' tok io ms r s p
    assume 1: "\<And>rd' tok io ms r s p. f rd' tok io ms r s = Some p \<Longrightarrow> rd' = rd \<longrightarrow> R s (snd p)"
      "(if 0 < r then seq_outcome (rd' r s) (\<lambda>b s'. let ms' = sg_find (length io) b ms
          in f rd' tok (io @ b) ms' (length tok - sg_max_pass ms') s')
        else Some (token_result io ms, s)) = Some p"
    show "rd' = rd \<longrightarrow> R s (snd p)"
    proof
      assume "rd' = rd"
      obtain x t where p: "p = (x, t)" by fastforce
      show "R s (snd p)"
      proof (cases "0 < r")
        case True
        with 1(2) have "seq_outcome (rd r s) (\<lambda>b s'. let ms' = sg_find (length io) b ms
            in f rd tok (io @ b) ms' (length tok - sg_max_pass ms') s') = Some (x, t)"
          by (simp add: p \<open>rd' = rd\<close>)
        then have "R s t"
          by (rule loop_step [OF _ rd]) (use 1(1) in \<open>fastforce simp: Let_def\<close>)
        then show ?thesis by (simp add: p)
      next
        case False
        with 1(2) show ?thesis by (auto simp: R_refl)
      qed
    qed
  qed
  then show ?thesis using assms(2) by blast
qed

lemma read_sized_loop_rel:
  assumes rd: "\<And>n. keeps R (rd n)" and "read_sized_loop rd n buf s = Some p"
  shows "R s (snd p)"
proof -
  have "rd' = rd \<longrightarrow> R s' (snd q)" if "read_sized_loop rd' n' buf' s' = Some q" for rd' n' buf' s' q
    using that
  proof (elim read_sized_loop.raw_induct [where P = "\<lambda>rd' n buf s p. rd' = rd \<longrightarrow> R s (snd p)", rotated])
    fix f :: "(nat \<Rightarrow> ('s, bytes) py) \<Rightarrow> nat \<Rightarrow> bytes \<Rightarrow> 's \<Rightarrow> ((exn + bytes) \<times> 's) option"
      and rd' n buf s p
    assume 1: "\<And>rd' n buf s p. f rd' n buf s = Some p \<Longrightarrow> rd' = rd \<longrightarrow> R s (snd p)"
      "(if 0 < n then seq_outcome (rd' n s) (\<lambda>b w1. f rd' (n - length b) (buf @ b) w1) else Some (Inr buf, s)) = Some p"
    show "rd' = rd \<longrightarrow> R s (snd p)"
    proof
      assume "rd' = rd"
      obtain x t where p: "p = (x, t)" by fastforce
      show "R s (snd p)"
      proof (cases "0 < n")
        case True
        with 1(2) have "seq_outcome (rd n s) (\<lambda>b w1. f rd (n - length b) (buf @ b) w1) = Some (x, t)"
          by (simp add: p \<open>rd' = rd\<close>)
        then have "R s t"
          by (rule loop_step [OF _ rd]) (use 1(1) in fastforce)
        then show ?thesis by (simp add: p)
      next
        case False
        with 1(2) show ?thesis by (auto simp: R_refl)
      qed
    qed
  qed
  then show ?thesis using assms(2) by blast
qed

lemma keeps_read_sized: "(\<And>n. keeps R (rd n)) \<Longrightarrow> keeps R (read_sized rd n)"
  using read_sized_loop_rel by (fastforce simp: keeps_def read_sized_def)

lemma keeps_read_until_token: "(\<And>n. keeps R (rd n)) \<Longrightarrow> keeps R (read_until_token rd tok)"
proof -
  assume rd: "\<And>n. keeps R (rd n)"
  have "keeps R (read_until_token_sharing rd tok ms)" for ms
    using token_loop_rel [OF rd] by (fastforce simp: keeps_def read_until_token_sharing_def)
  then show ?thesis unfolding read_until_token_def by (intro keeps)
qed

lemma keeps_remote_read:
  assumes "keeps R (fp_handle_name fp)" "\<And>c. keeps R (fp_send_command fp c)" "\<And>n. keeps R (fp_read_nonblocking fp n)"
    "keeps R (fp_before fp)"
  shows "keeps R (remote_read fp n)"
proof -
  have "keeps R (read_buffer_size (read_sized (fp_read_nonblocking fp)) n)"
    unfolding read_buffer_size_def Let_def
    by (intro keeps keeps_if keeps_read_until_token keeps_read_sized assms)
  then show ?thesis
    unfolding remote_read_def timeouthandling_def
    by (intro keeps keeps_if keeps_read_sized assms) (simp_all add: keeps)
qed

end

text \<open>Reading a file whose handle is known leaves the files and the terminal object as they are.\<close>

definition same_files :: "remote_files \<times> runner_terminal \<times> 'w \<Rightarrow> remote_files \<times> runner_terminal \<times> 'w \<Rightarrow> bool" where
  "same_files s t \<longleftrightarrow> fst t = fst s \<and> fst (snd t) = fst (snd s)"

interpretation fil: step_relation same_files
  by unfold_locales (simp_all add: same_files_def)

lemma files_in_session: "keeps same_files (in_session q m)"
  by (auto simp: keeps_def same_files_def in_session_def in_world_def rt_session_def rt_get_session_def
      elim!: seq_outcome_cases split: option.splits)

lemma timeouthandling_renamed: "timeouthandling (fp\<lparr>fp_handle_name := m\<rparr>) = timeouthandling fp"
  by (simp add: timeouthandling_def fun_eq_iff cong del: if_weak_cong)

lemma known_handle_reads:
  assumes "rf_open f k = Some e" "or_proxy_handle e = Some h"
    and "remote_read (remote_file_proxy q rw tmo k) n (f, r, w) = Some (x, (f', r', w'))"
  shows "f' = f \<and> r' = r"
proof -
  let ?fp = "remote_file_proxy q rw tmo k"
  have "fp_handle_name ?fp (f, r, w) = Some (Inr h, (f, r, w))"
    using assms(1,2) by (simp add: remote_file_proxy_def proxy_handle_def the_open_def)
  then have "remote_read (?fp\<lparr>fp_handle_name := ret h\<rparr>) n (f, r, w) = Some (x, (f', r', w'))"
    using assms(3) by (simp add: remote_read_def timeouthandling_renamed)
  moreover have "keeps same_files (remote_read (?fp\<lparr>fp_handle_name := ret h\<rparr>) n)"
    by (rule fil.keeps_remote_read) (simp_all add: remote_file_proxy_def before_of_def files_in_session fil.keeps_simple)
  ultimately show ?thesis using keepsD by (fastforce simp: same_files_def)
qed

text \<open>
  The other end of an open file whose \<open>FileHandle\<close> is the object \<open>h\<close>: \<open>rep w fh v\<close> says that in \<open>w\<close> the
  handle is in the state \<open>fh\<close> and \<open>v\<close> is still to be read from the terminal \<open>i\<close> of the session \<open>j\<close>. A command
  to read a block runs \<open>FileHandle.read\<close> there; its output arrives behind other output and before more of
  it, such as an echo and a prompt, with at most one interruption within the token.
\<close>

definition harmless :: "bytes \<Rightarrow> bool" where
  "harmless v \<longleftrightarrow> set v \<inter> set TOKEN = {}"

definition serves_file ::
  "('w, 'o) runner_env \<Rightarrow> ('w, 'o) raw_terminal \<Rightarrow> rat \<Rightarrow> nat \<Rightarrow> nat \<Rightarrow> string \<Rightarrow>
   ('w \<Rightarrow> file_handle \<Rightarrow> bytes \<Rightarrow> bool) \<Rightarrow> bool" where
  "serves_file q rw tmo j i h rep \<longleftrightarrow>
     (\<forall>fh. raw_source (\<lambda>n. rw_read_nonblocking rw i n tmo) (\<lambda>w. rep w fh)) \<and>
     (\<forall>w fh v. rep w fh v \<longrightarrow> rq_get_session q j w = Some i \<and> fh_out fh = []) \<and>
     (\<forall>w fh fh' v. rep w fh v \<and> harmless v \<and> filehandle_read BUFFER_SIZE fh = Some (Inr (), fh') \<longrightarrow>
       (\<exists>w1 m g gap rest.
          rw_send_command rw i (h @ ''.read('' @ str_of_int (int BUFFER_SIZE) @ '')'') w = Some (Inr (), w1) \<and>
          gap_ok TOKEN m g gap \<and> harmless rest \<and>
          rep w1 (fh'\<lparr>fh_out := []\<rparr>) (gapped TOKEN m g gap @ drop (length TOKEN) (fh_out fh') @ rest)))"

lemma filehandle_read_returns:
  assumes "n < 2 ^ 32"
  shows "\<exists>fh'. filehandle_read n fh = Some (Inr (), fh') \<and> fh_content fh' = fh_content fh \<and>
    drop (fh_pos fh') (fh_content fh) = drop n (drop (fh_pos fh) (fh_content fh))"
proof -
  have "length (take n (drop (fh_pos fh) (fh_content fh))) < 2 ^ 32" using assms by simp
  then obtain sz where "size_pack (length (take n (drop (fh_pos fh) (fh_content fh)))) = Inr sz"
    by (simp add: size_pack_def)
  then show ?thesis
    by (simp add: filehandle_read_def handle_file_read_def write_stdout_with_flush_def min_def max_def add.commute)
qed

text \<open>A block, when the name of the \<open>FileHandle\<close> is known.\<close>

lemma served_block:
  assumes s: "serves_file q rw tmo j i h rep" and e: "rf_open f k = Some e" "or_proxy_handle e = Some h"
    and r: "rtm_session r = Some j" and w: "rep w fh v" "harmless v"
  shows "\<exists>w2 fh' v'. remote_read (remote_file_proxy q rw tmo k) BUFFER_SIZE (f, r, w) =
      Some (Inr (take BUFFER_SIZE (drop (fh_pos fh) (fh_content fh))), (f, r, w2)) \<and>
    rep w2 fh' v' \<and> harmless v' \<and>
    drop (fh_pos fh') (fh_content fh') = drop BUFFER_SIZE (drop (fh_pos fh) (fh_content fh))"
proof -
  let ?fp = "remote_file_proxy q rw tmo k" and ?d = "take BUFFER_SIZE (drop (fh_pos fh) (fh_content fh))"
  obtain fh' where fh': "filehandle_read BUFFER_SIZE fh = Some (Inr (), fh')" "fh_content fh' = fh_content fh"
    "drop (fh_pos fh') (fh_content fh) = drop BUFFER_SIZE (drop (fh_pos fh) (fh_content fh))"
    using filehandle_read_returns [of BUFFER_SIZE fh] by (auto simp: BUFFER_SIZE_def)
  let ?fh = "fh'\<lparr>fh_out := []\<rparr>"
  let ?rep = "\<lambda>(f :: remote_files, r :: runner_terminal, w) v. rtm_session r = Some j \<and> rep w ?fh v"
  have src: "raw_source (fp_read_nonblocking ?fp) ?rep"
    by (rule remote_file_source) (use s in \<open>auto simp: serves_file_def\<close>)
  obtain w1 m g gap rest where w1: "rw_send_command rw i (h @ ''.read('' @ str_of_int (int BUFFER_SIZE) @ '')'') w = Some (Inr (), w1)"
    "gap_ok TOKEN m g gap" "harmless rest" "rep w1 ?fh (gapped TOKEN m g gap @ drop (length TOKEN) (fh_out fh') @ rest)"
    using s w fh'(1) unfolding serves_file_def by blast
  have i: "rq_get_session q j w = Some i" "fh_out fh = []" using s w(1) unfolding serves_file_def by blast+
  have name: "fp_handle_name ?fp (f, r, w) = Some (Inr h, (f, r, w))"
    using e by (simp add: remote_file_proxy_def proxy_handle_def the_open_def)
  have send: "fp_send_command ?fp (h @ ''.read('' @ str_of_int (int BUFFER_SIZE) @ '')'') (f, r, w) = Some (Inr (), (f, r, w1))"
    using r i(1) w1(1) by (simp add: remote_file_proxy_def in_session_def rt_session_def rt_get_session_def)
  have "?rep (f, r, w1) (gapped TOKEN m g gap @ drop (length TOKEN) (fh_out fh') @ rest)" using r w1(4) by simp
  from remote_block_read [OF src name send fh'(1) i(2) w1(2) this]
  obtain s2 where s2: "remote_read ?fp BUFFER_SIZE (f, r, w) = Some (Inr ?d, s2)" "?rep s2 rest" by blast
  obtain f2 r2 w2 where eq: "s2 = (f2, r2, w2)" by (cases s2)
  have "f2 = f \<and> r2 = r" by (rule known_handle_reads [OF e s2(1) [unfolded eq]])
  then show ?thesis using s2 fh'(2,3) w1(3) eq by (intro exI [of _ w2] exI [of _ ?fh] exI [of _ rest]) simp
qed

text \<open>The open file and a local one: the remote file delivers, the local one takes.\<close>

definition remote_to_copy ::
  "('w \<Rightarrow> file_handle \<Rightarrow> bytes \<Rightarrow> bool) \<Rightarrow> remote_files \<Rightarrow> runner_terminal \<Rightarrow>
   (remote_files \<times> runner_terminal \<times> 'w) \<times> file_handle \<Rightarrow> bytes \<Rightarrow> bytes \<Rightarrow> bool" where
  "remote_to_copy rep f r x v out \<longleftrightarrow> (case x of ((f', r', w), g) \<Rightarrow> f' = f \<and> r' = r \<and>
     (\<exists>fh l. rep w fh l \<and> harmless l \<and> v = drop (fh_pos fh) (fh_content fh)) \<and>
     fh_content g = out \<and> fh_pos g = length out)"

lemma remote_block_copy:
  assumes s: "serves_file q rw tmo j i h rep" and e: "rf_open f k = Some e" "or_proxy_handle e = Some h"
    and r: "rtm_session r = Some j"
  shows "block_copy (\<lambda>n. on_first (remote_read (remote_file_proxy q rw tmo k) n))
    (\<lambda>b. in_world (handle_file_write b)) (remote_to_copy rep f r)"
proof
  fix x v out assume "remote_to_copy rep f r x v out"
  then obtain w g fh l where x: "x = ((f, r, w), g)" and w: "rep w fh l" "harmless l"
    and v: "v = drop (fh_pos fh) (fh_content fh)" and g: "fh_content g = out" "fh_pos g = length out"
    by (auto simp: remote_to_copy_def)
  obtain w2 fh' v' where b: "remote_read (remote_file_proxy q rw tmo k) BUFFER_SIZE (f, r, w) =
      Some (Inr (take BUFFER_SIZE v), (f, r, w2))" "rep w2 fh' v'" "harmless v'"
    "drop (fh_pos fh') (fh_content fh') = drop BUFFER_SIZE v"
    using served_block [OF s e r w] unfolding v by blast
  have n: "0 < BUFFER_SIZE" by (simp add: BUFFER_SIZE_def)
  have "remote_to_copy rep f r ((f, r, w2), g) (drop BUFFER_SIZE v) out"
    unfolding remote_to_copy_def prod.case
    by (intro conjI refl exI [of _ fh'] exI [of _ v']) (use b g in simp_all)
  moreover have "on_first (remote_read (remote_file_proxy q rw tmo k) BUFFER_SIZE) x = Some (Inr (take BUFFER_SIZE v), ((f, r, w2), g))"
    using b(1) by (simp add: x on_first_def)
  moreover have "v = take BUFFER_SIZE v @ drop BUFFER_SIZE v" "take BUFFER_SIZE v = [] \<longrightarrow> v = []" using n by simp_all
  ultimately show "\<exists>b v' x'. on_first (remote_read (remote_file_proxy q rw tmo k) BUFFER_SIZE) x = Some (Inr b, x') \<and>
      v = b @ v' \<and> (b = [] \<longrightarrow> v = []) \<and> remote_to_copy rep f r x' v' out" by blast
next
  fix x v out b assume "remote_to_copy rep f r x v out"
  then show "\<exists>x'. in_world (handle_file_write b) x = Some (Inr (), x') \<and> remote_to_copy rep f r x' v (out @ b)"
    by (cases x) (auto simp: handle_file_write_def remote_to_copy_def)
qed

text \<open>The first use makes the \<open>FileHandle\<close> through proxies, gives it its output and asks for its name.\<close>

lemma first_use:
  assumes "rf_open f k = Some e" "or_filehandle e = None" "or_proxy_handle e = None"
    and "get_proxy_object_from_call q (rw_default_timeout rw) (get_remote_obj ''FileHandle'') [ArgProxy (or_fileproxy e)] [] (r, w) =
      Some (Inr p, (r1, w1))"
    and "rtm_session r1 = Some j" "rq_get_session q j w1 = Some i" "rw_stdout_str rw i w1 = Some (Inr out, w2)"
    and "call_method q rw p ''set_io_outfile'' [ArgProxy (new_proxy (rw_default_timeout rw) (Some out) False False r1)] (r1, w2) =
      Some (Inr x, (r3, w3))"
    and "get_proxy_handle q p (r3, w3) = Some (Inr h, (r4, w4))"
  shows "proxy_handle q rw k (f, r, w) = Some (Inr h,
    (f\<lparr>rf_open := (rf_open f)(k \<mapsto> e\<lparr>or_filehandle := Some p, or_proxy_handle := Some h\<rparr>)\<rparr>, r4, w4))"
  using assms by (simp add: proxy_handle_def filehandle_def set_filehandle_def the_open_def set_open_def in_session_def
      rt_session_def rt_get_session_def get_proxy_object_def)

lemma read_with_handle:
  assumes "fp_handle_name fp s = Some (Inr h, s1)" "fp_handle_name fp s1 = Some (Inr h, s1)"
  shows "remote_read fp n s = remote_read fp n s1"
  using assms by (simp add: remote_read_def)

text \<open>
  C17: copying an open remote file copies what the file holds from its position on, all of it and nothing
  else, although its blocks come past the proxies over the shell and the raw terminal of the session, in
  whatever pieces. The first read makes the \<open>FileHandle\<close> through the proxies, sets its output and asks for
  its name, in this order; the handle and the name are kept, and no later read asks again: the local
  state is afterwards what those calls left, and the remote file is at its end.
\<close>

theorem remote_file_is_copied:
  assumes "serves_file q rw tmo j i h rep"
    and "rf_open f k = Some e" "or_filehandle e = None" "or_proxy_handle e = None"
    and "get_proxy_object_from_call q (rw_default_timeout rw) (get_remote_obj ''FileHandle'') [ArgProxy (or_fileproxy e)] [] (r, w) =
      Some (Inr p, (r1, w1))"
    and "rtm_session r1 = Some j" "rq_get_session q j w1 = Some i" "rw_stdout_str rw i w1 = Some (Inr out, w2)"
    and "call_method q rw p ''set_io_outfile'' [ArgProxy (new_proxy (rw_default_timeout rw) (Some out) False False r1)] (r1, w2) =
      Some (Inr x, (r3, w3))"
    and "get_proxy_handle q p (r3, w3) = Some (Inr h, (r4, w4))" "rtm_session r4 = Some j" "rep w4 fh v" "harmless v"
  shows "\<exists>w' g fh' v'. copy_blocks (\<lambda>n. on_first (os_read (remote_file_os q rw tmo op) k n)) (\<lambda>b. in_world (handle_file_write b))
      ((f, r, w), \<lparr>fh_content = [], fh_pos = 0, fh_in = a, fh_out = b\<rparr>) =
    Some (Inr (), ((f\<lparr>rf_open := (rf_open f)(k \<mapsto> e\<lparr>or_filehandle := Some p, or_proxy_handle := Some h\<rparr>)\<rparr>, r4, w'), g)) \<and>
    fh_content g = drop (fh_pos fh) (fh_content fh) \<and> rep w' fh' v' \<and> drop (fh_pos fh') (fh_content fh') = []"
proof -
  let ?f = "f\<lparr>rf_open := (rf_open f)(k \<mapsto> e\<lparr>or_filehandle := Some p, or_proxy_handle := Some h\<rparr>)\<rparr>"
  let ?fp = "remote_file_proxy q rw tmo k" and ?g = "\<lparr>fh_content = [], fh_pos = 0, fh_in = a, fh_out = b\<rparr>"
  let ?rd = "\<lambda>n. on_first (remote_read ?fp n)" and ?wr = "\<lambda>b. in_world (handle_file_write b)"
  have k: "rf_open ?f k = Some (e\<lparr>or_filehandle := Some p, or_proxy_handle := Some h\<rparr>)" by simp
  have name: "fp_handle_name ?fp (f, r, w) = Some (Inr h, (?f, r4, w4))"
    using first_use [OF assms(2-10)] by (simp add: remote_file_proxy_def)
  have "fp_handle_name ?fp (?f, r4, w4) = Some (Inr h, (?f, r4, w4))"
    by (simp add: remote_file_proxy_def proxy_handle_def the_open_def)
  note rd = read_with_handle [OF name this]
  have "copy_blocks ?rd ?wr ((f, r, w), ?g) = copy_blocks ?rd ?wr ((?f, r4, w4), ?g)"
    by (subst (1 2) copy_blocks.simps) (simp add: on_first_def rd)
  moreover have start: "remote_to_copy rep ?f r4 ((?f, r4, w4), ?g) (drop (fh_pos fh) (fh_content fh)) []"
    using assms(12,13) by (auto simp: remote_to_copy_def)
  have "or_proxy_handle (e\<lparr>or_filehandle := Some p, or_proxy_handle := Some h\<rparr>) = Some h" by simp
  from block_copy.copy_blocks_copies [OF remote_block_copy [OF assms(1) k this assms(11)] start]
  obtain y where y: "copy_blocks ?rd ?wr ((?f, r4, w4), ?g) = Some (Inr (), y)"
    "remote_to_copy rep ?f r4 y [] ([] @ drop (fh_pos fh) (fh_content fh))" by blast
  obtain w' g where "y = ((?f, r4, w'), g)" using y(2) by (cases y) (auto simp: remote_to_copy_def)
  moreover from this y(2) obtain fh' v' where "rep w' fh' v'" "drop (fh_pos fh') (fh_content fh') = []"
    "fh_content g = drop (fh_pos fh) (fh_content fh)" by (auto simp: remote_to_copy_def)
  ultimately show ?thesis
    using y(1) by (intro exI [of _ w'] exI [of _ g] exI [of _ fh'] exI [of _ v']) (simp add: remote_file_os_def)
qed

text \<open>
  A terminal that is a string, and at the other end a file: reading runs its \<open>FileHandle\<close>, and the terminal
  echoes, interrupts the token with a line feed and prompts.
\<close>

type_synonym served = "file_handle \<times> bytes"

definition stream_env :: "(served, unit) runner_env" where
  "stream_env = \<lparr>rq_get_session = \<lambda>_ _. Some 0, rq_push_python = \<lambda>_. ret (), rq_exec_command = \<lambda>_ _ _. ret ''R'',
     rq_close_terminal = \<lambda>_. ret (), rq_setup = ret (), rq_close = ret (), rq_initialize_if_needed = ret (),
     rq_error_handling = \<lambda>m. m, rq_handler_source = PyNone, rq_pickler = tiny_pickler, rq_float_text = \<lambda>_. ''1.0'',
     rq_uuid = ret ''u''\<rparr>"

definition serve_read :: "(served, unit) py" where
  "serve_read = (\<lambda>(fh, v). case filehandle_read BUFFER_SIZE fh of
     Some (Inr _, fh') \<Rightarrow> Some (Inr (), (fh'\<lparr>fh_out := []\<rparr>,
       gapped TOKEN 3 (v @ ''echo'') [CHR 0x0A] @ drop (length TOKEN) (fh_out fh') @ ''>>> ''))
   | _ \<Rightarrow> None)"

definition stream_terminal :: "(served, unit) raw_terminal" where
  "stream_terminal = \<lparr>rw_stdout_str = \<lambda>_. ret ''__stdout'', rw_send_command = \<lambda>_ _. serve_read, rw_get_prompt = \<lambda>_ _. ret (),
     rw_read_nonblocking = \<lambda>_ n _ w. Some (Inr (take n (snd w)), (fst w, drop n (snd w))), rw_expect = \<lambda>_ _. ret (),
     rw_send = \<lambda>_ _. ret (), rw_before = \<lambda>_ _. None, rw_local_is_dir = \<lambda>_. ret False, rw_str = \<lambda>_. PyNone, rw_int = \<lambda>_. PyNone,
     rw_text = \<lambda>_. None, rw_truth = \<lambda>_. True, rw_default_timeout = 3600\<rparr>"

definition shows_file :: "served \<Rightarrow> file_handle \<Rightarrow> bytes \<Rightarrow> bool" where
  "shows_file w fh v \<longleftrightarrow> w = (fh, v) \<and> fh_out fh = []"

lemma stream_serves: "serves_file stream_env stream_terminal 30 0 0 h shows_file"
proof -
  have "raw_source (\<lambda>n. rw_read_nonblocking stream_terminal 0 n 30) (\<lambda>w. shows_file w fh)" for fh
    by unfold_locales (auto simp: stream_terminal_def shows_file_def intro: exI [of _ "take _ _"])
  moreover have "\<exists>w1 m g gap rest. rw_send_command stream_terminal 0 c w = Some (Inr (), w1) \<and> gap_ok TOKEN m g gap \<and>
      harmless rest \<and> shows_file w1 (fh'\<lparr>fh_out := []\<rparr>) (gapped TOKEN m g gap @ drop (length TOKEN) (fh_out fh') @ rest)"
    if w: "shows_file w fh v" "harmless v" and f: "filehandle_read BUFFER_SIZE fh = Some (Inr (), fh')" for w fh fh' v c
  proof -
    have "rw_send_command stream_terminal 0 c w = Some (Inr (), (fh'\<lparr>fh_out := []\<rparr>,
        gapped TOKEN 3 (v @ ''echo'') [CHR 0x0A] @ drop (length TOKEN) (fh_out fh') @ ''>>> ''))"
      using w(1) f by (simp add: stream_terminal_def serve_read_def shows_file_def)
    moreover have "gap_ok TOKEN 3 (v @ ''echo'') [CHR 0x0A]" using w(2) by (simp add: gap_ok_def harmless_def TOKEN_def)
    moreover have "harmless ''>>> ''" by (simp add: harmless_def TOKEN_def)
    moreover have "shows_file (fh'\<lparr>fh_out := []\<rparr>, gapped TOKEN 3 (v @ ''echo'') [CHR 0x0A] @ drop (length TOKEN) (fh_out fh') @ ''>>> '')
        (fh'\<lparr>fh_out := []\<rparr>) (gapped TOKEN 3 (v @ ''echo'') [CHR 0x0A] @ drop (length TOKEN) (fh_out fh') @ ''>>> '')"
      by (simp add: shows_file_def)
    ultimately show ?thesis by blast
  qed
  moreover have "rq_get_session stream_env 0 w = Some 0" for w by (simp add: stream_env_def)
  ultimately show ?thesis unfolding serves_file_def by (intro conjI allI impI) (auto simp: shows_file_def)
qed

definition far_proxy :: "string \<Rightarrow> bool \<Rightarrow> proxy" where
  "far_proxy n owned = new_proxy 3600 (Some n) owned False idle_terminal"

definition one_open :: remote_files where
  "one_open = \<lparr>rf_open = [0 \<mapsto> \<lparr>or_fileproxy = far_proxy ''f'' True, or_filehandle = None, or_proxy_handle = None\<rparr>], rf_next = 1\<rparr>"

definition no_proxies :: os_proxies where
  "no_proxies = \<lparr>op_chmod = far_proxy ''c'' False, op_makedirs = far_proxy ''m'' False, op_path = far_proxy ''p'' False\<rparr>"

definition stored :: string where
  "stored = in_namespace ''_PROXY_CONTAINER.handle_u''"

lemma stream_run: "run_python stream_env cmd tmo (idle_terminal, w) = Some (Inr (RObj PyNone), (idle_terminal, w))"
proof -
  have e: "rq_error_handling stream_env m = m" for m by (simp add: stream_env_def)
  have r: "rt_run stream_env cmd tmo (idle_terminal, w) = Some (Inr ''R'', (idle_terminal, w))" for cmd tmo
    by (simp add: idle_terminal_def new_runner_terminal_def new_garbage_manager_def rt_run_def stream_env_def
        clean_if_gm_needed_def gm_clean_needed_def run_in_session_def rt_session_def rt_get_session_def)
  have "get_response_or_raise (rq_pickler stream_env) ''R'' = Inr (RReturn ''run'' PyNone)"
    by (simp add: stream_env_def tiny_pickler_def get_response_or_raise_def try_to_deserialize_def unpickle_output_def
        identity_or_raise_def try_to_unpickle_def)
  then show ?thesis
    unfolding run_python_def using remote_run_settled [OF e r] by (simp add: settled_def)
qed

lemma stream_handle: "get_proxy_handle stream_env (far_proxy n b) (idle_terminal, w) = Some (Inr n, (idle_terminal, w))"
  by (simp add: get_proxy_handle_def remote_proxy_autoprepare_def remote_proxy_verify_def stream_env_def far_proxy_def
      new_proxy_def proxy_id_of_def idle_terminal_def)

lemma stream_call: "get_python_call stream_env fn [ArgProxy (far_proxy n b)] [] (idle_terminal, w) =
    Some (Inr (fn @ ''('' @ n @ '')''), (idle_terminal, w))"
  by (simp add: get_python_call_def get_python_arg_def stream_handle)

lemma stream_make:
  "get_proxy_object_from_call stream_env 3600 fn [ArgProxy (far_proxy n b)] [] (idle_terminal, w) =
    Some (Inr (far_proxy stored True), (idle_terminal, w))"
proof -
  have "random_handle_name stream_env (idle_terminal, w) = Some (Inr stored, (idle_terminal, w))"
    by (simp add: random_handle_name_def stream_env_def stored_def)
  then show ?thesis
    by (simp add: get_proxy_object_from_call_def stream_call stream_run) (simp add: far_proxy_def)
qed

lemma stream_set:
  "call_method stream_env stream_terminal (far_proxy stored True) n [ArgProxy (far_proxy m b)] (idle_terminal, w) =
    Some (Inr (ProxyValue (RObj PyNone)), (idle_terminal, w))"
proof -
  have "remote_proxy_autoprepare stream_env (far_proxy stored True) (idle_terminal, w) = Some (Inr (), (idle_terminal, w))"
    by (simp add: remote_proxy_autoprepare_def remote_proxy_verify_def stream_env_def far_proxy_def new_proxy_def
        proxy_id_of_def idle_terminal_def)
  moreover have "px_handle (far_proxy stored True) = Some stored" "px_spec (far_proxy stored True) = None"
    "px_async (far_proxy stored True) = False" "rw_truth stream_terminal = (\<lambda>_. True)"
    by (simp_all add: far_proxy_def new_proxy_def stream_terminal_def)
  ultimately show ?thesis
    by (simp add: call_method_def proxy_getattr_def handle_text_def iscallable_def stream_run proxy_method_call_def
        remote_proxy_run_python_call_def proxy_response_def responsehandler_def remotetimeouthandler_def
        run_python_call_with_timeout_def stream_call)
qed

definition far_file :: file_handle where
  "far_file = \<lparr>fh_content = ''abcdef'', fh_pos = 2, fh_in = [], fh_out = []\<rparr>"

lemma remote_file_is_copied_witness:
  "\<exists>f w' g. copy_blocks (\<lambda>n. on_first (os_read (remote_file_os stream_env stream_terminal 30 no_proxies) 0 n))
      (\<lambda>b. in_world (handle_file_write b))
      ((one_open, idle_terminal, (far_file, ''>>> '')), \<lparr>fh_content = [], fh_pos = 0, fh_in = [], fh_out = []\<rparr>) =
    Some (Inr (), ((f, idle_terminal, w'), g)) \<and> fh_content g = ''cdef'' \<and>
    map_option or_proxy_handle (rf_open f 0) = Some (Some stored)"
proof -
  have d: "rw_default_timeout stream_terminal = 3600" "rtm_session idle_terminal = Some 0"
    "new_proxy 3600 (Some n) False False idle_terminal = far_proxy n False" for n
    by (simp_all add: stream_terminal_def idle_terminal_def far_proxy_def)
  define e where "e = \<lparr>or_fileproxy = far_proxy ''f'' True, or_filehandle = None, or_proxy_handle = None\<rparr>"
  have o1: "rf_open one_open 0 = Some e" "or_filehandle e = None" "or_proxy_handle e = None" "or_fileproxy e = far_proxy ''f'' True"
    by (simp_all add: one_open_def e_def)
  have h: "harmless ''>>> ''" by (simp add: harmless_def TOKEN_def)
  have far: "fh_pos far_file = 2" "fh_content far_file = ''abcdef''" by (simp_all add: far_file_def)
  define wo where "wo = (far_file, ''>>> '')"
  have s: "shows_file wo far_file ''>>> ''" by (simp add: shows_file_def far_file_def wo_def)
  have c: "rq_get_session stream_env 0 w = Some 0" "rw_stdout_str stream_terminal 0 w = Some (Inr ''__stdout'', w)" for w
    by (simp_all add: stream_env_def stream_terminal_def)
  have A: "get_proxy_object_from_call stream_env (rw_default_timeout stream_terminal) (get_remote_obj ''FileHandle'')
      [ArgProxy (or_fileproxy e)] [] (idle_terminal, wo) = Some (Inr (far_proxy stored True), (idle_terminal, wo))"
    unfolding d(1) o1(4) by (rule stream_make)
  have B: "call_method stream_env stream_terminal (far_proxy stored True) ''set_io_outfile''
      [ArgProxy (new_proxy (rw_default_timeout stream_terminal) (Some ''__stdout'') False False idle_terminal)]
      (idle_terminal, wo) = Some (Inr (ProxyValue (RObj PyNone)), (idle_terminal, wo))"
    unfolding d(1,3) by (rule stream_set)
  let ?f = "one_open\<lparr>rf_open := (rf_open one_open)(0 \<mapsto> e\<lparr>or_filehandle := Some (far_proxy stored True), or_proxy_handle := Some stored\<rparr>)\<rparr>"
  have "\<exists>w' g fh' v'. copy_blocks (\<lambda>n. on_first (os_read (remote_file_os stream_env stream_terminal 30 no_proxies) 0 n))
      (\<lambda>b. in_world (handle_file_write b))
      ((one_open, idle_terminal, wo), \<lparr>fh_content = [], fh_pos = 0, fh_in = [], fh_out = []\<rparr>) =
    Some (Inr (), ((?f, idle_terminal, w'), g)) \<and> fh_content g = drop (fh_pos far_file) (fh_content far_file) \<and>
    shows_file w' fh' v' \<and> drop (fh_pos fh') (fh_content fh') = []"
    by (rule remote_file_is_copied [OF stream_serves o1(1-3) A d(2) c(1) c(2) B stream_handle d(2) s h])
  then obtain w' g where g: "copy_blocks (\<lambda>n. on_first (os_read (remote_file_os stream_env stream_terminal 30 no_proxies) 0 n))
      (\<lambda>b. in_world (handle_file_write b))
      ((one_open, idle_terminal, wo), \<lparr>fh_content = [], fh_pos = 0, fh_in = [], fh_out = []\<rparr>) =
    Some (Inr (), ((?f, idle_terminal, w'), g))" "fh_content g = drop (fh_pos far_file) (fh_content far_file)" by blast
  have "fh_content g = ''cdef''" unfolding g(2) far by simp
  moreover have "map_option or_proxy_handle (rf_open ?f 0) = Some (Some stored)" by simp
  ultimately show ?thesis using g(1) unfolding wo_def by blast
qed

end
