(* ===== verification/Pool.thy ===== *)
theory Pool
  imports Prelude
begin

text \<open>
  \<open>_pool.py\<close>: the pool of terminals. Items are identified by their object identity, so the
  sets \<open>free\<close> and \<open>inuse\<close> are sets of identities and the shared counter is a function of them.
  A pool operation runs over the pool and the rest of the world; creating and closing an item
  are programs over the world. Which item \<open>set.pop\<close> takes and in which order a set is iterated
  is not specified by Python: both are functions of the world, so they may depend on the past.
\<close>

section \<open>The shared counter\<close>

type_synonym 'i counter = "'i \<Rightarrow> int"

definition new_counter :: "'i counter" where
  "new_counter = (\<lambda>_. 0)"

definition counter_incr :: "'i \<Rightarrow> 'i counter \<Rightarrow> 'i counter" where
  "counter_incr i c = c(i := c i + 1)"

definition counter_decr :: "'i \<Rightarrow> 'i counter \<Rightarrow> 'i counter" where
  "counter_decr i c = c(i := c i - 1)"

definition counter_get_count :: "'i \<Rightarrow> 'i counter \<Rightarrow> int" where
  "counter_get_count i c = c i"

definition counter_clear :: "'i \<Rightarrow> 'i counter \<Rightarrow> 'i counter" where
  "counter_clear i c = c(i := 0)"

section \<open>The pool\<close>

record 'i pool =
  pl_maxsize :: int
  pl_exception :: exn
  pl_inuse :: "'i set"
  pl_free :: "'i set"
  pl_shared :: "'i counter"

record ('i, 'w) pool_items =
  pi_factory :: "('w, 'i) py"
  pi_close :: "'i \<Rightarrow> ('w, unit) py"
  pi_pick :: "'w \<Rightarrow> 'i set \<Rightarrow> 'i"
  pi_order :: "'w \<Rightarrow> 'i set \<Rightarrow> 'i list"

type_synonym ('i, 'w, 'a) pool_op = "('i pool \<times> 'w, 'a) py"

definition new_pool :: "exn \<Rightarrow> 'i pool" where
  "new_pool e = \<lparr>pl_maxsize = 0, pl_exception = e, pl_inuse = {}, pl_free = {}, pl_shared = new_counter\<rparr>"

definition pool_size :: "'i pool \<Rightarrow> nat" where
  "pool_size p = card (pl_inuse p) + card (pl_free p)"

definition pool_all_items :: "'i pool \<Rightarrow> 'i set" where
  "pool_all_items p = pl_inuse p \<union> pl_free p"

definition shared_free_size :: "'i pool \<Rightarrow> nat" where
  "shared_free_size p = card {i \<in> pl_free p. counter_get_count i (pl_shared p) \<noteq> 0}"

definition pool_get_item :: "('i, 'w) pool_items \<Rightarrow> ('i, 'w, 'i) pool_op" where
  "pool_get_item it = (\<lambda>(p, w).
     if pl_free p \<noteq> {} then
       (let i = pi_pick it w (pl_free p) in Some (Inr i, (p\<lparr>pl_free := pl_free p - {i}\<rparr>, w)))
     else if int (card (pl_inuse p)) \<ge> pl_maxsize p then Some (Inl (pl_exception p), (p, w))
     else in_world (pi_factory it) (p, w))"

definition pool_get :: "('i, 'w) pool_items \<Rightarrow> ('i, 'w, 'i) pool_op" where
  "pool_get it = bnd (pool_get_item it) (\<lambda>i.
     andthen (upd (\<lambda>p. p\<lparr>pl_inuse := insert i (pl_inuse p)\<rparr>)) (ret i))"

definition pool_put :: "'i \<Rightarrow> ('i, 'w, unit) pool_op" where
  "pool_put i = (\<lambda>(p, w).
     if i \<in> pl_inuse p
     then Some (Inr (), (p\<lparr>pl_inuse := pl_inuse p - {i}, pl_free := insert i (pl_free p)\<rparr>, w))
     else Some (Inl KeyError, (p, w)))"

definition pool_put_incr_shared :: "'i \<Rightarrow> ('i, 'w, unit) pool_op" where
  "pool_put_incr_shared i = andthen (pool_put i) (upd (\<lambda>p. p\<lparr>pl_shared := counter_incr i (pl_shared p)\<rparr>))"

definition pool_decr_shared :: "'i \<Rightarrow> ('i, 'w, unit) pool_op" where
  "pool_decr_shared i = upd (\<lambda>p. p\<lparr>pl_shared := counter_decr i (pl_shared p)\<rparr>)"

definition try_to_close_item :: "('i, 'w) pool_items \<Rightarrow> 'i \<Rightarrow> ('i, 'w, unit) pool_op" where
  "try_to_close_item it i =
     catching (in_world (pi_close it i)) (\<lambda>e. if is_Exception e then ret () else throw e)"

definition pool_close :: "('i, 'w) pool_items \<Rightarrow> ('i, 'w, unit) pool_op" where
  "pool_close it = bnd (gets (\<lambda>(p, w). pi_order it w (pool_all_items p))) (\<lambda>js.
     andthen (for_each (try_to_close_item it) js)
       (upd (\<lambda>p. p\<lparr>pl_inuse := {}, pl_free := {}, pl_shared := new_counter\<rparr>)))"

definition pool_remove :: "('i, 'w) pool_items \<Rightarrow> 'i \<Rightarrow> ('i, 'w, unit) pool_op" where
  "pool_remove it i = andthen (try_to_close_item it i)
     (andthen (upd (\<lambda>p. p\<lparr>pl_shared := counter_clear i (pl_shared p)\<rparr>))
       (upd (\<lambda>p. p\<lparr>pl_inuse := pl_inuse p - {i}, pl_free := pl_free p - {i}\<rparr>)))"

text \<open>
  The loop over \<open>enumerate(islice(self._unshared_free(), n), start=1)\<close>: the generator reads the
  counter of the next item after the previous one has been removed, and the slice takes no
  item more than it needs.
\<close>

fun remove_slice :: "('i, 'w) pool_items \<Rightarrow> 'i list \<Rightarrow> nat \<Rightarrow> int \<Rightarrow> ('i, 'w, int) pool_op" where
  "remove_slice it [] n c = ret c"
| "remove_slice it (i # js) n c = (\<lambda>(p, w).
     if n = 0 then Some (Inr c, (p, w))
     else if counter_get_count i (pl_shared p) \<noteq> 0 then remove_slice it js n c (p, w)
     else andthen (pool_remove it i) (remove_slice it js (n - 1) (c + 1)) (p, w))"

definition remove_n_free :: "('i, 'w) pool_items \<Rightarrow> int \<Rightarrow> ('i, 'w, int) pool_op" where
  "remove_n_free it n = bnd (gets (\<lambda>(p, w). pi_order it w (pl_free p))) (\<lambda>js.
     remove_slice it js (nat n) 0)"

definition remove_every_nth_free :: "('i, 'w) pool_items \<Rightarrow> int \<Rightarrow> ('i, 'w, int) pool_op" where
  "remove_every_nth_free it n = (\<lambda>(p, w). remove_n_free it (int (card (pl_free p)) div n) (p, w))"

definition pool_set_maxsize :: "('i, 'w) pool_items \<Rightarrow> int \<Rightarrow> ('i, 'w, unit) pool_op" where
  "pool_set_maxsize it m = (\<lambda>(p, w).
     if m < int (card (pl_inuse p) + shared_free_size p) then Some (Inl (pl_exception p), (p, w))
     else andthen (bnd (remove_n_free it (int (card (pl_free p)) - m)) (\<lambda>_. ret ()))
       (upd (\<lambda>q. q\<lparr>pl_maxsize := m\<rparr>)) (p, w))"

section \<open>What the pool promises\<close>

text \<open>
  \<open>alive w\<close> are the items that exist in the world \<open>w\<close>: an item made by the factory is a new
  one, and no item ceases to exist while the pool refers to it.
\<close>

definition pool_wf :: "'i pool \<Rightarrow> bool" where
  "pool_wf p \<longleftrightarrow> finite (pl_inuse p) \<and> finite (pl_free p) \<and> pl_inuse p \<inter> pl_free p = {}"

definition unshared :: "'i pool \<Rightarrow> 'i \<Rightarrow> bool" where
  "unshared p i \<longleftrightarrow> counter_get_count i (pl_shared p) = 0"

definition without :: "'i set \<Rightarrow> 'i pool \<Rightarrow> 'i pool" where
  "without S p = p\<lparr>pl_inuse := pl_inuse p - S, pl_free := pl_free p - S\<rparr>"

definition closes_return :: "('i, 'w) pool_items \<Rightarrow> bool" where
  "closes_return it \<longleftrightarrow> (\<forall>i w. \<exists>r w'. pi_close it i w = Some (r, w') \<and> r \<noteq> Inl SystemExit)"

lemma pool_wf_new [simp]: "pool_wf (new_pool e)"
  by (simp add: pool_wf_def new_pool_def)

lemma pool_wf_without: "pool_wf p \<Longrightarrow> pool_wf (without S p)"
  by (auto simp: pool_wf_def without_def)

lemma pool_size_new [simp]: "pool_size (new_pool e) = 0"
  by (simp add: pool_size_def new_pool_def)

lemma pool_size_items: "pool_wf p \<Longrightarrow> pool_size p = card (pool_all_items p)"
  by (simp add: pool_size_def pool_all_items_def pool_wf_def card_Un_disjoint)

lemma try_to_close_returns:
  "closes_return it \<Longrightarrow> \<exists>w'. try_to_close_item it i (p, w) = Some (Inr (), (p, w'))"
proof -
  assume "closes_return it"
  then obtain r w' where r: "pi_close it i w = Some (r, w')" "r \<noteq> Inl SystemExit"
    unfolding closes_return_def by blast
  then show ?thesis
    by (cases r) (auto simp: try_to_close_item_def is_Exception_def)
qed

lemma clear_unshared: "unshared p i \<Longrightarrow> p\<lparr>pl_shared := counter_clear i (pl_shared p)\<rparr> = p"
  by (simp add: unshared_def counter_get_count_def counter_clear_def fun_upd_idem)

lemma pool_remove_returns:
  assumes "closes_return it" "unshared p i"
  shows "\<exists>w'. pool_remove it i (p, w) = Some (Inr (), (without {i} p, w'))"
  using try_to_close_returns [OF assms(1), of i p w] clear_unshared [OF assms(2)]
  by (auto simp: pool_remove_def without_def)

lemma without_insert: "without S (without {i} p) = without (insert i S) p"
  by (simp add: without_def Diff_eq Int_assoc flip: Compl_insert) (auto intro!: arg_cong2 [where f = "\<lambda>a b. p\<lparr>pl_inuse := a, pl_free := b\<rparr>"])

text \<open>
  Removing a slice takes the first \<open>n\<close> unshared items, whatever closing them does; shared
  items are passed over.
\<close>

lemma remove_slice_returns:
  assumes "closes_return it"
  shows "\<exists>w'. remove_slice it js n c (p, w) =
    Some (Inr (c + int (length (take n (filter (unshared p) js)))),
      (without (set (take n (filter (unshared p) js))) p, w'))"
proof (induction js arbitrary: n c p w)
  case Nil
  show ?case by (simp add: without_def)
next
  case (Cons i js)
  show ?case
  proof (cases "n = 0 \<or> \<not> unshared p i")
    case True
    then show ?thesis using Cons.IH [of n c p w] by (auto simp: unshared_def without_def)
  next
    case False
    then obtain w1 where w1: "pool_remove it i (p, w) = Some (Inr (), (without {i} p, w1))"
      using pool_remove_returns [OF assms, of p i w] by auto
    have "unshared (without {i} p) = unshared p" by (simp add: unshared_def without_def fun_eq_iff)
    moreover note without_insert [of _ i p]
    ultimately show ?thesis
      using False w1 Cons.IH [of "n - 1" "c + 1" "without {i} p" w1]
      by (cases n) (auto simp: unshared_def)
  qed
qed

definition removed_items :: "('i, 'w) pool_items \<Rightarrow> nat \<Rightarrow> 'i pool \<Rightarrow> 'w \<Rightarrow> 'i list" where
  "removed_items it n p w = take n (filter (unshared p) (pi_order it w (pl_free p)))"

lemma remove_n_free_returns:
  "closes_return it \<Longrightarrow> \<exists>w'. remove_n_free it n (p, w) =
    Some (Inr (int (length (removed_items it (nat n) p w))),
      (without (set (removed_items it (nat n) p w)) p, w'))"
  using remove_slice_returns [of it "pi_order it w (pl_free p)" "nat n" 0 p w]
  by (simp add: remove_n_free_def removed_items_def)

lemma remove_n_free_0: "n \<le> 0 \<Longrightarrow> remove_n_free it n (p, w) = Some (Inr 0, (p, w))"
  by (cases "pi_order it w (pl_free p)") (simp_all add: remove_n_free_def)

text \<open>The same without assuming that closing returns: what holds of a removal that does.\<close>

lemma try_to_close_result:
  "try_to_close_item it i (p, w) = Some (r, s) \<Longrightarrow> fst s = p"
  by (auto simp: try_to_close_item_def catch_outcome_def split: option.splits sum.splits if_splits)

lemma pool_remove_result:
  assumes "pool_remove it i (p, w) = Some (Inr (), (p', w'))" "unshared p i"
  shows "p' = without {i} p"
proof -
  obtain q v where c: "try_to_close_item it i (p, w) = Some (Inr (), (q, v))"
    and p': "(p', w') = (let a = q\<lparr>pl_shared := counter_clear i (pl_shared q)\<rparr> in
      (a\<lparr>pl_inuse := pl_inuse a - {i}, pl_free := pl_free a - {i}\<rparr>, v))"
    using assms(1) by (auto simp: pool_remove_def seq_outcome_Inr_iff)
  have "q = p" using try_to_close_result [OF c] by simp
  then show ?thesis using p' clear_unshared [OF assms(2)] by (simp add: without_def)
qed

lemma remove_slice_result:
  assumes "remove_slice it js n c (p, w) = Some (Inr m, (p', w'))"
  shows "m = c + int (length (take n (filter (unshared p) js))) \<and>
    p' = without (set (take n (filter (unshared p) js))) p"
  using assms
proof (induction js arbitrary: n c p w)
  case Nil
  then show ?case by (simp add: without_def)
next
  case (Cons i js)
  show ?case
  proof (cases "n = 0 \<or> \<not> unshared p i")
    case True
    then show ?thesis
      using Cons.prems Cons.IH [of n c p w]
      by (cases "n = 0") (simp_all add: unshared_def without_def)
  next
    case False
    then obtain k q v where nk: "n = Suc k" and q: "pool_remove it i (p, w) = Some (Inr (), (q, v))"
      and r: "remove_slice it js k (c + 1) (q, v) = Some (Inr m, (p', w'))"
      using Cons.prems by (cases n) (auto simp: unshared_def seq_outcome_Inr_iff)
    have qi: "q = without {i} p" using pool_remove_result [OF q] False by simp
    then have "unshared q = unshared p" by (simp add: unshared_def without_def fun_eq_iff)
    moreover have "without S q = without (insert i S) p" for S
      using without_insert [of S i p] qi by simp
    ultimately show ?thesis using Cons.IH [OF r] nk False by auto
  qed
qed

lemma remove_n_free_result:
  assumes "remove_n_free it n (p, w) = Some (Inr m, (p', w'))"
  shows "m = int (length (removed_items it (nat n) p w)) \<and>
    p' = without (set (removed_items it (nat n) p w)) p"
  using remove_slice_result [of it "pi_order it w (pl_free p)" "nat n" 0 p w] assms
  by (simp add: remove_n_free_def removed_items_def)

locale item_source =
  fixes it :: "('i, 'w) pool_items" and grows :: "'w \<Rightarrow> 'w \<Rightarrow> bool" and alive :: "'w \<Rightarrow> 'i set"
  assumes pick_in: "S \<noteq> {} \<Longrightarrow> pi_pick it w S \<in> S"
    and order_set: "finite S \<Longrightarrow> set (pi_order it w S) = S \<and> distinct (pi_order it w S)"
    and grows_refl: "grows w w"
    and grows_trans: "grows w v \<Longrightarrow> grows v u \<Longrightarrow> grows w u"
    and grows_alive: "grows w v \<Longrightarrow> alive w \<subseteq> alive v"
    and factory_keeps: "keeps grows (pi_factory it)"
    and factory_new: "pi_factory it w = Some (Inr i, w') \<Longrightarrow> i \<notin> alive w \<and> i \<in> alive w'"
    and close_keeps: "keeps grows (pi_close it i)"
begin

definition ok :: "'i pool \<times> 'w \<Rightarrow> bool" where
  "ok s \<longleftrightarrow> pool_wf (fst s) \<and> pool_all_items (fst s) \<subseteq> alive (snd s)"

lemma removed_facts:
  assumes "pool_wf p"
  shows "set (removed_items it n p w) \<subseteq> {i \<in> pl_free p. unshared p i}"
    and "distinct (removed_items it n p w)"
    and "length (removed_items it n p w) = min n (card {i \<in> pl_free p. unshared p i})"
proof -
  have o: "set (pi_order it w (pl_free p)) = pl_free p" "distinct (pi_order it w (pl_free p))"
    using order_set assms by (auto simp: pool_wf_def)
  show "set (removed_items it n p w) \<subseteq> {i \<in> pl_free p. unshared p i}"
    using o set_take_subset [of n "filter (unshared p) (pi_order it w (pl_free p))"]
    unfolding removed_items_def by auto
  show "distinct (removed_items it n p w)"
    using o by (simp add: removed_items_def)
  have "length (filter (unshared p) (pi_order it w (pl_free p))) =
      card (set (filter (unshared p) (pi_order it w (pl_free p))))"
    using o by (intro distinct_card [symmetric]) simp
  then show "length (removed_items it n p w) = min n (card {i \<in> pl_free p. unshared p i})"
    using o by (simp add: removed_items_def min.commute)
qed

lemma size_after_removal:
  assumes "pool_wf p"
  shows "pool_size (without (set (removed_items it n p w)) p) =
    pool_size p - min n (card {i \<in> pl_free p. unshared p i})"
proof -
  let ?S = "set (removed_items it n p w)"
  have S: "?S \<subseteq> pl_free p" "card ?S = min n (card {i \<in> pl_free p. unshared p i})"
    using removed_facts [OF assms, where n = n and w = w] by (auto simp: distinct_card)
  have "pl_inuse p - ?S = pl_inuse p" using S(1) assms by (auto simp: pool_wf_def)
  then show ?thesis
    using S assms card_mono [of "pl_free p" ?S]
    by (simp add: pool_size_def without_def pool_wf_def card_Diff_subset finite_subset)
qed

lemma get_returns_item:
  assumes "ok (p, w)" and g: "pool_get it (p, w) = Some (Inr i, (p', w'))"
  shows "pl_inuse p' = insert i (pl_inuse p) \<and> i \<notin> pl_inuse p \<and> ok (p', w') \<and> pl_shared p' = pl_shared p \<and>
    pl_maxsize p' = pl_maxsize p \<and>
    pool_size p' = (if pl_free p = {} then pool_size p + 1 else pool_size p) \<and>
    (pl_free p = {} \<longrightarrow> int (card (pl_inuse p)) < pl_maxsize p)"
proof -
  have wf: "pool_wf p" and al: "pool_all_items p \<subseteq> alive w" using assms(1) by (simp_all add: ok_def)
  show ?thesis
  proof (cases "pl_free p = {}")
    case False
    let ?j = "pi_pick it w (pl_free p)"
    have j: "?j \<in> pl_free p" using pick_in [OF False] .
    have eq: "i = ?j" "w' = w"
      "p' = p\<lparr>pl_free := pl_free p - {?j}, pl_inuse := insert ?j (pl_inuse p)\<rparr>"
      using g False by (auto simp: pool_get_def pool_get_item_def Let_def)
    have "?j \<notin> pl_inuse p" using j wf by (auto simp: pool_wf_def)
    moreover have "pool_size p' = pool_size p"
      using j wf calculation eq card_gt_0_iff [of "pl_free p"] by (auto simp: pool_size_def pool_wf_def)
    ultimately show ?thesis
      using False j wf al eq by (auto simp: ok_def pool_wf_def pool_all_items_def)
  next
    case True
    have m: "int (card (pl_inuse p)) < pl_maxsize p" and f: "pi_factory it w = Some (Inr i, w')"
      and eq: "p' = p\<lparr>pl_inuse := insert i (pl_inuse p)\<rparr>"
      using g True by (auto simp: pool_get_def pool_get_item_def seq_outcome_Inr_iff split: if_splits option.splits)
    have new: "i \<notin> alive w" "i \<in> alive w'" "alive w \<subseteq> alive w'"
      using factory_new [OF f] grows_alive [OF keepsD [OF factory_keeps f]] by auto
    have ni: "i \<notin> pl_inuse p" using new al by (auto simp: pool_all_items_def)
    moreover have "pool_size p' = pool_size p + 1"
      using ni wf eq by (simp add: pool_size_def pool_wf_def)
    ultimately show ?thesis
      using True m new wf al eq by (auto simp: ok_def pool_wf_def pool_all_items_def)
  qed
qed

text \<open>Every operation keeps the invariant, on success and on every exception.\<close>

definition step :: "'i pool \<times> 'w \<Rightarrow> 'i pool \<times> 'w \<Rightarrow> bool" where
  "step s s' \<longleftrightarrow> grows (snd s) (snd s') \<and> (ok s \<longrightarrow> ok s')"

sublocale ok: step_relation step
  by unfold_locales (auto simp: step_def intro: grows_refl grows_trans)

lemma ok_in_world:
  assumes "keeps grows m"
  shows "keeps step (in_world m)"
  using keepsD [OF assms] grows_alive
  by (fastforce intro!: keeps_gen simp: in_world_def ok_def step_def split: option.splits prod.splits)

lemma ok_shrink:
  assumes "\<And>p. pl_inuse (f p) \<subseteq> pl_inuse p" "\<And>p. pl_free (f p) \<subseteq> pl_free p"
  shows "keeps step (upd f)"
proof (rule keeps_gen)
  fix s r and s' :: "'i pool \<times> 'w" assume u: "upd f s = Some (r, s')"
  obtain p w where s: "s = (p, w)" by (cases s)
  have "s' = (f p, w)" using u s by simp
  then show "step s s'"
    using assms [of p] unfolding s step_def ok_def pool_wf_def pool_all_items_def
    by (auto intro: finite_subset grows_refl)
qed

lemma ok_try_to_close: "keeps step (try_to_close_item it i)"
  unfolding try_to_close_item_def
  by (intro ok.keeps_catching ok_in_world close_keeps keeps_if ok.keeps_simple)

lemma ok_remove: "keeps step (pool_remove it i)"
  unfolding pool_remove_def by (intro ok.keeps_andthen ok_try_to_close ok_shrink) auto

lemma ok_remove_slice: "keeps step (remove_slice it js n c)"
proof (induction js arbitrary: n c)
  case Nil
  show ?case unfolding remove_slice.simps by (rule ok.keeps_simple)
next
  case (Cons i js)
  have k: "keeps step (andthen (pool_remove it i) (remove_slice it js (n - 1) (c + 1)))"
    by (intro ok.keeps_andthen ok_remove Cons.IH)
  show ?case
    by (rule keeps_gen) (use keepsD [OF k] keepsD [OF Cons.IH [of n c]] ok.R_refl in \<open>auto split: if_splits\<close>)
qed

lemma ok_remove_n_free: "keeps step (remove_n_free it n)"
  unfolding remove_n_free_def by (intro ok.keeps_bnd ok.keeps_simple ok_remove_slice)

lemma ok_remove_every_nth_free: "keeps step (remove_every_nth_free it n)"
  by (rule keeps_gen) (use keepsD [OF ok_remove_n_free] in \<open>auto simp: remove_every_nth_free_def\<close>)

lemma ok_set_maxsize: "keeps step (pool_set_maxsize it m)"
proof -
  have k: "keeps step
      (andthen (bnd (remove_n_free it n) (\<lambda>_. ret ())) (upd (\<lambda>q. q\<lparr>pl_maxsize := m\<rparr>)))" for n
    by (intro ok.keeps_andthen ok.keeps_bnd ok_remove_n_free ok.keeps_simple ok_shrink) auto
  show ?thesis
    by (rule keeps_gen) (use keepsD [OF k] ok.R_refl in \<open>auto simp: pool_set_maxsize_def split: if_splits\<close>)
qed

lemma ok_put: "keeps step (pool_put i)"
  by (rule keeps_gen) (auto simp: pool_put_def step_def ok_def pool_wf_def pool_all_items_def grows_refl split: if_splits)

lemma ok_put_incr_shared: "keeps step (pool_put_incr_shared i)"
  unfolding pool_put_incr_shared_def by (intro ok.keeps_andthen ok_put ok_shrink) auto

lemma ok_decr_shared: "keeps step (pool_decr_shared i)"
  unfolding pool_decr_shared_def by (intro ok_shrink) auto

lemma ok_close: "keeps step (pool_close it)"
  unfolding pool_close_def
  by (intro ok.keeps_bnd ok.keeps_andthen ok.keeps_for_each ok.keeps_simple ok_try_to_close ok_shrink) auto

lemma get_grows: "pool_get it (p, w) = Some (r, (p', w')) \<Longrightarrow> grows w w'"
  using keepsD [OF factory_keeps]
  by (auto simp: pool_get_def pool_get_item_def Let_def grows_refl split: if_splits option.splits elim!: seq_outcome_cases)

lemma get_fails:
  assumes "ok (p, w)" and g: "pool_get it (p, w) = Some (Inl e, (p', w'))"
  shows "p' = p \<and> ok (p', w')"
proof -
  have "p' = p"
    using g by (auto simp: pool_get_def pool_get_item_def Let_def split: if_splits option.splits elim!: seq_outcome_cases)
  then show ?thesis
    using assms(1) grows_alive [OF get_grows [OF g]] by (auto simp: ok_def)
qed

lemma ok_get: "keeps step (pool_get it)"
proof (rule keeps_gen)
  fix s r s' assume g: "pool_get it s = Some (r, s')"
  obtain p w p' w' where s: "s = (p, w)" "s' = (p', w')" by (cases s, cases s')
  then show "step s s'"
    using get_fails [of p w _ p' w'] get_returns_item [of p w _ p' w'] get_grows [of p w r p' w'] g
    by (cases r) (auto simp: step_def)
qed

lemmas ok_ops = ok_get ok_put ok_put_incr_shared ok_decr_shared ok_remove ok_remove_n_free
  ok_remove_every_nth_free ok_set_maxsize ok_close

text \<open>
  Under its maximum size a pool grows only when nothing is free, and then it stays under it.
\<close>

lemma get_bounded:
  assumes "ok (p, w)" "pool_get it (p, w) = Some (r, (p', w'))" "int (pool_size p) \<le> pl_maxsize p"
  shows "int (pool_size p') \<le> pl_maxsize p'"
proof (cases r)
  case (Inl e)
  then show ?thesis using get_fails assms by metis
next
  case (Inr i)
  have "int (card (pl_inuse p)) = int (pool_size p)" if "pl_free p = {}"
    using that by (simp add: pool_size_def)
  then show ?thesis using get_returns_item [OF assms(1), of i p' w'] assms(2,3) Inr by (auto split: if_splits)
qed

text \<open>
  \<open>set_maxsize\<close> removes as many free items as the new maximum is smaller than their number; the
  items in use are not counted.
\<close>

lemma set_maxsize_size:
  assumes "ok (p, w)" "pool_set_maxsize it m (p, w) = Some (Inr (), (p', w'))"
  shows "pl_maxsize p' = m \<and>
    pool_size p' = pool_size p - min (nat (int (card (pl_free p)) - m)) (card {i \<in> pl_free p. unshared p i})"
proof -
  have wf: "pool_wf p" using assms(1) by (simp add: ok_def)
  obtain c q v where q: "remove_n_free it (int (card (pl_free p)) - m) (p, w) = Some (Inr c, (q, v))"
    and p': "p' = q\<lparr>pl_maxsize := m\<rparr>"
    using assms(2) by (auto simp: pool_set_maxsize_def seq_outcome_Inr_iff split: if_splits)
  have "pool_size p' = pool_size q" using p' by (simp add: pool_size_def)
  then show ?thesis
    using remove_n_free_result [OF q] size_after_removal [OF wf] p' by simp
qed

end
section \<open>The maximum size\<close>

text \<open>Items numbered in the order of their creation: the smallest source of items that obeys the laws.\<close>

definition numbered_items :: "(nat, nat) pool_items" where
  "numbered_items = \<lparr>pi_factory = (\<lambda>n. Some (Inr n, Suc n)), pi_close = (\<lambda>_. ret ()),
     pi_pick = (\<lambda>_ S. LEAST i. i \<in> S), pi_order = (\<lambda>_ S. sorted_list_of_set S)\<rparr>"

lemma numbered_source: "item_source numbered_items (\<le>) (\<lambda>n. {..<n})"
  by unfold_locales (auto simp: numbered_items_def keeps_def intro: LeastI)

context item_source
begin

lemma set_maxsize_unshared:
  assumes c: "closes_return it" and wf: "pool_wf p" and un: "\<forall>i \<in> pl_free p. unshared p i"
    and m: "int (card (pl_inuse p)) \<le> m"
  shows "\<exists>p' w'. pool_set_maxsize it m (p, w) = Some (Inr (), (p', w')) \<and> pl_maxsize p' = m \<and>
    int (pool_size p') = int (card (pl_inuse p)) + min (int (card (pl_free p))) m"
proof -
  let ?n = "nat (int (card (pl_free p)) - m)"
  let ?js = "removed_items it ?n p w"
  obtain w' where r: "remove_n_free it (int (card (pl_free p)) - m) (p, w) =
      Some (Inr (int (length ?js)), (without (set ?js) p, w'))"
    using remove_n_free_returns [OF c] by blast
  have "{i \<in> pl_free p. unshared p i} = pl_free p" "shared_free_size p = 0"
    using un by (auto simp: shared_free_size_def unshared_def conj_commute cong: conj_cong)
  then have "pool_size (without (set ?js) p) = pool_size p - min ?n (card (pl_free p))"
    using size_after_removal [OF wf, of ?n w] by simp
  then show ?thesis
    using r m \<open>shared_free_size p = 0\<close> by (simp add: pool_set_maxsize_def pool_size_def)
qed

end

text \<open>
  \<open>set_maxsize\<close> cuts the free items down to the maximum as if nothing were in use: with the items in
  use the pool keeps \<open>min (number of free items) m\<close> free ones, so a pool with items both in use
  and free is left larger than the maximum it has just been given. It raises the pool's exception when
  the items in use alone are more than the maximum.
\<close>

theorem set_maxsize_counts_only_free:
  assumes "item_source it grows alive" "closes_return it" "pool_wf p" "\<forall>i \<in> pl_free p. unshared p i"
  shows "if int (card (pl_inuse p)) \<le> m
    then \<exists>p' w'. pool_set_maxsize it m (p, w) = Some (Inr (), (p', w')) \<and> pl_maxsize p' = m \<and>
      int (pool_size p') = int (card (pl_inuse p)) + min (int (card (pl_free p))) m
    else pool_set_maxsize it m (p, w) = Some (Inl (pl_exception p), (p, w))"
  using item_source.set_maxsize_unshared [OF assms, where m = m and w = w]
  by (simp add: pool_set_maxsize_def)

definition busy_pool :: "nat pool" where
  "busy_pool = \<lparr>pl_maxsize = 4, pl_exception = PoolError, pl_inuse = {0, 1}, pl_free = {2, 3}, pl_shared = new_counter\<rparr>"

lemma set_maxsize_counts_only_free_witness:
  "\<exists>p' w'. pool_set_maxsize numbered_items 2 (busy_pool, 4) = Some (Inr (), (p', w')) \<and>
    pl_maxsize p' = 2 \<and> pool_size p' = 4"
  using set_maxsize_counts_only_free [OF numbered_source, of busy_pool 2 4]
  by (simp add: closes_return_def numbered_items_def busy_pool_def pool_wf_def unshared_def new_counter_def
      counter_get_count_def)

end
