(* ===== verification/TerminalPools.thy ===== *)
theory TerminalPools
  imports Pool PyText "HOL-Library.AList" "HOL-Library.List_Lexorder" "HOL-Library.Char_ord"
begin

text \<open>
  \<open>_targetproperties.py\<close>, \<open>_terminalpoolkey.py\<close> and \<open>_terminalpools.py\<close>: the properties of a
  target, the key under which terminals are pooled and the pools of all targets. The terminal
  of a \<open>_Terminal\<close> is opened, configured and closed by programs over the rest of the world
  (\<open>terminal_env\<close>), which also fixes the orders Python leaves open: \<open>set.pop\<close>, the iteration
  of a set, \<open>random.shuffle\<close>.
\<close>

section \<open>Values and target properties\<close>

datatype pval = PNone | PInt int | PFloat rat | PText string | PDict "(string \<times> string) list"

text \<open>\<open>int(x)\<close>: a float is truncated, a string is parsed.\<close>

fun int_of_val :: "pval \<Rightarrow> exn + int" where
  "int_of_val (PInt n) = Inr n"
| "int_of_val (PFloat r) = Inr (if r < 0 then - \<lfloor>- r\<rfloor> else \<lfloor>r\<rfloor>)"
| "int_of_val (PText s) = py_int s"
| "int_of_val _ = Inl TypeError"

type_synonym props = "string \<rightharpoonup> pval"

definition defaultproperties :: props where
  "defaultproperties = [''termination_timeout'' \<mapsto> PInt 10, ''prompt_timeout'' \<mapsto> PInt 30,
     ''default_executable'' \<mapsto> PText ''/bin/bash'', ''max_processes_in_target'' \<mapsto> PInt 100,
     ''update_env_dict'' \<mapsto> PDict []]"

text \<open>
  The defaults are a dictionary of the class; an instance starts with a copy and may only set
  names the class knows at that moment.
\<close>

definition new_target_properties :: "props \<Rightarrow> props" where
  "new_target_properties defaults = defaults"

definition set_property :: "props \<Rightarrow> string \<Rightarrow> pval \<Rightarrow> props \<Rightarrow> exn + props" where
  "set_property defaults n v p =
     (if n \<notin> dom defaults then Inl AttributeError else Inr (p(n \<mapsto> v)))"

definition get_property :: "string \<Rightarrow> props \<Rightarrow> exn + pval" where
  "get_property n p = (case p n of None \<Rightarrow> Inl AttributeError | Some v \<Rightarrow> Inr v)"

definition set_default_property :: "string \<Rightarrow> pval \<Rightarrow> props \<Rightarrow> props" where
  "set_default_property n v defaults = defaults(n \<mapsto> v)"

section \<open>The key of a pool\<close>

text \<open>
  A shell dictionary is a list of items with distinct names. The key is \<open>str\<close> of the list of
  the sorted items; \<open>str\<close> writes every item down, so two keys are equal exactly when the lists
  are, and the list itself is the key of the model. The foreground terminals of a target have
  zone \<open>None\<close>, the background ones \<open>'background'\<close>.
\<close>

type_synonym shelldict = "(string \<times> pval) list"
type_synonym pool_key = "shelldict list"

definition terminal_pool_key :: "shelldict list \<Rightarrow> pool_key" where
  "terminal_pool_key ds = map (sort_key fst) ds"

definition zone_item :: "string option \<Rightarrow> shelldict" where
  "zone_item z = [(''zone'', case z of None \<Rightarrow> PNone | Some t \<Rightarrow> PText t)]"

section \<open>Terminals\<close>

record 'w terminal =
  tm_key :: pool_key
  tm_shelldicts :: "shelldict list"
  tm_props :: props
  tm_open :: bool
  tm_cleanup :: "('w, unit) py"
  tm_is_persistent :: "'w \<Rightarrow> bool"

record 'w tworld =
  tw_heap :: "nat \<Rightarrow> 'w terminal"
  tw_next :: nat
  tw_ext :: 'w

record 'w terminal_env =
  te_start :: "nat \<Rightarrow> shelldict list \<Rightarrow> ('w, unit) py"
  te_set_prompt_timeout :: "nat \<Rightarrow> pval \<Rightarrow> ('w, unit) py"
  te_close :: "nat \<Rightarrow> ('w, unit) py"
  te_pick :: "'w tworld \<Rightarrow> nat set \<Rightarrow> nat"
  te_order :: "'w tworld \<Rightarrow> nat set \<Rightarrow> nat list"
  te_shuffle :: "'w tworld \<Rightarrow> pool_key list \<Rightarrow> pool_key list"

definition ext :: "('w, 'a) py \<Rightarrow> ('w tworld, 'a) py" where
  "ext m = (\<lambda>t. case m (tw_ext t) of None \<Rightarrow> None | Some (r, w) \<Rightarrow> Some (r, t\<lparr>tw_ext := w\<rparr>))"

definition set_terminal :: "nat \<Rightarrow> ('w terminal \<Rightarrow> 'w terminal) \<Rightarrow> ('w tworld, unit) py" where
  "set_terminal i f = modify (\<lambda>t. t\<lparr>tw_heap := (tw_heap t)(i := f (tw_heap t i))\<rparr>)"

text \<open>
  \<open>_initialize_terminal\<close>: reading the property fails when it is missing, setting it fails on a
  terminal that has been closed (\<open>None\<close> has no attributes to set).
\<close>

definition initialize_prompt_timeout :: "'w terminal_env \<Rightarrow> nat \<Rightarrow> ('w tworld, unit) py" where
  "initialize_prompt_timeout env i =
     bnd (gets (\<lambda>t. tw_heap t i)) (\<lambda>tm.
       bnd (of_sum (get_property ''prompt_timeout'' (tm_props tm))) (\<lambda>v.
         if tm_open tm then ext (te_set_prompt_timeout env i v) else throw AttributeError))"

definition initialize_with_properties :: "'w terminal_env \<Rightarrow> props \<Rightarrow> nat \<Rightarrow> ('w tworld, unit) py" where
  "initialize_with_properties env p i =
     andthen (set_terminal i (\<lambda>tm. tm\<lparr>tm_props := p\<rparr>)) (initialize_prompt_timeout env i)"

definition start_terminal :: "'w terminal_env \<Rightarrow> nat \<Rightarrow> shelldict list \<Rightarrow> ('w tworld, nat) py" where
  "start_terminal env i ds =
     andthen (ext (te_start env i ds)) (andthen (initialize_prompt_timeout env i) (ret i))"

definition alloc_terminal :: "pool_key \<Rightarrow> shelldict list \<Rightarrow> props \<Rightarrow> 'w tworld \<Rightarrow> 'w tworld" where
  "alloc_terminal key ds p t = t\<lparr>tw_next := Suc (tw_next t), tw_heap := (tw_heap t)(tw_next t :=
     \<lparr>tm_key = key, tm_shelldicts = ds, tm_props = p, tm_open = True, tm_cleanup = ret (),
      tm_is_persistent = (\<lambda>_. True)\<rparr>)\<rparr>"

definition new_terminal ::
  "'w terminal_env \<Rightarrow> pool_key \<Rightarrow> shelldict list \<Rightarrow> props \<Rightarrow> ('w tworld, nat) py" where
  "new_terminal env key ds p = bnd (gets tw_next) (\<lambda>i.
     andthen (modify (alloc_terminal key ds p)) (start_terminal env i ds))"

definition set_terminal_cleanup :: "nat \<Rightarrow> ('w, unit) py \<Rightarrow> ('w tworld, unit) py" where
  "set_terminal_cleanup i m = set_terminal i (\<lambda>tm. tm\<lparr>tm_cleanup := m\<rparr>)"

definition set_is_persistent :: "nat \<Rightarrow> ('w \<Rightarrow> bool) \<Rightarrow> ('w tworld, unit) py" where
  "set_is_persistent i b = set_terminal i (\<lambda>tm. tm\<lparr>tm_is_persistent := b\<rparr>)"

definition shall_be_stored :: "nat \<Rightarrow> 'w tworld \<Rightarrow> bool" where
  "shall_be_stored i t \<longleftrightarrow> tm_is_persistent (tw_heap t i) (tw_ext t) \<and> tm_open (tw_heap t i)"

definition close_terminal :: "'w terminal_env \<Rightarrow> nat \<Rightarrow> ('w tworld, unit) py" where
  "close_terminal env i = bnd (gets (\<lambda>t. tw_heap t i)) (\<lambda>tm.
     if tm_open tm then
       finally_do (andthen (ext (tm_cleanup tm)) (ext (te_close env i)))
         (set_terminal i (\<lambda>tm. tm\<lparr>tm_open := False\<rparr>))
     else ret ())"

section \<open>The pools of all targets\<close>

text \<open>
  A pool keeps the arguments its factory closure captured when it was created.
\<close>

record pool_entry =
  pe_pool :: "nat pool"
  pe_dicts :: "shelldict list"
  pe_props :: props

record 'w pools =
  tp_pools :: "(pool_key \<times> pool_entry) list"
  tp_maxsize :: pval
  tp_world :: "'w tworld"

definition new_pools :: "'w \<Rightarrow> 'w pools" where
  "new_pools w = \<lparr>tp_pools = [], tp_maxsize = PInt 256,
     tp_world = \<lparr>tw_heap = (\<lambda>_. \<lparr>tm_key = [], tm_shelldicts = [], tm_props = Map.empty, tm_open = False,
       tm_cleanup = ret (), tm_is_persistent = (\<lambda>_. True)\<rparr>), tw_next = 0, tw_ext = w\<rparr>\<rparr>"

definition terminal_items :: "'w terminal_env \<Rightarrow> pool_key \<Rightarrow> shelldict list \<Rightarrow> props \<Rightarrow> (nat, 'w tworld) pool_items" where
  "terminal_items env key ds p = \<lparr>pi_factory = new_terminal env key ds p, pi_close = close_terminal env,
     pi_pick = te_pick env, pi_order = te_order env\<rparr>"

definition set_pools_maxsize :: "pval \<Rightarrow> ('w pools, unit) py" where
  "set_pools_maxsize v = modify (\<lambda>s. s\<lparr>tp_maxsize := v\<rparr>)"

definition pools_maxsize :: "'w pools \<Rightarrow> exn + int" where
  "pools_maxsize s = int_of_val (tp_maxsize s)"

definition pools_size :: "'w pools \<Rightarrow> nat" where
  "pools_size s = sum_list (map (\<lambda>(k, e). pool_size (pe_pool e)) (tp_pools s))"

text \<open>An operation of the pool under a key, and a program of the world.\<close>

definition on_pool ::
  "'w terminal_env \<Rightarrow> pool_key \<Rightarrow> ((nat, 'w tworld) pool_items \<Rightarrow> (nat, 'w tworld, 'a) pool_op) \<Rightarrow> ('w pools, 'a) py" where
  "on_pool env key op = (\<lambda>s. case map_of (tp_pools s) key of
     None \<Rightarrow> Some (Inl KeyError, s)
   | Some e \<Rightarrow>
       (case op (terminal_items env key (pe_dicts e) (pe_props e)) (pe_pool e, tp_world s) of
          None \<Rightarrow> None
        | Some (r, (p', w')) \<Rightarrow>
            Some (r, s\<lparr>tp_pools := AList.update key (e\<lparr>pe_pool := p'\<rparr>) (tp_pools s), tp_world := w'\<rparr>)))"

definition on_world :: "('w tworld, 'a) py \<Rightarrow> ('w pools, 'a) py" where
  "on_world m = (\<lambda>s. case m (tp_world s) of None \<Rightarrow> None | Some (r, w) \<Rightarrow> Some (r, s\<lparr>tp_world := w\<rparr>))"

definition get_pool ::
  "'w terminal_env \<Rightarrow> pool_key \<Rightarrow> shelldict list \<Rightarrow> props \<Rightarrow> ('w pools, unit) py" where
  "get_pool env key ds p =
     andthen (modify (\<lambda>s. if key \<in> fst ` set (tp_pools s) then s
         else s\<lparr>tp_pools := tp_pools s @
           [(key, \<lparr>pe_pool = new_pool TerminalPoolsBusy, pe_dicts = ds, pe_props = p\<rparr>)]\<rparr>))
       (bnd (of_sum (get_property ''max_processes_in_target'' p)) (\<lambda>v.
         bnd (of_sum (int_of_val v)) (\<lambda>m. on_pool env key (\<lambda>it. pool_set_maxsize it m))))"

fun clean_free_of :: "'w terminal_env \<Rightarrow> pool_key list \<Rightarrow> int \<Rightarrow> ('w pools, int) py" where
  "clean_free_of env [] removed = ret removed"
| "clean_free_of env (k # ks) removed =
     bnd (on_pool env k (\<lambda>it. remove_every_nth_free it 2)) (\<lambda>n. clean_free_of env ks (removed + n))"

definition clean_free :: "'w terminal_env \<Rightarrow> ('w pools, int) py" where
  "clean_free env = bnd (gets (\<lambda>s. map fst (tp_pools s))) (\<lambda>ks. clean_free_of env ks 0)"

fun clean_first_of :: "'w terminal_env \<Rightarrow> pool_key list \<Rightarrow> ('w pools, unit) py" where
  "clean_first_of env [] = throw TerminalPoolsBusy"
| "clean_first_of env (k # ks) =
     bnd (on_pool env k (\<lambda>it. remove_every_nth_free it 1)) (\<lambda>n.
       if n \<noteq> 0 then
         modify (\<lambda>s. case map_of (tp_pools s) k of
             Some e \<Rightarrow> if pool_size (pe_pool e) = 0 then s\<lparr>tp_pools := AList.delete k (tp_pools s)\<rparr> else s
           | None \<Rightarrow> s)
       else clean_first_of env ks)"

definition clean_free_in_random_order_or_raise :: "'w terminal_env \<Rightarrow> ('w pools, unit) py" where
  "clean_free_in_random_order_or_raise env =
     bnd (gets (\<lambda>s. te_shuffle env (tp_world s) (map fst (tp_pools s)))) (clean_first_of env)"

definition try_to_clean :: "'w terminal_env \<Rightarrow> ('w pools, unit) py" where
  "try_to_clean env = bnd (clean_free env) (\<lambda>n.
     if n \<noteq> 0 then ret () else clean_free_in_random_order_or_raise env)"

definition clean_if_needed :: "'w terminal_env \<Rightarrow> pool_key \<Rightarrow> ('w pools, unit) py" where
  "clean_if_needed env key = bnd (on_pool env key (\<lambda>it. gets (\<lambda>(p, w). pl_free p))) (\<lambda>free.
     if free \<noteq> {} then ret ()
     else bnd (gets pools_size) (\<lambda>n. bnd (bnd (gets pools_maxsize) of_sum) (\<lambda>m.
       if int n \<ge> m then try_to_clean env else ret ())))"

definition get_terminal_of_pool :: "'w terminal_env \<Rightarrow> pool_key \<Rightarrow> props \<Rightarrow> ('w pools, nat) py" where
  "get_terminal_of_pool env key p = bnd (on_pool env key pool_get) (\<lambda>i.
     andthen (on_world (initialize_with_properties env p i)) (ret i))"

definition pools_get ::
  "'w terminal_env \<Rightarrow> shelldict list \<Rightarrow> props \<Rightarrow> string option \<Rightarrow> ('w pools, nat) py" where
  "pools_get env ds p zone =
     (let key = terminal_pool_key (ds @ [zone_item zone]) in
      andthen (get_pool env key ds p) (andthen (clean_if_needed env key) (get_terminal_of_pool env key p)))"

definition put_op ::
  "'w terminal_env \<Rightarrow> (nat \<Rightarrow> (nat, 'w tworld, unit) pool_op) \<Rightarrow> nat \<Rightarrow> ('w pools, unit) py" where
  "put_op env op i = (\<lambda>s. let key = tm_key (tw_heap (tp_world s) i) in
     if key \<notin> fst ` set (tp_pools s) then Some (Inl PoolNotFoundError, s)
     else if shall_be_stored i (tp_world s) then on_pool env key (\<lambda>it. op i) s
     else on_pool env key (\<lambda>it. pool_remove it i) s)"

definition pools_put :: "'w terminal_env \<Rightarrow> nat \<Rightarrow> ('w pools, unit) py" where
  "pools_put env = put_op env pool_put"

definition pools_put_incr_shared :: "'w terminal_env \<Rightarrow> nat \<Rightarrow> ('w pools, unit) py" where
  "pools_put_incr_shared env = put_op env pool_put_incr_shared"

definition pools_decr_shared :: "'w terminal_env \<Rightarrow> nat \<Rightarrow> ('w pools, unit) py" where
  "pools_decr_shared env = put_op env pool_decr_shared"

definition active_terminal ::
  "'w terminal_env \<Rightarrow> shelldict list \<Rightarrow> props \<Rightarrow> (nat \<Rightarrow> ('w pools, 'a) py) \<Rightarrow> ('w pools, 'a) py" where
  "active_terminal env ds p body = bnd (pools_get env ds p None) (\<lambda>i.
     finally_do (body i) (pools_put env i))"

definition pools_remove :: "'w terminal_env \<Rightarrow> nat \<Rightarrow> ('w pools, unit) py" where
  "pools_remove env i = (\<lambda>s. let key = tm_key (tw_heap (tp_world s) i) in
     if key \<in> fst ` set (tp_pools s) then on_pool env key (\<lambda>it. pool_remove it i) s
     else Some (Inr (), s))"

definition pools_close :: "'w terminal_env \<Rightarrow> ('w pools, unit) py" where
  "pools_close env = bnd (gets (\<lambda>s. map fst (tp_pools s))) (\<lambda>ks.
     andthen (for_each (\<lambda>k. on_pool env k pool_close) ks) (modify (\<lambda>s. s\<lparr>tp_pools := []\<rparr>)))"

section \<open>What the pools promise\<close>

definition of_key :: "pool_key \<Rightarrow> 'w tworld \<Rightarrow> nat set" where
  "of_key k t = {i. i < tw_next t \<and> tm_key (tw_heap t i) = k}"

text \<open>No terminal ceases to exist, and none changes its key.\<close>

definition tgrows :: "'w tworld \<Rightarrow> 'w tworld \<Rightarrow> bool" where
  "tgrows t u \<longleftrightarrow> tw_next t \<le> tw_next u \<and> (\<forall>i < tw_next t. tm_key (tw_heap u i) = tm_key (tw_heap t i))"

interpretation tg: step_relation tgrows
  by unfold_locales (auto simp: tgrows_def)

lemma tgrows_ext: "keeps tgrows (ext m)"
  by (rule keeps_gen) (auto simp: ext_def tgrows_def split: option.splits)

lemma tgrows_set_terminal: "(\<And>tm. tm_key (f tm) = tm_key tm) \<Longrightarrow> keeps tgrows (set_terminal i f)"
  unfolding set_terminal_def by (rule tg.keeps_modify) (simp add: tgrows_def)

lemma tgrows_initialize: "keeps tgrows (initialize_prompt_timeout env i)"
  unfolding initialize_prompt_timeout_def
  by (intro tg.keeps_bnd tg.keeps_of_sum tg.keeps_simple keeps_if tgrows_ext)

lemma tgrows_initialize_with: "keeps tgrows (initialize_with_properties env p i)"
  unfolding initialize_with_properties_def
  by (intro tg.keeps_andthen tgrows_set_terminal tgrows_initialize) simp

lemma tgrows_start: "keeps tgrows (start_terminal env i ds)"
  unfolding start_terminal_def
  by (intro tg.keeps_andthen tgrows_ext tgrows_initialize tg.keeps_simple)

lemma alloc_terminal_facts:
  "tgrows t (alloc_terminal key ds p t)" "tw_next (alloc_terminal key ds p t) = Suc (tw_next t)"
  "tm_key (tw_heap (alloc_terminal key ds p t) (tw_next t)) = key"
  by (simp_all add: alloc_terminal_def tgrows_def)

lemma new_terminal_app:
  "new_terminal env key ds p t = start_terminal env (tw_next t) ds (alloc_terminal key ds p t)"
  by (simp add: new_terminal_def)

lemma new_terminal_grows: "keeps tgrows (new_terminal env key ds p)"
  using keepsD [OF tgrows_start] tg.R_trans [OF alloc_terminal_facts(1)]
  by (fastforce intro!: keeps_gen simp: new_terminal_app)

lemma new_terminal_new:
  assumes "new_terminal env key ds p t = Some (Inr i, u)"
  shows "i = tw_next t \<and> i \<notin> of_key key t \<and> i \<in> of_key key u"
proof -
  have r: "start_terminal env (tw_next t) ds (alloc_terminal key ds p t) = Some (Inr i, u)"
    using assms by (simp add: new_terminal_app)
  have "i = tw_next t" using r by (auto simp: start_terminal_def seq_outcome_Inr_iff)
  then show ?thesis
    using keepsD [OF tgrows_start r] alloc_terminal_facts(2,3) [of key ds p t]
    by (auto simp: of_key_def tgrows_def)
qed

lemma close_terminal_grows: "keeps tgrows (close_terminal env i)"
  unfolding close_terminal_def
  by (intro tg.keeps_bnd tg.keeps_simple keeps_if tg.keeps_finally tg.keeps_andthen tgrows_ext tgrows_set_terminal) simp

locale terminal_choice =
  fixes env :: "'w terminal_env"
  assumes pick_in_set: "S \<noteq> {} \<Longrightarrow> te_pick env t S \<in> S"
    and order_of_set: "finite S \<Longrightarrow> set (te_order env t S) = S \<and> distinct (te_order env t S)"
begin

sublocale items: item_source "terminal_items env key ds p" tgrows "of_key key" for key ds p
proof
  show "keeps tgrows (pi_factory (terminal_items env key ds p))"
    by (simp add: terminal_items_def new_terminal_grows)
  show "keeps tgrows (pi_close (terminal_items env key ds p) i)" for i
    by (simp add: terminal_items_def close_terminal_grows)
qed (auto simp: terminal_items_def pick_in_set order_of_set tgrows_def of_key_def dest!: new_terminal_new)

end

text \<open>
  Keys are distinct, every pool is well formed, and its items exist and carry its key; so no
  terminal is in two pools.
\<close>

definition entry_ok :: "pool_key \<Rightarrow> pool_entry \<Rightarrow> 'w tworld \<Rightarrow> bool" where
  "entry_ok k e t \<longleftrightarrow> pool_wf (pe_pool e) \<and> pool_all_items (pe_pool e) \<subseteq> of_key k t"

definition pools_wf :: "'w pools \<Rightarrow> bool" where
  "pools_wf s \<longleftrightarrow> distinct (map fst (tp_pools s)) \<and>
     (\<forall>k e. map_of (tp_pools s) k = Some e \<longrightarrow> entry_ok k e (tp_world s))"

definition terminals_in_use :: "'w pools \<Rightarrow> nat set" where
  "terminals_in_use s = {i. \<exists>k e. map_of (tp_pools s) k = Some e \<and> i \<in> pl_inuse (pe_pool e)}"

lemma entry_ok_grows: "entry_ok k e t \<Longrightarrow> tgrows t u \<Longrightarrow> entry_ok k e u"
  by (fastforce simp: entry_ok_def of_key_def tgrows_def)

lemma pools_wf_new [simp]: "pools_wf (new_pools w)"
  by (simp add: pools_wf_def new_pools_def)

lemma size_update:
  "map_of xs k = Some e \<Longrightarrow>
     sum_list (map f (AList.update k e' xs)) + (f (k, e) :: nat) = sum_list (map f xs) + f (k, e')"
  by (induction xs) auto

lemma on_pool_result:
  assumes "on_pool env k op s = Some (r, s')"
  shows "(map_of (tp_pools s) k = None \<and> r = Inl KeyError \<and> s' = s) \<or>
    (\<exists>e p' w'. map_of (tp_pools s) k = Some e \<and>
       op (terminal_items env k (pe_dicts e) (pe_props e)) (pe_pool e, tp_world s) = Some (r, (p', w')) \<and>
       s' = s\<lparr>tp_pools := AList.update k (e\<lparr>pe_pool := p'\<rparr>) (tp_pools s), tp_world := w'\<rparr>)"
  using assms by (auto simp: on_pool_def split: option.splits)

definition keeps_wf :: "'w pools \<Rightarrow> 'w pools \<Rightarrow> bool" where
  "keeps_wf s s' \<longleftrightarrow> (pools_wf s \<longrightarrow> pools_wf s')"

interpretation pwf: step_relation keeps_wf
  by unfold_locales (auto simp: keeps_wf_def)

context terminal_choice
begin

lemma on_pool_wf:
  assumes "\<And>ds p. keeps (items.step k) (op (terminal_items env k ds p))"
  shows "keeps keeps_wf (on_pool env k op)"
proof (rule keeps_gen, unfold keeps_wf_def, rule impI)
  fix s r s'
  assume o: "on_pool env k op s = Some (r, s')" and wf: "pools_wf s"
  show "pools_wf s'"
  proof (cases "map_of (tp_pools s) k")
    case None
    then show ?thesis using on_pool_result [OF o] wf by simp
  next
    case (Some e)
    then obtain p' w' where
        p': "op (terminal_items env k (pe_dicts e) (pe_props e)) (pe_pool e, tp_world s) = Some (r, (p', w'))"
      and s': "s' = s\<lparr>tp_pools := AList.update k (e\<lparr>pe_pool := p'\<rparr>) (tp_pools s), tp_world := w'\<rparr>"
      using on_pool_result [OF o] by auto
    have st: "tgrows (tp_world s) w'" "entry_ok k (e\<lparr>pe_pool := p'\<rparr>) w'"
      using keepsD [OF assms p'] wf Some by (auto simp: items.step_def items.ok_def pools_wf_def entry_ok_def)
    moreover have "\<forall>k e. map_of (tp_pools s) k = Some e \<longrightarrow> entry_ok k e w'"
      using wf entry_ok_grows [OF _ st(1)] unfolding pools_wf_def by blast
    ultimately show ?thesis
      using wf unfolding pools_wf_def s' by (simp add: update_conv' distinct_update)
  qed
qed

lemma on_world_wf:
  assumes "keeps tgrows m"
  shows "keeps keeps_wf (on_world m)"
proof (rule keeps_gen)
  fix s r s'
  assume "on_world m s = Some (r, s')"
  then obtain w where "m (tp_world s) = Some (r, w)" and s': "s' = s\<lparr>tp_world := w\<rparr>"
    by (auto simp: on_world_def split: option.splits)
  then have "tgrows (tp_world s) w" using keepsD [OF assms] by blast
  then show "keeps_wf s s'"
    using entry_ok_grows unfolding keeps_wf_def pools_wf_def s' by (simp del: map_of_eq_Some_iff) blast
qed

lemma get_pool_wf: "keeps keeps_wf (get_pool env k ds p)"
  unfolding get_pool_def
  by (intro pwf.keeps_andthen pwf.keeps_modify pwf.keeps_of_sum on_pool_wf items.ok_set_maxsize)
    (auto simp: keeps_wf_def pools_wf_def entry_ok_def pool_all_items_def new_pool_def pool_wf_def map_add_def split: option.splits)

lemma clean_free_of_wf: "keeps keeps_wf (clean_free_of env ks n)"
proof (induction ks arbitrary: n)
  case Nil
  show ?case unfolding clean_free_of.simps by (rule pwf.keeps_simple)
next
  case (Cons k ks)
  show ?case unfolding clean_free_of.simps
    by (intro pwf.keeps_bnd on_pool_wf items.ok_remove_every_nth_free Cons.IH)
qed

lemma clean_first_of_wf: "keeps keeps_wf (clean_first_of env ks)"
proof (induction ks)
  case Nil
  show ?case unfolding clean_first_of.simps by (rule pwf.keeps_simple)
next
  case (Cons k ks)
  show ?case unfolding clean_first_of.simps
    by (intro pwf.keeps_bnd on_pool_wf items.ok_remove_every_nth_free Cons.IH keeps_if pwf.keeps_modify)
      (auto simp: keeps_wf_def pools_wf_def delete_conv' distinct_delete simp del: map_of_eq_Some_iff
        split: option.splits if_splits)
qed

lemma clean_if_needed_wf: "keeps keeps_wf (clean_if_needed env k)"
  unfolding clean_if_needed_def try_to_clean_def clean_free_def clean_free_in_random_order_or_raise_def
  by (intro pwf.keeps_bnd on_pool_wf items.ok.keeps_simple pwf.keeps_simple keeps_if clean_free_of_wf
      clean_first_of_wf)

lemma get_wf: "keeps keeps_wf (pools_get env ds p z)"
  unfolding pools_get_def Let_def get_terminal_of_pool_def
  by (intro pwf.keeps_andthen pwf.keeps_bnd pwf.keeps_simple get_pool_wf clean_if_needed_wf on_pool_wf
      items.ok_get on_world_wf tgrows_initialize_with)

lemma put_op_wf:
  assumes "\<And>k i. keeps (items.step k) (op i)"
  shows "keeps keeps_wf (put_op env op i)"
proof (rule keeps_gen)
  fix s s' :: "'w pools" and r
  let ?k = "tm_key (tw_heap (tp_world s) i)"
  have "keeps keeps_wf (on_pool env ?k (\<lambda>it. op i))" "keeps keeps_wf (on_pool env ?k (\<lambda>it. pool_remove it i))"
    by (intro on_pool_wf assms items.ok_remove)+
  moreover assume "put_op env op i s = Some (r, s')"
  ultimately show "keeps_wf s s'"
    using pwf.R_refl by (auto simp: put_op_def Let_def dest: keepsD split: if_splits)
qed

lemma put_wf: "keeps keeps_wf (pools_put env i)" "keeps keeps_wf (pools_put_incr_shared env i)"
  "keeps keeps_wf (pools_decr_shared env i)"
  unfolding pools_put_def pools_put_incr_shared_def pools_decr_shared_def
  by (intro put_op_wf items.ok_put items.ok_put_incr_shared items.ok_decr_shared)+

lemma remove_wf: "keeps keeps_wf (pools_remove env i)"
proof (rule keeps_gen)
  fix s s' :: "'w pools" and r
  have "keeps keeps_wf (on_pool env (tm_key (tw_heap (tp_world s) i)) (\<lambda>it. pool_remove it i))"
    by (intro on_pool_wf items.ok_remove)
  moreover assume "pools_remove env i s = Some (r, s')"
  ultimately show "keeps_wf s s'"
    using pwf.R_refl by (auto simp: pools_remove_def Let_def dest: keepsD split: if_splits)
qed

lemma close_wf: "keeps keeps_wf (pools_close env)"
  unfolding pools_close_def
  by (intro pwf.keeps_bnd pwf.keeps_andthen pwf.keeps_simple pwf.keeps_for_each pwf.keeps_modify
      on_pool_wf items.ok_close) (simp add: keeps_wf_def pools_wf_def)

lemma active_terminal_wf:
  "(\<And>i. keeps keeps_wf (body i)) \<Longrightarrow> keeps keeps_wf (active_terminal env ds p body)"
  unfolding active_terminal_def by (intro pwf.keeps_bnd pwf.keeps_finally get_wf put_wf)

lemmas pools_ops_wf = get_wf put_wf remove_wf close_wf active_terminal_wf

end

subsection \<open>The size bound and exclusive use\<close>

definition no_more :: "'w pools \<Rightarrow> 'w pools \<Rightarrow> bool" where
  "no_more s s' \<longleftrightarrow> terminals_in_use s' = terminals_in_use s \<and> tp_maxsize s' = tp_maxsize s \<and>
     pools_size s' \<le> pools_size s"

definition frees_less :: "'w pools \<Rightarrow> 'w pools \<Rightarrow> bool" where
  "frees_less s s' \<longleftrightarrow> (\<forall>k e'. map_of (tp_pools s') k = Some e' \<longrightarrow>
     (\<exists>e. map_of (tp_pools s) k = Some e \<and> pl_free (pe_pool e') \<subseteq> pl_free (pe_pool e)))"

lemma no_more_refl: "no_more s s" and no_more_trans: "no_more s t \<Longrightarrow> no_more t u \<Longrightarrow> no_more s u"
  by (auto simp: no_more_def)

lemma frees_less_refl: "frees_less s s" and frees_less_trans: "frees_less s t \<Longrightarrow> frees_less t u \<Longrightarrow> frees_less s u"
  unfolding frees_less_def by (blast, meson subset_trans)

lemma in_use_update:
  "map_of (tp_pools s) k = Some e \<Longrightarrow>
   terminals_in_use (s\<lparr>tp_pools := AList.update k e' (tp_pools s), tp_world := w\<rparr>) =
     {i. \<exists>k' e. k' \<noteq> k \<and> map_of (tp_pools s) k' = Some e \<and> i \<in> pl_inuse (pe_pool e)} \<union> pl_inuse (pe_pool e')"
  by (auto simp: terminals_in_use_def update_conv')

lemma in_use_split:
  "map_of (tp_pools s) k = Some e \<Longrightarrow> terminals_in_use s =
     {i. \<exists>k' e. k' \<noteq> k \<and> map_of (tp_pools s) k' = Some e \<and> i \<in> pl_inuse (pe_pool e)} \<union> pl_inuse (pe_pool e)"
  by (simp add: terminals_in_use_def set_eq_iff) (metis option.inject)

lemma size_update_pools:
  "map_of (tp_pools s) k = Some e \<Longrightarrow>
   pools_size (s\<lparr>tp_pools := AList.update k (e\<lparr>pe_pool := p'\<rparr>) (tp_pools s), tp_world := w\<rparr>) + pool_size (pe_pool e) =
     pools_size s + pool_size p'"
  using size_update [of "tp_pools s" k e "\<lambda>(k, e). pool_size (pe_pool e)" "e\<lparr>pe_pool := p'\<rparr>"]
  by (simp add: pools_size_def)

text \<open>An operation that takes free items out of the pool of \<open>k\<close> and leaves the rest alone.\<close>

lemma on_pool_removal:
  assumes "map_of (tp_pools s) k = Some e" "pool_wf (pe_pool e)" "S \<subseteq> pl_free (pe_pool e)"
    and "pl_inuse p' = pl_inuse (pe_pool e)" "pl_free p' = pl_free (pe_pool e) - S"
    and "s' = s\<lparr>tp_pools := AList.update k (e\<lparr>pe_pool := p'\<rparr>) (tp_pools s), tp_world := w\<rparr>"
  shows "pools_size s' + card S = pools_size s \<and> no_more s s' \<and> frees_less s s'"
proof -
  have "card S \<le> card (pl_free (pe_pool e))" "card (pl_free p') = card (pl_free (pe_pool e)) - card S"
    using assms(2,3,5) by (auto simp: pool_wf_def card_mono card_Diff_subset finite_subset)
  then have "pool_size p' + card S = pool_size (pe_pool e)"
    using assms(4) by (simp add: pool_size_def)
  then have sz: "pools_size s' + card S = pools_size s"
    using size_update_pools [OF assms(1), where p' = p' and w = w] assms(6) by simp
  moreover have "no_more s s'"
    using sz in_use_update [OF assms(1), where e' = "e\<lparr>pe_pool := p'\<rparr>" and w = w] in_use_split [OF assms(1)] assms(4,6)
    by (simp add: no_more_def)
  moreover have "frees_less s s'"
    using assms(1,5,6) by (auto simp: frees_less_def update_conv')
  ultimately show ?thesis by simp
qed

lemma without_free:
  "S \<subseteq> pl_free p \<Longrightarrow> pool_wf p \<Longrightarrow> pl_inuse (without S p) = pl_inuse p \<and> pl_free (without S p) = pl_free p - S"
  by (auto simp: without_def pool_wf_def)

lemma delete_empty_pool:
  assumes "map_of (tp_pools s) k = Some e" "pool_size (pe_pool e) = 0" "pool_wf (pe_pool e)"
    and "distinct (map fst (tp_pools s))"
  shows "no_more s (s\<lparr>tp_pools := AList.delete k (tp_pools s)\<rparr>) \<and>
    frees_less s (s\<lparr>tp_pools := AList.delete k (tp_pools s)\<rparr>)"
proof -
  have "pl_inuse (pe_pool e) = {}" using assms(2,3) by (simp add: pool_size_def pool_wf_def)
  moreover have "sum_list (map f (AList.delete k xs)) \<le> (sum_list (map f xs) :: nat)" for f and xs :: "(pool_key \<times> pool_entry) list"
    by (induction xs) (auto simp: AList.delete_eq)
  moreover have "terminals_in_use (s\<lparr>tp_pools := AList.delete k (tp_pools s)\<rparr>) = terminals_in_use s"
    using calculation(1) by (simp add: in_use_split [OF assms(1)])
      (auto simp: terminals_in_use_def delete_conv' simp del: map_of_eq_Some_iff split: if_splits)
  ultimately show ?thesis
    unfolding no_more_def frees_less_def
    by (auto simp: pools_size_def delete_conv' simp del: map_of_eq_Some_iff split: if_splits)
qed

context terminal_choice
begin

lemma remove_nth_wf: "keeps keeps_wf (on_pool env k (\<lambda>it. remove_every_nth_free it d))"
  by (intro on_pool_wf items.ok_remove_every_nth_free)

lemma remove_nth_shrinks:
  assumes wf: "pools_wf s"
    and r: "on_pool env k (\<lambda>it. remove_every_nth_free it d) s = Some (Inr n, s')"
  shows "0 \<le> n \<and> pools_size s' + nat n = pools_size s \<and> no_more s s' \<and> frees_less s s'"
proof -
  obtain e p' w' where e: "map_of (tp_pools s) k = Some e"
    and p': "remove_n_free (terminal_items env k (pe_dicts e) (pe_props e))
      (int (card (pl_free (pe_pool e))) div d) (pe_pool e, tp_world s) = Some (Inr n, (p', w'))"
    and s': "s' = s\<lparr>tp_pools := AList.update k (e\<lparr>pe_pool := p'\<rparr>) (tp_pools s), tp_world := w'\<rparr>"
    using on_pool_result [OF r] by (auto simp: remove_every_nth_free_def)
  define js where "js = removed_items (terminal_items env k (pe_dicts e) (pe_props e))
    (nat (int (card (pl_free (pe_pool e))) div d)) (pe_pool e) (tp_world s)"
  have ok: "pool_wf (pe_pool e)" using wf e by (auto simp: pools_wf_def entry_ok_def)
  have js: "set js \<subseteq> pl_free (pe_pool e)" "distinct js" "n = int (length js)" "p' = without (set js) (pe_pool e)"
    using items.removed_facts(1,2) [OF ok] remove_n_free_result [OF p'] unfolding js_def by blast+
  show ?thesis
    using on_pool_removal [OF e ok js(1) _ _ s'] without_free [OF js(1) ok] js distinct_card [OF js(2)] by simp
qed

lemma clean_free_of_shrinks:
  "pools_wf s \<Longrightarrow> clean_free_of env ks m s = Some (Inr n, s') \<Longrightarrow> 0 \<le> m \<Longrightarrow>
     m \<le> n \<and> pools_size s' + nat n = pools_size s + nat m \<and> no_more s s' \<and> frees_less s s'"
proof (induction ks arbitrary: m s)
  case Nil
  then show ?case by (simp add: no_more_refl frees_less_refl)
next
  case (Cons k ks)
  obtain a t where a: "on_pool env k (\<lambda>it. remove_every_nth_free it 2) s = Some (Inr a, t)"
    and r: "clean_free_of env ks (m + a) t = Some (Inr n, s')"
    using Cons.prems(2) by (auto simp: seq_outcome_Inr_iff)
  have t: "pools_wf t" "0 \<le> a" "pools_size t + nat a = pools_size s" "no_more s t" "frees_less s t"
    using keepsD [OF remove_nth_wf a] Cons.prems(1)
      remove_nth_shrinks [OF Cons.prems(1) a] by (auto simp: keeps_wf_def)
  show ?case
    using Cons.IH [OF t(1) r] t Cons.prems(3) no_more_trans [OF t(4)] frees_less_trans [OF t(5)] by auto
qed

lemma clean_first_of_shrinks:
  "pools_wf s \<Longrightarrow> clean_first_of env ks s = Some (Inr u, s') \<Longrightarrow>
     pools_size s' < pools_size s \<and> no_more s s' \<and> frees_less s s'"
proof (induction ks arbitrary: s)
  case Nil
  then show ?case by simp
next
  case (Cons k ks)
  obtain a t where a: "on_pool env k (\<lambda>it. remove_every_nth_free it 1) s = Some (Inr a, t)"
    and r: "(if a \<noteq> 0 then modify (\<lambda>s. case map_of (tp_pools s) k of
             Some e \<Rightarrow> if pool_size (pe_pool e) = 0 then s\<lparr>tp_pools := AList.delete k (tp_pools s)\<rparr> else s
           | None \<Rightarrow> s) else clean_first_of env ks) t = Some (Inr u, s')"
    using Cons.prems(2) by (auto simp: seq_outcome_Inr_iff)
  have t: "pools_wf t" "0 \<le> a" "pools_size t + nat a = pools_size s" "no_more s t" "frees_less s t"
    using keepsD [OF remove_nth_wf a] Cons.prems(1)
      remove_nth_shrinks [OF Cons.prems(1) a] by (auto simp: keeps_wf_def)
  show ?case
  proof (cases "a = 0")
    case True
    then show ?thesis
      using Cons.IH [OF t(1)] r t no_more_trans [OF t(4)] frees_less_trans [OF t(5)]
      by (cases u) auto
  next
    case False
    have "no_more t s' \<and> frees_less t s'"
      using r False delete_empty_pool [of t k] t(1)
      by (auto simp: pools_wf_def entry_ok_def no_more_refl frees_less_refl simp del: map_of_eq_Some_iff
          split: option.splits if_splits)
    then show ?thesis
      using t False no_more_trans [OF t(4)] frees_less_trans [OF t(5)] by (auto simp: no_more_def)
  qed
qed

lemma get_pool_no_more:
  assumes wf: "pools_wf s" and g: "get_pool env k ds p s = Some (Inr u, s')"
  shows "no_more s s'"
proof -
  let ?t = "if k \<in> fst ` set (tp_pools s) then s else s\<lparr>tp_pools := tp_pools s @
    [(k, \<lparr>pe_pool = new_pool TerminalPoolsBusy, pe_dicts = ds, pe_props = p\<rparr>)]\<rparr>"
  obtain m where m: "on_pool env k (\<lambda>it. pool_set_maxsize it m) ?t = Some (Inr u, s')"
    using g by (auto simp: get_pool_def seq_outcome_Inr_iff)
  have t: "no_more s ?t" and wft: "pools_wf ?t"
    using wf by (auto simp: no_more_def terminals_in_use_def pools_size_def map_add_def pools_wf_def entry_ok_def
        pool_all_items_def new_pool_def pool_wf_def pool_size_def simp del: map_of_eq_Some_iff split: option.splits)
  obtain e p' w' where e: "map_of (tp_pools ?t) k = Some e"
    and p': "pool_set_maxsize (terminal_items env k (pe_dicts e) (pe_props e)) m (pe_pool e, tp_world ?t) =
      Some (Inr u, (p', w'))"
    and s': "s' = ?t\<lparr>tp_pools := AList.update k (e\<lparr>pe_pool := p'\<rparr>) (tp_pools ?t), tp_world := w'\<rparr>"
    using on_pool_result [OF m] by blast
  have ok: "pool_wf (pe_pool e)" using wft e by (auto simp: pools_wf_def entry_ok_def)
  obtain c q v where q: "remove_n_free (terminal_items env k (pe_dicts e) (pe_props e))
      (int (card (pl_free (pe_pool e))) - m) (pe_pool e, tp_world ?t) = Some (Inr c, (q, v))"
    and q': "p' = q\<lparr>pl_maxsize := m\<rparr>"
    using p' by (auto simp: pool_set_maxsize_def seq_outcome_Inr_iff split: if_splits)
  define js where "js = removed_items (terminal_items env k (pe_dicts e) (pe_props e))
    (nat (int (card (pl_free (pe_pool e))) - m)) (pe_pool e) (tp_world ?t)"
  have js: "set js \<subseteq> pl_free (pe_pool e)" "q = without (set js) (pe_pool e)"
    using items.removed_facts(1) [OF ok] remove_n_free_result [OF q] unfolding js_def by blast+
  have "no_more ?t s'"
    using on_pool_removal [OF e ok js(1) _ _ s'] without_free [OF js(1) ok] js(2) q' by simp
  then show ?thesis using no_more_trans [OF t] by blast
qed

lemma clean_if_needed_result:
  assumes wf: "pools_wf s" and c: "clean_if_needed env k s = Some (Inr u, s')"
    and M: "pools_maxsize s = Inr M"
  shows "no_more s s' \<and> frees_less s s' \<and>
    (int (pools_size s') < M \<or> pools_size s' < pools_size s \<or>
     (\<exists>e. map_of (tp_pools s') k = Some e \<and> pl_free (pe_pool e) \<noteq> {}))"
proof -
  obtain e where e: "map_of (tp_pools s) k = Some e"
    and r: "(if pl_free (pe_pool e) \<noteq> {} then Some (Inr (), s)
      else if int (pools_size s) \<ge> M then try_to_clean env s else Some (Inr (), s)) = Some (Inr u, s')"
  proof -
    obtain f t where f: "on_pool env k (\<lambda>it. gets (\<lambda>(p, w). pl_free p)) s = Some (Inr f, t)"
      and r: "(if f \<noteq> {} then ret () else bnd (gets pools_size) (\<lambda>n. bnd (bnd (gets pools_maxsize) of_sum)
        (\<lambda>m. if int n \<ge> m then try_to_clean env else ret ()))) t = Some (Inr u, s')"
      using c by (auto simp: clean_if_needed_def seq_outcome_Inr_iff)
    obtain e where e: "map_of (tp_pools s) k = Some e" "f = pl_free (pe_pool e)"
      and t: "t = s\<lparr>tp_pools := AList.update k e (tp_pools s), tp_world := tp_world s\<rparr>"
      using on_pool_result [OF f] by auto
    have "AList.update k e xs = xs" if "map_of xs k = Some e" for xs
      using that by (induction xs) (auto split: if_splits)
    then have "t = s" using t e(1) by simp
    then show ?thesis using that [OF e(1)] r e(2) M by (auto split: if_splits)
  qed
  show ?thesis
  proof (cases "pl_free (pe_pool e) \<noteq> {} \<or> int (pools_size s) < M")
    case True
    then show ?thesis using r e by (auto simp: no_more_refl frees_less_refl split: if_splits)
  next
    case False
    then have "try_to_clean env s = Some (Inr u, s')" using r by simp
    then obtain n t where n: "clean_free_of env (map fst (tp_pools s)) 0 s = Some (Inr n, t)"
      and r2: "(if n \<noteq> 0 then ret () else clean_free_in_random_order_or_raise env) t = Some (Inr u, s')"
      by (auto simp: try_to_clean_def clean_free_def seq_outcome_Inr_iff)
    have t: "pools_wf t" "0 \<le> n" "pools_size t + nat n = pools_size s" "no_more s t" "frees_less s t"
      using clean_free_of_shrinks [OF wf n] keepsD [OF clean_free_of_wf n] wf by (auto simp: keeps_wf_def)
    show ?thesis
    proof (cases "n = 0")
      case False
      then show ?thesis using r2 t by auto
    next
      case True
      then have "clean_first_of env (te_shuffle env (tp_world t) (map fst (tp_pools t))) t = Some (Inr u, s')"
        using r2 by (simp add: clean_free_in_random_order_or_raise_def)
      then show ?thesis
        using clean_first_of_shrinks [OF t(1)] t True no_more_trans [OF t(4)] frees_less_trans [OF t(5)] by fastforce
    qed
  qed
qed

lemma on_world_result:
  assumes "on_world m s = Some (r, s')"
  obtains w where "m (tp_world s) = Some (r, w)" "s' = s\<lparr>tp_world := w\<rparr>"
  using assms by (auto simp: on_world_def split: option.splits)

text \<open>
  A terminal that \<open>get\<close> hands out was in use by nobody, is in use now, and carries the key of
  the request; the total number of terminals exceeds the maximum only if it did before.
\<close>

lemma get_exclusive_bounded:
  assumes wf: "pools_wf s" and g: "pools_get env ds p z s = Some (Inr i, s')"
    and M: "pools_maxsize s = Inr M"
  shows "i \<notin> terminals_in_use s \<and> terminals_in_use s' = insert i (terminals_in_use s) \<and>
    tm_key (tw_heap (tp_world s') i) = terminal_pool_key (ds @ [zone_item z]) \<and>
    int (pools_size s') \<le> max (int (pools_size s)) M"
proof -
  let ?k = "terminal_pool_key (ds @ [zone_item z])"
  obtain s1 s2 s3 where g1: "get_pool env ?k ds p s = Some (Inr (), s1)"
    and g2: "clean_if_needed env ?k s1 = Some (Inr (), s2)"
    and g3: "on_pool env ?k pool_get s2 = Some (Inr i, s3)"
    and g4: "on_world (initialize_with_properties env p i) s3 = Some (Inr (), s')"
    using g by (auto simp: pools_get_def Let_def get_terminal_of_pool_def seq_outcome_Inr_iff)
  have wf1: "pools_wf s1" using keepsD [OF get_pool_wf g1] wf by (simp add: keeps_wf_def)
  have wf2: "pools_wf s2" using keepsD [OF clean_if_needed_wf g2] wf1 by (simp add: keeps_wf_def)
  have n1: "no_more s s1" using get_pool_no_more [OF wf g1] .
  have M1: "pools_maxsize s1 = Inr M" using n1 M by (simp add: no_more_def pools_maxsize_def)
  note n2 = clean_if_needed_result [OF wf1 g2 M1]
  obtain e p' w' where e: "map_of (tp_pools s2) ?k = Some e"
    and p': "pool_get (terminal_items env ?k (pe_dicts e) (pe_props e)) (pe_pool e, tp_world s2) = Some (Inr i, (p', w'))"
    and s3: "s3 = s2\<lparr>tp_pools := AList.update ?k (e\<lparr>pe_pool := p'\<rparr>) (tp_pools s2), tp_world := w'\<rparr>"
    using on_pool_result [OF g3] by auto
  have ok: "items.ok ?k (pe_pool e, tp_world s2)"
    using wf2 e by (auto simp: pools_wf_def entry_ok_def items.ok_def)
  note f = items.get_returns_item [OF ok p']
  obtain w where w: "initialize_with_properties env p i (tp_world s3) = Some (Inr (), w)"
    and s': "s' = s3\<lparr>tp_world := w\<rparr>"
    using on_world_result [OF g4] by blast
  have use3: "terminals_in_use s' = insert i (terminals_in_use s2)"
    using in_use_split [OF e] in_use_update [OF e, where e' = "e\<lparr>pe_pool := p'\<rparr>" and w = w] f s3 s'
    by (simp add: terminals_in_use_def)
  have i: "i \<in> of_key ?k (tp_world s3)"
    using f s3 by (auto simp: items.ok_def pool_all_items_def)
  have new: "i \<notin> terminals_in_use s2"
  proof
    assume "i \<in> terminals_in_use s2"
    then obtain k' e' where k': "map_of (tp_pools s2) k' = Some e'" "i \<in> pl_inuse (pe_pool e')"
      by (auto simp: terminals_in_use_def)
    then have "i \<in> of_key k' (tp_world s2)" using wf2
      unfolding pools_wf_def entry_ok_def pool_all_items_def by blast
    moreover have "tgrows (tp_world s2) (tp_world s3)"
      using items.get_grows [OF p'] s3 by simp
    ultimately have "k' = ?k" using i by (auto simp: of_key_def tgrows_def)
    then show False using k' e f by simp
  qed
  have "int (pools_size s') \<le> max (int (pools_size s)) M"
  proof -
    have "pools_size s' + pool_size (pe_pool e) = pools_size s2 + pool_size p'"
      using size_update_pools [OF e, where p' = p' and w = w'] s3 s' by (simp add: pools_size_def)
    moreover have "pools_size s2 \<le> pools_size s1" "pools_size s1 \<le> pools_size s"
      using n1 n2 by (simp_all add: no_more_def)
    ultimately show ?thesis using f n2 e by (auto split: if_splits)
  qed
  moreover have "tm_key (tw_heap (tp_world s') i) = ?k"
    using i keepsD [OF tgrows_initialize_with w] s' by (auto simp: of_key_def tgrows_def)
  ultimately show ?thesis using n1 n2 use3 new by (simp add: no_more_def)
qed

end

text \<open>
  The choices for which terminals are taken by their age: every environment becomes one with
  these choices, and the laws hold for it.
\<close>

definition oldest_first :: "'w terminal_env \<Rightarrow> 'w terminal_env" where
  "oldest_first env = env\<lparr>te_pick := (\<lambda>t S. LEAST i. i \<in> S), te_order := (\<lambda>t S. sorted_list_of_set S),
     te_shuffle := (\<lambda>t ks. ks)\<rparr>"

interpretation oldest: terminal_choice "oldest_first env" for env
  by unfold_locales (auto simp: oldest_first_def intro: LeastI)
section \<open>Histories of the pools\<close>

text \<open>
  Every state the pools can get into: any sequence of operations, each with any arguments,
  returning or raising, with the rest of the world doing anything that leaves the keys of the
  terminals alone in between.
\<close>

inductive pools_reach :: "'w terminal_env \<Rightarrow> 'w pools \<Rightarrow> bool" for env where
  start: "pools_reach env (new_pools w)"
| maxsize: "pools_reach env s \<Longrightarrow> set_pools_maxsize v s = Some (r, s') \<Longrightarrow> pools_reach env s'"
| get: "pools_reach env s \<Longrightarrow> pools_get env ds p z s = Some (r, s') \<Longrightarrow> pools_reach env s'"
| put: "pools_reach env s \<Longrightarrow> pools_put env i s = Some (r, s') \<Longrightarrow> pools_reach env s'"
| incr: "pools_reach env s \<Longrightarrow> pools_put_incr_shared env i s = Some (r, s') \<Longrightarrow> pools_reach env s'"
| decr: "pools_reach env s \<Longrightarrow> pools_decr_shared env i s = Some (r, s') \<Longrightarrow> pools_reach env s'"
| remove: "pools_reach env s \<Longrightarrow> pools_remove env i s = Some (r, s') \<Longrightarrow> pools_reach env s'"
| close: "pools_reach env s \<Longrightarrow> pools_close env s = Some (r, s') \<Longrightarrow> pools_reach env s'"
| world: "pools_reach env s \<Longrightarrow> tgrows (tp_world s) w \<Longrightarrow> pools_reach env (s\<lparr>tp_world := w\<rparr>)"

lemma pools_wf_world: "pools_wf s \<Longrightarrow> tgrows (tp_world s) w \<Longrightarrow> pools_wf (s\<lparr>tp_world := w\<rparr>)"
  using entry_ok_grows unfolding pools_wf_def by (simp del: map_of_eq_Some_iff) blast

lemma keeps_wfD: "keeps keeps_wf m \<Longrightarrow> m s = Some (r, s') \<Longrightarrow> pools_wf s \<Longrightarrow> pools_wf s'"
  by (drule (1) keepsD) (simp add: keeps_wf_def)

lemma pools_reach_wf:
  assumes "terminal_choice env"
  shows "pools_reach env s \<Longrightarrow> pools_wf s"
proof (induction rule: pools_reach.induct)
  case (maxsize s v r s')
  then show ?case by (auto simp: set_pools_maxsize_def pools_wf_def)
next
  case (world s w)
  then show ?case by (intro pools_wf_world)
qed (rule pools_wf_new | erule (1) terminal_choice.pools_ops_wf(1-6) [OF assms, THEN keeps_wfD])+

definition items_under :: "'w pools \<Rightarrow> pool_key \<Rightarrow> nat set" where
  "items_under s k = (case map_of (tp_pools s) k of None \<Rightarrow> {} | Some e \<Rightarrow> pool_all_items (pe_pool e))"

lemma items_under_key:
  assumes "pools_wf s" "i \<in> items_under s k"
  shows "i < tw_next (tp_world s) \<and> tm_key (tw_heap (tp_world s) i) = k"
proof -
  obtain e where e: "map_of (tp_pools s) k = Some e" "i \<in> pool_all_items (pe_pool e)"
    using assms(2) unfolding items_under_def by (cases "map_of (tp_pools s) k") auto
  then show ?thesis using assms(1) unfolding pools_wf_def entry_ok_def of_key_def by blast
qed

text \<open>
  C12: in every state the pools can get into, whatever was got, put back, shared, removed and closed in
  whatever order and with whatever errors, a terminal is in at most one pool, in a pool it is
  either free or in use and not both, and it is in the pool of its own key: the code may take
  the pool to put it back into from the key of the terminal alone.
\<close>

theorem pools_are_disjoint:
  assumes "terminal_choice env" "pools_reach env s"
  shows "(i \<in> items_under s k \<and> i \<in> items_under s k' \<longrightarrow> k = k') \<and>
    (i \<in> items_under s k \<longrightarrow> tm_key (tw_heap (tp_world s) i) = k) \<and>
    (map_of (tp_pools s) k = Some e \<longrightarrow> pl_inuse (pe_pool e) \<inter> pl_free (pe_pool e) = {} \<and>
       pool_size (pe_pool e) = card (items_under s k))"
proof -
  note wf = pools_reach_wf [OF assms]
  have "pool_wf (pe_pool e)" if "map_of (tp_pools s) k = Some e"
    using that wf unfolding pools_wf_def entry_ok_def by blast
  then show ?thesis
    using items_under_key [OF wf, of i k] items_under_key [OF wf, of i k'] pool_size_items
    unfolding pool_wf_def items_under_def by (simp del: map_of_eq_Some_iff) blast
qed

definition quiet_terminals :: "unit terminal_env" where
  "quiet_terminals = oldest_first \<lparr>te_start = \<lambda>_ _. ret (), te_set_prompt_timeout = \<lambda>_ _. ret (), te_close = \<lambda>_. ret (),
     te_pick = \<lambda>_ _. 0, te_order = \<lambda>_ _. [], te_shuffle = \<lambda>_ ks. ks\<rparr>"

lemma quiet_choice: "terminal_choice quiet_terminals"
  unfolding quiet_terminals_def by (rule oldest.terminal_choice_axioms)

lemmas quiet_get = Let_def pools_get_def get_pool_def on_pool_def new_pools_def terminal_pool_key_def zone_item_def
  pool_set_maxsize_def remove_n_free_def quiet_terminals_def oldest_first_def terminal_items_def new_pool_def
  shared_free_size_def clean_if_needed_def pools_size_def pool_size_def pools_maxsize_def get_terminal_of_pool_def
  pool_get_def pool_get_item_def in_world_def new_terminal_app start_terminal_def ext_def initialize_prompt_timeout_def
  alloc_terminal_def get_property_def on_world_def initialize_with_properties_def set_terminal_def upd_def
  defaultproperties_def

definition first_get :: "unit pools" where
  "first_get = (case pools_get quiet_terminals [] defaultproperties None (new_pools ()) of
     Some (r, s) \<Rightarrow> s | None \<Rightarrow> new_pools ())"

lemma first_get: "pools_get quiet_terminals [] defaultproperties None (new_pools ()) = Some (Inr 0, first_get)"
  "map_of (tp_pools first_get) [zone_item None] \<noteq> None"
  by (simp_all add: first_get_def quiet_get)

lemma pools_are_disjoint_witness:
  "tm_key (tw_heap (tp_world first_get) 0) = [zone_item None]"
proof -
  have "pools_reach quiet_terminals first_get"
    by (rule pools_reach.get [OF pools_reach.start first_get(1)])
  moreover have "0 \<in> items_under first_get [zone_item None]"
    by (simp add: first_get_def items_under_def pool_all_items_def quiet_get)
  ultimately show ?thesis using pools_are_disjoint [OF quiet_choice, of first_get 0 "[zone_item None]"] by blast
qed

text \<open>
  C5: \<open>get\<close> hands out a terminal exclusively: it was in use by nobody, now it is in use, nothing else has
  changed hands, and it carries the key of the shells asked for. However many pools there are,
  a \<open>get\<close> takes the number of all terminals above the maximum only if it was above before.
\<close>

theorem get_is_exclusive_and_bounded:
  assumes "terminal_choice env" "pools_wf s" "pools_maxsize s = Inr M"
  shows "case pools_get env ds p z s of
      Some (Inr i, s') \<Rightarrow> i \<notin> terminals_in_use s \<and> terminals_in_use s' = insert i (terminals_in_use s) \<and>
        tm_key (tw_heap (tp_world s') i) = terminal_pool_key (ds @ [zone_item z]) \<and>
        int (pools_size s') \<le> max (int (pools_size s)) M
    | _ \<Rightarrow> True"
  using terminal_choice.get_exclusive_bounded [OF assms(1,2) _ assms(3)]
  by (auto split: option.splits sum.splits)

lemma get_is_exclusive_and_bounded_witness:
  "0 \<notin> terminals_in_use (new_pools ()) \<and> int (pools_size first_get) \<le> 256"
  using get_is_exclusive_and_bounded [OF quiet_choice, where s = "new_pools ()" and M = 256 and
    ds = "[]" and p = defaultproperties and z = None]
  unfolding first_get by (simp add: pools_maxsize_def new_pools_def pools_size_def pools_wf_def)

end
