(* ===== verification/Process.thy ===== *)
theory Process
  imports TerminalPools Compatibility
begin

text \<open>
  \<open>_process.py\<close> and \<open>_runnerintarget.py\<close>: running a command in a terminal of the pools, in the
  foreground, with progress log, in the background and detached. The remote end is reached
  through the proxies of the terminal: \<open>remote\<close> holds one program per call the code makes
  through a proxy; each may raise \<open>RemoteTimeout\<close> or any other exception.
\<close>

section \<open>Results and the remote end\<close>

type_synonym run_result = "int \<times> bytes \<times> bytes"
type_synonym str_result = "ustr \<times> ustr \<times> ustr"

definition rstrip_newlines :: "ustr \<Rightarrow> ustr" where
  "rstrip_newlines s = rev (dropWhile (\<lambda>c. c = 13 \<or> c = 10) (rev s))"

definition rstrip_runresult :: "run_result \<Rightarrow> str_result" where
  "rstrip_runresult r = (map of_char (str_of_int (fst r)),
     rstrip_newlines (to_string (PyBytes (fst (snd r)))),
     rstrip_newlines (to_string (PyBytes (snd (snd r)))))"

type_synonym environ = "(string \<times> string) list"

record 'w remote =
  rm_clock :: "('w, rat) py"
  rm_environ :: "nat \<Rightarrow> ('w, environ) py"
  rm_popen :: "nat \<Rightarrow> ustr \<Rightarrow> pval \<Rightarrow> environ \<Rightarrow> ('w, nat) py"
  rm_pid :: "nat \<Rightarrow> nat \<Rightarrow> ('w, nat) py"
  rm_returncode :: "nat \<Rightarrow> nat \<Rightarrow> ('w, int) py"
  rm_get_communicate :: "nat \<Rightarrow> nat \<Rightarrow> ('w, nat) py"
  rm_communicate :: "nat \<Rightarrow> nat \<Rightarrow> rat option \<Rightarrow> ('w, bytes \<times> bytes) py"
  rm_communicate_async :: "nat \<Rightarrow> nat \<Rightarrow> ('w, timeout_handle) py"
  rm_get_response :: "nat \<Rightarrow> nat \<Rightarrow> timeout_handle \<Rightarrow> pval \<Rightarrow> ('w, bytes \<times> bytes) py"
  rm_getpgid :: "nat \<Rightarrow> nat \<Rightarrow> ('w, nat) py"
  rm_killpg :: "nat \<Rightarrow> nat \<Rightarrow> nat \<Rightarrow> ('w, unit) py"
  rm_iter_until_empty :: "nat \<Rightarrow> nat \<Rightarrow> ('w, nat) py"
  rm_next_line :: "nat \<Rightarrow> nat \<Rightarrow> rat \<Rightarrow> ('w, bytes option) py"
  rm_daemon_popen :: "nat \<Rightarrow> ustr \<Rightarrow> pval \<Rightarrow> environ \<Rightarrow> ('w, int) py"

section \<open>A process\<close>

record process =
  pr_cmd :: ustr
  pr_executable :: pval
  pr_dicts :: "shelldict list"
  pr_props :: props
  pr_timeout :: "rat option"
  pr_zone :: "string option"
  pr_terminal :: "nat option"
  pr_termination_timeout :: pval
  pr_pro :: "nat option"
  pr_communicate :: "nat option"
  pr_env :: environ
  pr_handle :: "timeout_handle option"
  pr_result :: "run_result option"

type_synonym ('w, 'a) proc_op = "(process \<times> 'w pools, 'a) py"

definition new_process ::
  "ustr \<Rightarrow> pval \<Rightarrow> shelldict list \<Rightarrow> props \<Rightarrow> rat option \<Rightarrow> string option \<Rightarrow> process" where
  "new_process cmd exe ds p tmo zone = \<lparr>pr_cmd = cmd, pr_executable = exe, pr_dicts = ds, pr_props = p,
     pr_timeout = tmo, pr_zone = zone, pr_terminal = None, pr_termination_timeout = PNone, pr_pro = None,
     pr_communicate = None, pr_env = [], pr_handle = None, pr_result = None\<rparr>"

text \<open>
  Programs of the pools and of the remote end, and attributes of the process. A method of a
  process or terminal that is still \<open>None\<close> is an \<open>AttributeError\<close>.
\<close>

definition in_pools :: "('w pools, 'a) py \<Rightarrow> ('w, 'a) proc_op" where
  "in_pools m = in_world m"

definition in_remote :: "('w, 'a) py \<Rightarrow> ('w, 'a) proc_op" where
  "in_remote m = in_pools (on_world (ext m))"

definition terminal_of :: "('w, nat) proc_op" where
  "terminal_of = bnd (gets (\<lambda>(p, s). pr_terminal p)) (\<lambda>t. case t of None \<Rightarrow> throw AttributeError | Some i \<Rightarrow> ret i)"

definition pro_of :: "('w, nat) proc_op" where
  "pro_of = bnd (gets (\<lambda>(p, s). pr_pro p)) (\<lambda>t. case t of None \<Rightarrow> throw AttributeError | Some i \<Rightarrow> ret i)"

definition with_pro :: "(nat \<Rightarrow> nat \<Rightarrow> ('w, 'a) py) \<Rightarrow> ('w, 'a) proc_op" where
  "with_pro f = bnd terminal_of (\<lambda>t. bnd pro_of (\<lambda>q. in_remote (f t q)))"

definition communicate_of :: "('w, nat) proc_op" where
  "communicate_of = bnd (gets (\<lambda>(p, s). pr_communicate p)) (\<lambda>t. case t of None \<Rightarrow> throw AttributeError | Some i \<Rightarrow> ret i)"

definition initialize_terminal :: "'w terminal_env \<Rightarrow> 'w remote \<Rightarrow> ('w, unit) proc_op" where
  "initialize_terminal env rm = bnd (gets fst) (\<lambda>p.
     bnd (in_pools (pools_get env (pr_dicts p) (pr_props p) (pr_zone p))) (\<lambda>i.
       andthen (upd (\<lambda>p. p\<lparr>pr_terminal := Some i\<rparr>))
         (bnd (bnd (gets (\<lambda>(p, s). get_property ''termination_timeout'' (tm_props (tw_heap (tp_world s) i)))) of_sum) (\<lambda>v.
           andthen (upd (\<lambda>p. p\<lparr>pr_termination_timeout := v\<rparr>))
             (bnd (in_remote (rm_environ rm i)) (\<lambda>e.
               andthen (upd (\<lambda>p. p\<lparr>pr_env := e\<rparr>))
                 (bnd (bnd (gets (\<lambda>(p, s). get_property ''update_env_dict'' (tm_props (tw_heap (tp_world s) i)))) of_sum) (\<lambda>u.
                   case u of PDict d \<Rightarrow> upd (\<lambda>p. p\<lparr>pr_env := AList.merge (pr_env p) d\<rparr>)
                   | _ \<Rightarrow> throw TypeError))))))))"

definition set_pro :: "'w remote \<Rightarrow> ('w, unit) proc_op" where
  "set_pro rm = bnd (gets fst) (\<lambda>p. bnd terminal_of (\<lambda>i.
     bnd (in_remote (rm_popen rm i (pr_cmd p) (pr_executable p) (pr_env p))) (\<lambda>q.
       upd (\<lambda>p. p\<lparr>pr_pro := Some q\<rparr>))))"

text \<open>
  \<open>self._communicate = self.pro.communicate\<close>: \<open>pro\<close> is a recursive proxy, so reading the attribute
  asks the remote end whether it exists and for a proxy of it; any of these calls may raise.
\<close>

definition set_communicate :: "'w remote \<Rightarrow> ('w, unit) proc_op" where
  "set_communicate rm = bnd (with_pro (rm_get_communicate rm)) (\<lambda>c. upd (\<lambda>p. p\<lparr>pr_communicate := Some c\<rparr>))"

text \<open>\<open>errno.ESRCH\<close> is 3, \<open>signal.SIGTERM\<close> is 15.\<close>

definition kill_on :: "'w remote \<Rightarrow> nat \<Rightarrow> nat \<Rightarrow> nat \<Rightarrow> ('w, unit) py" where
  "kill_on rm i q sig =
     catching (bnd (rm_pid rm i q) (\<lambda>pid. bnd (rm_getpgid rm i pid) (\<lambda>g. rm_killpg rm i g sig)))
       (\<lambda>e. if e = OSError 3 then ret () else throw e)"

definition kill_proc :: "'w remote \<Rightarrow> nat \<Rightarrow> ('w, unit) proc_op" where
  "kill_proc rm sig = with_pro (\<lambda>i q. kill_on rm i q sig)"

definition kill_forcefully :: "'w remote \<Rightarrow> nat \<Rightarrow> nat \<Rightarrow> ('w, unit) py" where
  "kill_forcefully rm i q =
     catching (kill_on rm i q 9) (\<lambda>e. if is_Exception e then ret () else throw e)"

definition get_result :: "'w remote \<Rightarrow> ('w, bytes \<times> bytes) proc_op \<Rightarrow> ('w, run_result) proc_op" where
  "get_result rm func = bnd func (\<lambda>(out, err).
     bnd (with_pro (rm_returncode rm)) (\<lambda>st. ret (st, out, err)))"

definition response_of :: "'w remote \<Rightarrow> timeout_handle \<Rightarrow> ('w, bytes \<times> bytes) proc_op" where
  "response_of rm h = bnd (gets (\<lambda>(p, s). pr_termination_timeout p)) (\<lambda>v.
     with_pro (\<lambda>i q. rm_get_response rm i q h v))"

definition kill_and_raise_or_return_handle ::
  "'w remote \<Rightarrow> timeout_handle \<Rightarrow> nat \<Rightarrow> ('w, timeout_handle) proc_op" where
  "kill_and_raise_or_return_handle rm h sig =
     catching (andthen (kill_proc rm sig)
         (bnd (get_result rm (response_of rm h)) (\<lambda>r. throw (RunnerTimeout (Some r)))))
       (\<lambda>e. case e of RemoteTimeout h' \<Rightarrow> ret h' | _ \<Rightarrow> throw e)"

fun kill_with :: "'w remote \<Rightarrow> nat list \<Rightarrow> timeout_handle \<Rightarrow> ('w, timeout_handle) proc_op" where
  "kill_with rm [] h = ret h"
| "kill_with rm (sig # sigs) h = bnd (kill_and_raise_or_return_handle rm h sig) (kill_with rm sigs)"

definition kill_run_and_raise :: "'w terminal_env \<Rightarrow> 'w remote \<Rightarrow> timeout_handle \<Rightarrow> ('w, 'a) proc_op" where
  "kill_run_and_raise env rm h = bnd (kill_with rm [15, 9] h) (\<lambda>h'.
     bnd (with_pro (rm_pid rm)) (\<lambda>pid.
       bnd terminal_of (\<lambda>i. andthen (in_pools (pools_remove env i)) (throw (FailedToKillProcess pid h')))))"

definition finalize_terminal :: "'w terminal_env \<Rightarrow> ('w, unit) proc_op" where
  "finalize_terminal env = bnd terminal_of (\<lambda>i.
     andthen (in_pools (on_world (set_terminal_cleanup i (ret ())))) (in_pools (pools_put env i)))"

text \<open>The call of the fetched method, whose time-out has been set; its value is read as a local one.\<close>

definition communicate_as_local_value :: "'w remote \<Rightarrow> rat option \<Rightarrow> ('w, run_result) proc_op" where
  "communicate_as_local_value rm tmo = get_result rm
     (bnd terminal_of (\<lambda>i. bnd communicate_of (\<lambda>c. in_remote (rm_communicate rm i c tmo))))"

definition communicate_with_cleanup ::
  "'w terminal_env \<Rightarrow> 'w remote \<Rightarrow> rat option \<Rightarrow> ('w, run_result) proc_op" where
  "communicate_with_cleanup env rm tmo =
     finally_do (catching (communicate_as_local_value rm tmo)
         (\<lambda>e. case e of RemoteTimeout h \<Rightarrow> kill_run_and_raise env rm h | _ \<Rightarrow> throw e))
       (finalize_terminal env)"

definition set_kill_cleanup :: "'w remote \<Rightarrow> ('w, unit) proc_op" where
  "set_kill_cleanup rm = bnd terminal_of (\<lambda>i. bnd pro_of (\<lambda>q.
     in_pools (on_world (set_terminal_cleanup i (kill_forcefully rm i q)))))"

text \<open>\<open>_ProcessBase.run\<close>, with the \<open>communicate\<close> of the class.\<close>

definition run_process :: "'w terminal_env \<Rightarrow> 'w remote \<Rightarrow> ('w, 'a) proc_op \<Rightarrow> ('w, 'a) proc_op" where
  "run_process env rm comm = andthen (initialize_terminal env rm)
     (andthen (set_pro rm) (andthen (set_communicate rm) (andthen (set_kill_cleanup rm) comm)))"

section \<open>Foreground\<close>

text \<open>
  \<open>set_remote_proxy_timeout\<close> and \<open>remote_proxy_use_asynchronous_response\<close> only set an attribute of
  the local proxy; on a \<open>_communicate\<close> that is still \<open>None\<close> they raise.
\<close>

definition communicate_of_set :: "('w, unit) proc_op" where
  "communicate_of_set = bnd communicate_of (\<lambda>_. ret ())"

definition foreground_communicate :: "'w terminal_env \<Rightarrow> 'w remote \<Rightarrow> ('w, run_result) proc_op" where
  "foreground_communicate env rm = bnd (gets fst) (\<lambda>p. andthen communicate_of_set
     (communicate_with_cleanup env rm (pr_timeout p)))"

definition run_foreground :: "'w terminal_env \<Rightarrow> 'w remote \<Rightarrow> ('w, run_result) proc_op" where
  "run_foreground env rm = run_process env rm (foreground_communicate env rm)"

text \<open>
  With progress log the lines of standard output are read first. The loop ends when the remote
  process closes its output, or when a line comes after the timeout: it may never end.
\<close>

partial_function (option) async_lines ::
  "'w remote \<Rightarrow> nat \<Rightarrow> nat \<Rightarrow> rat \<Rightarrow> rat \<Rightarrow> bytes \<Rightarrow> process \<times> 'w pools \<Rightarrow> ((exn + bytes) \<times> process \<times> 'w pools) option" where
  "async_lines rm i it start tmo acc s =
     seq_outcome (in_remote (rm_next_line rm i it tmo) s) (\<lambda>l s1.
       case l of None \<Rightarrow> Some (Inr acc, s1)
       | Some b \<Rightarrow>
           seq_outcome (in_remote (rm_clock rm) s1) (\<lambda>now s2.
             if now - start > tmo then Some (Inl (RunnerTimeout None), s2)
             else async_lines rm i it start tmo (acc @ b) s2))"

definition async_communicate :: "'w terminal_env \<Rightarrow> 'w remote \<Rightarrow> rat \<Rightarrow> ('w, run_result) proc_op" where
  "async_communicate env rm tmo = bnd terminal_of (\<lambda>i.
     bnd (with_pro (rm_iter_until_empty rm)) (\<lambda>it.
       andthen (bnd (with_pro (rm_pid rm)) (\<lambda>_. ret ()))
         (bnd (in_remote (rm_clock rm)) (\<lambda>start.
           bnd (async_lines rm i it start tmo []) (\<lambda>out.
             bnd (foreground_communicate env rm) (\<lambda>r. ret (fst r, out, snd (snd r))))))))"

definition run_async :: "'w terminal_env \<Rightarrow> 'w remote \<Rightarrow> rat \<Rightarrow> ('w, run_result) proc_op" where
  "run_async env rm tmo = run_process env rm (async_communicate env rm tmo)"

section \<open>Background\<close>

definition background_communicate :: "'w terminal_env \<Rightarrow> 'w remote \<Rightarrow> ('w, unit) proc_op" where
  "background_communicate env rm =
     bnd (bnd communicate_of (\<lambda>c. bnd terminal_of (\<lambda>i. in_remote (rm_communicate_async rm i c)))) (\<lambda>h. andthen (upd (\<lambda>p. p\<lparr>pr_handle := Some h\<rparr>))
       (bnd terminal_of (\<lambda>i. in_pools (pools_put_incr_shared env i))))"

definition run_background :: "'w terminal_env \<Rightarrow> 'w remote \<Rightarrow> ('w, unit) proc_op" where
  "run_background env rm = run_process env rm (background_communicate env rm)"

definition handle_of :: "('w, timeout_handle) proc_op" where
  "handle_of = bnd (gets (\<lambda>(p, s). pr_handle p)) (\<lambda>t. case t of None \<Rightarrow> throw AttributeError | Some i \<Rightarrow> ret i)"

definition wait_background_proc :: "'w terminal_env \<Rightarrow> 'w remote \<Rightarrow> pval \<Rightarrow> ('w, run_result) proc_op" where
  "wait_background_proc env rm tmo = bnd (gets (\<lambda>(p, s). pr_result p)) (\<lambda>res.
     case res of Some r \<Rightarrow> ret r
     | None \<Rightarrow> bnd handle_of (\<lambda>h.
         bnd (get_result rm (with_pro (\<lambda>i q. rm_get_response rm i q h tmo))) (\<lambda>r.
           andthen (upd (\<lambda>p. p\<lparr>pr_result := Some r\<rparr>))
             (bnd terminal_of (\<lambda>i. andthen (in_pools (pools_decr_shared env i)) (ret r))))))"

definition kill_background_proc :: "'w terminal_env \<Rightarrow> 'w remote \<Rightarrow> ('w, run_result) proc_op" where
  "kill_background_proc env rm =
     catching (bnd handle_of (kill_run_and_raise env rm))
       (\<lambda>e. case e of
          RunnerTimeout (Some r) \<Rightarrow> andthen (upd (\<lambda>p. p\<lparr>pr_result := Some r\<rparr>))
            (bnd terminal_of (\<lambda>i. andthen (in_pools (pools_decr_shared env i)) (ret r)))
        | RunnerTimeout None \<Rightarrow> throw IndexError
        | _ \<Rightarrow> throw e)"

text \<open>The detached process: the terminal goes back whatever happens, if there is one.\<close>

definition finalize_if_any :: "'w terminal_env \<Rightarrow> ('w, unit) proc_op" where
  "finalize_if_any env = bnd (gets (\<lambda>(p, s). pr_terminal p)) (\<lambda>t.
     case t of None \<Rightarrow> ret () | Some i \<Rightarrow> in_pools (pools_put env i))"

definition get_cmd_pid :: "'w remote \<Rightarrow> ('w, int) proc_op" where
  "get_cmd_pid rm = bnd (gets fst) (\<lambda>p. bnd terminal_of (\<lambda>i.
     in_remote (rm_daemon_popen rm i (pr_cmd p) (pr_executable p) (pr_env p))))"

definition run_nocomm :: "'w terminal_env \<Rightarrow> 'w remote \<Rightarrow> ('w, int) proc_op" where
  "run_nocomm env rm =
     finally_do (andthen (initialize_terminal env rm) (get_cmd_pid rm)) (finalize_if_any env)"

section \<open>The runner of a target\<close>

record runner_in_target =
  rt_dicts :: "shelldict list"
  rt_props :: props

definition new_runner_in_target :: "props \<Rightarrow> shelldict list \<Rightarrow> runner_in_target" where
  "new_runner_in_target defaults ds = \<lparr>rt_dicts = ds, rt_props = new_target_properties defaults\<rparr>"

definition executable_or_default :: "runner_in_target \<Rightarrow> pval \<Rightarrow> exn + pval" where
  "executable_or_default h exe =
     (if exe = PNone then get_property ''default_executable'' (rt_props h) else Inr exe)"

text \<open>A process that nobody refers to when its method has returned.\<close>

definition forget_proc :: "('w, 'a) proc_op \<Rightarrow> process \<Rightarrow> ('w pools, 'a) py" where
  "forget_proc m p = (\<lambda>s. case m (p, s) of None \<Rightarrow> None | Some (r, (p', s')) \<Rightarrow> Some (r, s'))"

definition target_run ::
  "'w terminal_env \<Rightarrow> 'w remote \<Rightarrow> runner_in_target \<Rightarrow> ustr \<Rightarrow> rat \<Rightarrow> pval \<Rightarrow> bool \<Rightarrow> ('w pools, run_result) py" where
  "target_run env rm h cmd tmo exe progress =
     bnd (of_sum (executable_or_default h exe)) (\<lambda>x.
       forget_proc (if progress then run_async env rm tmo else run_foreground env rm)
         (new_process cmd x (rt_dicts h) (rt_props h) (Some tmo) None))"

definition target_run_in_background ::
  "'w terminal_env \<Rightarrow> 'w remote \<Rightarrow> runner_in_target \<Rightarrow> ustr \<Rightarrow> pval \<Rightarrow> ('w pools, process) py" where
  "target_run_in_background env rm h cmd exe =
     bnd (of_sum (executable_or_default h exe)) (\<lambda>x.
       forget_proc (andthen (run_background env rm) (gets fst))
         (new_process cmd x (rt_dicts h) (rt_props h) None (Some ''background'')))"

definition target_run_in_nocomm_background ::
  "'w terminal_env \<Rightarrow> 'w remote \<Rightarrow> runner_in_target \<Rightarrow> ustr \<Rightarrow> pval \<Rightarrow> ('w pools, int) py" where
  "target_run_in_nocomm_background env rm h cmd exe =
     bnd (of_sum (executable_or_default h exe)) (\<lambda>x.
       forget_proc (run_nocomm env rm)
         (new_process cmd x (rt_dicts h) (rt_props h) None (Some ''background'')))"

definition target_get_terminal :: "'w terminal_env \<Rightarrow> runner_in_target \<Rightarrow> ('w pools, nat) py" where
  "target_get_terminal env h = pools_get env (rt_dicts h) (rt_props h) None"

definition target_active_terminal ::
  "'w terminal_env \<Rightarrow> runner_in_target \<Rightarrow> (nat \<Rightarrow> ('w pools, 'a) py) \<Rightarrow> ('w pools, 'a) py" where
  "target_active_terminal env h body = active_terminal env (rt_dicts h) (rt_props h) body"
section \<open>The terminal of a run\<close>

text \<open>
  What the calls to the remote end leave alone: the pools, the process's terminal and the remote
  process. \<open>drops i\<close> also allows the terminal \<open>i\<close> to leave the terminals in use.
\<close>

definition same_pools :: "'w pools \<Rightarrow> 'w pools \<Rightarrow> bool" where
  "same_pools s s' \<longleftrightarrow> tp_pools s' = tp_pools s \<and> tp_maxsize s' = tp_maxsize s \<and> tgrows (tp_world s) (tp_world s')"

definition calls_only :: "process \<times> 'w pools \<Rightarrow> process \<times> 'w pools \<Rightarrow> bool" where
  "calls_only x y \<longleftrightarrow> pr_terminal (fst y) = pr_terminal (fst x) \<and> pr_pro (fst y) = pr_pro (fst x) \<and>
     pr_communicate (fst y) = pr_communicate (fst x) \<and> same_pools (snd x) (snd y)"

interpretation co: step_relation calls_only
  by unfold_locales (auto simp: calls_only_def same_pools_def tgrows_def)

lemma same_pools_facts: "same_pools s s' \<Longrightarrow> terminals_in_use s' = terminals_in_use s"
  "same_pools s s' \<Longrightarrow> pools_wf s \<Longrightarrow> pools_wf s'"
  using pools_wf_world [of s "tp_world s'"]
  by (auto simp: same_pools_def terminals_in_use_def pools_wf_def)

lemma calls_world: "keeps tgrows m \<Longrightarrow> keeps calls_only (in_pools (on_world m))"
  by (rule keeps_gen)
    (auto simp: in_pools_def in_world_def on_world_def calls_only_def same_pools_def keepsD split: option.splits)

lemma calls_remote: "keeps calls_only (in_remote m)"
  unfolding in_remote_def by (intro calls_world tgrows_ext)

lemma calls_upd: "(\<And>p. pr_terminal (f p) = pr_terminal p \<and> pr_pro (f p) = pr_pro p \<and> pr_communicate (f p) = pr_communicate p) \<Longrightarrow>
    keeps calls_only (upd f)"
  by (rule keeps_gen) (auto simp: calls_only_def same_pools_def tgrows_def)

lemma calls_attr: "keeps calls_only terminal_of" "keeps calls_only pro_of" "keeps calls_only handle_of"
  "keeps calls_only communicate_of" "keeps calls_only communicate_of_set"
  unfolding communicate_of_set_def terminal_of_def pro_of_def handle_of_def communicate_of_def
  by (intro co.keeps_bnd co.keeps_simple keeps_case_option)+

lemma calls_with_pro: "keeps calls_only (with_pro f)"
  unfolding with_pro_def by (intro co.keeps calls_attr calls_remote)

lemma calls_result: "keeps calls_only m \<Longrightarrow> keeps calls_only (get_result rm m)"
  unfolding get_result_def by (intro co.keeps_bnd) (auto intro: co.keeps_bnd calls_with_pro co.keeps_simple)

lemma calls_response: "keeps calls_only (response_of rm h)"
  unfolding response_of_def by (intro co.keeps calls_with_pro)

lemma calls_communicate: "keeps calls_only (communicate_as_local_value rm tmo)"
  unfolding communicate_as_local_value_def by (intro calls_result co.keeps_bnd calls_attr calls_remote)

lemma calls_kill: "keeps calls_only (kill_proc rm sig)" "keeps calls_only (set_kill_cleanup rm)"
  unfolding kill_proc_def set_kill_cleanup_def set_terminal_cleanup_def
  by (intro co.keeps calls_with_pro calls_attr calls_world tgrows_set_terminal, simp?)+

lemma calls_kill_handle: "keeps calls_only (kill_and_raise_or_return_handle rm h sig)"
  unfolding kill_and_raise_or_return_handle_def
  by (intro co.keeps calls_kill calls_result calls_response) (auto split: exn.split intro: co.keeps)

lemma calls_kill_with: "keeps calls_only (kill_with rm sigs h)"
  by (induction sigs arbitrary: h) (auto intro: co.keeps calls_kill_handle)

lemma calls_async_lines: "keeps calls_only (async_lines rm i it start tmo acc)"
proof (rule keeps_gen)
  fix s r s' assume "async_lines rm i it start tmo acc s = Some (r, s')"
  then have "calls_only s (snd (r, s'))"
  proof (elim async_lines.raw_induct [where P = "\<lambda>rm i it start tmo acc s p. calls_only s (snd p)", rotated])
    fix f :: "'a remote \<Rightarrow> nat \<Rightarrow> nat \<Rightarrow> rat \<Rightarrow> rat \<Rightarrow> bytes \<Rightarrow> ('a, bytes) proc_op" and rm i it start tmo acc s p
    assume IH: "\<And>rm i it start tmo acc s p. f rm i it start tmo acc s = Some p \<Longrightarrow> calls_only s (snd p)"
      and "seq_outcome (in_remote (rm_next_line rm i it tmo) s) (\<lambda>l s1.
         case l of None \<Rightarrow> Some (Inr acc, s1)
         | Some b \<Rightarrow> seq_outcome (in_remote (rm_clock rm) s1) (\<lambda>now s2.
             if now - start > tmo then Some (Inl (RunnerTimeout None), s2)
             else f rm i it start tmo (acc @ b) s2)) = Some p"
    then show "calls_only s (snd p)"
      by (cases p) (auto elim!: seq_outcome_cases split: option.splits if_splits
          dest!: keepsD [OF calls_remote] IH; meson co.R_trans)
  qed
  then show "calls_only s s'" by simp
qed

text \<open>Taking a terminal out of use.\<close>

lemma put_takes_out: "pool_put i (p, w) = Some (r, (p', w')) \<Longrightarrow> pl_inuse p' = pl_inuse p - {i}"
  by (auto simp: pool_put_def split: if_splits)

lemma try_to_close_cases:
  assumes "try_to_close_item it i (p, w) = Some (x, (q, v))"
  shows "q = p \<and> (x = Inr () \<or> x = Inl SystemExit \<and> pi_close it i w = Some (Inl SystemExit, v))"
  using assms try_to_close_result [OF assms]
  by (auto simp: try_to_close_item_def is_Exception_def in_world_def elim!: catch_outcome_cases split: if_splits option.splits)

lemma remove_takes_out:
  assumes "pool_remove it i (p, w) = Some (r, (p', w'))"
  shows "pl_inuse p' = pl_inuse p - {i} \<or> r = Inl SystemExit \<and> p' = p \<and> pi_close it i w = Some (Inl SystemExit, w')"
  using assms by (auto simp: pool_remove_def elim!: seq_outcome_cases dest!: try_to_close_cases)

lemma in_use_key:
  "pools_wf s \<Longrightarrow> map_of (tp_pools s) k = Some e \<Longrightarrow> i \<in> pl_inuse (pe_pool e) \<Longrightarrow> tm_key (tw_heap (tp_world s) i) = k"
  using items_under_key [of s i k] by (simp add: items_under_def pool_all_items_def del: map_of_eq_Some_iff)

lemma in_use_of_key:
  "pools_wf s \<Longrightarrow> i \<in> terminals_in_use s \<Longrightarrow>
    \<exists>e. map_of (tp_pools s) (tm_key (tw_heap (tp_world s) i)) = Some e \<and> i \<in> pl_inuse (pe_pool e)"
  using in_use_key unfolding terminals_in_use_def by blast

lemma in_use_take_out:
  assumes wf: "pools_wf s" and e: "map_of (tp_pools s) (tm_key (tw_heap (tp_world s) i)) = Some e"
  shows "terminals_in_use (s\<lparr>tp_pools := AList.update (tm_key (tw_heap (tp_world s) i)) e' (tp_pools s), tp_world := w\<rparr>) =
    (terminals_in_use s - pl_inuse (pe_pool e)) \<union> pl_inuse (pe_pool e')"
proof -
  let ?k = "tm_key (tw_heap (tp_world s) i)"
  have "pl_inuse (pe_pool e2) \<inter> pl_inuse (pe_pool e) = {}" if k: "map_of (tp_pools s) k = Some e2" "k \<noteq> ?k" for k e2
    using in_use_key [OF wf k(1)] in_use_key [OF wf e] k(2) by blast
  then show ?thesis
    unfolding in_use_update [OF e] in_use_split [OF e] by blast
qed

text \<open>
  \<open>on_pool\<close> under the key of the terminal, for the two operations. Only when closing the terminal
  asks the interpreter to exit does it stay in use.
\<close>

lemma on_pool_takes_out:
  assumes wf: "pools_wf s"
    and o: "on_pool env (tm_key (tw_heap (tp_world s) i)) op s = Some (r, s')"
    and op: "\<And>key ds pr p r p' w'. op (terminal_items env key ds pr) (p, tp_world s) = Some (r, (p', w')) \<Longrightarrow>
      pl_inuse p' = pl_inuse p - {i} \<or> r = Inl SystemExit \<and> p' = p \<and> X"
  shows "terminals_in_use s' = terminals_in_use s - {i} \<or>
    r = Inl SystemExit \<and> terminals_in_use s' = terminals_in_use s \<and> X"
proof (cases "map_of (tp_pools s) (tm_key (tw_heap (tp_world s) i))")
  case None
  then have "i \<notin> terminals_in_use s" using in_use_of_key [OF wf] by fastforce
  then show ?thesis using on_pool_result [OF o] None by auto
next
  case (Some e)
  then obtain p' w' where p': "op (terminal_items env (tm_key (tw_heap (tp_world s) i)) (pe_dicts e) (pe_props e))
        (pe_pool e, tp_world s) = Some (r, (p', w'))"
    and s': "s' = s\<lparr>tp_pools := AList.update (tm_key (tw_heap (tp_world s) i)) (e\<lparr>pe_pool := p'\<rparr>) (tp_pools s), tp_world := w'\<rparr>"
    using on_pool_result [OF o] by auto
  have "pl_inuse (pe_pool e) \<subseteq> terminals_in_use s"
    using Some by (auto simp: terminals_in_use_def simp del: map_of_eq_Some_iff)
  moreover have "i \<in> terminals_in_use s \<Longrightarrow> i \<in> pl_inuse (pe_pool e)"
    using in_use_of_key [OF wf, of i] Some by (simp del: map_of_eq_Some_iff)
  ultimately show ?thesis
    using op [OF p'] in_use_take_out [OF wf Some, where e' = "e\<lparr>pe_pool := p'\<rparr>" and w = w'] s' by auto
qed

definition close_exits :: "'w terminal_env \<Rightarrow> nat \<Rightarrow> 'w pools \<Rightarrow> bool" where
  "close_exits env i s \<longleftrightarrow> (\<exists>w. close_terminal env i (tp_world s) = Some (Inl SystemExit, w))"

lemma pools_take_out:
  assumes c: "terminal_choice env" and wf: "pools_wf s"
    and o: "pools_put env i s = Some (r, s') \<or> pools_remove env i s = Some (r, s')"
  shows "pools_wf s' \<and> (terminals_in_use s' = terminals_in_use s - {i} \<or>
    r = Inl SystemExit \<and> terminals_in_use s' = terminals_in_use s \<and> close_exits env i s)"
proof -
  let ?k = "tm_key (tw_heap (tp_world s) i)"
  have "pools_wf s'"
    using o wf terminal_choice.put_wf(1) [OF c, THEN keeps_wfD] terminal_choice.remove_wf [OF c, THEN keeps_wfD] by blast
  moreover have "?k \<notin> fst ` set (tp_pools s) \<Longrightarrow> i \<notin> terminals_in_use s"
    using in_use_of_key [OF wf, of i] by (metis map_of_eq_None_iff option.distinct(1))
  moreover have "on_pool env ?k (\<lambda>it. pool_put i) s = Some (r, s') \<Longrightarrow> terminals_in_use s' = terminals_in_use s - {i} \<or>
      r = Inl SystemExit \<and> terminals_in_use s' = terminals_in_use s \<and> close_exits env i s"
    by (erule on_pool_takes_out [OF wf]) (auto dest: put_takes_out)
  moreover have "on_pool env ?k (\<lambda>it. pool_remove it i) s = Some (r, s') \<Longrightarrow> terminals_in_use s' = terminals_in_use s - {i} \<or>
      r = Inl SystemExit \<and> terminals_in_use s' = terminals_in_use s \<and> close_exits env i s"
    by (erule on_pool_takes_out [OF wf]) (auto dest!: remove_takes_out simp: close_exits_def terminal_items_def)
  ultimately show ?thesis
    using o unfolding pools_put_def put_op_def pools_remove_def Let_def
    by (auto split: if_split_asm)
qed

definition drops :: "process \<times> 'w pools \<Rightarrow> process \<times> 'w pools \<Rightarrow> bool" where
  "drops x y \<longleftrightarrow> pr_terminal (fst y) = pr_terminal (fst x) \<and> pr_pro (fst y) = pr_pro (fst x) \<and>
     (pools_wf (snd x) \<longrightarrow> pools_wf (snd y) \<and> (terminals_in_use (snd y) = terminals_in_use (snd x) \<or>
       terminals_in_use (snd y) = terminals_in_use (snd x) - set_option (pr_terminal (fst x))))"

interpretation dr: step_relation drops
  by unfold_locales (auto simp: drops_def)

lemma drops_calls: "keeps calls_only m \<Longrightarrow> keeps drops m"
  using same_pools_facts unfolding keeps_def calls_only_def drops_def by blast

lemma terminal_of_app: "terminal_of (p, s) =
    Some (case pr_terminal p of None \<Rightarrow> Inl AttributeError | Some i \<Rightarrow> Inr i, (p, s))"
  by (simp add: terminal_of_def split: option.split)

lemma keeps_case_timeout:
  "(\<And>h. keeps R (f h :: ('s, 'a) py)) \<Longrightarrow> keeps R (throw e :: ('s, 'a) py) \<Longrightarrow> keeps R (case e of RemoteTimeout h \<Rightarrow> f h | _ \<Rightarrow> throw e)"
  by (cases e) simp_all

lemma drops_remove:
  assumes "terminal_choice env"
  shows "keeps drops (bnd terminal_of (\<lambda>i. andthen (in_pools (pools_remove env i)) (throw e)))"
proof (rule keeps_gen)
  fix x r y assume a: "bnd terminal_of (\<lambda>i. andthen (in_pools (pools_remove env i)) (throw e)) x = Some (r, y)"
  obtain p s where x: "x = (p, s)" by (cases x)
  show "drops x y"
  proof (cases "pr_terminal p")
    case None
    then show ?thesis using a by (simp add: x terminal_of_app dr.R_refl)
  next
    case (Some i)
    then obtain r' s' where "pools_remove env i s = Some (r', s')" "y = (p, s')"
      using a by (auto simp: x terminal_of_app in_pools_def in_world_def split: option.splits elim!: seq_outcome_cases)
    then show ?thesis
      using pools_take_out [OF assms, of s i r' s'] Some by (auto simp: x drops_def)
  qed
qed

lemma drops_kill: "terminal_choice env \<Longrightarrow> keeps drops (kill_run_and_raise env rm h)"
  unfolding kill_run_and_raise_def by (intro dr.keeps_bnd drops_calls calls_kill_with calls_with_pro drops_remove)

lemma drops_communicate: "terminal_choice env \<Longrightarrow>
    keeps drops (catching (communicate_as_local_value rm tmo)
         (\<lambda>e. case e of RemoteTimeout h \<Rightarrow> kill_run_and_raise env rm h | _ \<Rightarrow> throw e))"
  by (intro dr.keeps_catching keeps_case_timeout drops_kill dr.keeps_simple) (intro drops_calls calls_communicate)

text \<open>The cleanup has been reset before: only \<open>te_close\<close> could still ask the interpreter to exit.\<close>

definition close_never_exits :: "'w terminal_env \<Rightarrow> bool" where
  "close_never_exits env \<longleftrightarrow> (\<forall>i w v. te_close env i w \<noteq> Some (Inl SystemExit, v))"

lemma reset_cleanup_never_exits:
  "close_never_exits env \<Longrightarrow> tm_cleanup (tw_heap (tp_world s) i) = ret () \<Longrightarrow> \<not> close_exits env i s"
  by (auto simp: close_never_exits_def close_exits_def close_terminal_def finally_do_app ext_def set_terminal_def
      split: option.splits if_splits elim!: seq_outcome_cases)

lemma finalize_takes_out:
  assumes c: "terminal_choice env" "close_never_exits env" and wf: "pools_wf s" and i: "pr_terminal p = Some i"
    and f: "finalize_terminal env (p, s) = Some (r, (p', s'))"
  shows "pools_wf s' \<and> terminals_in_use s' = terminals_in_use s - {i}"
proof -
  let ?m = "in_pools (on_world (set_terminal_cleanup i (ret ()))) :: ('a, unit) proc_op"
  have k: "keeps calls_only ?m"
    unfolding set_terminal_cleanup_def by (intro calls_world tgrows_set_terminal) simp
  have "seq_outcome (?m (p, s)) (\<lambda>_. in_pools (pools_put env i)) = Some (r, (p', s'))"
    using f i by (simp add: finalize_terminal_def terminal_of_app)
  then obtain q t where 1: "?m (p, s) = Some (Inr (), (q, t))" and 2: "in_pools (pools_put env i) (q, t) = Some (r, (p', s'))"
    and e: "tm_cleanup (tw_heap (tp_world t) i) = ret ()"
    by (auto simp: in_pools_def on_world_def set_terminal_cleanup_def set_terminal_def elim: seq_outcome_cases)
  have t: "pools_wf t" "terminals_in_use t = terminals_in_use s"
    using keepsD [OF k 1] same_pools_facts wf unfolding calls_only_def by auto
  show ?thesis
    using 2 t pools_take_out [OF c(1) t(1), of i r s'] reset_cleanup_never_exits [OF c(2) e]
    by (auto simp: in_pools_def in_world_def split: option.splits)
qed

lemma communicate_takes_out:
  assumes c: "terminal_choice env" "close_never_exits env" and wf: "pools_wf s" and i: "pr_terminal p = Some i"
    and m: "communicate_with_cleanup env rm tmo (p, s) = Some (r, (p', s'))"
  shows "pools_wf s' \<and> terminals_in_use s' = terminals_in_use s - {i}"
  using m [unfolded communicate_with_cleanup_def]
proof (rule finally_do_cases)
  let ?m = "catching (communicate_as_local_value rm tmo)
         (\<lambda>e. case e of RemoteTimeout h \<Rightarrow> kill_run_and_raise env rm h | _ \<Rightarrow> throw e)"
  fix x y f
  assume 1: "?m (p, s) = Some (x, y)" and 2: "finalize_terminal env y = Some (f, (p', s'))"
  obtain q t where y: "y = (q, t)" by (cases y)
  have "drops (p, s) (q, t)"
    by (rule keepsD [OF drops_communicate [OF c(1)]]) (rule 1 [unfolded y])
  then have d: "pr_terminal q = Some i" "pools_wf t" "terminals_in_use t - {i} = terminals_in_use s - {i}"
    using wf i by (auto simp: drops_def)
  show ?thesis using finalize_takes_out [OF c d(2,1) 2 [unfolded y]] d by simp
qed

text \<open>What \<open>_initialize_terminal\<close> and \<open>_set_pro\<close> leave behind.\<close>

lemma initialize_takes_one:
  assumes c: "terminal_choice env" and wf: "pools_wf s" and M: "pools_maxsize s = Inr M"
    and p: "pr_terminal p = None"
    and m: "initialize_terminal env rm (p, s) = Some (r, (p', s'))"
  shows "pools_wf s' \<and> pr_pro p' = pr_pro p \<and> pr_communicate p' = pr_communicate p \<and> (case pr_terminal p' of None \<Rightarrow> \<exists>e. r = Inl e
     | Some i \<Rightarrow> i \<notin> terminals_in_use s \<and> terminals_in_use s' = insert i (terminals_in_use s))"
proof (cases "pools_get env (pr_dicts p) (pr_props p) (pr_zone p) s")
  case None
  then show ?thesis using m by (simp add: initialize_terminal_def in_pools_def)
next
  case (Some y)
  obtain x t where y: "y = (x, t)" by (cases y)
  have wt: "pools_wf t" using terminal_choice.get_wf [OF c, THEN keeps_wfD] Some y wf by blast
  show ?thesis
  proof (cases x)
    case (Inl e)
    then show ?thesis using m Some y wt p by (auto simp: initialize_terminal_def in_pools_def)
  next
    case (Inr i)
    let ?p = "p\<lparr>pr_terminal := Some i\<rparr>"
    obtain k where k: "keeps calls_only k" "k (?p, t) = Some (r, (p', s'))"
    proof
      show "keeps calls_only ((bnd (bnd (gets (\<lambda>(p, s). get_property ''termination_timeout'' (tm_props (tw_heap (tp_world s) i)))) of_sum) (\<lambda>v.
           andthen (upd (\<lambda>p. p\<lparr>pr_termination_timeout := v\<rparr>))
             (bnd (in_remote (rm_environ rm i)) (\<lambda>e.
               andthen (upd (\<lambda>p. p\<lparr>pr_env := e\<rparr>))
                 (bnd (bnd (gets (\<lambda>(p, s). get_property ''update_env_dict'' (tm_props (tw_heap (tp_world s) i)))) of_sum) (\<lambda>u.
                   case u of PDict d \<Rightarrow> upd (\<lambda>p. p\<lparr>pr_env := AList.merge (pr_env p) d\<rparr>)
                   | _ \<Rightarrow> throw TypeError)))))) :: ('a, unit) proc_op)" (is "keeps _ ?k")
        by (intro co.keeps calls_upd calls_remote) (auto split: pval.split intro: co.keeps calls_upd)
      show "?k (?p, t) = Some (r, (p', s'))"
        using m Some y Inr by (simp add: initialize_terminal_def in_pools_def)
    qed
    have "calls_only (?p, t) (p', s')" using keepsD [OF k] .
    then show ?thesis
      using terminal_choice.get_exclusive_bounded [OF c wf _ M, of "pr_dicts p" "pr_props p" "pr_zone p" i t]
        Some y Inr same_pools_facts [of t s'] wt by (auto simp: calls_only_def)
  qed
qed

lemma set_pro_app:
  "set_pro rm (p, s) = (case pr_terminal p of None \<Rightarrow> Some (Inl AttributeError, (p, s))
     | Some i \<Rightarrow> seq_outcome (in_remote (rm_popen rm i (pr_cmd p) (pr_executable p) (pr_env p)) (p, s))
         (\<lambda>q. upd (\<lambda>p. p\<lparr>pr_pro := Some q\<rparr>)))"
  by (simp add: set_pro_def terminal_of_app split: option.split)

lemma set_pro_result:
  assumes "set_pro rm (p, s) = Some (r, (p', s'))"
  shows "pr_terminal p' = pr_terminal p \<and> pr_communicate p' = pr_communicate p \<and> same_pools s s' \<and>
    (case r of Inl e \<Rightarrow> pr_pro p' = pr_pro p | Inr _ \<Rightarrow> pr_pro p' \<noteq> None)"
proof (cases "pr_terminal p")
  case None
  then show ?thesis using assms by (auto simp: set_pro_app same_pools_def tgrows_def)
next
  case (Some i)
  then show ?thesis using assms keepsD [OF calls_remote]
    by (fastforce simp: set_pro_app calls_only_def elim!: seq_outcome_cases)
qed

lemma set_communicate_result:
  assumes "set_communicate rm (p, s) = Some (r, (p', s'))"
  shows "pr_terminal p' = pr_terminal p \<and> pr_pro p' = pr_pro p \<and> same_pools s s' \<and>
    (case r of Inl e \<Rightarrow> pr_communicate p' = pr_communicate p | Inr _ \<Rightarrow> pr_communicate p' \<noteq> None)"
  using assms keepsD [OF calls_with_pro [of "rm_get_communicate rm"]]
  by (fastforce simp: set_communicate_def calls_only_def elim!: seq_outcome_cases)

lemma set_kill_cleanup_returns:
  "pr_terminal p = Some i \<Longrightarrow> pr_pro p = Some q \<Longrightarrow> \<exists>s'. set_kill_cleanup rm (p, s) = Some (Inr (), (p, s'))"
  by (simp add: set_kill_cleanup_def terminal_of_app pro_of_def in_pools_def on_world_def set_terminal_cleanup_def set_terminal_def)

text \<open>
  Every run: it fails before the method \<open>communicate\<close> of the remote process is there, or the class's
  \<open>communicate\<close> is reached.
\<close>

lemma run_process_cases:
  assumes c: "terminal_choice env" and wf: "pools_wf s" and M: "pools_maxsize s = Inr M"
    and p: "pr_terminal p = None" "pr_pro p = None" "pr_communicate p = None"
    and m: "run_process env rm comm (p, s) = Some (r, (p', s'))"
  obtains (failed) e where "r = Inl e" "pools_wf s'" "pr_communicate p' = None"
      "\<And>i. pr_terminal p' = Some i \<Longrightarrow> i \<notin> terminals_in_use s \<and> terminals_in_use s' = insert i (terminals_in_use s)"
  | (started) q t i where "pools_wf t" "pr_terminal q = Some i" "pr_pro q \<noteq> None" "pr_communicate q \<noteq> None"
      "i \<notin> terminals_in_use s" "terminals_in_use t = insert i (terminals_in_use s)" "comm (q, t) = Some (r, (p', s'))"
proof (cases "initialize_terminal env rm (p, s)")
  case None
  then show ?thesis using m by (simp add: run_process_def)
next
  case (Some y)
  obtain x q t where y: "y = (x, (q, t))" by (cases y) auto
  note i1 = initialize_takes_one [OF c wf M p(1) Some [unfolded y]]
  show ?thesis
  proof (cases x)
    case (Inl e)
    then show ?thesis using m Some y i1 p(2,3) by (intro failed [of e]) (auto simp: run_process_def)
  next
    case (Inr u)
    then obtain i where i: "pr_terminal q = Some i" "i \<notin> terminals_in_use s" "terminals_in_use t = insert i (terminals_in_use s)"
      using i1 by (auto split: option.splits)
    have rest: "andthen (set_pro rm) (andthen (set_communicate rm) (andthen (set_kill_cleanup rm) comm)) (q, t) = Some (r, (p', s'))"
      using m Some y Inr by (simp add: run_process_def)
    then obtain z q2 t2 where z: "set_pro rm (q, t) = Some (z, (q2, t2))" by (auto elim!: seq_outcome_cases)
    note j = set_pro_result [OF z]
    then have t2: "pools_wf t2" "terminals_in_use t2 = terminals_in_use t" using i1 same_pools_facts by auto
    show ?thesis
    proof (cases z)
      case (Inl e)
      then show ?thesis using rest z j i1 i p(3) t2 by (intro failed [of e]) auto
    next
      case (Inr u)
      then obtain v q3 t3 where v: "set_communicate rm (q2, t2) = Some (v, (q3, t3))"
        and rest3: "seq_outcome (Some (v, (q3, t3))) (\<lambda>_. andthen (set_kill_cleanup rm) comm) = Some (r, (p', s'))"
        using rest z by (cases "set_communicate rm (q2, t2)") auto
      note k = set_communicate_result [OF v]
      then have t3: "pools_wf t3" "terminals_in_use t3 = terminals_in_use t" using t2 same_pools_facts by auto
      show ?thesis
      proof (cases v)
        case (Inl e)
        then show ?thesis using rest3 j k i1 i p(3) t3 by (intro failed [of e]) auto
      next
        case (Inr w)
        then have q3: "pr_terminal q3 = Some i" "pr_pro q3 \<noteq> None" "pr_communicate q3 \<noteq> None"
          using j k i(1) \<open>z = Inr u\<close> by auto
        then obtain t4 where t4: "set_kill_cleanup rm (q3, t3) = Some (Inr (), (q3, t4))"
          using set_kill_cleanup_returns by blast
        have "same_pools t3 t4" using keepsD [OF calls_kill(2) t4] by (simp add: calls_only_def)
        then show ?thesis
          using rest3 Inr t4 i q3 t3 same_pools_facts [of t3 t4] by (intro started [of t4 q3 i]) auto
      qed
    qed
  qed
qed

text \<open>No \<open>communicate\<close> of any class forgets the remote process or its method.\<close>

definition keeps_pro :: "process \<times> 'w pools \<Rightarrow> process \<times> 'w pools \<Rightarrow> bool" where
  "keeps_pro x y \<longleftrightarrow> pr_pro (fst y) = pr_pro (fst x) \<and> pr_communicate (fst y) = pr_communicate (fst x)"

interpretation kp: step_relation keeps_pro
  by unfold_locales (auto simp: keeps_pro_def)

lemma keeps_pro_pools: "keeps keeps_pro (in_pools m)"
  by (rule keeps_gen) (auto simp: in_pools_def in_world_def keeps_pro_def split: option.splits)

lemma keeps_pro_calls: "keeps calls_only m \<Longrightarrow> keeps keeps_pro m"
  by (auto simp: keeps_def calls_only_def keeps_pro_def)

lemma keeps_pro_kill: "keeps keeps_pro (kill_run_and_raise env rm h)"
  unfolding kill_run_and_raise_def
  by (intro kp.keeps_bnd kp.keeps_andthen keeps_pro_pools kp.keeps_simple)
    (intro keeps_pro_calls calls_kill_with calls_with_pro calls_attr)+

lemma communicates_keep_pro:
  "keeps keeps_pro (foreground_communicate env rm)" "keeps keeps_pro (async_communicate env rm t)"
  "keeps keeps_pro (background_communicate env rm)"
proof -
  have t: "keeps keeps_pro terminal_of" "keeps keeps_pro (with_pro f)" for f :: "nat \<Rightarrow> nat \<Rightarrow> ('a, 'c) py"
    by (intro keeps_pro_calls calls_attr calls_with_pro)+
  show f: "keeps keeps_pro (foreground_communicate env rm)" for env rm
    unfolding foreground_communicate_def communicate_with_cleanup_def finalize_terminal_def
    by (intro kp.keeps_bnd kp.keeps_finally kp.keeps_catching kp.keeps_andthen keeps_case_timeout keeps_pro_kill
        keeps_pro_pools kp.keeps_simple)
      (intro keeps_pro_calls calls_communicate calls_with_pro calls_attr)+
  show "keeps keeps_pro (async_communicate env rm t)"
    unfolding async_communicate_def
    by (intro kp.keeps_bnd kp.keeps_andthen f kp.keeps_simple)
      (intro keeps_pro_calls calls_async_lines calls_with_pro calls_attr calls_remote)+
  show "keeps keeps_pro (background_communicate env rm)"
    unfolding background_communicate_def
    by (intro kp.keeps_bnd kp.keeps_andthen keeps_pro_pools)
      (intro keeps_pro_calls calls_remote calls_attr calls_upd, simp?)+
qed

lemma new_process_starts: "pr_terminal (new_process cmd exe ds p tmo zone) = None" "pr_pro (new_process cmd exe ds p tmo zone) = None"
  "pr_communicate (new_process cmd exe ds p tmo zone) = None"
  by (simp_all add: new_process_def)

lemmas new_run_cases = run_process_cases [OF _ _ _ new_process_starts]

text \<open>
  C6: once the method \<open>communicate\<close> of the remote process of a foreground run has been fetched, the
  terminal of the run goes back whatever happens: when the run returns, when it times out and is
  killed, when the kill fails, when any later remote call raises anything, an exit of the interpreter
  included. The terminals in use are what they were before. The sessions of the terminals must
  not ask the interpreter to exit while they are closed: \<open>_Pool\<close> would let that pass.
\<close>

theorem started_run_gives_terminal_back:
  assumes "terminal_choice env" "close_never_exits env" "pools_wf s" "pools_maxsize s = Inr M"
    and "run_foreground env rm (new_process cmd exe ds p tmo zone, s) = Some (r, (pr, s'))"
    and "pr_communicate pr \<noteq> None"
  shows "terminals_in_use s' = terminals_in_use s \<and> pools_wf s'"
proof (cases rule: new_run_cases [OF assms(1,3,4) assms(5) [unfolded run_foreground_def], case_names failed started])
  case (started q t i)
  then have "communicate_with_cleanup env rm (pr_timeout q) (q, t) = Some (r, (pr, s'))"
    by (auto simp: foreground_communicate_def communicate_of_set_def communicate_of_def)
  then show ?thesis
    using communicate_takes_out [OF assms(1,2) started(1,2)] started(5,6) by auto
qed (use assms(6) in simp)

text \<open>
  C38: a run that fails between getting its terminal and having the method \<open>communicate\<close> of its
  remote process keeps the terminal: whatever the environment read, the property lookup, \<open>popen\<close> or
  the fetch of \<open>pro.communicate\<close> raises, the run raises and the terminal stays among those in use,
  although nobody holds it any more.
\<close>

theorem failed_start_leaks_terminal:
  assumes "terminal_choice env" "pools_wf s" "pools_maxsize s = Inr M"
    and "run_process env rm comm (new_process cmd exe ds p tmo zone, s) = Some (r, (pr, s'))"
    and "keeps keeps_pro comm"
    and "pr_terminal pr = Some i" "pr_pro pr = None \<or> pr_communicate pr = None"
  shows "(\<exists>e. r = Inl e) \<and> i \<notin> terminals_in_use s \<and> terminals_in_use s' = insert i (terminals_in_use s)"
proof (cases rule: new_run_cases [OF assms(1-4), case_names failed started])
  case (started q t i)
  then show ?thesis using keepsD [OF assms(5) started(7)] assms(7) by (auto simp: keeps_pro_def)
qed (use assms(6) in simp)

text \<open>The remote end of the examples: every call returns at once, or \<open>popen\<close> is refused.\<close>

definition quiet_remote :: "unit remote" where
  "quiet_remote = \<lparr>rm_clock = ret 0, rm_environ = \<lambda>_. ret [], rm_popen = \<lambda>_ _ _ _. ret 7, rm_pid = \<lambda>_ _. ret 8,
     rm_returncode = \<lambda>_ _. ret 0, rm_get_communicate = \<lambda>_ _. ret 9, rm_communicate = \<lambda>_ _ _. ret (''out'', []), rm_communicate_async = \<lambda>_ _. ret (0, []),
     rm_get_response = \<lambda>_ _ _ _. ret (''out'', []), rm_getpgid = \<lambda>_ _. ret 8, rm_killpg = \<lambda>_ _ _. ret (),
     rm_iter_until_empty = \<lambda>_ _. ret 0, rm_next_line = \<lambda>_ _ _. ret None, rm_daemon_popen = \<lambda>_ _ _ _. ret 8\<rparr>"

definition refusing_remote :: "unit remote" where
  "refusing_remote = quiet_remote\<lparr>rm_popen := \<lambda>_ _ _ _. throw (OSError 12)\<rparr>"

definition unfetched_remote :: "unit remote" where
  "unfetched_remote = quiet_remote\<lparr>rm_get_communicate := \<lambda>_ _. throw (OSError 12)\<rparr>"

definition demo_process :: process where
  "demo_process = new_process [] PNone [] defaultproperties None None"

lemma initialize_demo: "initialize_terminal quiet_terminals rm (demo_process, new_pools ()) =
    seq_outcome (Some (Inr 0, (demo_process, first_get))) (\<lambda>i.
       andthen (upd (\<lambda>p. p\<lparr>pr_terminal := Some i\<rparr>))
         (bnd (bnd (gets (\<lambda>(p, s). get_property ''termination_timeout'' (tm_props (tw_heap (tp_world s) i)))) of_sum) (\<lambda>v.
           andthen (upd (\<lambda>p. p\<lparr>pr_termination_timeout := v\<rparr>))
             (bnd (in_remote (rm_environ rm i)) (\<lambda>e.
               andthen (upd (\<lambda>p. p\<lparr>pr_env := e\<rparr>))
                 (bnd (bnd (gets (\<lambda>(p, s). get_property ''update_env_dict'' (tm_props (tw_heap (tp_world s) i)))) of_sum) (\<lambda>u.
                   case u of PDict d \<Rightarrow> upd (\<lambda>p. p\<lparr>pr_env := AList.merge (pr_env p) d\<rparr>)
                   | _ \<Rightarrow> throw TypeError)))))))"
  using first_get(1) by (simp add: initialize_terminal_def in_pools_def demo_process_def new_process_def)

lemma first_get_eq: "tm_props (tw_heap (tp_world first_get) 0) = defaultproperties"
  "tm_key (tw_heap (tp_world first_get) 0) = [zone_item None]"
  by (simp_all add: first_get_def quiet_get)

definition run_demo :: "unit remote \<Rightarrow> (exn + run_result) \<times> process \<times> unit pools" where
  "run_demo rm = (case run_foreground quiet_terminals rm (demo_process, new_pools ()) of
     Some x \<Rightarrow> x | None \<Rightarrow> (Inl AssertionError, (demo_process, new_pools ())))"

lemma demo_fields: "pr_cmd demo_process = []" "pr_executable demo_process = PNone" "pr_terminal demo_process = None"
  "pr_pro demo_process = None" "pr_communicate demo_process = None" "pr_timeout demo_process = None"
  by (simp_all add: demo_process_def new_process_def)

lemmas run_demo_defs = run_demo_def run_foreground_def run_process_def initialize_demo first_get_eq get_property_def
  defaultproperties_def in_remote_def in_pools_def on_world_def ext_def demo_fields set_pro_app

lemmas run_demo_steps = set_communicate_def set_kill_cleanup_def terminal_of_app pro_of_def communicate_of_def
  communicate_of_set_def communicate_as_local_value_def set_terminal_cleanup_def set_terminal_def
  foreground_communicate_def communicate_with_cleanup_def with_pro_def get_result_def finally_do_app finalize_terminal_def

lemma run_demo_refused: "run_foreground quiet_terminals refusing_remote (demo_process, new_pools ()) = Some (run_demo refusing_remote)"
  "fst (run_demo refusing_remote) = Inl (OSError 12)" "pr_pro (fst (snd (run_demo refusing_remote))) = None"
  "pr_terminal (fst (snd (run_demo refusing_remote))) = Some 0"
  by (simp_all add: run_demo_defs refusing_remote_def quiet_remote_def)

lemma run_demo_unfetched:
  "run_foreground quiet_terminals unfetched_remote (demo_process, new_pools ()) = Some (run_demo unfetched_remote)"
  "fst (run_demo unfetched_remote) = Inl (OSError 12)" "pr_pro (fst (snd (run_demo unfetched_remote))) = Some 7"
  "pr_communicate (fst (snd (run_demo unfetched_remote))) = None"
  "pr_terminal (fst (snd (run_demo unfetched_remote))) = Some 0"
  by (simp_all add: run_demo_defs run_demo_steps unfetched_remote_def quiet_remote_def)

lemma first_get_pool: "\<exists>e. map_of (tp_pools first_get) [zone_item None] = Some e \<and> 0 \<in> pl_inuse (pe_pool e)"
  "tm_open (tw_heap (tp_world first_get) 0)" "tm_is_persistent (tw_heap (tp_world first_get) 0) = (\<lambda>_. True)"
  by (simp_all add: first_get_def quiet_get)

lemma put_first:
  assumes "tw_heap w 0 = tw_heap (tp_world first_get) 0\<lparr>tm_cleanup := ret ()\<rparr>"
  shows "\<exists>s'. pools_put quiet_terminals 0 (first_get\<lparr>tp_world := w\<rparr>) = Some (Inr (), s')"
proof -
  obtain e where e: "map_of (tp_pools first_get) [zone_item None] = Some e" "0 \<in> pl_inuse (pe_pool e)"
    using first_get_pool(1) by blast
  then have "[zone_item None] \<in> fst ` set (tp_pools first_get)"
    by (metis map_of_eq_None_iff option.distinct(1))
  then show ?thesis
    using e assms first_get_eq first_get_pool(2,3)
    by (simp add: pools_put_def put_op_def shall_be_stored_def on_pool_def pool_put_def del: map_of_eq_Some_iff)
qed

lemma run_demo_returned: "run_foreground quiet_terminals quiet_remote (demo_process, new_pools ()) = Some (run_demo quiet_remote)"
  "fst (run_demo quiet_remote) = Inr (0, ''out'', [])" "pr_communicate (fst (snd (run_demo quiet_remote))) \<noteq> None"
  using put_first [of "tp_world first_get\<lparr>tw_ext := (), tw_heap := (tw_heap (tp_world first_get))
      (0 := tw_heap (tp_world first_get) 0\<lparr>tm_cleanup := ret ()\<rparr>)\<rparr>"]
  by (auto simp: run_demo_defs run_demo_steps quiet_remote_def)

lemma new_pools_max: "pools_maxsize (new_pools w) = Inr 256"
  by (simp add: pools_maxsize_def new_pools_def)

lemma run_demo_new:
  "run_foreground quiet_terminals rm (demo_process, new_pools ()) = Some (run_demo rm) \<Longrightarrow> fst (run_demo rm) = x \<Longrightarrow>
     run_foreground quiet_terminals rm (new_process [] PNone [] defaultproperties None None, new_pools ()) =
       Some (x, (fst (snd (run_demo rm)), snd (snd (run_demo rm))))"
  by (cases "run_demo rm") (simp add: demo_process_def)

lemma quiet_never_exits: "close_never_exits quiet_terminals"
  by (simp add: close_never_exits_def quiet_terminals_def oldest_first_def)

lemma started_run_gives_terminal_back_witness:
  "terminals_in_use (snd (snd (run_demo quiet_remote))) = terminals_in_use (new_pools ()) \<and>
    pools_wf (snd (snd (run_demo quiet_remote)))"
  by (rule started_run_gives_terminal_back [OF quiet_choice quiet_never_exits pools_wf_new new_pools_max
        run_demo_new [OF run_demo_returned(1,2)] run_demo_returned(3)])

text \<open>Both leaks happen: \<open>popen\<close> is refused, or the method of the started process cannot be fetched.\<close>

lemma failed_start_leaks_terminal_witness:
  "(0 \<notin> terminals_in_use (new_pools ()) \<and> terminals_in_use (snd (snd (run_demo refusing_remote))) =
     insert 0 (terminals_in_use (new_pools ()))) \<and>
   terminals_in_use (snd (snd (run_demo unfetched_remote))) = insert 0 (terminals_in_use (new_pools ()))"
  using failed_start_leaks_terminal [OF quiet_choice pools_wf_new new_pools_max
      run_demo_new [OF run_demo_refused(1,2), unfolded run_foreground_def] communicates_keep_pro(1)
      run_demo_refused(4) disjI1 [OF run_demo_refused(3)]]
    failed_start_leaks_terminal [OF quiet_choice pools_wf_new new_pools_max
      run_demo_new [OF run_demo_unfetched(1,2), unfolded run_foreground_def] communicates_keep_pro(1)
      run_demo_unfetched(5) disjI2 [OF run_demo_unfetched(4)]] by blast

text \<open>A background process that was waited for or killed keeps its result.\<close>

lemma wait_returns_result:
  "pr_result (fst y) = Some r \<Longrightarrow> wait_background_proc env rm tmo y = Some (Inr r, y)"
  by (cases y) (simp add: wait_background_proc_def)

lemma wait_stores_result:
  "wait_background_proc env rm tmo x = Some (Inr r, y) \<Longrightarrow> pr_result (fst y) = Some r"
  by (auto simp: wait_background_proc_def handle_of_def terminal_of_def in_pools_def in_world_def
      seq_outcome_Inr_iff case_prod_beta split: option.splits)

lemma kill_stores_result:
  "kill_background_proc env rm x = Some (Inr r, y) \<Longrightarrow> pr_result (fst y) = Some r"
  by (auto simp: kill_background_proc_def kill_run_and_raise_def terminal_of_def in_pools_def in_world_def
      seq_outcome_Inr_iff elim!: catch_outcome_cases split: option.splits exn.splits)

end
