(* ===== verification/RemoteRunner.thy ===== *)
theory RemoteRunner
  imports Process FileCopier
begin

text \<open>
  \<open>remoterunner.py\<close> and \<open>pythonterminal.py\<close>: the library of keywords. It keeps the targets by
  name and the background executions by their ids; the pools of terminals are shared by all.
  The operating systems at the two ends are the records of \<open>FileCopier\<close>, one for every
  terminal and time-out and one for the local host.
\<close>

record remote_runner =
  rr_targets :: "string \<rightharpoonup> runner_in_target"
  rr_backgrounds :: "string \<rightharpoonup> process"
  rr_defaults :: props

type_synonym ('w, 'a) rr_op = "(remote_runner \<times> 'w pools, 'a) py"

record 'w runner_world =
  rw_env :: "'w terminal_env"
  rw_remote :: "'w remote"
  rw_local_os :: "'w file_os"
  rw_remote_os :: "nat \<Rightarrow> rat \<Rightarrow> 'w file_os"
  rw_walk :: "string \<Rightarrow> ('w, string list \<times> string list) py"

definition new_remote_runner :: "props \<Rightarrow> remote_runner" where
  "new_remote_runner defaults = \<lparr>rr_targets = Map.empty, rr_backgrounds = Map.empty, rr_defaults = defaults\<rparr>"

section \<open>Targets\<close>

definition set_target :: "shelldict list \<Rightarrow> string \<Rightarrow> ('w, unit) rr_op" where
  "set_target ds name = upd (\<lambda>r.
     r\<lparr>rr_targets := (rr_targets r)(name \<mapsto> new_runner_in_target (rr_defaults r) ds)\<rparr>)"

definition get_targethandle :: "string \<Rightarrow> ('w, runner_in_target) rr_op" where
  "get_targethandle name = bnd (gets (\<lambda>(r, s). rr_targets r name)) (\<lambda>h. case h of
     None \<Rightarrow> throw (TargetIsNotSet name) | Some x \<Rightarrow> ret x)"

definition set_target_property :: "string \<Rightarrow> string \<Rightarrow> pval \<Rightarrow> ('w, unit) rr_op" where
  "set_target_property target n v = bnd (get_targethandle target) (\<lambda>h. bnd (gets fst) (\<lambda>r.
     bnd (of_sum (set_property (rr_defaults r) n v (rt_props h))) (\<lambda>p.
       upd (\<lambda>r. r\<lparr>rr_targets := (rr_targets r)(target \<mapsto> h\<lparr>rt_props := p\<rparr>)\<rparr>))))"

definition set_default_target_property :: "string \<Rightarrow> pval \<Rightarrow> ('w, unit) rr_op" where
  "set_default_target_property n v = upd (\<lambda>r. r\<lparr>rr_defaults := set_default_property n v (rr_defaults r)\<rparr>)"

definition get_target_properties :: "string \<Rightarrow> ('w, props) rr_op" where
  "get_target_properties target = bnd (get_targethandle target) (\<lambda>h. ret (rt_props h))"

definition set_terminalpools_maxsize :: "pval \<Rightarrow> ('w, unit) rr_op" where
  "set_terminalpools_maxsize v = bnd (of_sum (int_of_val v)) (\<lambda>n. in_world (set_pools_maxsize (PInt n)))"

section \<open>Commands\<close>

definition execute_command_in_target ::
  "'w runner_world \<Rightarrow> ustr \<Rightarrow> string \<Rightarrow> rat \<Rightarrow> pval \<Rightarrow> bool \<Rightarrow> ('w, str_result) rr_op" where
  "execute_command_in_target rw cmd target tmo exe progress = bnd (get_targethandle target) (\<lambda>h.
     bnd (in_world (target_run (rw_env rw) (rw_remote rw) h cmd tmo exe progress)) (\<lambda>x.
       ret (rstrip_runresult x)))"

definition set_background :: "string \<Rightarrow> process option \<Rightarrow> ('w, unit) rr_op" where
  "set_background i p = upd (\<lambda>r. r\<lparr>rr_backgrounds := (rr_backgrounds r)(i := p)\<rparr>)"

definition execute_background_command_in_target ::
  "'w runner_world \<Rightarrow> ustr \<Rightarrow> string \<Rightarrow> string \<Rightarrow> pval \<Rightarrow> ('w, unit) rr_op" where
  "execute_background_command_in_target rw cmd target exec_id exe =
     bnd (gets (\<lambda>(r, s). rr_backgrounds r exec_id)) (\<lambda>b.
       if b \<noteq> None then throw (BackgroundExecIdAlreadyInUse exec_id)
       else bnd (get_targethandle target) (\<lambda>h.
         bnd (in_world (target_run_in_background (rw_env rw) (rw_remote rw) h cmd exe)) (\<lambda>p.
           set_background exec_id (Some p))))"

definition execute_nohup_background_in_target ::
  "'w runner_world \<Rightarrow> ustr \<Rightarrow> string \<Rightarrow> pval \<Rightarrow> ('w, int) rr_op" where
  "execute_nohup_background_in_target rw cmd target exe = bnd (get_targethandle target) (\<lambda>h.
     in_world (target_run_in_nocomm_background (rw_env rw) (rw_remote rw) h cmd exe))"

text \<open>A method of the execution under an id changes the execution in place.\<close>

definition on_background :: "string \<Rightarrow> ('w, 'a) proc_op \<Rightarrow> ('w, 'a) rr_op" where
  "on_background i m = (\<lambda>(r, s). case rr_backgrounds r i of
     None \<Rightarrow> Some (Inl KeyError, (r, s))
   | Some p \<Rightarrow> (case m (p, s) of
       None \<Rightarrow> None
     | Some (x, (p', s')) \<Rightarrow> Some (x, (r\<lparr>rr_backgrounds := (rr_backgrounds r)(i \<mapsto> p')\<rparr>, s'))))"

definition wait_background_execution :: "'w runner_world \<Rightarrow> string \<Rightarrow> pval \<Rightarrow> ('w, str_result) rr_op" where
  "wait_background_execution rw exec_id tmo =
     bnd (on_background exec_id (wait_background_proc (rw_env rw) (rw_remote rw) tmo)) (\<lambda>x.
       andthen (set_background exec_id None) (ret (rstrip_runresult x)))"

definition kill_background_execution :: "'w runner_world \<Rightarrow> string \<Rightarrow> ('w, str_result) rr_op" where
  "kill_background_execution rw exec_id =
     bnd (on_background exec_id (kill_background_proc (rw_env rw) (rw_remote rw))) (\<lambda>x.
       ret (rstrip_runresult x))"

section \<open>Files\<close>

definition with_terminal :: "'w runner_world \<Rightarrow> string \<Rightarrow> (nat \<Rightarrow> ('w, 'a) rr_op) \<Rightarrow> ('w, 'a) rr_op" where
  "with_terminal rw name body = bnd (get_targethandle name) (\<lambda>h.
     bnd (in_world (target_get_terminal (rw_env rw) h)) (\<lambda>i.
       finally_do (body i) (in_world (pools_put (rw_env rw) i))))"

definition on_files :: "(unit \<times> 'w, 'a) py \<Rightarrow> ('w, 'a) rr_op" where
  "on_files m = in_world (on_world (ext (\<lambda>w. case m ((), w) of
     None \<Rightarrow> None | Some (r, (_, w')) \<Rightarrow> Some (r, w'))))"

definition copied :: "('w, unit) rr_op \<Rightarrow> ('w, str_result) rr_op" where
  "copied m = andthen m (ret ([48], [], []))"

definition default_mode :: string where
  "default_mode = ''0o755''"

definition copy_file_between_targets ::
  "'w runner_world \<Rightarrow> string \<Rightarrow> string \<Rightarrow> string \<Rightarrow> string option \<Rightarrow> string option \<Rightarrow> rat \<Rightarrow> ('w, str_result) rr_op" where
  "copy_file_between_targets rw from_target source_file to_target destination_dir mode tmo = copied
     (with_terminal rw from_target (\<lambda>i. with_terminal rw to_target (\<lambda>j. on_files
       (copy_new_files (rw_remote_os rw i tmo) (rw_remote_os rw j tmo) mode
         (new_file PlainFile (Some source_file) None)
         (new_file ScriptFile destination_dir (Some (path_basename source_file))) True))))"

definition copy_file_from_target ::
  "'w runner_world \<Rightarrow> string \<Rightarrow> string option \<Rightarrow> string \<Rightarrow> rat \<Rightarrow> ('w, str_result) rr_op" where
  "copy_file_from_target rw source_file destination target tmo = copied
     (with_terminal rw target (\<lambda>i. on_files
       (copy_new_files (rw_remote_os rw i tmo) (rw_local_os rw) None
         (new_file PlainFile (Some source_file) None)
         (new_file PlainFile destination (Some source_file)) True)))"

definition copy_file_to_target ::
  "'w runner_world \<Rightarrow> string \<Rightarrow> string option \<Rightarrow> string option \<Rightarrow> string \<Rightarrow> rat \<Rightarrow> ('w, str_result) rr_op" where
  "copy_file_to_target rw source_file destination_dir mode target tmo = copied
     (with_terminal rw target (\<lambda>i. on_files
       (copy_new_files (rw_local_os rw) (rw_remote_os rw i tmo) mode
         (new_file PlainFile (Some source_file) None)
         (new_file ScriptFile destination_dir (Some (path_basename source_file))) True)))"

definition copy_directory_to_target_keyword ::
  "'w runner_world \<Rightarrow> string \<Rightarrow> string \<Rightarrow> string \<Rightarrow> string \<Rightarrow> rat \<Rightarrow> ('w, str_result) rr_op" where
  "copy_directory_to_target_keyword rw source_dir target_dir mode target tmo = copied
     (with_terminal rw target (\<lambda>i. on_files
       (copy_directory_to_target (rw_local_os rw) (rw_remote_os rw i tmo) (rw_walk rw) mode source_dir target_dir)))"

definition create_directory_in_target ::
  "'w runner_world \<Rightarrow> string \<Rightarrow> string option \<Rightarrow> string \<Rightarrow> rat \<Rightarrow> ('w, str_result) rr_op" where
  "create_directory_in_target rw path mode target tmo = copied
     (with_terminal rw target (\<lambda>i. on_files
       (with_new_file (rw_remote_os rw i tmo) (new_file DirFile (Some path) None)
         (makedirs_if_needed (rw_remote_os rw i tmo) mode))))"

section \<open>Terminals for the user\<close>

text \<open>\<open>PythonTerminal\<close>: the terminal goes back when the object is deleted, if its pool is left.\<close>

definition get_terminal_of_target :: "'w runner_world \<Rightarrow> string \<Rightarrow> ('w, nat) rr_op" where
  "get_terminal_of_target rw target = bnd (get_targethandle target) (\<lambda>h.
     in_world (target_get_terminal (rw_env rw) h))"

definition delete_python_terminal :: "'w runner_world \<Rightarrow> nat \<Rightarrow> ('w, unit) rr_op" where
  "delete_python_terminal rw i = in_world (catching (pools_put (rw_env rw) i)
     (\<lambda>e. if e = PoolNotFoundError then ret () else throw e))"

definition close_remote_runner :: "'w runner_world \<Rightarrow> ('w, unit) rr_op" where
  "close_remote_runner rw = andthen (in_world (pools_close (rw_env rw)))
     (upd (\<lambda>r. r\<lparr>rr_targets := Map.empty, rr_backgrounds := Map.empty\<rparr>))"
section \<open>Background executions\<close>

lemma on_background_result:
  assumes "on_background i m (r, s) = Some (x, (r', s'))" "rr_backgrounds r i = Some p"
  shows "\<exists>p'. m (p, s) = Some (x, (p', s')) \<and> r' = r\<lparr>rr_backgrounds := (rr_backgrounds r)(i \<mapsto> p')\<rparr>"
  using assms by (auto simp: on_background_def split: option.splits)

lemma on_background_returns:
  "rr_backgrounds r i = Some p \<Longrightarrow> m (p, s) = Some (x, (p', s')) \<Longrightarrow>
     on_background i m (r, s) = Some (x, (r\<lparr>rr_backgrounds := (rr_backgrounds r)(i \<mapsto> p')\<rparr>, s'))"
  by (simp add: on_background_def)

text \<open>
  C32: an execution that was killed can still be waited for: the wait, with any time-out, returns the
  very result the kill returned, at once, without a call to the target and without touching
  the pools; then the id is free again, and a second wait finds nothing.
\<close>

theorem wait_after_kill:
  "case kill_background_execution rw i (r, s) of
     Some (Inr x, (r', s')) \<Rightarrow> \<exists>r''. wait_background_execution rw i tmo (r', s') = Some (Inr x, (r'', s')) \<and>
       rr_backgrounds r'' = (rr_backgrounds r)(i := None) \<and>
       wait_background_execution rw i tmo (r'', s') = Some (Inl KeyError, (r'', s'))
   | _ \<Rightarrow> True"
proof -
  have "\<exists>r''. wait_background_execution rw i tmo (r', s') = Some (Inr x, (r'', s')) \<and>
       rr_backgrounds r'' = (rr_backgrounds r)(i := None) \<and>
       wait_background_execution rw i tmo (r'', s') = Some (Inl KeyError, (r'', s'))"
    if k: "kill_background_execution rw i (r, s) = Some (Inr x, (r', s'))" for x r' s'
  proof -
    let ?m = "kill_background_proc (rw_env rw) (rw_remote rw)"
    obtain y where y: "on_background i ?m (r, s) = Some (Inr y, (r', s'))" "x = rstrip_runresult y"
      using k by (auto simp: kill_background_execution_def seq_outcome_Inr_iff)
    obtain p where p: "rr_backgrounds r i = Some p"
      using y(1) by (cases "rr_backgrounds r i") (simp_all add: on_background_def)
    obtain p' where p': "?m (p, s) = Some (Inr y, (p', s'))" and r': "r' = r\<lparr>rr_backgrounds := (rr_backgrounds r)(i \<mapsto> p')\<rparr>"
      using on_background_result [OF y(1) p] by blast
    have "pr_result (fst (p', s')) = Some y" using kill_stores_result [OF p'] by simp
    then have w: "wait_background_proc (rw_env rw) (rw_remote rw) tmo (p', s') = Some (Inr y, (p', s'))"
      by (rule wait_returns_result)
    have "on_background i (wait_background_proc (rw_env rw) (rw_remote rw) tmo) (r', s') =
        Some (Inr y, (r'\<lparr>rr_backgrounds := (rr_backgrounds r')(i \<mapsto> p')\<rparr>, s'))"
      by (rule on_background_returns [where m = "wait_background_proc _ _ _"], simp add: r', rule w)
    then show ?thesis
      using y(2) by (simp add: wait_background_execution_def set_background_def on_background_def r')
  qed
  then show ?thesis by (auto split: option.splits sum.splits)
qed

end
