(* ===== verification/SelfRepairing.thy ===== *)
theory SelfRepairing
  imports Process
begin

text \<open>
  \<open>ShellSubprocess.py\<close> and \<open>SelfRepairingSession.py\<close>: numbered runs of shell commands in a remote
  Python that keeps a backup of the last result, and the session that recreates itself and
  asks for the backup when the terminal answers something else.
\<close>

section \<open>Results\<close>

datatype exec_result = Successful nat ustr run_result | Failed nat ustr exn

fun result_run_id :: "exec_result \<Rightarrow> nat" where
  "result_run_id (Successful i c r) = i"
| "result_run_id (Failed i c e) = i"

fun result_value :: "exec_result \<Rightarrow> exn + run_result" where
  "result_value (Successful i c r) = Inr r"
| "result_value (Failed i c e) = Inl e"

definition get_run_result :: "nat \<Rightarrow> exec_result \<Rightarrow> exn + run_result" where
  "get_run_result i x = (if result_run_id x \<noteq> i then Inl (MismatchInRunId (result_run_id x) i) else result_value x)"

section \<open>The remote end\<close>

text \<open>
  The subprocess of a run is known by what it gives (nothing when it could not be started), by how long it
  runs (\<open>None\<close> when it never ends by itself) and by whether it ends when it is terminated.
\<close>

record subprocess_run =
  sp_result :: "run_result option"
  sp_duration :: "rat option"
  sp_ends_when_terminated :: bool

definition ends_in_time :: "rat option \<Rightarrow> subprocess_run \<Rightarrow> bool" where
  "ends_in_time tmo p = (case sp_duration p of
     None \<Rightarrow> False
   | Some d \<Rightarrow> (case tmo of None \<Rightarrow> True | Some t \<Rightarrow> d \<le> t))"

text \<open>The backup file.\<close>

record remote_runs =
  bk_file :: "exec_result option"

definition backup :: "exec_result option \<Rightarrow> remote_runs \<Rightarrow> remote_runs" where
  "backup x r = r\<lparr>bk_file := x\<rparr>"

definition restore :: "remote_runs \<Rightarrow> exn + exec_result option" where
  "restore r = (case bk_file r of None \<Rightarrow> Inl BackupNotFound | Some x \<Rightarrow> Inr (Some x))"

text \<open>
  \<open>join(timeout)\<close>, the test \<open>is_alive\<close>, the termination and the second \<open>join\<close>, which has no time-out. \<open>None\<close>
  when a \<open>join\<close> blocks for ever: without time-out on a subprocess that never ends, or on one that is
  terminated and does not end.
\<close>

definition run_in_thread_or_terminate ::
  "nat \<Rightarrow> ustr \<Rightarrow> rat option \<Rightarrow> subprocess_run \<Rightarrow> (exn + exec_result option) option" where
  "run_in_thread_or_terminate i cmd tmo p =
     (if ends_in_time tmo p then Some (Inr (map_option (Successful i cmd) (sp_result p)))
      else if tmo = None then None
      else if sp_ends_when_terminated p then Some (Inl RemoteTimeoutError)
      else None)"

text \<open>
  What a run prints behind its start trigger, and \<open>None\<close> when it does not get there; what it leaves in the
  backup stays in both cases.
\<close>

definition remote_run_command ::
  "nat \<Rightarrow> ustr \<Rightarrow> rat option \<Rightarrow> subprocess_run \<Rightarrow> remote_runs \<Rightarrow> exec_result option option \<times> remote_runs" where
  "remote_run_command i cmd tmo p r =
     (let r1 = backup (Some (Failed i cmd ResultNotStoredYet)) r in
      case run_in_thread_or_terminate i cmd tmo p of
        None \<Rightarrow> (None, r1)
      | Some (Inr x) \<Rightarrow> (Some x, backup x r1)
      | Some (Inl e) \<Rightarrow> (Some (Some (Failed i cmd e)), r1))"

definition remote_read_backup :: "nat \<Rightarrow> remote_runs \<Rightarrow> exec_result option" where
  "remote_read_backup i r = (case restore r of Inr x \<Rightarrow> x | Inl e \<Rightarrow> Some (Failed i [] e))"

section \<open>The local end\<close>

text \<open>
  The shell executes a command text after its start trigger; what comes back is deserialised by
  \<open>sr_loads\<close>, and whatever goes wrong there is \<open>UnexpectedTerminalOutput\<close>.
\<close>

datatype run_command = RunCommand nat ustr "rat option" | BackupCommand nat

record 'w repair_env =
  sr_exec :: "nat \<Rightarrow> run_command \<Rightarrow> rat \<Rightarrow> ('w, ustr) py"
  sr_stop_run :: "nat \<Rightarrow> ('w, ustr) py"
  sr_is_hung :: "nat \<Rightarrow> ('w, bool) py"
  sr_loads :: "ustr \<Rightarrow> exec_result option option"
  sr_sleep :: "rat \<Rightarrow> ('w, unit) py"
  sr_create :: "('w, nat) py"
  sr_close :: "nat \<Rightarrow> ('w, unit) py"
  sr_get_delay :: "nat \<Rightarrow> ('w, rat) py"
  sr_set_delay :: "nat \<Rightarrow> rat \<Rightarrow> ('w, unit) py"
  sr_setup_working_directory :: "nat \<Rightarrow> ('w, unit) py"
  sr_push_python :: "nat \<Rightarrow> ('w, unit) py"
  sr_send_import :: "nat \<Rightarrow> ('w, unit) py"
  sr_transfer :: "nat \<Rightarrow> ('w, unit) py"
  sr_pop :: "nat \<Rightarrow> ('w, unit) py"
  sr_remove_working_directory :: "nat \<Rightarrow> ('w, unit) py"

text \<open>
  One state for the session and its runner. A shell is named by its session; the runner keeps
  the shell it was given last.
\<close>

record repair_session =
  sn_session :: "nat option"
  sn_sessions :: "nat set"
  sn_saved_delay :: rat
  sn_old_workdir :: bool
  sn_max_retries :: nat
  sn_sleep :: rat
  sn_shell :: "nat option"
  sn_run_id :: nat
  sn_cmd :: ustr
  sn_is_running :: bool

type_synonym ('w, 'a) repair_op = "(repair_session \<times> 'w, 'a) py"

definition new_repair_session :: "nat \<Rightarrow> rat \<Rightarrow> repair_session" where
  "new_repair_session retries sl = \<lparr>sn_session = None, sn_sessions = {}, sn_saved_delay = 1 / 20,
     sn_old_workdir = False, sn_max_retries = retries, sn_sleep = sl, sn_shell = None, sn_run_id = 0,
     sn_cmd = [], sn_is_running = False\<rparr>"

definition of_option :: "'a option \<Rightarrow> ('s, 'a) py" where
  "of_option x = (case x of None \<Rightarrow> throw AttributeError | Some a \<Rightarrow> ret a)"

definition runner_shell :: "('w, nat) repair_op" where
  "runner_shell = bnd (gets (\<lambda>(s, w). sn_shell s)) of_option"

definition the_session :: "('w, nat) repair_op" where
  "the_session = bnd (gets (\<lambda>(s, w). sn_session s)) of_option"

definition expect_timeout :: "rat \<Rightarrow> rat" where
  "expect_timeout t = (if 0 < t then t + 1 else t)"

text \<open>What is unpickled may be \<open>None\<close>, which has no method.\<close>

definition result_from_output :: "'w repair_env \<Rightarrow> ustr \<Rightarrow> ('w, run_result) repair_op" where
  "result_from_output v out = (case sr_loads v out of
     None \<Rightarrow> throw UnexpectedTerminalOutput
   | Some None \<Rightarrow> throw AttributeError
   | Some (Some x) \<Rightarrow> bnd (gets (\<lambda>(s, w). sn_run_id s)) (\<lambda>i. of_sum (get_run_result i x)))"

definition run_with_error_serialization :: "'w repair_env \<Rightarrow> run_command \<Rightarrow> rat \<Rightarrow> ('w, run_result) repair_op" where
  "run_with_error_serialization v c tmo = bnd runner_shell (\<lambda>i.
     bnd (in_world (sr_exec v i c (expect_timeout tmo))) (result_from_output v))"

definition stop_and_warn_if_running :: "'w repair_env \<Rightarrow> ('w, unit) repair_op" where
  "stop_and_warn_if_running v = bnd (gets (\<lambda>(s, w). sn_is_running s)) (\<lambda>b.
     bnd (if b then ret True else bnd runner_shell (\<lambda>i. in_world (sr_is_hung v i))) (\<lambda>b'.
       if b' then bnd (bnd runner_shell (\<lambda>i. in_world (sr_stop_run v i))) (\<lambda>out.
           catching (bnd (result_from_output v out) (\<lambda>_. ret ()))
             (\<lambda>e. if e = UnexpectedTerminalOutput then ret () else throw e))
       else ret ()))"

definition run_wrapper :: "'w repair_env \<Rightarrow> ('w, 'a) repair_op \<Rightarrow> ('w, 'a) repair_op" where
  "run_wrapper v m = finally_do
     (andthen (upd (\<lambda>s. s\<lparr>sn_run_id := Suc (sn_run_id s), sn_is_running := True\<rparr>))
       (catching m (\<lambda>e. if e = SystemExit
          then catching (andthen (stop_and_warn_if_running v) (throw SystemExit)) (\<lambda>_. throw SystemExit)
          else throw e)))
     (upd (\<lambda>s. s\<lparr>sn_is_running := False\<rparr>))"

definition runner_run :: "'w repair_env \<Rightarrow> ustr \<Rightarrow> rat \<Rightarrow> ('w, run_result) repair_op" where
  "runner_run v cmd tmo = run_wrapper v
     (andthen (upd (\<lambda>s. s\<lparr>sn_cmd := cmd\<rparr>)) (bnd (gets (\<lambda>(s, w). sn_run_id s)) (\<lambda>i.
       run_with_error_serialization v (RunCommand i cmd (if 0 < tmo then Some tmo else None)) tmo)))"

fun backup_tries :: "'w repair_env \<Rightarrow> nat \<Rightarrow> ('w, run_result) repair_op" where
  "backup_tries v 0 = throw RestoreTimedOut"
| "backup_tries v (Suc n) = catching
     (bnd (gets (\<lambda>(s, w). sn_run_id s)) (\<lambda>i. run_with_error_serialization v (BackupCommand i) 1))
     (\<lambda>e. if e = ResultNotStoredYet then andthen (in_world (sr_sleep v 1)) (backup_tries v n) else throw e)"

definition get_backed_up_result :: "'w repair_env \<Rightarrow> rat \<Rightarrow> ('w, run_result) repair_op" where
  "get_backed_up_result v tmo =
     backup_tries v (nat \<lfloor>let t = expect_timeout tmo in if 1 < t then t else 1\<rfloor>)"

section \<open>The session\<close>

text \<open>\<open>_session_close\<close> closes the session of the object, whatever its argument is.\<close>

definition session_close :: "'w repair_env \<Rightarrow> ('w, unit) repair_op" where
  "session_close v = bnd (gets (\<lambda>(s, w). sn_saved_delay s)) (\<lambda>d. bnd the_session (\<lambda>i.
     andthen (in_world (sr_set_delay v i d)) (andthen (in_world (sr_close v i))
       (bnd (gets (\<lambda>(s, w). i \<in> sn_sessions s)) (\<lambda>b.
          if b then upd (\<lambda>s. s\<lparr>sn_sessions := sn_sessions s - {i}, sn_session := None\<rparr>)
          else throw KeyError)))))"

definition import_in_shell :: "'w repair_env \<Rightarrow> nat \<Rightarrow> ('w, unit) repair_op" where
  "import_in_shell v i = catching
     (andthen (in_world (sr_send_import v i)) (upd (\<lambda>s. s\<lparr>sn_old_workdir := True\<rparr>)))
     (\<lambda>e. if e = UnexpectedOutputInPython
        then andthen (upd (\<lambda>s. s\<lparr>sn_old_workdir := False\<rparr>))
          (andthen (in_world (sr_transfer v i)) (in_world (sr_send_import v i)))
        else throw e)"

definition prepare_session :: "'w repair_env \<Rightarrow> nat \<Rightarrow> ('w, unit) repair_op" where
  "prepare_session v i = andthen
     (bnd (in_world (sr_get_delay v i)) (\<lambda>d. upd (\<lambda>s. s\<lparr>sn_saved_delay := d\<rparr>)))
     (andthen (in_world (sr_set_delay v i 0))
       (andthen (in_world (sr_setup_working_directory v i))
         (andthen (in_world (sr_push_python v i))
           (andthen (import_in_shell v i) (upd (\<lambda>s. s\<lparr>sn_shell := Some i\<rparr>))))))"

definition create_session :: "'w repair_env \<Rightarrow> ('w, unit) repair_op" where
  "create_session v = bnd (in_world (sr_create v)) (\<lambda>i.
     andthen (upd (\<lambda>s. s\<lparr>sn_session := Some i, sn_sessions := insert i (sn_sessions s)\<rparr>))
       (prepare_session v i))"

definition close_if_any :: "'w repair_env \<Rightarrow> ('w, unit) repair_op \<Rightarrow> ('w, unit) repair_op" where
  "close_if_any v m = bnd (gets (\<lambda>(s, w). sn_session s)) (\<lambda>i. if i = None then ret () else m)"

definition create_new_session :: "'w repair_env \<Rightarrow> ('w, unit) repair_op" where
  "create_new_session v = catching
     (andthen (close_if_any v (andthen (stop_and_warn_if_running v) (session_close v))) (create_session v))
     (\<lambda>e. if is_Exception e then andthen (close_if_any v (session_close v)) (throw e) else throw e)"

definition is_a_timeout :: "exn \<Rightarrow> bool" where
  "is_a_timeout e \<longleftrightarrow> (case e of PexpectTimeout \<Rightarrow> True | ShellTimeoutError b \<Rightarrow> True | _ \<Rightarrow> False)"

definition is_shell_timeout :: "exn \<Rightarrow> bool" where
  "is_shell_timeout e \<longleftrightarrow> (case e of ShellTimeoutError b \<Rightarrow> True | _ \<Rightarrow> False)"

definition try_to_create_new_session :: "'w repair_env \<Rightarrow> ('w, unit) repair_op" where
  "try_to_create_new_session v = catching (create_new_session v) (\<lambda>e. if is_a_timeout e
     then bnd (gets (\<lambda>(s, w). sn_sleep s)) (\<lambda>t. in_world (sr_sleep v t)) else throw e)"

definition is_lost_backup :: "exn \<Rightarrow> bool" where
  "is_lost_backup e \<longleftrightarrow> (case e of MismatchInRunId i j \<Rightarrow> True | BackupNotFound \<Rightarrow> True | _ \<Rightarrow> False)"

definition try_to_get_backup_result :: "'w repair_env \<Rightarrow> rat \<Rightarrow> ('w, run_result) repair_op" where
  "try_to_get_backup_result v tmo = bnd (gets (\<lambda>(s, w). sn_old_workdir s)) (\<lambda>b.
     if \<not> b then throw RunNotStarted
     else catching (get_backed_up_result v tmo) (\<lambda>e. if is_lost_backup e then throw RunNotStarted else throw e))"

definition try_to_get_hung_run_result :: "'w repair_env \<Rightarrow> rat \<Rightarrow> ('w, run_result) repair_op" where
  "try_to_get_hung_run_result v tmo = bnd (gets (\<lambda>(s, w). sn_session s)) (\<lambda>original.
     andthen (upd (\<lambda>s. s\<lparr>sn_session := None\<rparr>))
       (finally_do (andthen (try_to_create_new_session v) (try_to_get_backup_result v tmo))
          (if original = None then ret () else session_close v)))"

definition run_with_backup :: "'w repair_env \<Rightarrow> ustr \<Rightarrow> rat \<Rightarrow> ('w, run_result) repair_op" where
  "run_with_backup v cmd tmo = catching (runner_run v cmd tmo) (\<lambda>e.
     if e = UnexpectedTerminalOutput then andthen (try_to_create_new_session v) (get_backed_up_result v tmo)
     else if e = PythonRunNotStarted then try_to_get_hung_run_result v tmo
     else throw e)"

definition verify_session_and_run :: "'w repair_env \<Rightarrow> ustr \<Rightarrow> rat \<Rightarrow> ('w, run_result) repair_op" where
  "verify_session_and_run v cmd tmo = bnd (gets (\<lambda>(s, w). sn_session s)) (\<lambda>i.
     if i = None then throw SessionNotInitialized else run_with_backup v cmd tmo)"

definition strip_from_right :: "run_result \<Rightarrow> int \<times> ustr \<times> ustr" where
  "strip_from_right r = (fst r, rstrip_newlines (to_string (PyBytes (fst (snd r)))),
     rstrip_newlines (to_string (PyBytes (snd (snd r)))))"

definition handle_session_not_working :: "'w repair_env \<Rightarrow> nat \<Rightarrow> ('w, unit) repair_op" where
  "handle_session_not_working v n = bnd (gets (\<lambda>(s, w). sn_max_retries s)) (\<lambda>m.
     if n < m then try_to_create_new_session v else throw FailedToCreateSession)"

text \<open>One round of the loop: \<open>None\<close> when there is to be another.\<close>

definition run_round :: "'w repair_env \<Rightarrow> ustr \<Rightarrow> rat \<Rightarrow> nat \<Rightarrow> ('w, (int \<times> ustr \<times> ustr) option) repair_op" where
  "run_round v cmd tmo n = catching
     (bnd (verify_session_and_run v cmd tmo) (\<lambda>r. ret (Some (strip_from_right r))))
     (\<lambda>e. if e = SessionNotInitialized then andthen (handle_session_not_working v n) (ret None)
        else if e = RunNotStarted then ret None
        else if is_shell_timeout e then bnd the_session (\<lambda>i.
          bnd (in_world (sr_stop_run v i)) (\<lambda>_. throw e))
        else throw e)"

partial_function (option) run_rounds ::
  "'w repair_env \<Rightarrow> ustr \<Rightarrow> rat \<Rightarrow> nat \<Rightarrow> repair_session \<times> 'w \<Rightarrow> ((exn + (int \<times> ustr \<times> ustr)) \<times> repair_session \<times> 'w) option" where
  "run_rounds v cmd tmo n s = seq_outcome (run_round v cmd tmo n s) (\<lambda>r s1. case r of
     Some x \<Rightarrow> Some (Inr x, s1)
   | None \<Rightarrow> run_rounds v cmd tmo (Suc n) s1)"

definition run_no_validate :: "'w repair_env \<Rightarrow> ustr \<Rightarrow> rat \<Rightarrow> ('w, int \<times> ustr \<times> ustr) repair_op" where
  "run_no_validate v cmd tmo = run_rounds v cmd tmo 0"

text \<open>\<open>'*'\<close> among the statuses to ignore stands for all of them.\<close>

definition repair_run :: "'w repair_env \<Rightarrow> ustr \<Rightarrow> int set \<Rightarrow> bool \<Rightarrow> rat \<Rightarrow> ('w, int \<times> ustr \<times> ustr) repair_op" where
  "repair_run v cmd ignored ignore_all tmo = bnd (run_no_validate v cmd tmo) (\<lambda>r.
     if fst r \<notin> ignored \<and> \<not> ignore_all then throw (CommandExecutionFailed r) else ret r)"

definition run_ignore_all_exceptions ::
  "'w repair_env \<Rightarrow> ustr \<Rightarrow> rat \<Rightarrow> ('w, (int \<times> ustr \<times> ustr) option) repair_op" where
  "run_ignore_all_exceptions v cmd tmo = catching
     (bnd (run_no_validate v cmd tmo) (\<lambda>r. ret (Some r)))
     (\<lambda>e. if is_Exception e then ret None else throw e)"

definition finalize_session :: "'w repair_env \<Rightarrow> ('w, unit) repair_op" where
  "finalize_session v = andthen (stop_and_warn_if_running v)
     (andthen (bnd the_session (\<lambda>i. in_world (sr_pop v i)))
       (bnd the_session (\<lambda>i. in_world (sr_remove_working_directory v i))))"

definition close_one :: "'w repair_env \<Rightarrow> nat \<Rightarrow> ('w, unit) repair_op" where
  "close_one v i = andthen (upd (\<lambda>s. s\<lparr>sn_session := Some i\<rparr>))
     (andthen (catching (finalize_session v) (\<lambda>e. if is_Exception e then ret () else throw e))
       (session_close v))"

text \<open>The order of the set of sessions is an argument.\<close>

definition close_all_sessions :: "'w repair_env \<Rightarrow> (nat set \<Rightarrow> nat list) \<Rightarrow> ('w, unit) repair_op" where
  "close_all_sessions v order = bnd (gets (\<lambda>(s, w). sn_sessions s)) (\<lambda>S. for_each (close_one v) (order S))"

definition reset_repair_session :: "'w repair_env \<Rightarrow> ('w, unit) repair_op" where
  "reset_repair_session v = catching (create_new_session v) (\<lambda>e. if is_Exception e then ret () else throw e)"
section \<open>Every run ends\<close>

text \<open>
  A tame program ends, raises neither of the two exceptions with which the session itself asks for
  another round, and keeps the number of rounds. The calls are assumed to behave like that, and so
  are the exceptions that come back from the other end.
\<close>

definition foreign :: "exn \<Rightarrow> bool" where
  "foreign e \<longleftrightarrow> e \<noteq> RunNotStarted \<and> e \<noteq> SessionNotInitialized"

definition behaves :: "('w, 'a) py \<Rightarrow> bool" where
  "behaves m \<longleftrightarrow> ends m \<and> raises foreign m"

definition same_retries :: "repair_session \<times> 'w \<Rightarrow> repair_session \<times> 'w \<Rightarrow> bool" where
  "same_retries s s' \<longleftrightarrow> sn_max_retries (fst s') = sn_max_retries (fst s)"

interpretation retries: step_relation same_retries
  by unfold_locales (auto simp: same_retries_def)

definition tame :: "('w, 'a) repair_op \<Rightarrow> bool" where
  "tame m \<longleftrightarrow> ends m \<and> raises foreign m \<and> keeps same_retries m"

definition calls_tame :: "'w repair_env \<Rightarrow> bool" where
  "calls_tame v \<longleftrightarrow> (\<forall>i c t. behaves (sr_exec v i c t)) \<and> (\<forall>i. behaves (sr_stop_run v i)) \<and> (\<forall>i. behaves (sr_is_hung v i)) \<and>
     (\<forall>t. behaves (sr_sleep v t)) \<and> behaves (sr_create v) \<and> (\<forall>i. behaves (sr_close v i)) \<and> (\<forall>i. behaves (sr_get_delay v i)) \<and>
     (\<forall>i d. behaves (sr_set_delay v i d)) \<and> (\<forall>i. behaves (sr_setup_working_directory v i)) \<and>
     (\<forall>i. behaves (sr_push_python v i)) \<and> (\<forall>i. behaves (sr_send_import v i)) \<and> (\<forall>i. behaves (sr_transfer v i)) \<and>
     (\<forall>out j c e. sr_loads v out = Some (Some (Failed j c e)) \<longrightarrow> foreign e)"

named_theorems tame_intros

lemma tame_simple [tame_intros, simp]:
  "tame (ret a)" "tame (gets f)" "foreign e \<Longrightarrow> tame (throw e)"
  by (simp_all add: tame_def retries.keeps_simple)

lemma tame_upd [tame_intros]: "(\<And>s. sn_max_retries (g s) = sn_max_retries s) \<Longrightarrow> tame (upd g)"
  by (auto simp: tame_def ends_upd upd_def same_retries_def intro!: retries.keeps_modify)

lemma tame_bnd [tame_intros]: "tame m \<Longrightarrow> (\<And>a. tame (k a)) \<Longrightarrow> tame (bnd m k)"
  by (simp add: tame_def ends_bnd raises_bnd retries.keeps_bnd)

lemma tame_andthen [tame_intros]: "tame m \<Longrightarrow> tame n \<Longrightarrow> tame (andthen m n)"
  by (simp add: tame_def ends_andthen raises_andthen retries.keeps_andthen)

lemma tame_finally [tame_intros]: "tame m \<Longrightarrow> tame f \<Longrightarrow> tame (finally_do m f)"
  by (simp add: tame_def ends_finally raises_finally retries.keeps_finally)

lemma keeps_retries_in_world: "keeps same_retries (in_world m)"
  by (rule keeps_gen) (auto simp: in_world_def same_retries_def split: option.splits prod.splits)

lemma tame_in_world [tame_intros]: "behaves m \<Longrightarrow> tame (in_world m)"
  by (simp add: tame_def behaves_def ends_in_world raises_in_world keeps_retries_in_world)

lemma tame_if [tame_intros]: "(b \<Longrightarrow> tame m) \<Longrightarrow> (\<not> b \<Longrightarrow> tame n) \<Longrightarrow> tame (if b then m else n)"
  by simp

lemma tame_catching [tame_intros]:
  assumes "tame m" "\<And>e. foreign e \<Longrightarrow> tame (h e)"
  shows "tame (catching m h)"
proof -
  have "catching m h s \<noteq> None" for s
  proof -
    obtain r s' where r: "m s = Some (r, s')" using endsD [of m s] assms(1) unfolding tame_def by blast
    show ?thesis
    proof (cases r)
      case (Inl e)
      then have "tame (h e)" using assms(2) raisesD [of foreign m s e s'] assms(1) r unfolding tame_def by blast
      then have "h e s' \<noteq> None" unfolding tame_def ends_def by blast
      then show ?thesis using r Inl by simp
    qed (simp add: r)
  qed
  moreover have "raises foreign (catching m h)"
    using assms unfolding tame_def by (intro raises_catching_both [of foreign]) auto
  moreover have "keeps same_retries (catching m h)"
  proof (rule keeps_gen, unfold catching_app, erule catch_outcome_cases)
    fix s r s' a assume "m s = Some (Inr a, s')"
    then show "same_retries s s'" using assms(1) keepsD [of same_retries m s "Inr a" s'] unfolding tame_def by blast
  next
    fix s r s' e u assume m: "m s = Some (Inl e, u)" and h: "h e u = Some (r, s')"
    then have "foreign e" using assms(1) raisesD [of foreign m s e u] unfolding tame_def by blast
    from assms(2) [OF this] assms(1) show "same_retries s s'"
      using keepsD [of same_retries m s "Inl e" u] keepsD [of same_retries "h e" u r s'] m h unfolding tame_def
      by (blast intro: retries.R_trans)
  qed
  ultimately show ?thesis by (simp add: tame_def ends_def)
qed

lemma tame_of_option [tame_intros]: "tame (of_option x)"
  by (cases x) (simp_all add: of_option_def foreign_def)

lemma tame_case_option [tame_intros]:
  "tame n \<Longrightarrow> (\<And>x. o' = Some x \<Longrightarrow> tame (f x)) \<Longrightarrow> tame (case o' of None \<Rightarrow> n | Some x \<Rightarrow> f x)"
  by (cases o') simp_all

lemma tame_the_session [tame_intros]: "tame the_session"
  unfolding the_session_def by (intro tame_intros)

lemma tame_runner_shell [tame_intros]: "tame runner_shell"
  unfolding runner_shell_def by (intro tame_intros)

lemma call_behaves:
  assumes "calls_tame v"
  shows "behaves (sr_exec v i c t)" "behaves (sr_stop_run v i)" "behaves (sr_is_hung v i)" "behaves (sr_sleep v t)" "behaves (sr_create v)"
    "behaves (sr_close v i)" "behaves (sr_get_delay v i)" "behaves (sr_set_delay v i d)" "behaves (sr_setup_working_directory v i)"
    "behaves (sr_push_python v i)" "behaves (sr_send_import v i)" "behaves (sr_transfer v i)"
  using assms unfolding calls_tame_def by auto

lemma tame_of_sum: "(\<And>e. x = Inl e \<Longrightarrow> foreign e) \<Longrightarrow> tame (of_sum x)"
  by (simp add: tame_def raises_of_sum retries.keeps_simple)

lemma tame_result_from_output:
  assumes "calls_tame v"
  shows "tame (result_from_output v out)"
proof (cases "sr_loads v out")
  case None
  then show ?thesis by (simp add: result_from_output_def foreign_def)
next
  case (Some x)
  show ?thesis
  proof (cases x)
    case None
    then show ?thesis using Some by (simp add: result_from_output_def foreign_def)
  next
    case (Some y)
    have "foreign e" if "get_run_result i y = Inl e" for i e
    proof (cases y)
      case (Failed j c d)
      then have "foreign d" using assms Some \<open>sr_loads v out = Some x\<close> unfolding calls_tame_def by blast
      then show ?thesis using that Failed by (auto simp: get_run_result_def foreign_def split: if_splits)
    qed (use that in \<open>auto simp: get_run_result_def foreign_def split: if_splits\<close>)
    then have "tame (bnd (gets (\<lambda>(s, w). sn_run_id s)) (\<lambda>i. of_sum (get_run_result i y)))"
      by (intro tame_bnd tame_simple tame_of_sum)
    then show ?thesis using Some \<open>sr_loads v out = Some x\<close> unfolding result_from_output_def by simp
  qed
qed

text \<open>The operations, from the calls up.\<close>

lemma tame_ops:
  assumes c: "calls_tame v"
  shows "tame (run_with_error_serialization v cmd t)" "tame (stop_and_warn_if_running v)" "tame (session_close v)"
    "tame (import_in_shell v i)"
  unfolding run_with_error_serialization_def stop_and_warn_if_running_def session_close_def import_in_shell_def
  by (intro tame_intros call_behaves [OF c] tame_result_from_output [OF c]; simp add: foreign_def)+

lemma tame_backup_tries: "calls_tame v \<Longrightarrow> tame (backup_tries v n)"
proof (induction n)
  case 0
  show ?case unfolding backup_tries.simps by (rule tame_simple) (simp add: foreign_def)
next
  case (Suc n)
  show ?case
    unfolding backup_tries.simps
    by (intro tame_intros tame_ops [OF Suc.prems] call_behaves [OF Suc.prems] Suc.IH [OF Suc.prems])
qed

lemma tame_runs:
  assumes c: "calls_tame v"
  shows "tame (runner_run v cmd t)" "tame (get_backed_up_result v t)" "tame (try_to_create_new_session v)"
proof -
  have "tame (prepare_session v i)" for i
    unfolding prepare_session_def by (intro tame_intros call_behaves [OF c] tame_ops [OF c]) simp_all
  then have "tame (create_session v)"
    unfolding create_session_def by (intro tame_intros call_behaves [OF c]) simp_all
  then have "tame (create_new_session v)"
    unfolding create_new_session_def close_if_any_def by (intro tame_intros tame_ops [OF c])
  then show "tame (try_to_create_new_session v)"
    unfolding try_to_create_new_session_def by (intro tame_intros call_behaves [OF c])
  show "tame (get_backed_up_result v t)"
    unfolding get_backed_up_result_def by (rule tame_backup_tries [OF c])
  show "tame (runner_run v cmd t)"
    unfolding runner_run_def run_wrapper_def by (intro tame_intros tame_ops [OF c]) (simp_all add: foreign_def)
qed

text \<open>The answer to a hung run ends too, and asks for another round only without a session.\<close>

lemma session_close_None: "session_close v s = Some (Inr u, s') \<Longrightarrow> sn_session (fst s') = None"
  by (cases s') (auto simp: session_close_def upd_def split: if_splits elim!: seq_outcome_cases)

lemma hung_run:
  assumes c: "calls_tame v"
  shows "ends (try_to_get_hung_run_result v t)" "keeps same_retries (try_to_get_hung_run_result v t)"
    "try_to_get_hung_run_result v t s = Some (Inl e, s') \<Longrightarrow> e \<noteq> SessionNotInitialized \<and>
      (e = RunNotStarted \<longrightarrow> sn_session (fst s) \<noteq> None \<longrightarrow> sn_session (fst s') = None)"
proof -
  have no: "tame m \<Longrightarrow> m s = Some (Inl e, s') \<Longrightarrow> foreign e" for m :: "('a, 'b) repair_op" and s e s'
    unfolding tame_def raises_def by blast
  have lost: "foreign e \<Longrightarrow> raises (\<lambda>e. e \<noteq> SessionNotInitialized) (if is_lost_backup e then throw RunNotStarted else throw e)"
    for e by (simp add: foreign_def)
  have g: "ends (get_backed_up_result v t)" "keeps same_retries (get_backed_up_result v t)"
    "raises foreign (get_backed_up_result v t)"
    using tame_runs(2) [OF c, of t] unfolding tame_def by blast+
  have b: "ends (try_to_get_backup_result v t)" "keeps same_retries (try_to_get_backup_result v t)"
    "raises (\<lambda>e. e \<noteq> SessionNotInitialized) (try_to_get_backup_result v t)"
    unfolding try_to_get_backup_result_def
    by (intro ends_intros g) (intro retries.keeps keeps_if g,
      intro raises_intros raises_catching_both [OF g(3)] lost, simp_all)
  show "ends (try_to_get_hung_run_result v t)" "keeps same_retries (try_to_get_hung_run_result v t)"
    using tame_runs(3) [OF c] tame_ops(3) [OF c] b tame_upd [of "\<lambda>s. s\<lparr>sn_session := None\<rparr>"]
    unfolding try_to_get_hung_run_result_def tame_def
    by (auto intro!: ends_intros retries.keeps keeps_if)
  have "raises (\<lambda>e. e \<noteq> SessionNotInitialized) (try_to_create_new_session v)"
    using tame_runs(3) [OF c] unfolding tame_def raises_def foreign_def by blast
  then have both: "raises (\<lambda>e. e \<noteq> SessionNotInitialized) (andthen (try_to_create_new_session v) (try_to_get_backup_result v t))"
    using b(3) by (rule raises_andthen)
  assume h: "try_to_get_hung_run_result v t s = Some (Inl e, s')"
  let ?m = "andthen (try_to_create_new_session v) (try_to_get_backup_result v t)"
  let ?f = "if sn_session (fst s) = None then ret () else session_close v"
  obtain x u where m: "?m ((fst s)\<lparr>sn_session := None\<rparr>, snd s) = Some (x, u)"
    and f: "seq_outcome (?f u) (\<lambda>_ s'. Some (x, s')) = Some (Inl e, s')"
    using h by (cases s) (auto simp: try_to_get_hung_run_result_def finally_do_def bind_eq_Some_conv case_prod_beta)
  show "e \<noteq> SessionNotInitialized \<and>
      (e = RunNotStarted \<longrightarrow> sn_session (fst s) \<noteq> None \<longrightarrow> sn_session (fst s') = None)"
    using f
  proof (cases rule: seq_outcome_cases)
    case (error d)
    then have "foreign d" using no [OF tame_ops(3) [OF c], of u d s'] by (auto split: if_splits)
    then show ?thesis using error by (auto simp: foreign_def)
  next
    case (ok a w)
    then have "x = Inl e" "w = s'" by auto
    then have "e \<noteq> SessionNotInitialized"
      using raisesD [OF both, of _ e u] m by blast
    then show ?thesis using ok \<open>w = s'\<close> session_close_None [of v u "()" s'] by (auto split: if_splits)
  qed
qed

text \<open>The runner keeps the session.\<close>

definition same_session :: "repair_session \<times> 'w \<Rightarrow> repair_session \<times> 'w \<Rightarrow> bool" where
  "same_session s s' \<longleftrightarrow> sn_session (fst s') = sn_session (fst s)"

interpretation sess: step_relation same_session
  by unfold_locales (auto simp: same_session_def)

lemma same_session_intros:
  "keeps same_session (in_world m)"
  "(\<And>s. sn_session (f s) = sn_session s) \<Longrightarrow> keeps same_session (upd f)"
  "keeps same_session (of_option x)"
  by (auto simp: upd_def of_option_def same_session_def intro!: sess.keeps_modify sess.keeps_simple split: option.splits)
    (rule keeps_gen, auto simp: in_world_def same_session_def split: option.splits prod.splits)

lemma same_session_ops:
  "keeps same_session runner_shell" "keeps same_session (result_from_output v out)"
  "keeps same_session (run_with_error_serialization v cmd t)" "keeps same_session (stop_and_warn_if_running v)"
  "keeps same_session (runner_run v c t)"
proof -
  note rules = sess.keeps same_session_intros keeps_splits
  show sh: "keeps same_session runner_shell" unfolding runner_shell_def by (intro rules)
  show out: "keeps same_session (result_from_output v out)" for out
    unfolding result_from_output_def by (auto split: option.splits intro!: rules)
  show run: "keeps same_session (run_with_error_serialization v cmd t)" for cmd t
    unfolding run_with_error_serialization_def by (intro rules sh out)
  show stop: "keeps same_session (stop_and_warn_if_running v)"
    unfolding stop_and_warn_if_running_def by (intro rules sh out)
  show "keeps same_session (runner_run v c t)"
    unfolding runner_run_def run_wrapper_def by (intro rules run stop) simp_all
qed

text \<open>
  One round ends; another one follows only while retries are left or when the session is gone, and
  without session and retries the round is the last.
\<close>

lemma run_with_backup_outcome:
  assumes c: "calls_tame v" and i: "sn_session (fst s) \<noteq> None"
  shows "\<exists>r s'. run_with_backup v cmd t s = Some (r, s') \<and> same_retries s s' \<and>
    (case r of Inl e \<Rightarrow> e \<noteq> SessionNotInitialized \<and> (e = RunNotStarted \<longrightarrow> sn_session (fst s') = None) | Inr x \<Rightarrow> True)"
proof -
  let ?P = "\<lambda>r s'. case r of Inl e \<Rightarrow> e \<noteq> SessionNotInitialized \<and> (e = RunNotStarted \<longrightarrow> sn_session (fst s') = None) | Inr x \<Rightarrow> True"
  have tm: "\<exists>r s'. m s = Some (r, s') \<and> same_retries s s' \<and> (case r of Inl e \<Rightarrow> foreign e | Inr x \<Rightarrow> True)" if "tame m"
    for m :: "('w, 'b) repair_op" and s
    using that endsD [of m s] unfolding tame_def by (auto split: sum.splits dest: keepsD raisesD) (metis keepsD raisesD sum.exhaust)
  obtain r s1 where r: "runner_run v cmd t s = Some (r, s1)" "same_retries s s1"
    "case r of Inl e \<Rightarrow> foreign e | Inr x \<Rightarrow> True"
    using tm [OF tame_runs(1) [OF c]] by blast
  have i1: "sn_session (fst s1) \<noteq> None"
    using keepsD [OF same_session_ops(5) r(1)] i by (simp add: same_session_def)
  show ?thesis
  proof (cases r)
    case (Inr x)
    then show ?thesis using r by (simp add: run_with_backup_def)
  next
    case (Inl e)
    let ?h = "if e = UnexpectedTerminalOutput then andthen (try_to_create_new_session v) (get_backed_up_result v t)
      else if e = PythonRunNotStarted then try_to_get_hung_run_result v t else throw e"
    have "\<exists>q s'. ?h s1 = Some (q, s') \<and> same_retries s1 s' \<and> ?P q s'"
    proof (cases "e = PythonRunNotStarted")
      case True
      obtain q s' where q: "try_to_get_hung_run_result v t s1 = Some (q, s')"
        using endsD [OF hung_run(1) [OF c]] by blast
      then show ?thesis using True keepsD [OF hung_run(2) [OF c] q] hung_run(3) [OF c, of t s1 _ s'] i1
        by (auto split: sum.splits)
    next
      case False
      then have "tame ?h" using r(3) Inl
        by (auto intro!: tame_andthen tame_runs [OF c])
      from tm [OF this, of s1] show ?thesis by (fastforce simp: foreign_def split: sum.splits)
    qed
    then show ?thesis using r Inl retries.R_trans [OF r(2)] by (auto simp: run_with_backup_def)
  qed
qed

lemma run_round_ends:
  assumes c: "calls_tame v"
  shows "\<exists>r s'. run_round v cmd t n s = Some (r, s') \<and> same_retries s s' \<and>
    (r = Inr None \<longrightarrow> n < sn_max_retries (fst s) \<or> sn_session (fst s) \<noteq> None \<and> sn_session (fst s') = None)"
proof (cases "sn_session (fst s)")
  case None
  obtain r s1 where r: "handle_session_not_working v n s = Some (r, s1)" "same_retries s s1"
    "r = Inr () \<longrightarrow> n < sn_max_retries (fst s)"
  proof (cases "n < sn_max_retries (fst s)")
    case True
    obtain r s1 where "try_to_create_new_session v s = Some (r, s1)" "same_retries s s1"
      using tame_runs(3) [OF c] endsD [of "try_to_create_new_session v" s] unfolding tame_def
      by (meson keepsD)
    then show ?thesis using True by (intro that [of r s1]) (simp_all add: handle_session_not_working_def case_prod_beta)
  next
    case False
    then show ?thesis by (intro that [of "Inl FailedToCreateSession" s])
        (simp_all add: handle_session_not_working_def case_prod_beta retries.R_refl)
  qed
  then show ?thesis using None
    by (cases r) (auto simp: run_round_def verify_session_and_run_def case_prod_beta)
next
  case (Some i)
  obtain r s1 where r: "run_with_backup v cmd t s = Some (r, s1)" "same_retries s s1"
    "case r of Inl e \<Rightarrow> e \<noteq> SessionNotInitialized \<and> (e = RunNotStarted \<longrightarrow> sn_session (fst s1) = None) | Inr x \<Rightarrow> True"
    using run_with_backup_outcome [OF c] Some by blast
  show ?thesis
  proof (cases r)
    case (Inr x)
    then show ?thesis using r Some by (auto simp: run_round_def verify_session_and_run_def case_prod_beta)
  next
    case (Inl e)
    let ?h = "if e = RunNotStarted then ret None :: ('a, (int \<times> ustr \<times> ustr) option) repair_op
        else if is_shell_timeout e then bnd the_session (\<lambda>i. bnd (in_world (sr_stop_run v i)) (\<lambda>_. throw e)) else throw e"
    have "\<exists>q s'. ?h s1 = Some (q, s') \<and> same_retries s1 s' \<and> (q = Inr None \<longrightarrow> e = RunNotStarted \<and> s' = s1)"
    proof (cases "is_shell_timeout e")
      case True
      then have e: "e \<noteq> RunNotStarted" "foreign e" by (auto simp: is_shell_timeout_def foreign_def split: exn.splits)
      let ?m = "bnd the_session (\<lambda>i. bnd (in_world (sr_stop_run v i)) (\<lambda>_. throw e :: ('a, (int \<times> ustr \<times> ustr) option) repair_op))"
      have m: "tame ?m" by (intro tame_intros call_behaves [OF c] e)
      obtain q s' where q: "?m s1 = Some (q, s')" using m endsD [of ?m s1] unfolding tame_def by blast
      have s': "same_retries s1 s'" using m keepsD [of same_retries ?m, OF _ q] unfolding tame_def by blast
      have "q \<noteq> Inr None" using q by (auto simp: seq_outcome_Inr_iff)
      then show ?thesis using q e True s' by (intro exI [of _ q] exI [of _ s']) simp
    qed (cases s1, simp add: retries.R_refl)
    then show ?thesis using r Inl Some retries.R_trans [OF r(2)]
      by (auto simp: run_round_def verify_session_and_run_def case_prod_beta)
  qed
qed

lemma run_rounds_end:
  assumes c: "calls_tame v"
  shows "\<exists>r s'. run_rounds v cmd t n s = Some (r, s')"
proof (induction "2 * (sn_max_retries (fst s) - n) + (if sn_session (fst s) = None then 0 else 1)"
    arbitrary: n s rule: less_induct)
  case less
  obtain r s1 where r: "run_round v cmd t n s = Some (r, s1)" "same_retries s s1"
    "r = Inr None \<longrightarrow> n < sn_max_retries (fst s) \<or> sn_session (fst s) \<noteq> None \<and> sn_session (fst s1) = None"
    using run_round_ends [OF c] by blast
  show ?case
  proof (cases "r = Inr None")
    case True
    then have "2 * (sn_max_retries (fst s1) - Suc n) + (if sn_session (fst s1) = None then 0 else 1)
        < 2 * (sn_max_retries (fst s) - n) + (if sn_session (fst s) = None then 0 else 1)"
      using r by (auto simp: same_retries_def)
    from less.hyps [OF this] show ?thesis using r(1) True by (subst run_rounds.simps) simp
  next
    case False
    then show ?thesis using r(1) by (subst run_rounds.simps) (auto split: sum.splits option.splits, cases r, auto)
  qed
qed

text \<open>
  C13: a run always ends when the calls to the terminal do: the rounds of \<open>itertools.count()\<close> are bounded,
  because another round follows only while retries are left or when the session has just been lost, and a
  round without session and retries raises \<open>FailedToCreateSession\<close>. The calls, and what comes back from the
  other end, must not raise the session's own two exceptions.
\<close>

theorem run_no_validate_ends:
  assumes "calls_tame v"
  shows "\<exists>r s'. run_no_validate v cmd t s = Some (r, s')"
  using run_rounds_end [OF assms] by (simp add: run_no_validate_def)

text \<open>A terminal that never answers, for examples.\<close>

definition dead_terminal :: "unit repair_env" where
  "dead_terminal = \<lparr>sr_exec = (\<lambda>i c t. throw PythonRunNotStarted), sr_stop_run = (\<lambda>i. throw PexpectTimeout),
     sr_is_hung = (\<lambda>i. ret True), sr_loads = (\<lambda>out. None), sr_sleep = (\<lambda>t. ret ()), sr_create = ret 5,
     sr_close = (\<lambda>i. ret ()), sr_get_delay = (\<lambda>i. ret 0), sr_set_delay = (\<lambda>i d. ret ()),
     sr_setup_working_directory = (\<lambda>i. ret ()), sr_push_python = (\<lambda>i. ret ()), sr_send_import = (\<lambda>i. ret ()),
     sr_transfer = (\<lambda>i. ret ()), sr_pop = (\<lambda>i. ret ()), sr_remove_working_directory = (\<lambda>i. ret ())\<rparr>"

lemma dead_terminal_tame: "calls_tame dead_terminal"
  by (simp add: calls_tame_def dead_terminal_def behaves_def foreign_def)

theorem run_no_validate_ends_witness:
  "\<exists>r s'. run_no_validate dead_terminal [108, 115] 1 (new_repair_session 3 1, ()) = Some (r, s')"
  by (rule run_no_validate_ends [OF dead_terminal_tame])

section \<open>The backup\<close>

text \<open>
  C21: a run that ended in time prints its result, and the backup holds exactly what was printed, under the
  number of the run and with its command. A run that was terminated prints \<open>RemoteTimeoutError\<close>, one that
  cannot be terminated or never ends without a time-out prints nothing, and both leave a backup that is never
  a result. The local end, when it gets the backup, returns the result of the command for the number of the
  run, \<open>ResultNotStoredYet\<close> while there is none, and for any other number \<open>MismatchInRunId\<close>, so no result of
  another run is taken for it.
\<close>

theorem backup_is_result_of_run:
  assumes "remote_run_command i cmd tmo p r = (printed, r')" "sp_result p = Some res"
  shows "printed = (if ends_in_time tmo p then Some (Some (Successful i cmd res))
      else if tmo \<noteq> None \<and> sp_ends_when_terminated p then Some (Some (Failed i cmd RemoteTimeoutError)) else None) \<and>
    (\<forall>k. remote_read_backup k r' =
      Some (if ends_in_time tmo p then Successful i cmd res else Failed i cmd ResultNotStoredYet)) \<and>
    (\<forall>k v out s. sr_loads v out = Some (remote_read_backup k r') \<longrightarrow>
      result_from_output v out s = Some (if sn_run_id (fst s) \<noteq> i then Inl (MismatchInRunId i (sn_run_id (fst s)))
        else if ends_in_time tmo p then Inr res else Inl ResultNotStoredYet, s))"
proof (intro conjI allI impI)
  show "printed = (if ends_in_time tmo p then Some (Some (Successful i cmd res))
      else if tmo \<noteq> None \<and> sp_ends_when_terminated p then Some (Some (Failed i cmd RemoteTimeoutError)) else None)"
    using assms by (auto simp: remote_run_command_def run_in_thread_or_terminate_def Let_def split: if_splits)
  have "bk_file r' = Some (if ends_in_time tmo p then Successful i cmd res else Failed i cmd ResultNotStoredYet)"
    using assms by (auto simp: remote_run_command_def run_in_thread_or_terminate_def backup_def Let_def split: if_splits)
  then show read: "remote_read_backup k r' =
      Some (if ends_in_time tmo p then Successful i cmd res else Failed i cmd ResultNotStoredYet)" for k
    by (simp add: remote_read_backup_def restore_def)
  fix k out and v :: "'w repair_env" and s
  assume "sr_loads v out = Some (remote_read_backup k r')"
  then show "result_from_output v out s = Some (if sn_run_id (fst s) \<noteq> i then Inl (MismatchInRunId i (sn_run_id (fst s)))
        else if ends_in_time tmo p then Inr res else Inl ResultNotStoredYet, s)"
    unfolding read result_from_output_def by (cases s) (auto simp: get_run_result_def)
qed

theorem backup_is_result_of_run_witness:
  "\<exists>printed r'. remote_run_command 4 [108, 115] (Some 60)
      \<lparr>sp_result = Some (0, ''out'', []), sp_duration = Some 2, sp_ends_when_terminated = True\<rparr> \<lparr>bk_file = None\<rparr> = (printed, r') \<and>
    printed = Some (Some (Successful 4 [108, 115] (0, ''out'', []))) \<and>
    remote_read_backup 4 r' = Some (Successful 4 [108, 115] (0, ''out'', []))"
proof -
  let ?p = "\<lparr>sp_result = Some (0, ''out'', []), sp_duration = Some 2, sp_ends_when_terminated = True\<rparr>"
  obtain printed r' where r: "remote_run_command 4 [108, 115] (Some 60) ?p \<lparr>bk_file = None\<rparr> = (printed, r')"
    by (cases "remote_run_command 4 [108, 115] (Some 60) ?p \<lparr>bk_file = None\<rparr>")
  have p: "sp_result ?p = Some (0, ''out'', [])" "ends_in_time (Some 60) ?p" by (simp_all add: ends_in_time_def)
  note b = backup_is_result_of_run [OF r p(1)]
  show ?thesis using r p(2) b [THEN conjunct1] b [THEN conjunct2, THEN conjunct1, THEN spec [of _ 4]] by simp
qed

section \<open>Which session is closed\<close>

definition keeps_old :: "nat \<Rightarrow> repair_session \<times> 'w \<Rightarrow> repair_session \<times> 'w \<Rightarrow> bool" where
  "keeps_old i s s' \<longleftrightarrow> (i \<in> sn_sessions (fst s) \<and> sn_session (fst s) \<noteq> Some i \<longrightarrow>
     i \<in> sn_sessions (fst s') \<and> sn_session (fst s') \<noteq> Some i)"

interpretation old: step_relation "keeps_old i" for i
  by unfold_locales (auto simp: keeps_old_def)

lemma keeps_old_intros:
  "keeps (keeps_old i) (in_world m)" "keeps (keeps_old i) (of_option x)"
  "(\<And>s. sn_session (f s) = sn_session s) \<Longrightarrow> (\<And>s. sn_sessions (f s) = sn_sessions s) \<Longrightarrow> keeps (keeps_old i) (upd f)"
  by (auto simp: upd_def of_option_def keeps_old_def intro!: old.keeps_modify old.keeps_simple split: option.splits)
    (rule keeps_gen, auto simp: in_world_def keeps_old_def split: option.splits prod.splits)

lemma keeps_old_close: "keeps (keeps_old i) (session_close (v :: 'w repair_env))"
proof (rule keeps_gen)
  fix s s' :: "repair_session \<times> 'w" and r
  assume c: "session_close v s = Some (r, s')"
  obtain p w where s: "s = (p, w)" by (cases s)
  show "keeps_old i s s'"
  proof (cases "sn_session p")
    case None
    then show ?thesis using c s by (simp add: session_close_def the_session_def of_option_def keeps_old_def)
  next
    case (Some k)
    then show ?thesis using c s
      by (auto simp: session_close_def the_session_def of_option_def keeps_old_def elim!: seq_outcome_cases
          split: if_splits option.splits)
  qed
qed

lemma keeps_old_ops:
  "keeps (keeps_old i) (stop_and_warn_if_running v)" "keeps (keeps_old i) (get_backed_up_result v t)"
  "keeps (keeps_old i) (prepare_session v k)"
proof -
  note rules = old.keeps keeps_old_intros keeps_splits
  have sh: "keeps (keeps_old i) runner_shell" unfolding runner_shell_def by (intro rules)
  have out: "keeps (keeps_old i) (result_from_output v out)" for out
    unfolding result_from_output_def by (auto split: option.splits intro!: rules)
  have run: "keeps (keeps_old i) (run_with_error_serialization v cmd t)" for cmd t
    unfolding run_with_error_serialization_def by (intro rules sh out)
  show "keeps (keeps_old i) (stop_and_warn_if_running v)"
    unfolding stop_and_warn_if_running_def by (intro rules sh out)
  have "keeps (keeps_old i) (backup_tries v n)" for n
  proof (induction n)
    case (Suc n)
    show ?case unfolding backup_tries.simps by (intro rules run Suc.IH)
  qed (unfold backup_tries.simps, rule rules)
  then show "keeps (keeps_old i) (get_backed_up_result v t)" by (simp add: get_backed_up_result_def)
  show "keeps (keeps_old i) (prepare_session v k)"
    unfolding prepare_session_def import_in_shell_def by (intro rules) simp_all
qed

lemma keeps_old_create:
  assumes "\<And>w j w'. sr_create v w = Some (Inr j, w') \<Longrightarrow> j \<noteq> i"
  shows "keeps (keeps_old i) (try_to_create_new_session v)"
proof -
  note rules = old.keeps keeps_old_intros keeps_splits
  have c: "keeps (keeps_old i) (create_session v)"
  proof (rule keeps_gen)
    fix s s' :: "repair_session \<times> 'a" and r
    assume "create_session v s = Some (r, s')"
    then show "keeps_old i s s'"
      unfolding create_session_def bnd_app
    proof (cases rule: seq_outcome_cases)
      case (error e)
      then show ?thesis using keepsD [OF keeps_old_intros(1)] by blast
    next
      case (ok j u)
      then have "j \<noteq> i" using assms by (cases s) (auto split: option.splits)
      moreover have "sn_sessions (fst u) = sn_sessions (fst s)" "sn_session (fst u) = sn_session (fst s)"
        using ok(1) by (cases s; auto split: option.splits)+
      ultimately have "keeps_old i s ((fst u)\<lparr>sn_session := Some j, sn_sessions := insert j (sn_sessions (fst u))\<rparr>, snd u)"
        by (simp add: keeps_old_def)
      moreover have "keeps_old i ((fst u)\<lparr>sn_session := Some j, sn_sessions := insert j (sn_sessions (fst u))\<rparr>, snd u) s'"
        by (rule keepsD [OF keeps_old_ops(3)]) (use ok(2) in \<open>cases u, simp\<close>)
      ultimately show ?thesis by (rule old.R_trans)
    qed
  qed
  have "keeps (keeps_old i) (create_new_session v)"
    unfolding create_new_session_def close_if_any_def by (intro rules c keeps_old_close keeps_old_ops)
  then show ?thesis unfolding try_to_create_new_session_def by (intro rules)
qed

text \<open>
  The same calls, with the sessions that are created and the calls that close one recorded, these also when
  they fail.
\<close>

datatype session_event = Created nat | Closed nat

definition recorded_env :: "'w repair_env \<Rightarrow> ('w \<times> session_event list) repair_env" where
  "recorded_env v = \<lparr>sr_exec = \<lambda>i c t. unrecorded (sr_exec v i c t), sr_stop_run = \<lambda>i. unrecorded (sr_stop_run v i),
     sr_is_hung = \<lambda>i. unrecorded (sr_is_hung v i), sr_loads = sr_loads v, sr_sleep = \<lambda>t. unrecorded (sr_sleep v t),
     sr_create = recording (\<lambda>r. case r of Inl e \<Rightarrow> [] | Inr j \<Rightarrow> [Created j]) (sr_create v),
     sr_close = \<lambda>i. recording (\<lambda>_. [Closed i]) (sr_close v i),
     sr_get_delay = \<lambda>i. unrecorded (sr_get_delay v i), sr_set_delay = \<lambda>i d. unrecorded (sr_set_delay v i d),
     sr_setup_working_directory = \<lambda>i. unrecorded (sr_setup_working_directory v i),
     sr_push_python = \<lambda>i. unrecorded (sr_push_python v i), sr_send_import = \<lambda>i. unrecorded (sr_send_import v i),
     sr_transfer = \<lambda>i. unrecorded (sr_transfer v i), sr_pop = \<lambda>i. unrecorded (sr_pop v i),
     sr_remove_working_directory = \<lambda>i. unrecorded (sr_remove_working_directory v i)\<rparr>"

lemma recorded_env_simps [simp]:
  "sr_exec (recorded_env v) i c t = unrecorded (sr_exec v i c t)" "sr_stop_run (recorded_env v) i = unrecorded (sr_stop_run v i)"
  "sr_is_hung (recorded_env v) i = unrecorded (sr_is_hung v i)" "sr_loads (recorded_env v) = sr_loads v"
  "sr_sleep (recorded_env v) t = unrecorded (sr_sleep v t)"
  "sr_create (recorded_env v) = recording (\<lambda>r. case r of Inl e \<Rightarrow> [] | Inr j \<Rightarrow> [Created j]) (sr_create v)"
  "sr_close (recorded_env v) i = recording (\<lambda>_. [Closed i]) (sr_close v i)"
  "sr_get_delay (recorded_env v) i = unrecorded (sr_get_delay v i)"
  "sr_set_delay (recorded_env v) i d = unrecorded (sr_set_delay v i d)"
  "sr_setup_working_directory (recorded_env v) i = unrecorded (sr_setup_working_directory v i)"
  "sr_push_python (recorded_env v) i = unrecorded (sr_push_python v i)"
  "sr_send_import (recorded_env v) i = unrecorded (sr_send_import v i)" "sr_transfer (recorded_env v) i = unrecorded (sr_transfer v i)"
  by (simp_all add: recorded_env_def)

text \<open>Steps that neither create nor close a session and leave the session of the object.\<close>

definition quiet_step :: "repair_session \<times> 'w \<times> session_event list \<Rightarrow> repair_session \<times> 'w \<times> session_event list \<Rightarrow> bool" where
  "quiet_step s s' \<longleftrightarrow> sn_session (fst s') = sn_session (fst s) \<and> snd (snd s') = snd (snd s)"

interpretation quiet: step_relation quiet_step
  by unfold_locales (auto simp: quiet_step_def)

lemma quiet_intros:
  "keeps quiet_step (in_world (unrecorded m))" "keeps quiet_step (of_option x)"
  "(\<And>s. sn_session (f s) = sn_session s) \<Longrightarrow> keeps quiet_step (upd f)"
  by (auto simp: upd_def of_option_def quiet_step_def intro!: quiet.keeps_modify quiet.keeps_simple split: option.splits)
    (rule keeps_gen, auto simp: in_world_def quiet_step_def split: option.splits prod.splits dest!: recording_cases)

lemma quiet_ops:
  "keeps quiet_step (get_backed_up_result (recorded_env v) t)" "keeps quiet_step (prepare_session (recorded_env v) k)"
  "keeps quiet_step (try_to_get_backup_result (recorded_env v) t)"
proof -
  note rules = quiet.keeps quiet_intros keeps_splits
  have sh: "keeps quiet_step runner_shell" unfolding runner_shell_def by (intro rules)
  have out: "keeps quiet_step (result_from_output (recorded_env v) out)" for out
    unfolding result_from_output_def by (auto split: option.splits intro!: rules)
  have run: "keeps quiet_step (run_with_error_serialization (recorded_env v) cmd t)" for cmd t
    unfolding run_with_error_serialization_def recorded_env_simps by (intro rules sh out)
  have "keeps quiet_step (backup_tries (recorded_env v) n)" for n
  proof (induction n)
    case (Suc n)
    show ?case unfolding backup_tries.simps recorded_env_simps by (intro rules run Suc.IH)
  qed (unfold backup_tries.simps, rule rules)
  then show b: "keeps quiet_step (get_backed_up_result (recorded_env v) t)" by (simp add: get_backed_up_result_def)
  show "keeps quiet_step (prepare_session (recorded_env v) k)"
    unfolding prepare_session_def import_in_shell_def recorded_env_simps by (intro rules) simp_all
  show "keeps quiet_step (try_to_get_backup_result (recorded_env v) t)"
    unfolding try_to_get_backup_result_def by (intro rules b)
qed

text \<open>
  What has happened when there is a session: it was created here, it is not \<open>i\<close>, and no other was closed.
\<close>

definition only_new :: "nat \<Rightarrow> repair_session \<times> 'w \<times> session_event list \<Rightarrow> bool" where
  "only_new i s \<longleftrightarrow> (case sn_session (fst s) of None \<Rightarrow> True
     | Some j \<Rightarrow> j \<noteq> i \<and> (\<exists>n. snd (snd s) = Created j # replicate n (Closed j)))"

lemma only_new_quiet: "only_new i s \<Longrightarrow> quiet_step s s' \<Longrightarrow> only_new i s'"
  by (simp add: only_new_def quiet_step_def cong: option.case_cong)

lemma session_close_recorded:
  assumes "session_close (recorded_env v) s = Some (r, s')" "only_new i s"
  shows "only_new i s' \<and> (\<forall>u. r = Inr u \<longrightarrow> sn_session (fst s') = None \<and> (\<exists>j n. j \<noteq> i \<and> j \<notin> sn_sessions (fst s') \<and>
    snd (snd s') = Created j # replicate (Suc n) (Closed j)))"
proof -
  obtain p w l where s: "s = (p, w, l)" by (cases s) auto
  show ?thesis
  proof (cases "sn_session p")
    case None
    then show ?thesis using assms s by (auto simp: session_close_def the_session_def of_option_def)
  next
    case (Some j)
    then obtain n where j: "j \<noteq> i" "l = Created j # replicate n (Closed j)" using assms(2) s by (auto simp: only_new_def)
    have "sn_session (fst s') = Some j \<and> r \<noteq> Inr () \<and> (snd (snd s') = l \<or> snd (snd s') = l @ [Closed j]) \<or>
        sn_session (fst s') = None \<and> j \<notin> sn_sessions (fst s') \<and> snd (snd s') = l @ [Closed j]"
      using assms(1) Some s
      by (auto simp: session_close_def the_session_def of_option_def in_world_def case_prod_beta
          elim!: seq_outcome_cases dest!: recording_cases split: if_splits option.splits)
    moreover have "l @ [Closed j] = Created j # replicate (Suc n) (Closed j)" using j(2) by (simp add: replicate_append_same)
    ultimately show ?thesis using j unfolding only_new_def by (auto simp del: replicate_Suc)
  qed
qed

lemma create_session_recorded:
  assumes "create_session (recorded_env v) (p, w, []) = Some (r, s')" "sn_session p = None"
    and "\<And>w j w'. sr_create v w = Some (Inr j, w') \<Longrightarrow> j \<noteq> i"
  shows "only_new i s'"
  using assms(1) unfolding create_session_def bnd_app
proof (cases rule: seq_outcome_cases)
  case (error e)
  then show ?thesis using assms(2) by (auto simp: in_world_def only_new_def split: option.splits)
next
  case (ok j u)
  obtain w' where u: "u = (p, w', [Created j])" and "sr_create v w = Some (Inr j, w')"
    using ok(1) by (auto simp: in_world_def split: option.splits dest!: recording_cases)
  then have "j \<noteq> i" using assms(3) by blast
  then have "only_new i (p\<lparr>sn_session := Some j, sn_sessions := insert j (sn_sessions p)\<rparr>, w', [Created j])"
    by (auto simp: only_new_def intro: exI [of _ 0])
  moreover have "quiet_step (p\<lparr>sn_session := Some j, sn_sessions := insert j (sn_sessions p)\<rparr>, w', [Created j]) s'"
    by (rule keepsD [OF quiet_ops(2)]) (use ok(2) u in simp)
  ultimately show ?thesis by (rule only_new_quiet)
qed

lemma try_to_create_recorded:
  assumes "try_to_create_new_session (recorded_env v) (p, w, []) = Some (r, s')" "sn_session p = None"
    and "\<And>w j w'. sr_create v w = Some (Inr j, w') \<Longrightarrow> j \<noteq> i"
  shows "only_new i s'"
proof -
  have close: "only_new i t'" if "close_if_any (recorded_env v) (session_close (recorded_env v)) t = Some (x, t')" "only_new i t" for t x t'
    using that session_close_recorded [of v t x t' i] by (auto simp: close_if_any_def case_prod_beta split: if_splits)
  have new: "only_new i t" if "create_new_session (recorded_env v) (p, w, []) = Some (x, t)" for x t
    using that unfolding create_new_session_def catching_app
  proof (cases rule: catch_outcome_cases)
    case (ok a)
    then show ?thesis using create_session_recorded [OF _ assms(2,3)] assms(2) by (simp add: close_if_any_def)
  next
    case (error e u)
    then have "only_new i u" using create_session_recorded [OF _ assms(2,3)] assms(2) by (simp add: close_if_any_def)
    show ?thesis
    proof (cases "is_Exception e")
      case True
      have "\<exists>y. close_if_any (recorded_env v) (session_close (recorded_env v)) u = Some (y, t)"
        using error(2) True by (auto elim!: seq_outcome_cases)
      then show ?thesis using close \<open>only_new i u\<close> by blast
    next
      case False
      then show ?thesis using error(2) \<open>only_new i u\<close> by simp
    qed
  qed
  show ?thesis using assms(1) unfolding try_to_create_new_session_def catching_app
  proof (cases rule: catch_outcome_cases)
    case (ok a)
    then show ?thesis using new by blast
  next
    case (error e u)
    have "keeps quiet_step (if is_a_timeout e then bnd (gets (\<lambda>(s, w). sn_sleep s)) (\<lambda>t. in_world (unrecorded (sr_sleep v t))) else throw e)"
      by (intro quiet.keeps quiet_intros keeps_splits)
    from keepsD [OF this error(2) [unfolded recorded_env_simps]] show ?thesis by (rule only_new_quiet [OF new [OF error(1)]])
  qed
qed

text \<open>
  C40: when a hung run is answered from the backup, the session that is closed at the end is the one that was
  just created: exactly one session was created, all calls that closed a session closed that one, at least
  once, and it is no longer among the open ones. The session that hung is never closed, it stays among the open
  ones, and the object is left without a session. The argument with which \<open>_session_close\<close> is called, the
  hung session, is not used.
\<close>

theorem hung_run_closes_new_session:
  assumes "try_to_get_hung_run_result (recorded_env v) t (s, w, []) = Some (Inr res, (s', w', l))"
    and "sn_session s = Some i" "i \<in> sn_sessions s"
    and "\<And>w j w'. sr_create v w = Some (Inr j, w') \<Longrightarrow> j \<noteq> i"
  shows "(\<exists>j n. j \<noteq> i \<and> l = Created j # replicate (Suc n) (Closed j) \<and> j \<notin> sn_sessions s') \<and>
    sn_session s' = None \<and> i \<in> sn_sessions s'"
proof -
  let ?v = "recorded_env v"
  let ?s = "(s\<lparr>sn_session := None\<rparr>, w, [])"
  let ?m = "andthen (try_to_create_new_session ?v) (try_to_get_backup_result ?v t)"
  obtain x u where m: "?m ?s = Some (x, u)"
    and f: "seq_outcome (session_close ?v u) (\<lambda>_ s'. Some (x, s')) = Some (Inr res, (s', w', l))"
    using assms(1,2) by (auto simp: try_to_get_hung_run_result_def finally_do_def bind_eq_Some_conv case_prod_beta)
  have new: "j \<noteq> i" if "sr_create ?v w = Some (Inr j, w')" for w j w'
    using that assms(4) by (cases w; cases w') (auto dest!: recording_cases)
  have "keeps (keeps_old i) ?m"
    unfolding try_to_get_backup_result_def
    by (intro old.keeps keeps_if keeps_old_create [OF new] keeps_old_ops)
  from keepsD [OF this m] assms(3) have u: "i \<in> sn_sessions (fst u)" "sn_session (fst u) \<noteq> Some i"
    by (simp_all add: keeps_old_def)
  have created: "only_new i t1" if "try_to_create_new_session ?v ?s = Some (y, t1)" for y t1
    by (rule try_to_create_recorded [OF that]) (simp, rule assms(4))
  have "only_new i u" using m unfolding andthen_app
  proof (cases rule: seq_outcome_cases)
    case (ok a t1)
    show ?thesis using created [OF ok(1)] keepsD [OF quiet_ops(3) ok(2)] by (rule only_new_quiet)
  qed (rule created)
  from f show ?thesis
  proof (cases rule: seq_outcome_cases)
    case (ok a t1)
    then have c: "session_close ?v u = Some (Inr (), (s', w', l))" by auto
    show ?thesis using keepsD [OF keeps_old_close c, of i] session_close_recorded [OF c \<open>only_new i u\<close>] u
      by (auto simp: keeps_old_def)
  qed simp
qed

text \<open>A terminal that hangs once and answers from the backup afterwards.\<close>

definition hanging_terminal :: "unit repair_env" where
  "hanging_terminal = dead_terminal\<lparr>sr_exec := (\<lambda>i c t. ret []),
     sr_loads := (\<lambda>out. Some (Some (Successful 0 [] (0, ''out'', []))))\<rparr>"

theorem hung_run_closes_new_session_witness:
  "\<exists>s' l. try_to_get_hung_run_result (recorded_env hanging_terminal) 1
      ((new_repair_session 3 1)\<lparr>sn_session := Some 4, sn_sessions := {4}\<rparr>, (), []) = Some (Inr (0, ''out'', []), (s', (), l)) \<and>
    sn_session s' = None \<and> 4 \<in> sn_sessions s' \<and> Closed 4 \<notin> set l \<and> (\<exists>j. Closed j \<in> set l)"
proof -
  let ?p = "(new_repair_session 3 1)\<lparr>sn_session := Some 4, sn_sessions := {4}\<rparr>"
  have n: "nat \<lfloor>let t = expect_timeout 1 in if 1 < t then t else 1\<rfloor> = Suc 1"
    by (simp add: expect_timeout_def)
  obtain s' l where r: "try_to_get_hung_run_result (recorded_env hanging_terminal) 1 (?p, (), []) =
      Some (Inr (0, ''out'', []), (s', (), l))"
    by (simp add: try_to_get_hung_run_result_def try_to_create_new_session_def create_new_session_def
        close_if_any_def create_session_def prepare_session_def import_in_shell_def try_to_get_backup_result_def
        get_backed_up_result_def n run_with_error_serialization_def runner_shell_def of_option_def
        result_from_output_def get_run_result_def session_close_def the_session_def finally_do_app recording_def
        hanging_terminal_def dead_terminal_def new_repair_session_def)
  moreover have "j \<noteq> 4" if "sr_create hanging_terminal w = Some (Inr j, w')" for w j w'
    using that by (simp add: hanging_terminal_def dead_terminal_def)
  ultimately show ?thesis
    using hung_run_closes_new_session [OF r, of 4] by (auto simp: new_repair_session_def)
qed

end
