(* ===== verification/InteractiveSession.thy ===== *)
theory InteractiveSession
  imports Compatibility "HOL-Library.Sublist"
begin

text \<open>
  \<open>InteractiveSession.py\<close>: a terminal and the stack of the shells that run in it. Shells are
  objects; what the session asks of a shell or of the terminal is a program of the rest of the
  world (\<open>shell_calls\<close>). The files that log the traffic are not modelled.
\<close>

section \<open>The session and what it calls\<close>

record isession =
  se_shells :: "nat list"
  se_terminal :: bool

record 'w shell_calls =
  sc_spawn :: "nat \<Rightarrow> rat \<Rightarrow> ('w, unit) py"
  sc_set_terminal :: "nat \<Rightarrow> ('w, unit) py"
  sc_start :: "nat \<Rightarrow> ('w, ustr) py"
  sc_exit :: "nat \<Rightarrow> ('w, unit) py"
  sc_exec_start_cmd_of :: "nat \<Rightarrow> nat \<Rightarrow> ('w, unit) py"
  sc_copy_tty_echo :: "nat \<Rightarrow> nat \<Rightarrow> ('w, unit) py"
  sc_set_prompt :: "nat \<Rightarrow> ('w, unit) py"
  sc_expect_prompt :: "nat \<Rightarrow> rat \<Rightarrow> ('w, unit) py"
  sc_prompt_from_terminal :: "nat \<Rightarrow> rat \<Rightarrow> ('w, ustr) py"
  sc_prompt_matches :: "nat \<Rightarrow> ustr \<Rightarrow> 'w \<Rightarrow> bool"
  sc_read_until_prompt :: "nat \<Rightarrow> ('w, ustr) py"
  sc_close_terminal :: "('w, unit) py"
  sc_isalive :: "'w \<Rightarrow> bool"

type_synonym ('w, 'a) session_op = "(isession \<times> 'w, 'a) py"

definition new_isession :: isession where
  "new_isession = \<lparr>se_shells = [], se_terminal = False\<rparr>"

definition current_shell :: "('w, nat) session_op" where
  "current_shell = bnd (gets (\<lambda>(s, w). se_shells s)) (\<lambda>l.
     if l = [] then throw (RunnerTerminalSessionBroken None) else ret (last l))"

definition on_current :: "(nat \<Rightarrow> ('w, 'a) py) \<Rightarrow> ('w, 'a) session_op" where
  "on_current f = bnd current_shell (\<lambda>c. in_world (f c))"

text \<open>\<open>shells[-2]\<close>\<close>

definition get_parent_shell :: "('w, nat) session_op" where
  "get_parent_shell = bnd (gets (\<lambda>(s, w). se_shells s)) (\<lambda>l.
     if length l < 2 then throw IndexError else ret (l ! (length l - 2)))"

definition get_nbr_of_shells :: "isession \<Rightarrow> nat" where
  "get_nbr_of_shells s = length (se_shells s)"

definition append_shell :: "nat \<Rightarrow> ('w, unit) session_op" where
  "append_shell i = upd (\<lambda>s. s\<lparr>se_shells := se_shells s @ [i]\<rparr>)"

section \<open>Starting shells\<close>

definition session_spawn :: "'w shell_calls \<Rightarrow> rat \<Rightarrow> nat \<Rightarrow> ('w, ustr) session_op" where
  "session_spawn sc spawn_timeout i =
     andthen (in_world (sc_spawn sc i spawn_timeout))
       (andthen (upd (\<lambda>s. s\<lparr>se_terminal := True\<rparr>))
         (andthen (in_world (sc_set_terminal sc i))
           (bnd (in_world (sc_start sc i)) (\<lambda>r. andthen (append_shell i) (ret r)))))"

text \<open>
  A shell that reports its own failure leaves the shell below to set its prompt again; after any
  other exception the prompt of the shell below is awaited. Both raise the exception again.
\<close>

definition start_pushed :: "'w shell_calls \<Rightarrow> nat \<Rightarrow> rat \<Rightarrow> ('w, ustr) session_op" where
  "start_pushed sc i timeout =
     catching (bnd (in_world (sc_start sc i)) (\<lambda>r. andthen (append_shell i) (ret r)))
       (\<lambda>e. if e = ShellStartError
            then andthen (on_current (sc_set_prompt sc)) (throw e)
            else if is_Exception e
            then andthen (on_current (\<lambda>c. sc_expect_prompt sc c timeout)) (throw e)
            else throw e)"

definition session_push :: "'w shell_calls \<Rightarrow> nat \<Rightarrow> rat \<Rightarrow> ('w, ustr) session_op" where
  "session_push sc i timeout =
     andthen (on_current (\<lambda>c. sc_exec_start_cmd_of sc c i))
       (andthen (in_world (sc_set_terminal sc i))
         (andthen (on_current (\<lambda>c. sc_copy_tty_echo sc i c))
           (start_pushed sc i timeout)))"

section \<open>Leaving shells\<close>

definition prompt_should_match :: "'w shell_calls \<Rightarrow> nat option \<Rightarrow> ('w, unit) session_op" where
  "prompt_should_match sc shell_to_match =
     bnd (case shell_to_match of None \<Rightarrow> current_shell | Some i \<Rightarrow> ret i) (\<lambda>m.
       bnd (on_current (\<lambda>c. sc_prompt_from_terminal sc c 3)) (\<lambda>p.
         bnd (gets (\<lambda>(s, w). sc_prompt_matches sc m p w)) (\<lambda>ok.
           if ok then ret () else bnd current_shell (\<lambda>_. throw UnexpectedPrompt))))"

text \<open>\<open>list.pop()\<close>\<close>

definition pop_shell :: "('w, unit) session_op" where
  "pop_shell = bnd (gets (\<lambda>(s, w). se_shells s)) (\<lambda>l.
     if l = [] then throw IndexError else upd (\<lambda>s. s\<lparr>se_shells := butlast (se_shells s)\<rparr>))"

definition session_pop_once :: "'w shell_calls \<Rightarrow> ('w, unit) session_op" where
  "session_pop_once sc = finally_do
     (andthen (prompt_should_match sc None) (on_current (sc_exit sc))) pop_shell"

definition session_pop :: "'w shell_calls \<Rightarrow> ('w, ustr option) session_op" where
  "session_pop sc = andthen (session_pop_once sc)
     (bnd (gets (\<lambda>(s, w). se_shells s)) (\<lambda>l. if l = [] then ret None
       else bnd (on_current (sc_read_until_prompt sc)) (\<lambda>r. ret (Some r))))"

text \<open>
  The loops pop one shell in every round, so they end when the calls they make do.
\<close>

partial_function (option) session_pop_until ::
  "'w shell_calls \<Rightarrow> nat \<Rightarrow> isession \<times> 'w \<Rightarrow> ((exn + unit) \<times> isession \<times> 'w) option" where
  "session_pop_until sc i s =
     (if i \<in> set (se_shells (fst s)) then
        (case prompt_should_match sc (Some i) s of
           None \<Rightarrow> None
         | Some (Inr u, s1) \<Rightarrow> Some (Inr (), s1)
         | Some (Inl e, s1) \<Rightarrow>
             if e = UnexpectedPrompt
             then seq_outcome (session_pop_once sc s1) (\<lambda>_ s2. session_pop_until sc i s2)
             else Some (Inl e, s1))
      else Some (Inl UnknownShellState, s))"

partial_function (option) pop_all ::
  "'w shell_calls \<Rightarrow> isession \<times> 'w \<Rightarrow> ((exn + unit) \<times> isession \<times> 'w) option" where
  "pop_all sc s =
     (if se_shells (fst s) = [] then Some (Inr (), s)
      else case session_pop_once sc s of
        None \<Rightarrow> None
      | Some (Inr u, s1) \<Rightarrow> pop_all sc s1
      | Some (Inl e, s1) \<Rightarrow> if e = UnexpectedPrompt then pop_all sc s1 else Some (Inl e, s1))"

definition session_close_terminal :: "'w shell_calls \<Rightarrow> ('w, unit) session_op" where
  "session_close_terminal sc = andthen (pop_all sc)
     (bnd (gets (\<lambda>(s, w). se_terminal s)) (\<lambda>b.
       if b then andthen (in_world (sc_close_terminal sc))
         (upd (\<lambda>s. s\<lparr>se_shells := [], se_terminal := False\<rparr>))
       else throw AttributeError))"

definition session_isalive :: "'w shell_calls \<Rightarrow> ('w, bool) session_op" where
  "session_isalive sc = bnd (gets (\<lambda>(s, w). (se_terminal s, sc_isalive sc w))) (\<lambda>(b, a).
     if b then ret a else throw AttributeError)"

section \<open>The stack discipline\<close>

text \<open>Programs that do not touch the stack, and what pushing and popping do to it.\<close>

definition same_stack :: "isession \<times> 'w \<Rightarrow> isession \<times> 'w \<Rightarrow> bool" where
  "same_stack s s' \<longleftrightarrow> fst s' = fst s"

interpretation stk: step_relation same_stack
  by unfold_locales (auto simp: same_stack_def)

lemma same_stack_in_world: "keeps same_stack (in_world m)"
  by (rule keeps_gen) (auto simp: in_world_def same_stack_def split: option.splits prod.splits)

lemma same_stack_current: "keeps same_stack current_shell"
  unfolding current_shell_def by (intro stk.keeps_bnd stk.keeps_simple keeps_if)

lemma same_stack_on_current: "keeps same_stack (on_current f)"
  unfolding on_current_def by (intro stk.keeps_bnd same_stack_current same_stack_in_world)

lemmas same_stack_intros = same_stack_on_current stk.keeps_bnd stk.keeps_andthen stk.keeps_simple keeps_if keeps_case_option
  same_stack_in_world same_stack_current

lemma same_stack_prompt: "keeps same_stack (prompt_should_match sc m)"
  unfolding prompt_should_match_def by (intro same_stack_intros)

lemma pop_once_pops:
  assumes "session_pop_once sc s = Some (r, s')" "se_shells (fst s) \<noteq> []"
  shows "fst s' = (fst s)\<lparr>se_shells := butlast (se_shells (fst s))\<rparr>"
proof -
  let ?m = "andthen (prompt_should_match sc None) (on_current (sc_exit sc))"
  obtain x u where m: "?m s = Some (x, u)" and f: "seq_outcome (pop_shell u) (\<lambda>_ s'. Some (x, s')) = Some (r, s')"
    using assms(1) by (cases "?m s") (auto simp: session_pop_once_def finally_do_def)
  have "keeps same_stack ?m"
    by (intro same_stack_intros same_stack_prompt)
  then have "fst u = fst s" using m by (auto dest: keepsD simp: same_stack_def)
  then show ?thesis
    using f assms(2) by (cases u) (auto simp: pop_shell_def)
qed

text \<open>A shell is on the stack after a push exactly when the push returned.\<close>

definition pushed :: "nat \<Rightarrow> (exn + ustr) \<Rightarrow> isession \<times> 'w \<Rightarrow> isession \<times> 'w \<Rightarrow> bool" where
  "pushed i r s s' \<longleftrightarrow> (case r of
     Inr out \<Rightarrow> fst s' = (fst s)\<lparr>se_shells := se_shells (fst s) @ [i]\<rparr> | Inl e \<Rightarrow> fst s' = fst s)"

lemma start_pushed_stack:
  assumes "start_pushed sc i t s = Some (r, s')"
  shows "pushed i r s s'"
proof -
  let ?h = "\<lambda>e. if e = ShellStartError
      then andthen (on_current (sc_set_prompt sc)) (throw e)
      else if is_Exception e
      then andthen (on_current (\<lambda>c. sc_expect_prompt sc c t)) (throw e) else throw e"
  have h: "keeps same_stack (?h e :: ('a, ustr) session_op)" for e by (intro same_stack_intros)
  have h_raises: "?h e u = Some (q, v) \<Longrightarrow> \<exists>e'. q = Inl e'" for e u v and q :: "exn + ustr"
    by (auto split: if_splits elim!: seq_outcome_cases)
  obtain p w where s: "s = (p, w)" by (cases s)
  show ?thesis
  proof (cases "sc_start sc i w")
    case None
    then show ?thesis using assms by (simp add: start_pushed_def s)
  next
    case (Some z)
    obtain x w' where x: "sc_start sc i w = Some (x, w')" using Some by (cases z) simp
    show ?thesis
    proof (cases x)
      case (Inr out)
      then show ?thesis using assms x by (auto simp: start_pushed_def s append_shell_def pushed_def)
    next
      case (Inl e)
      then have e: "?h e (p, w') = Some (r, s')" using assms x by (simp add: start_pushed_def s)
      then show ?thesis
        using keepsD [OF h e] h_raises [OF e] by (auto simp: pushed_def same_stack_def s)
    qed
  qed
qed

lemma push_stack:
  assumes "session_push sc i t s = Some (r, s')"
  shows "pushed i r s s'"
proof -
  note d = keepsD [OF same_stack_on_current] keepsD [OF same_stack_in_world]
  show ?thesis
    using assms unfolding session_push_def andthen_app
    by (elim seq_outcome_cases) (auto dest!: d start_pushed_stack simp: pushed_def same_stack_def split: sum.splits)
qed

subsection \<open>The loops end\<close>

definition calls_return :: "'w shell_calls \<Rightarrow> bool" where
  "calls_return sc \<longleftrightarrow> (\<forall>i t. ends (sc_prompt_from_terminal sc i t)) \<and> (\<forall>i. ends (sc_exit sc i)) \<and>
     ends (sc_close_terminal sc)"

lemma ends_current: "ends current_shell"
  unfolding current_shell_def by (intro ends_intros)

lemma ends_on_current: "(\<And>i. ends (f i)) \<Longrightarrow> ends (on_current f)"
  unfolding on_current_def by (intro ends_intros ends_current)

lemma ends_prompt: "calls_return sc \<Longrightarrow> ends (prompt_should_match sc m)"
  unfolding prompt_should_match_def
  by (intro ends_intros ends_current ends_on_current) (auto simp: calls_return_def)

lemma ends_pop_once: "calls_return sc \<Longrightarrow> ends (session_pop_once sc)"
  unfolding session_pop_once_def pop_shell_def
  by (intro ends_intros ends_prompt ends_on_current) (auto simp: calls_return_def)

lemma prompt_should_match_returns:
  "calls_return sc \<Longrightarrow> \<exists>r s'. prompt_should_match sc m s = Some (r, s') \<and> fst s' = fst s"
  using endsD [OF ends_prompt, of sc m s] keepsD [OF same_stack_prompt] by (fastforce simp: same_stack_def)

lemma pop_once_returns:
  "calls_return sc \<Longrightarrow> se_shells (fst s) \<noteq> [] \<Longrightarrow> \<exists>r s'. session_pop_once sc s = Some (r, s') \<and>
    fst s' = (fst s)\<lparr>se_shells := butlast (se_shells (fst s))\<rparr>"
  using endsD [OF ends_pop_once, of sc s] pop_once_pops by blast

lemma pop_all_returns:
  assumes "calls_return sc"
  shows "\<exists>r s'. pop_all sc s = Some (r, s') \<and> se_terminal (fst s') = se_terminal (fst s) \<and>
    (case r of Inr u \<Rightarrow> se_shells (fst s') = [] | Inl e \<Rightarrow> e \<noteq> UnexpectedPrompt)"
proof (induction "length (se_shells (fst s))" arbitrary: s)
  case 0
  then show ?case by (subst pop_all.simps) simp
next
  case (Suc n)
  then have ne: "se_shells (fst s) \<noteq> []" by auto
  obtain r s1 where s1: "session_pop_once sc s = Some (r, s1)"
    "fst s1 = (fst s)\<lparr>se_shells := butlast (se_shells (fst s))\<rparr>"
    using pop_once_returns [OF assms ne] by blast
  have "n = length (se_shells (fst s1))" using Suc.hyps(2) s1(2) by simp
  from Suc.hyps(1) [OF this] show ?case
    using s1 ne by (cases s1, subst pop_all.simps) (auto split: sum.splits)
qed

text \<open>
  Closing ends and, unless a call raises something else than \<open>UnexpectedPrompt\<close>, leaves no shell and
  no terminal.
\<close>

lemma close_terminal_returns:
  assumes "calls_return sc" "se_terminal (fst s)"
  shows "\<exists>r s'. session_close_terminal sc s = Some (r, s') \<and>
    (case r of Inr u \<Rightarrow> fst s' = new_isession | Inl e \<Rightarrow> e \<noteq> UnexpectedPrompt \<or> se_shells (fst s') = [])"
proof -
  obtain r s1 where s1: "pop_all sc s = Some (r, s1)" "se_terminal (fst s1) = se_terminal (fst s)"
    "case r of Inr u \<Rightarrow> se_shells (fst s1) = [] | Inl e \<Rightarrow> e \<noteq> UnexpectedPrompt"
    using pop_all_returns [OF assms(1)] by blast
  obtain p w where p: "s1 = (p, w)" by (cases s1)
  obtain x w' where x: "sc_close_terminal sc w = Some (x, w')"
    using endsD [of "sc_close_terminal sc" w] assms(1) by (auto simp: calls_return_def)
  show ?thesis
    using s1 x assms(2) p by (cases r; cases x) (auto simp: session_close_terminal_def new_isession_def)
qed

text \<open>
  \<open>pop_until\<close> ends. It leaves a bottom part of the stack; when it returns the shell is on it, and
  \<open>UnknownShellState\<close> means that it is not.
\<close>

lemma pop_until_returns:
  assumes "calls_return sc"
  shows "\<exists>r s'. session_pop_until sc i s = Some (r, s') \<and>
    prefix (se_shells (fst s')) (se_shells (fst s)) \<and>
    (case r of Inr u \<Rightarrow> i \<in> set (se_shells (fst s')) | Inl e \<Rightarrow> True)"
proof (induction "length (se_shells (fst s))" arbitrary: s rule: less_induct)
  case less
  show ?case
  proof (cases "i \<in> set (se_shells (fst s))")
    case False
    then show ?thesis by (subst session_pop_until.simps) simp
  next
    case True
    obtain r s1 where s1: "prompt_should_match sc (Some i) s = Some (r, s1)" "fst s1 = fst s"
      using prompt_should_match_returns [OF assms] by blast
    show ?thesis
    proof (cases "r = Inl UnexpectedPrompt")
      case False
      then show ?thesis
        using s1 True by (cases s1, subst session_pop_until.simps) (auto split: sum.splits)
    next
      case up: True
      have ne: "se_shells (fst s1) \<noteq> []" using True s1(2) by auto
      obtain q s2 where s2: "session_pop_once sc s1 = Some (q, s2)"
        "fst s2 = (fst s1)\<lparr>se_shells := butlast (se_shells (fst s1))\<rparr>"
        using pop_once_returns [OF assms ne] by blast
      have pre: "prefix (se_shells (fst s2)) (se_shells (fst s))"
        using s2(2) s1(2) by (simp add: prefixeq_butlast)
      have "length (se_shells (fst s2)) < length (se_shells (fst s))"
        using s2(2) s1(2) ne by (cases "se_shells (fst s)" rule: rev_cases) auto
      from less.hyps [OF this] pre show ?thesis
        using s1 s2 True up by (subst session_pop_until.simps) (cases q, auto intro: prefix_order.trans)
    qed
  qed
qed
section \<open>What a session promises\<close>

text \<open>A shell that answers every call at once and a session of two of them, for examples.\<close>

definition quiet_calls :: "bool \<Rightarrow> unit shell_calls" where
  "quiet_calls match = \<lparr>sc_spawn = (\<lambda>i t. ret ()), sc_set_terminal = (\<lambda>i. ret ()), sc_start = (\<lambda>i. ret []),
     sc_exit = (\<lambda>i. ret ()), sc_exec_start_cmd_of = (\<lambda>c i. ret ()), sc_copy_tty_echo = (\<lambda>i c. ret ()),
     sc_set_prompt = (\<lambda>i. ret ()), sc_expect_prompt = (\<lambda>i t. ret ()), sc_prompt_from_terminal = (\<lambda>i t. ret []),
     sc_prompt_matches = (\<lambda>i p w. match), sc_read_until_prompt = (\<lambda>i. ret []), sc_close_terminal = ret (),
     sc_isalive = (\<lambda>w. True)\<rparr>"

lemma quiet_calls_return: "calls_return (quiet_calls b)"
  by (simp add: calls_return_def quiet_calls_def)

text \<open>
  C23: closing a terminal ends whenever the calls to the shells do, because every round pops one shell. When
  it returns there is no shell and no terminal left. A prompt that does not match stops it only after the
  last shell was popped.
\<close>

theorem close_terminal_ends:
  assumes "calls_return sc" "se_terminal (fst s)"
  shows "\<exists>r s'. session_close_terminal sc s = Some (r, s') \<and>
    (case r of Inr u \<Rightarrow> fst s' = new_isession | Inl e \<Rightarrow> e \<noteq> UnexpectedPrompt \<or> se_shells (fst s') = [])"
  using assms by (rule close_terminal_returns)

theorem close_terminal_ends_witness:
  "\<exists>r s'. session_close_terminal (quiet_calls False) (\<lparr>se_shells = [1, 2], se_terminal = True\<rparr>, ()) = Some (r, s') \<and>
    (case r of Inr u \<Rightarrow> fst s' = new_isession | Inl e \<Rightarrow> e \<noteq> UnexpectedPrompt \<or> se_shells (fst s') = [])"
  by (rule close_terminal_ends [OF quiet_calls_return]) simp

text \<open>
  C24: \<open>pop_until\<close> ends whenever the calls to the shells do. What it leaves is a bottom part of the stack,
  and when it returns the shell it was given is still there.
\<close>

theorem pop_until_ends:
  assumes "calls_return sc"
  shows "\<exists>r s'. session_pop_until sc i s = Some (r, s') \<and>
    prefix (se_shells (fst s')) (se_shells (fst s)) \<and>
    (case r of Inr u \<Rightarrow> i \<in> set (se_shells (fst s')) | Inl e \<Rightarrow> True)"
  using assms by (rule pop_until_returns)

theorem pop_until_ends_witness:
  "\<exists>r s'. session_pop_until (quiet_calls False) 1 (\<lparr>se_shells = [1, 2], se_terminal = True\<rparr>, ()) = Some (r, s') \<and>
    prefix (se_shells (fst s')) [1, 2] \<and> (case r of Inr u \<Rightarrow> 1 \<in> set (se_shells (fst s')) | Inl e \<Rightarrow> True)"
  using pop_until_ends [OF quiet_calls_return, of False 1 "(\<lparr>se_shells = [1, 2], se_terminal = True\<rparr>, ())"] by simp

text \<open>
  C25: a shell is on top of the stack after a push exactly when the push returned; a push that raises, at any
  of its steps, leaves the stack as it was.
\<close>

theorem push_is_all_or_nothing:
  assumes "session_push sc i t s = Some (r, s')"
  shows "case r of Inr out \<Rightarrow> fst s' = (fst s)\<lparr>se_shells := se_shells (fst s) @ [i]\<rparr> | Inl e \<Rightarrow> fst s' = fst s"
  using push_stack [OF assms] by (simp add: pushed_def)

theorem push_is_all_or_nothing_witness:
  "\<exists>s'. session_push (quiet_calls True) 7 30 (\<lparr>se_shells = [1], se_terminal = True\<rparr>, ()) = Some (Inr [], s') \<and>
    se_shells (fst s') = [1, 7]"
proof -
  obtain s' where s': "session_push (quiet_calls True) 7 30 (\<lparr>se_shells = [1], se_terminal = True\<rparr>, ()) = Some (Inr [], s')"
    by (simp add: session_push_def on_current_def current_shell_def quiet_calls_def start_pushed_def append_shell_def)
  from push_is_all_or_nothing [OF this] s' show ?thesis by auto
qed

end
