(* ===== verification/Sessions.thy ===== *)
theory Sessions
  imports InteractiveSession PyText
begin

text \<open>
  The users of interactive sessions: \<open>InteractiveSessions.py\<close> (terminals by name),
  \<open>InteractiveSessionExecutor.py\<close> (the way from the controller to a node),
  \<open>InteractiveExecutor.py\<close> and \<open>SessionManager.py\<close> (a session for every node, made on demand). What
  shells do with a command is an argument.
\<close>

section \<open>Terminals by name\<close>

record sessions =
  ss_terminals :: "string \<rightharpoonup> isession"
  ss_default_name :: string

type_synonym ('w, 'a) sessions_op = "(sessions \<times> 'w, 'a) py"

text \<open>What the current shell is asked for; text is stripped by the callers.\<close>

record 'w shell_commands =
  cm_get_prompt :: "nat \<Rightarrow> ('w, ustr) py"
  cm_get_status_code :: "nat \<Rightarrow> ('w, int) py"
  cm_get_pid :: "nat \<Rightarrow> ('w, int) py"
  cm_exec_command :: "nat \<Rightarrow> ustr \<Rightarrow> rat \<Rightarrow> ('w, ustr) py"
  cm_exec_prompting_command :: "nat \<Rightarrow> ustr \<Rightarrow> (ustr \<times> ustr) list \<Rightarrow> rat \<Rightarrow> ('w, ustr) py"
  cm_exec_command_expecting_more :: "nat \<Rightarrow> ustr \<Rightarrow> ustr \<Rightarrow> ('w, nat \<times> ustr) py"

definition is_uspace :: "nat \<Rightarrow> bool" where
  "is_uspace c \<longleftrightarrow> c = 32 \<or> (9 \<le> c \<and> c \<le> 13) \<or> (28 \<le> c \<and> c \<le> 31) \<or> c = 133 \<or> c = 160 \<or> c = 5760 \<or>
     (8192 \<le> c \<and> c \<le> 8202) \<or> c = 8232 \<or> c = 8233 \<or> c = 8239 \<or> c = 8287 \<or> c = 12288"

definition ustrip :: "ustr \<Rightarrow> ustr" where
  "ustrip s = rev (dropWhile is_uspace (rev (dropWhile is_uspace s)))"

definition new_sessions :: sessions where
  "new_sessions = \<lparr>ss_terminals = Map.empty, ss_default_name = ''default_terminal''\<rparr>"

definition set_default_terminal_name :: "string \<Rightarrow> ('w, unit) sessions_op" where
  "set_default_terminal_name n = upd (\<lambda>s. s\<lparr>ss_default_name := n\<rparr>)"

definition terminal_name_of :: "string option \<Rightarrow> ('w, string) sessions_op" where
  "terminal_name_of n = bnd (gets fst) (\<lambda>s. ret (case n of None \<Rightarrow> ss_default_name s | Some x \<Rightarrow> x))"

definition create_terminal :: "string option \<Rightarrow> ('w, string) sessions_op" where
  "create_terminal name = bnd (terminal_name_of name) (\<lambda>n. bnd (gets (\<lambda>(s, w). ss_terminals s n)) (\<lambda>t.
     if t \<noteq> None then throw TerminalAlreadyExists
     else andthen (upd (\<lambda>s. s\<lparr>ss_terminals := (ss_terminals s)(n \<mapsto> new_isession)\<rparr>)) (ret n)))"

text \<open>A method of the session found under a name changes that session in place.\<close>

definition on_terminal :: "string option \<Rightarrow> ('w, 'a) session_op \<Rightarrow> ('w, 'a) sessions_op" where
  "on_terminal name m = bnd (terminal_name_of name) (\<lambda>n (s, w). case ss_terminals s n of
     None \<Rightarrow> Some (Inl NoSuchTerminal, (s, w))
   | Some t \<Rightarrow> (case m (t, w) of
       None \<Rightarrow> None
     | Some (r, (t', w')) \<Rightarrow> Some (r, (s\<lparr>ss_terminals := (ss_terminals s)(n \<mapsto> t')\<rparr>, w'))))"

definition sessions_spawn :: "'w shell_calls \<Rightarrow> rat \<Rightarrow> nat \<Rightarrow> string option \<Rightarrow> ('w, ustr) sessions_op" where
  "sessions_spawn sc tmo sh name = on_terminal name (session_spawn sc tmo sh)"

definition sessions_push :: "'w shell_calls \<Rightarrow> rat \<Rightarrow> nat \<Rightarrow> string option \<Rightarrow> ('w, ustr) sessions_op" where
  "sessions_push sc tmo sh name = on_terminal name (session_push sc sh tmo)"

definition sessions_current_prompt :: "'w shell_commands \<Rightarrow> string option \<Rightarrow> ('w, ustr) sessions_op" where
  "sessions_current_prompt cm name = on_terminal name (on_current (cm_get_prompt cm))"

definition sessions_status_code :: "'w shell_commands \<Rightarrow> string option \<Rightarrow> ('w, int) sessions_op" where
  "sessions_status_code cm name = on_terminal name (on_current (cm_get_status_code cm))"

definition sessions_pid :: "'w shell_commands \<Rightarrow> string option \<Rightarrow> ('w, int) sessions_op" where
  "sessions_pid cm name = on_terminal name (on_current (cm_get_pid cm))"

definition sessions_exec_command ::
  "'w shell_commands \<Rightarrow> ustr \<Rightarrow> string option \<Rightarrow> rat \<Rightarrow> ('w, ustr) sessions_op" where
  "sessions_exec_command cm cmd name tmo = on_terminal name
     (bnd (on_current (\<lambda>i. cm_exec_command cm i cmd tmo)) (\<lambda>r. ret (ustrip r)))"

definition sessions_exec_prompting_command ::
  "'w shell_commands \<Rightarrow> ustr \<Rightarrow> (ustr \<times> ustr) list \<Rightarrow> string option \<Rightarrow> rat \<Rightarrow> ('w, ustr) sessions_op" where
  "sessions_exec_prompting_command cm cmd rs name tmo = on_terminal name
     (bnd (on_current (\<lambda>i. cm_exec_prompting_command cm i cmd rs tmo)) (\<lambda>r. ret (ustrip r)))"

definition sessions_exec_command_expecting_more ::
  "'w shell_commands \<Rightarrow> ustr \<Rightarrow> ustr \<Rightarrow> string option \<Rightarrow> ('w, nat \<times> ustr) sessions_op" where
  "sessions_exec_command_expecting_more cm cmd mp name = on_terminal name
     (on_current (\<lambda>i. cm_exec_command_expecting_more cm i cmd mp))"

text \<open>The text of the last shell cannot be stripped when nothing was read (\<open>None\<close>).\<close>

definition sessions_exit_shell :: "'w shell_calls \<Rightarrow> string option \<Rightarrow> ('w, ustr) sessions_op" where
  "sessions_exit_shell sc name = on_terminal name (bnd (session_pop sc) (\<lambda>r. case r of
     None \<Rightarrow> throw AttributeError | Some t \<Rightarrow> ret (ustrip t)))"

definition sessions_close_terminal :: "'w shell_calls \<Rightarrow> string option \<Rightarrow> ('w, unit) sessions_op" where
  "sessions_close_terminal sc name = bnd (terminal_name_of name) (\<lambda>n.
     andthen (on_terminal (Some n) (session_close_terminal sc))
       (upd (\<lambda>s. s\<lparr>ss_terminals := (ss_terminals s)(n := None)\<rparr>)))"

section \<open>Sessions on demand\<close>

text \<open>
  \<open>SessionManager\<close>: sessions by session name and node. The status code is looked up under
  node and session name, in this order.
\<close>

type_synonym ('k, 'w, 'a) managed_op = "(('k \<rightharpoonup> nat) \<times> 'w, 'a) py"

definition get_or_create :: "('k \<Rightarrow> ('w, nat) py) \<Rightarrow> 'k \<Rightarrow> ('k, 'w, nat) managed_op" where
  "get_or_create create k = bnd (gets (\<lambda>(m, w). m k)) (\<lambda>x. case x of
     Some i \<Rightarrow> ret i
   | None \<Rightarrow> bnd (in_world (create k)) (\<lambda>i. andthen (upd (\<lambda>m. m(k \<mapsto> i))) (ret i)))"

definition manager_run ::
  "(string \<times> string \<Rightarrow> ('w, nat) py) \<Rightarrow> (nat \<Rightarrow> 'c \<Rightarrow> ('w, 'a) py) \<Rightarrow> string \<Rightarrow> string \<Rightarrow> 'c \<Rightarrow>
   (string \<times> string, 'w, 'a) managed_op" where
  "manager_run create run session node cmd =
     bnd (get_or_create create (session, node)) (\<lambda>i. in_world (run i cmd))"

definition manager_status_code ::
  "(nat \<Rightarrow> ('w, int) py) \<Rightarrow> string \<Rightarrow> string \<Rightarrow> (string \<times> string, 'w, int) managed_op" where
  "manager_status_code status session node = bnd (gets (\<lambda>(m, w). m (node, session))) (\<lambda>x. case x of
     None \<Rightarrow> throw KeyError | Some i \<Rightarrow> in_world (status i))"

text \<open>Sessions are closed in the order of their keys, an argument; an exception keeps the rest.\<close>

definition close_managed :: "(nat \<Rightarrow> ('w, unit) py) \<Rightarrow> 'k list \<Rightarrow> ('k, 'w, unit) managed_op" where
  "close_managed close ks = andthen
     (bnd (gets fst) (\<lambda>m. for_each (\<lambda>k. case m k of None \<Rightarrow> ret () | Some i \<Rightarrow> in_world (close i)) ks))
     (upd (\<lambda>m. Map.empty))"

text \<open>
  \<open>InteractiveExecutor\<close>: the time-out of a run. A number is taken as it is, text is converted, and what
  cannot be converted is a minute; the conversion of text is an argument.
\<close>

datatype timeout_arg = TNumber rat | TText string | TNone

definition unify_timeout :: "(string \<Rightarrow> rat option) \<Rightarrow> timeout_arg \<Rightarrow> rat" where
  "unify_timeout to_float t = (case (case t of TNumber r \<Rightarrow> Some r | TText s \<Rightarrow> to_float s | TNone \<Rightarrow> None) of
     None \<Rightarrow> 60
   | Some r \<Rightarrow> if 0 \<le> r \<and> r < 1 / 10000 then 0 else if r < 0 then - 1 else r)"

record executor =
  ex_sessions :: "string \<rightharpoonup> nat"
  ex_run_number :: nat

definition on_sessions :: "(string, 'w, 'a) managed_op \<Rightarrow> (executor \<times> 'w, 'a) py" where
  "on_sessions m = (\<lambda>(x, w). case m (ex_sessions x, w) of
     None \<Rightarrow> None | Some (r, (s, w')) \<Rightarrow> Some (r, (x\<lparr>ex_sessions := s\<rparr>, w')))"

definition executor_run ::
  "(string \<Rightarrow> ('w, nat) py) \<Rightarrow> (nat \<Rightarrow> bool \<Rightarrow> ustr \<Rightarrow> rat \<Rightarrow> ('w, 'a) py) \<Rightarrow> (string \<Rightarrow> rat option) \<Rightarrow>
   string \<Rightarrow> ustr \<Rightarrow> timeout_arg \<Rightarrow> bool \<Rightarrow> (executor \<times> 'w, 'a) py" where
  "executor_run create run to_float node cmd tmo validate = andthen
     (upd (\<lambda>x. x\<lparr>ex_run_number := Suc (ex_run_number x)\<rparr>))
     (bnd (on_sessions (get_or_create create node)) (\<lambda>i.
        in_world (run i validate cmd (unify_timeout to_float tmo))))"

section \<open>The way to a node\<close>

record executor_config =
  ec_node_name :: "ustr option"
  ec_node_ip :: "ustr option"
  ec_dhcpagenthost :: "ustr option"
  ec_floating_ip :: "ustr option"
  ec_work_dir :: ustr

text \<open>
  The shells of the way and the host they lead to; \<open>hc_run\<close> is the command \<open>hostname\<close> or any
  other in the current shell, \<open>hc_new\<close> creates a shell object.
\<close>

datatype way_shell = ControllerSsh | DhcpSsh | NodeNamespace | NodeSsh | FloatingSsh | NodeNameSsh | TransferPython

record node_session =
  ns_session :: isession
  ns_controller_shell :: "nat option"
  ns_node_shell :: "nat option"
  ns_invalidhosts :: "ustr option set"

type_synonym ('w, 'a) node_op = "(node_session \<times> 'w, 'a) py"

record 'w way_calls =
  hc_shells :: "'w shell_calls"
  hc_new :: "way_shell \<Rightarrow> ('w, nat) py"
  hc_exec :: "nat \<Rightarrow> ustr \<Rightarrow> rat \<Rightarrow> ('w, ustr) py"
  hc_status :: "nat \<Rightarrow> ('w, int) py"
  hc_transfer :: "nat \<Rightarrow> ustr \<Rightarrow> ustr \<Rightarrow> ('w, unit) py"
  hc_timeout :: rat

definition on_session :: "('w, 'a) session_op \<Rightarrow> ('w, 'a) node_op" where
  "on_session m = (\<lambda>(n, w). case m (ns_session n, w) of
     None \<Rightarrow> None | Some (r, (s, w')) \<Rightarrow> Some (r, (n\<lparr>ns_session := s\<rparr>, w')))"

definition rstrip_crlf :: "ustr \<Rightarrow> ustr" where
  "rstrip_crlf s = rev (dropWhile (\<lambda>c. c = 13 \<or> c = 10) (rev s))"

definition node_run :: "'w way_calls \<Rightarrow> ustr \<Rightarrow> rat \<Rightarrow> ('w, ustr) node_op" where
  "node_run hc cmd tmo = bnd (on_session (on_current (\<lambda>i. hc_exec hc i cmd tmo))) (\<lambda>r. ret (rstrip_crlf r))"

definition node_status_code :: "'w way_calls \<Rightarrow> ('w, int) node_op" where
  "node_status_code hc = on_session (on_current (hc_status hc))"

definition get_hostname :: "'w way_calls \<Rightarrow> ('w, ustr) node_op" where
  "get_hostname hc = node_run hc (map of_char ''hostname'') (- 1)"

definition push_way :: "'w way_calls \<Rightarrow> way_shell \<Rightarrow> ('w, unit) node_op" where
  "push_way hc k = bnd (in_world (hc_new hc k)) (\<lambda>i.
     bnd (on_session (session_push (hc_shells hc) i (hc_timeout hc))) (\<lambda>_. ret ()))"

definition spawn_way :: "'w way_calls \<Rightarrow> way_shell \<Rightarrow> ('w, unit) node_op" where
  "spawn_way hc k = bnd (in_world (hc_new hc k)) (\<lambda>i.
     bnd (on_session (session_spawn (hc_shells hc) (hc_timeout hc) i)) (\<lambda>_. ret ()))"

definition connect_to_dhcpagenthost :: "'w way_calls \<Rightarrow> executor_config \<Rightarrow> ('w, unit) node_op" where
  "connect_to_dhcpagenthost hc c = bnd (get_hostname hc) (\<lambda>h.
     if ec_dhcpagenthost c \<noteq> Some h then push_way hc DhcpSsh else ret ())"

text \<open>A host that could not be reached is not tried again, by no session of the class.\<close>

definition try_to_connect_dhcpagenthost :: "'w way_calls \<Rightarrow> executor_config \<Rightarrow> ('w, unit) node_op" where
  "try_to_connect_dhcpagenthost hc c = catching
     (bnd (gets (\<lambda>(n, w). ns_invalidhosts n)) (\<lambda>inv.
        if ec_dhcpagenthost c \<notin> inv then connect_to_dhcpagenthost hc c else ret ()))
     (\<lambda>e. if is_Exception e
        then upd (\<lambda>n. n\<lparr>ns_invalidhosts := insert (ec_dhcpagenthost c) (ns_invalidhosts n)\<rparr>) else throw e)"

definition connect_to_node :: "'w way_calls \<Rightarrow> executor_config \<Rightarrow> ('w, unit) node_op" where
  "connect_to_node hc c = andthen
     (if ec_node_ip c \<noteq> None then push_way hc NodeSsh else ret ())
     (bnd (get_hostname hc) (\<lambda>_. bnd (on_session current_shell) (\<lambda>i.
        upd (\<lambda>n. n\<lparr>ns_node_shell := Some i\<rparr>))))"

definition connect_via_dhcpagenthost :: "'w way_calls \<Rightarrow> executor_config \<Rightarrow> ('w, unit) node_op" where
  "connect_via_dhcpagenthost hc c = andthen (try_to_connect_dhcpagenthost hc c)
     (andthen (push_way hc NodeNamespace) (connect_to_node hc c))"

definition connect_via_floating_ip :: "'w way_calls \<Rightarrow> executor_config \<Rightarrow> ('w, unit) node_op" where
  "connect_via_floating_ip hc c = andthen (spawn_way hc FloatingSsh)
     (bnd (get_hostname hc) (\<lambda>h. if ec_node_name c \<noteq> Some h then push_way hc NodeNameSsh else ret ()))"

definition connect_to_controller :: "'w way_calls \<Rightarrow> ('w, unit) node_op" where
  "connect_to_controller hc = andthen (spawn_way hc ControllerSsh)
     (bnd (on_session current_shell) (\<lambda>i. upd (\<lambda>n. n\<lparr>ns_controller_shell := Some i\<rparr>)))"

definition initialize_connection :: "'w way_calls \<Rightarrow> executor_config \<Rightarrow> ('w, unit) node_op" where
  "initialize_connection hc c =
     (if ec_floating_ip c \<noteq> None then connect_via_floating_ip hc c
      else andthen (connect_to_controller hc)
        (if ec_node_ip c \<noteq> None then connect_via_dhcpagenthost hc c else ret ()))"

text \<open>A shell that was never reached (\<open>None\<close>) has no prompt.\<close>

definition pop_until_shell :: "'w way_calls \<Rightarrow> nat option \<Rightarrow> ('w, unit) node_op" where
  "pop_until_shell hc i = (case i of None \<Rightarrow> throw AttributeError
     | Some k \<Rightarrow> on_session (session_pop_until (hc_shells hc) k))"

definition reset_session :: "'w way_calls \<Rightarrow> executor_config \<Rightarrow> ('w, unit) node_op" where
  "reset_session hc c = catching
     (bnd (gets (\<lambda>(n, w). ns_node_shell n)) (pop_until_shell hc))
     (\<lambda>e. if e = UnknownShellState
        then andthen (bnd (gets (\<lambda>(n, w). ns_controller_shell n)) (pop_until_shell hc))
          (connect_via_dhcpagenthost hc c)
        else throw e)"

definition run_checked :: "'w way_calls \<Rightarrow> ustr \<Rightarrow> (int \<Rightarrow> exn) \<Rightarrow> ('w, unit) node_op" where
  "run_checked hc cmd err = bnd (node_run hc cmd 10) (\<lambda>_. bnd (node_status_code hc) (\<lambda>st.
     if st \<noteq> 0 then throw (err st) else ret ()))"

definition setup_working_directory :: "'w way_calls \<Rightarrow> executor_config \<Rightarrow> ('w, unit) node_op" where
  "setup_working_directory hc c = run_checked hc
     (map of_char ''mkdir -p '' @ ec_work_dir c @ map of_char ''; cd '' @ ec_work_dir c) FailedToSetWorkingDirectory"

definition remove_working_directory :: "'w way_calls \<Rightarrow> executor_config \<Rightarrow> ('w, unit) node_op" where
  "remove_working_directory hc c = run_checked hc
     (map of_char ''cd; rm -rf '' @ ec_work_dir c) FailedToRemoveWorkingDirectory"

definition node_transfer_text_file :: "'w way_calls \<Rightarrow> ustr \<Rightarrow> ustr \<Rightarrow> ('w, unit) node_op" where
  "node_transfer_text_file hc file dir = andthen (push_way hc TransferPython)
     (andthen (on_session (on_current (\<lambda>i. hc_transfer hc i file dir)))
       (bnd (on_session (session_pop (hc_shells hc))) (\<lambda>_. ret ())))"

definition node_close :: "'w way_calls \<Rightarrow> ('w, unit) node_op" where
  "node_close hc = on_session (session_close_terminal (hc_shells hc))"

end
