(* ===== verification/BashShell.thy ===== *)
theory BashShell
  imports Shell PyText "HOL-Library.Sublist"
begin

text \<open>
  \<open>bashshell.py\<close> and the shells made from it: \<open>sshshell.py\<close>, \<open>remoteshell.py\<close>, \<open>sudoshell.py\<close>,
  \<open>namespaceshell.py\<close>, with \<open>sshoptions.py\<close> and \<open>timeouts.py\<close>.
\<close>

section \<open>Text\<close>

abbreviation lit :: "string \<Rightarrow> ustr" where
  "lit s \<equiv> map of_char s"

definition is_uspace :: "nat \<Rightarrow> bool" where
  "is_uspace c \<longleftrightarrow> c = 32 \<or> (9 \<le> c \<and> c \<le> 13) \<or> (28 \<le> c \<and> c \<le> 31) \<or> c = 133 \<or> c = 160 \<or> c = 5760 \<or>
     (8192 \<le> c \<and> c \<le> 8202) \<or> c = 8232 \<or> c = 8233 \<or> c = 8239 \<or> c = 8287 \<or> c = 12288"

definition ustrip :: "ustr \<Rightarrow> ustr" where
  "ustrip s = rev (dropWhile is_uspace (rev (dropWhile is_uspace s)))"

text \<open>\<open>str.replace(a, '')\<close> for a non-empty \<open>a\<close>, from left to right.\<close>

fun remove_all_from :: "nat \<Rightarrow> ustr \<Rightarrow> ustr \<Rightarrow> ustr" where
  "remove_all_from skip a [] = []"
| "remove_all_from (Suc k) a (c # cs) = remove_all_from k a cs"
| "remove_all_from 0 a (c # cs) =
     (if prefix a (c # cs) then remove_all_from (length a - 1) a cs else c # remove_all_from 0 a cs)"

definition remove_all :: "ustr \<Rightarrow> ustr \<Rightarrow> ustr" where
  "remove_all a s = remove_all_from 0 a s"

text \<open>\<open>re.search('PROMPT=(.*)$', s)\<close> on a text without white space: what follows the first match.\<close>

fun after_first :: "ustr \<Rightarrow> ustr \<Rightarrow> ustr option" where
  "after_first a [] = (if a = [] then Some [] else None)"
| "after_first a (c # cs) = (if prefix a (c # cs) then Some (drop (length a) (c # cs)) else after_first a cs)"

text \<open>\<open>int(s)\<close> of text; what is not ASCII is not a number here.\<close>

definition int_of_text :: "ustr \<Rightarrow> exn + int" where
  "int_of_text s = (if list_all (\<lambda>c. c < 128) s then py_int (map char_of s) else Inl ValueError)"

definition quote_char :: char where
  "quote_char = char_of (39 :: nat)"

definition ssh_option :: "string \<Rightarrow> string" where
  "ssh_option s = '' -o '' @ [quote_char] @ s @ [quote_char]"

definition sshoptions :: string where
  "sshoptions = ssh_option ''UserKnownHostsFile=/dev/null'' @ ssh_option ''ServerAliveInterval=15'' @
     ssh_option ''StrictHostKeyChecking=no'' @ ssh_option ''PreferredAuthentications=password'' @
     ssh_option ''PubkeyAuthentication=no'' @ '' -o ConnectTimeout=30''"

definition scpoptions :: string where
  "scpoptions = sshoptions"

section \<open>BashShell\<close>

record bash_shell =
  bs_shell :: shell
  bs_random_prompt :: ustr
  bs_start_cmd :: ustr
  bs_confirmation_msg :: "ustr option"
  bs_confirmation_rsp :: ustr
  bs_set_rand_promt :: bool
  bs_init_env :: "ustr option"
  bs_workdir :: "ustr option"
  bs_banner_timeout :: rat

type_synonym ('t, 'a) bash_op = "(bash_shell \<times> 't, 'a) py"

text \<open>
  The constructor gets the random name of the prompt. Only one keyword argument is accepted
  beyond the named ones.
\<close>

definition new_bash_shell ::
  "ustr \<Rightarrow> ustr \<Rightarrow> ustr option \<Rightarrow> ustr \<Rightarrow> bool \<Rightarrow> bool \<Rightarrow> ustr option \<Rightarrow> ustr option \<Rightarrow> (string \<times> rat) list \<Rightarrow> exn + bash_shell" where
  "new_bash_shell uuid cmd cmsg crsp echo randp env wd kwargs =
     (if \<exists>k \<in> fst ` set kwargs. k \<noteq> ''banner_timeout'' then Inl TypeError
      else let p = (if randp then uuid else lit ''NOPROMT'') in
        Inr \<lparr>bs_shell = (new_shell echo)\<lparr>sh_prompt := Some (TriggerStr p)\<rparr>, bs_random_prompt = p, bs_start_cmd = cmd,
          bs_confirmation_msg = cmsg, bs_confirmation_rsp = crsp, bs_set_rand_promt = randp,
          bs_init_env = env, bs_workdir = wd,
          bs_banner_timeout = (case map_of kwargs ''banner_timeout'' of None \<Rightarrow> 1 / 10 | Some t \<Rightarrow> t)\<rparr>)"

text \<open>A method of \<open>Shell\<close> on a \<open>BashShell\<close>.\<close>

definition sup :: "('t, 'a) shell_op \<Rightarrow> ('t, 'a) bash_op" where
  "sup m = (\<lambda>(b, t). case m (bs_shell b, t) of
     None \<Rightarrow> None | Some (r, (h, t')) \<Rightarrow> Some (r, (b\<lparr>bs_shell := h\<rparr>, t')))"

definition sendline :: "'t terminal_ops \<Rightarrow> string \<Rightarrow> ('t, unit) bash_op" where
  "sendline tp s = in_world (tp_sendline tp (lit s))"

definition set_prompt :: "'t terminal_ops \<Rightarrow> ('t, unit) bash_op" where
  "set_prompt tp = bnd (gets fst) (\<lambda>b.
     if bs_set_rand_promt b then
       bnd (sup str_prompt_of) (\<lambda>p.
         andthen (sup (send_input_line tp (lit ''unset PROMPT_COMMAND'')))
           (sup (send_input_line tp (lit ''export PS1='' @ lit [quote_char] @ take 3 p @ lit [quote_char, quote_char] @
             drop 3 p @ lit [quote_char]))))
     else ret ())"

definition detect_bash_prompt :: "'t terminal_ops \<Rightarrow> ('t, ustr) bash_op" where
  "detect_bash_prompt tp =
     andthen (sendline tp ''echo PROMPT='') (andthen (sendline tp ''echo -n 123456789;echo 987654321'')
       (bnd (sup (read_until tp (TriggerStr (lit ''123456789987654321'')) 60 False)) (\<lambda>res0.
         let res = filter (\<lambda>c. \<not> is_uspace c)
               (remove_all (lit ''echo -n 123456789;echo 987654321'') (remove_all (lit ''echo PROMPT='') res0))
         in case after_first (lit ''PROMPT='') res of
              None \<Rightarrow> throw InteractiveSessionError
            | Some p \<Rightarrow> andthen (bnd (sup (read_until tp (TriggerStr p) 60 False)) (\<lambda>_. ret ())) (ret p))))"

definition exec_bash :: "'t terminal_ops \<Rightarrow> ustr \<Rightarrow> rat \<Rightarrow> ('t, ustr) bash_op" where
  "exec_bash tp cmd tmo = sup (exec_command_in_shell tp cmd tmo)"

definition get_status_code :: "'t terminal_ops \<Rightarrow> rat \<Rightarrow> ('t, int) bash_op" where
  "get_status_code tp tmo = bnd (exec_bash tp (lit ''echo $?'') tmo) (\<lambda>s. of_sum (int_of_text s))"

definition get_pid :: "'t terminal_ops \<Rightarrow> ('t, int) bash_op" where
  "get_pid tp = bnd (exec_bash tp (lit ''echo $!'') (- 1)) (\<lambda>s. of_sum (int_of_text s))"

text \<open>
  A command that begins with \<open>content:\<close> is executed itself (and kept without that prefix, so a
  second start takes it for a file name); another one is the file to be sourced.
\<close>

definition init_env_if_needed :: "'t terminal_ops \<Rightarrow> rat \<Rightarrow> ustr \<Rightarrow> ('t, ustr) bash_op" where
  "init_env_if_needed tp status_tmo output = bnd (gets (\<lambda>(b, t). bs_init_env b)) (\<lambda>e. case e of
     None \<Rightarrow> ret output
   | Some env \<Rightarrow>
       bnd (if prefix (lit ''content:'') env then
              let c = ustrip (drop 8 env) in
              andthen (upd (\<lambda>b. b\<lparr>bs_init_env := Some c\<rparr>)) (exec_bash tp c (- 1))
            else exec_bash tp (lit ''. '' @ env) (- 1)) (\<lambda>out.
         bnd (get_status_code tp status_tmo) (\<lambda>st.
           if st \<noteq> 0 then throw InteractiveSessionError else ret (output @ out))))"

definition cd_to_workdir_if_needed :: "'t terminal_ops \<Rightarrow> rat \<Rightarrow> ustr \<Rightarrow> ('t, ustr) bash_op" where
  "cd_to_workdir_if_needed tp status_tmo output = bnd (gets (\<lambda>(b, t). bs_workdir b)) (\<lambda>w. case w of
     None \<Rightarrow> ret output
   | Some dir \<Rightarrow> bnd (exec_bash tp (lit ''cd '' @ dir) (- 1)) (\<lambda>out.
       bnd (get_status_code tp status_tmo) (\<lambda>st.
         if st \<noteq> 0 then throw InteractiveSessionError else ret (output @ out))))"

definition ignoring_timeout :: "('t, unit) bash_op \<Rightarrow> ('t, unit) bash_op" where
  "ignoring_timeout m = catching m (\<lambda>e. if is_timeout_error e then ret () else throw e)"

definition set_bash_environment :: "'t terminal_ops \<Rightarrow> rat \<Rightarrow> ('t, ustr) bash_op" where
  "set_bash_environment tp status_tmo = bnd (gets fst) (\<lambda>b.
     bnd (sup (read_until_end tp 0 (bs_banner_timeout b))) (\<lambda>output.
       andthen (sendline tp ''unset HISTFILE'')
         (andthen (sendline tp (''stty cols 400 rows 400 '' @ (if sh_tty_echo (bs_shell b) then ''echo'' else ''-echo'')))
           (andthen (set_prompt tp)
             (andthen (ignoring_timeout (bnd (sup (read_until_end tp 1 (1 / 10))) (\<lambda>_. ret ())))
               (bnd (detect_bash_prompt tp) (\<lambda>p.
                 andthen (upd (\<lambda>b. b\<lparr>bs_shell := (bs_shell b)\<lparr>sh_prompt := Some (TriggerStr p)\<rparr>\<rparr>))
                   (bnd (init_env_if_needed tp status_tmo output) (cd_to_workdir_if_needed tp status_tmo)))))))))"

definition bash_start :: "'t terminal_ops \<Rightarrow> rat \<Rightarrow> ('t, ustr) bash_op" where
  "bash_start tp status_tmo = bnd (gets fst) (\<lambda>b.
     bnd (case bs_confirmation_msg b of
            None \<Rightarrow> ret []
          | Some m \<Rightarrow> if m = [] then ret []
              else bnd (sup (read_until tp (TriggerStr m) (- 1) False)) (\<lambda>out.
                andthen (in_world (tp_sendline tp (bs_confirmation_rsp b))) (ret out))) (\<lambda>retval.
       bnd (set_bash_environment tp status_tmo) (\<lambda>out. ret (retval @ out))))"

definition bash_exit :: "'t terminal_ops \<Rightarrow> ('t, unit) bash_op" where
  "bash_exit tp = sup (exec_cmd tp (lit ''exit''))"

section \<open>Applications\<close>

definition verify_bash_terminal :: "'t terminal_ops \<Rightarrow> ('t, unit) bash_op" where
  "verify_bash_terminal tp = bnd (exec_bash tp [] 2) (\<lambda>_. ret ())"

definition start_application_without_confirmation :: "'t terminal_ops \<Rightarrow> ustr \<Rightarrow> ('t, unit) bash_op" where
  "start_application_without_confirmation tp cmd =
     andthen (verify_bash_terminal tp) (sup (exec_cmd tp cmd))"

definition confirm_application_was_started :: "'t terminal_ops \<Rightarrow> rat \<Rightarrow> ustr \<Rightarrow> rat \<Rightarrow> ('t, ustr) bash_op" where
  "confirm_application_was_started tp status_tmo expect tmo =
     bnd (sup str_prompt_of) (\<lambda>p.
       bnd (in_world (tp_expect_exact tp [expect, p] (Some tmo))) (\<lambda>n.
         if n > 0 then
           bnd (sup (before_text tp)) (\<lambda>_. bnd (get_status_code tp status_tmo) (\<lambda>_. throw InteractiveSessionError))
         else sup (before_text tp)))"

definition start_application :: "'t terminal_ops \<Rightarrow> rat \<Rightarrow> ustr \<Rightarrow> ustr \<Rightarrow> rat \<Rightarrow> ('t, ustr) bash_op" where
  "start_application tp status_tmo cmd expect tmo =
     andthen (start_application_without_confirmation tp cmd)
       (confirm_application_was_started tp status_tmo expect tmo)"

definition stop_application :: "'t terminal_ops \<Rightarrow> rat \<Rightarrow> ('t, ustr) bash_op" where
  "stop_application tp tmo = andthen (sup (send_interrupt tp)) (sup (read_until_prompt tp tmo False))"

text \<open>
  After the password either the prompt comes or the password is asked for again. In the upload
  an exception of the clean-up is replaced by \<open>ScpError\<close>, in the download it is not.
\<close>

definition scp_copy_file ::
  "'t terminal_ops \<Rightarrow> rat \<Rightarrow> ustr \<Rightarrow> ustr \<Rightarrow> ustr \<Rightarrow> ustr \<Rightarrow> ustr \<Rightarrow> ('t, ustr) bash_op" where
  "scp_copy_file tp status_tmo source_file dest_ip dest_user dest_pass dest_file =
     andthen (sup (exec_cmd tp (lit (''scp -q '' @ scpoptions @ '' '') @ source_file @ lit '' '' @ dest_user @ lit ''@'' @
         dest_ip @ lit '':'' @ dest_file)))
       (andthen (bnd (sup (read_until tp (TriggerStr (lit ''word:'')) (- 1) False)) (\<lambda>_. ret ()))
         (andthen (in_world (tp_sendline tp dest_pass))
           (bnd (sup str_prompt_of) (\<lambda>p.
             bnd (in_world (tp_expect_exact tp [p, lit ''word:''] None)) (\<lambda>n.
               if n = 1 then
                 finally_do (andthen (sup (send_interrupt tp))
                   (sup (read_until_prompt tp (- 1) False))) (throw InteractiveSessionError)
               else bnd (sup (before_text tp)) (\<lambda>res.
                 bnd (get_status_code tp status_tmo) (\<lambda>st.
                   if st \<noteq> 0 then throw InteractiveSessionError else ret res)))))))"

definition scp_download_file ::
  "'t terminal_ops \<Rightarrow> rat \<Rightarrow> ustr \<Rightarrow> ustr \<Rightarrow> ustr \<Rightarrow> ustr \<Rightarrow> ustr \<Rightarrow> ('t, ustr) bash_op" where
  "scp_download_file tp status_tmo source_file source_ip source_user source_pass dest_file =
     andthen (sup (send_input_line tp (lit (''scp -q '' @ scpoptions @ '' '') @ source_user @ lit ''@'' @ source_ip @
         lit '':'' @ source_file @ lit '' '' @ dest_file)))
       (andthen (bnd (sup (read_until tp (TriggerStr (lit ''word:'')) (- 1) False)) (\<lambda>_. ret ()))
         (andthen (sup (send_input_line tp source_pass))
           (bnd (sup str_prompt_of) (\<lambda>p.
             bnd (in_world (tp_expect_exact tp [p, lit ''word:''] None)) (\<lambda>n.
               if n = 1 then
                 andthen (sup (send_interrupt tp)) (andthen (bnd (sup (read_until_prompt tp (- 1) False)) (\<lambda>_. ret ()))
                   (throw InteractiveSessionError))
               else bnd (sup (before_text tp)) (\<lambda>res.
                 bnd (get_status_code tp status_tmo) (\<lambda>st.
                   if st \<noteq> 0 then throw InteractiveSessionError else ret res)))))))"

text \<open>The report of the kill may come before or after the prompt.\<close>

definition terminate_process_forced :: "'t terminal_ops \<Rightarrow> nat \<Rightarrow> ('t, unit) bash_op" where
  "terminate_process_forced tp pid =
     andthen (sup (exec_cmd tp (lit ''kill -9 '' @ lit (str_of_int (int pid)))))
       (bnd (sup str_prompt_of) (\<lambda>p.
         bnd (in_world (tp_expect_list tp [''illed'', ''Exit 9'', map char_of p, ''No such process''] None)) (\<lambda>n.
           if n = 0 \<or> n = 1 then bnd (sup (read_until_prompt tp (- 1) False)) (\<lambda>_. ret ())
           else if n = 2 then
             andthen (sup (send_input_line tp []))
               (andthen (bnd (sup (read_until tp (TriggerStrs [lit ''illed'', lit ''Exit 9'']) (- 1) False)) (\<lambda>_. ret ()))
                 (bnd (sup (read_until_prompt tp (- 1) False)) (\<lambda>_. ret ())))
           else throw InteractiveSessionError)))"

section \<open>Shells over a connection\<close>

text \<open>
  What the shell needs beside its terminal: \<open>check_start_success\<close>, a hook of derived shells, and
  the paramiko connection, which is closed on exit.
\<close>

record ssh_shell =
  ss_ip :: ustr
  ss_username :: "ustr option"
  ss_passwords :: "ustr list"
  ss_port :: "int option"

definition new_ssh_shell :: "ustr \<Rightarrow> ustr option \<Rightarrow> ustr option \<Rightarrow> ustr option \<Rightarrow> int option \<Rightarrow> ssh_shell" where
  "new_ssh_shell ip user pw second port = \<lparr>ss_ip = ip, ss_username = user,
     ss_passwords = (case pw of None \<Rightarrow> [] | Some p \<Rightarrow> [p]) @
       (case second of None \<Rightarrow> [] | Some p \<Rightarrow> if p = [] then [] else [p]),
     ss_port = port\<rparr>"

definition ssh_start_cmd :: "ssh_shell \<Rightarrow> ustr" where
  "ssh_start_cmd s =
     (let opts = lit sshoptions @ (case ss_port s of None \<Rightarrow> [] | Some n \<Rightarrow> lit '' -p '' @ lit (str_of_int n))
      in lit ''ssh '' @ opts @ lit '' '' @
         (case ss_username s of None \<Rightarrow> ss_ip s | Some u \<Rightarrow> u @ lit ''@'' @ ss_ip s))"

definition pop_passwords :: "ssh_shell \<Rightarrow> ustr option \<times> ssh_shell" where
  "pop_passwords s = (case ss_passwords s of
     [] \<Rightarrow> (None, s) | p # ps \<Rightarrow> (Some p, s\<lparr>ss_passwords := ps\<rparr>))"

definition banner_and_environment :: "'t terminal_ops \<Rightarrow> rat \<Rightarrow> rat \<Rightarrow> ('t, ustr) bash_op" where
  "banner_and_environment tp banner_tmo status_tmo =
     bnd (sup (msgreader_read_until_end tp banner_tmo)) (\<lambda>retval.
       bnd (set_bash_environment tp status_tmo) (\<lambda>out. ret (retval @ out)))"

definition ssh_common_start ::
  "'t terminal_ops \<Rightarrow> ('t, unit) bash_op \<Rightarrow> rat \<Rightarrow> rat \<Rightarrow> ('t, ustr) bash_op" where
  "ssh_common_start tp check_start_success banner_tmo status_tmo =
     andthen check_start_success (banner_and_environment tp banner_tmo status_tmo)"

text \<open>The pattern for a prompt that needs no password.\<close>

definition prompt_re :: string where
  "prompt_re = char_of (92 :: nat) # ''[[a-zA-Z]+@[a-zA-Z]{2,4}-[0-9]*'' @ char_of (92 :: nat) # ''(.+'' @
     char_of (92 :: nat) # '')'' @ char_of (92 :: nat) # ''s('' @ char_of (92 :: nat) # ''/.+)+'' @
     char_of (92 :: nat) # '']''"

fun ssh_passwords ::
  "'t terminal_ops \<Rightarrow> ('t, unit) bash_op \<Rightarrow> rat \<Rightarrow> rat \<Rightarrow> ustr list \<Rightarrow> ('t, ustr) bash_op" where
  "ssh_passwords tp check banner_tmo status_tmo [] = ssh_common_start tp check banner_tmo status_tmo"
| "ssh_passwords tp check banner_tmo status_tmo (p # ps) =
     bnd (in_world (tp_expect_list tp [''word:'', ''Connection reset by peer'', prompt_re] None)) (\<lambda>n.
       if n = 0 then andthen (in_world (tp_sendline tp p))
         (andthen (bnd (sup (read_count tp 2 (- 1))) (\<lambda>_. ret ())) (ssh_passwords tp check banner_tmo status_tmo ps))
       else if n = 1 then throw InteractiveSessionError
       else if n = 2 then set_bash_environment tp status_tmo
       else ssh_passwords tp check banner_tmo status_tmo ps)"

definition ssh_start_in_pexpect ::
  "'t terminal_ops \<Rightarrow> ('t, unit) bash_op \<Rightarrow> rat \<Rightarrow> rat \<Rightarrow> ssh_shell \<Rightarrow> ('t, ustr) bash_op" where
  "ssh_start_in_pexpect tp check banner_tmo status_tmo s =
     ssh_passwords tp check banner_tmo status_tmo (ss_passwords s)"

definition ssh_exit :: "'t terminal_ops \<Rightarrow> ('t, unit) py option \<Rightarrow> ('t, unit) bash_op" where
  "ssh_exit tp close_ssh = andthen (bash_exit tp)
     (case close_ssh of None \<Rightarrow> ret () | Some m \<Rightarrow> in_world m)"

section \<open>RemoteShell\<close>

definition custom_prompt_check :: "'t terminal_ops \<Rightarrow> ('t, bool) bash_op" where
  "custom_prompt_check tp = andthen (sendline tp ''echo -n 123456789;echo 987654321'')
     (bnd (sup (read_until tp (TriggerStr (lit ''123456789987654321'')) 60 False)) (\<lambda>res.
       bnd (sup prompt_of) (\<lambda>p. andthen (bnd (sup (read_until tp p 60 False)) (\<lambda>_. ret ())) (ret (res \<noteq> [])))))"

definition read_empty :: "'t terminal_ops \<Rightarrow> ('t, unit) bash_op" where
  "read_empty tp = ignoring_timeout (bnd (sup (read_until_end tp 1 (1 / 10))) (\<lambda>_. ret ()))"

definition reset_prompt :: "'t terminal_ops \<Rightarrow> ('t, unit) bash_op" where
  "reset_prompt tp = andthen (sendline tp ''unset HISTFILE'')
     (andthen (sendline tp ''stty cols 400 rows 400 -echo'') (andthen (set_prompt tp) (read_empty tp)))"

text \<open>
  The status of the command is looked at only when the prompt was seen at once; after a reset of
  the prompt it is not.
\<close>

definition validate_init_command_success :: "'t terminal_ops \<Rightarrow> rat \<Rightarrow> ('t, unit) bash_op" where
  "validate_init_command_success tp status_tmo = bnd (custom_prompt_check tp) (\<lambda>ok.
     if ok then bnd (get_status_code tp status_tmo) (\<lambda>st. if st \<noteq> 0 then throw InteractiveSessionError else ret ())
     else andthen (reset_prompt tp) (bnd (custom_prompt_check tp) (\<lambda>ok2.
       if ok2 then ret () else throw InteractiveSessionError)))"

definition execute_init_command :: "'t terminal_ops \<Rightarrow> rat \<Rightarrow> ustr \<Rightarrow> ('t, unit) bash_op" where
  "execute_init_command tp status_tmo cmd =
     andthen (in_world (tp_sendline tp cmd)) (validate_init_command_success tp status_tmo)"

definition remote_shell_start ::
  "'t terminal_ops \<Rightarrow> rat \<Rightarrow> rat \<Rightarrow> bool \<Rightarrow> ustr option \<Rightarrow> ('t, ustr) bash_op" where
  "remote_shell_start tp banner_tmo status_tmo sudo source =
     bnd (banner_and_environment tp banner_tmo status_tmo) (\<lambda>retval.
       andthen (if sudo then execute_init_command tp status_tmo (lit ''sudo -i'') else ret ())
         (andthen (case source of None \<Rightarrow> ret ()
             | Some f \<Rightarrow> if f = [] then ret () else execute_init_command tp status_tmo (lit ''source '' @ f))
           (ret retval)))"

section \<open>SudoShell and NamespaceShell\<close>

definition sudo_prompt_re :: string where
  "sudo_prompt_re = ''[[a-zA-Z]+@[a-zA-Z]{2,4}-[0-9]*(.+)'' @ char_of (92 :: nat) # ''s(/.+)+]''"

definition sudo_start :: "'t terminal_ops \<Rightarrow> rat \<Rightarrow> rat \<Rightarrow> ustr \<Rightarrow> ('t, ustr) bash_op" where
  "sudo_start tp banner_tmo status_tmo password =
     bnd (in_world (tp_expect_list tp [''word:'', ''Sorry, try again.'', sudo_prompt_re] None)) (\<lambda>n.
       if n = 0 then andthen (in_world (tp_sendline tp password))
         (andthen (bnd (sup (read_count tp 2 (- 1))) (\<lambda>_. ret ())) (banner_and_environment tp banner_tmo status_tmo))
       else if n = 1 then throw InteractiveSessionError
       else if n = 2 then set_bash_environment tp status_tmo
       else banner_and_environment tp banner_tmo status_tmo)"

definition namespace_start_cmd :: "ustr \<Rightarrow> ustr" where
  "namespace_start_cmd n = lit ''ip netns exec '' @ n @ lit '' bash''"

definition namespace_start :: "'t terminal_ops \<Rightarrow> rat \<Rightarrow> ('t, ustr) bash_op" where
  "namespace_start tp status_tmo = set_bash_environment tp status_tmo"

section \<open>Common time-outs\<close>

record common_timeouts =
  ct_status :: rat
  ct_banner :: rat
  ct_python_short :: rat
  ct_proxy_default :: rat

definition timeouts_set :: "rat \<Rightarrow> common_timeouts \<Rightarrow> common_timeouts" where
  "timeouts_set t c = c\<lparr>ct_status := status_timeout_set t (ct_status c), ct_banner := msgreader_set_timeout t (ct_banner c)\<rparr>"

definition timeouts_reset :: "common_timeouts \<Rightarrow> common_timeouts" where
  "timeouts_reset c = c\<lparr>ct_status := status_timeout_reset (ct_status c), ct_banner := msgreader_reset_timeout (ct_banner c)\<rparr>"

definition set_python_short_timeout :: "rat \<Rightarrow> common_timeouts \<Rightarrow> common_timeouts" where
  "set_python_short_timeout t c = c\<lparr>ct_python_short := t\<rparr>"

definition reset_python_short_timeout :: "common_timeouts \<Rightarrow> common_timeouts" where
  "reset_python_short_timeout c = set_python_short_timeout 10 c"

definition set_proxy_default_timeout :: "rat \<Rightarrow> common_timeouts \<Rightarrow> common_timeouts" where
  "set_proxy_default_timeout t c = c\<lparr>ct_proxy_default := t\<rparr>"

definition reset_proxy_default_timeout :: "common_timeouts \<Rightarrow> common_timeouts" where
  "reset_proxy_default_timeout c = c\<lparr>ct_proxy_default := 3600\<rparr>"

end
