(* ===== verification/OtherShells.thy ===== *)
theory OtherShells
  imports BashShell
begin

text \<open>
  The remaining shells, \<open>sftpshell.py\<close>, \<open>kubernetesshell.py\<close> and \<open>keyauthenticatedsshshell.py\<close>,
  and the way from dictionaries to shells: the registry \<open>registershell.py\<close> and the stack
  \<open>shellstack.py\<close>. A shell class is known by its name and by what its constructor does.
\<close>

section \<open>SftpShell\<close>

definition sftp_prompt :: ustr where
  "sftp_prompt = lit ''sftp>''"

definition sftp_start_cmd :: "ustr \<Rightarrow> ustr \<Rightarrow> ustr \<Rightarrow> ustr" where
  "sftp_start_cmd cmd username ip = cmd @ [32] @ lit sshoptions @ [32] @ username @ [64] @ ip"

text \<open>
  The message of both errors joins the method \<open>_terminal_contents\<close> itself, which is not
  iterable: what is raised is a \<open>TypeError\<close>.
\<close>

definition sftp_start :: "'t terminal_ops \<Rightarrow> ustr \<Rightarrow> ('t, ustr) shell_op" where
  "sftp_start tp password =
     bnd (in_world (tp_expect_list tp [''word:'', ''Connection reset by peer''] None)) (\<lambda>i.
       if i = 1 then throw TypeError
       else andthen (in_world (tp_sendline tp password))
         (bnd (in_world (tp_expect_exact tp [sftp_prompt, lit ''word:''] None)) (\<lambda>j.
           if j = 1 then andthen (send_interrupt tp) (throw TypeError) else before_text tp)))"

definition sftp_exit :: "'t terminal_ops \<Rightarrow> ('t, unit) shell_op" where
  "sftp_exit tp = exec_cmd tp (lit ''exit'')"

definition sftp_status_code :: "('t, int) shell_op" where
  "sftp_status_code = throw NotImplementedError"

section \<open>KubernetesShell\<close>

definition option_text :: "string \<Rightarrow> ustr option \<Rightarrow> ustr" where
  "option_text s x = (case x of None \<Rightarrow> [] | Some [] \<Rightarrow> [] | Some t \<Rightarrow> lit s @ t)"

definition kubernetes_start_cmd :: "ustr \<Rightarrow> ustr \<Rightarrow> ustr option \<Rightarrow> ustr option \<Rightarrow> ustr \<Rightarrow> ustr" where
  "kubernetes_start_cmd cli pod container namespace cmd =
     cli @ lit '' exec '' @ pod @ lit '' -it'' @ option_text '' -c '' container @ option_text '' -n '' namespace @
     [32] @ cmd"

section \<open>KeyAuthenticatedSshShell\<close>

definition key_ssh_options :: string where
  "key_ssh_options = '' -o CheckHostIP=no -o PasswordAuthentication=no -o StrictHostKeyChecking=no  '' @
     ''-o ServerAliveCountMax=3 -o ServerAliveInterval=180 -o BatchMode=yes -o UpdateHostKeys=no -o ConnectTimeout=10''"

definition key_ssh_start_cmd :: "ustr \<Rightarrow> ustr" where
  "key_ssh_start_cmd ip = lit ''ssh '' @ lit key_ssh_options @ [32] @ ip"

text \<open>The initial prompt is a pattern; without one, \<open>None\<close> is no trigger.\<close>

definition wait_for_initial_prompt :: "'t terminal_ops \<Rightarrow> trigger option \<Rightarrow> ('t, ustr) shell_op" where
  "wait_for_initial_prompt tp initial_prompt = catching
     (case initial_prompt of None \<Rightarrow> throw TypeError | Some tr \<Rightarrow> read_until tp tr 20 False)
     (\<lambda>e. if is_timeout_error e then throw ShellStartError else throw e)"

text \<open>\<open>re.match('@(\\d+)@', s).group(1)\<close>; without a match there is no group.\<close>

definition status_between_ats :: "ustr \<Rightarrow> exn + ustr" where
  "status_between_ats s = (let ds = takeWhile (\<lambda>c. 48 \<le> c \<and> c \<le> 57) (drop 1 s) in
     if take 1 s = [64] \<and> ds \<noteq> [] \<and> take 1 (drop (Suc (length ds)) s) = [64] then Inr ds else Inl AttributeError)"

definition key_check_start_success :: "'t terminal_ops \<Rightarrow> trigger option \<Rightarrow> ('t, unit) shell_op" where
  "key_check_start_success tp initial_prompt = bnd (wait_for_initial_prompt tp initial_prompt) (\<lambda>_.
     andthen (send_input_line tp (lit ''echo @$?@''))
       (catching (bnd (read_until_end tp 1 (1 / 10)) (\<lambda>out. bnd (of_sum (status_between_ats out)) (\<lambda>st.
            if st \<noteq> [48] then throw ShellStartError else send_input_line tp (lit ''echo $?''))))
         (\<lambda>e. if is_timeout_error e then throw ShellStartError else throw e)))"

section \<open>Registered shells\<close>

type_synonym ('k, 'sh) registry = "string \<rightharpoonup> ('k \<Rightarrow> exn + 'sh)"

text \<open>Keyword arguments are a dictionary; a constructor makes a shell of them.\<close>

type_synonym kwargs = "string \<rightharpoonup> ustr"

definition add_shellcls :: "string \<Rightarrow> (kwargs \<Rightarrow> exn + 'sh) \<Rightarrow> (kwargs, 'sh) registry \<Rightarrow> exn + (kwargs, 'sh) registry" where
  "add_shellcls n c reg = (if reg n \<noteq> None then Inl ShellAlreadyRegistered else Inr (reg(n \<mapsto> c)))"

definition get_shellcls :: "string \<Rightarrow> (kwargs, 'sh) registry \<Rightarrow> exn + (kwargs \<Rightarrow> exn + 'sh)" where
  "get_shellcls n reg = (case reg n of None \<Rightarrow> Inl UnregisteredShell | Some c \<Rightarrow> Inr c)"

text \<open>The decorator registers subclasses of \<open>Shell\<close> only.\<close>

definition register_shell ::
  "bool \<Rightarrow> string \<Rightarrow> (kwargs \<Rightarrow> exn + 'sh) \<Rightarrow> (kwargs, 'sh) registry \<Rightarrow> exn + (kwargs, 'sh) registry" where
  "register_shell is_shell n c reg = (if is_shell then add_shellcls n c reg else Inr reg)"

section \<open>The stack of shells\<close>

text \<open>The class name travels as the keyword \<open>shellname\<close>, which is not passed on.\<close>

definition create_shell :: "(kwargs, 'sh) registry \<Rightarrow> string \<Rightarrow> kwargs \<Rightarrow> exn + 'sh" where
  "create_shell reg n kw = (case get_shellcls n reg of Inl e \<Rightarrow> Inl e | Inr c \<Rightarrow> c kw)"

definition shellname_of :: "kwargs \<Rightarrow> string" where
  "shellname_of d = (case d ''shellname'' of None \<Rightarrow> ''DefaultSshShell'' | Some n \<Rightarrow> map char_of n)"

definition with_shellname :: "kwargs \<Rightarrow> kwargs" where
  "with_shellname d = (if d ''shellname'' = None then d(''shellname'' \<mapsto> lit ''DefaultSshShell'') else d)"

definition create_shell_of_dict :: "(kwargs, 'sh) registry \<Rightarrow> kwargs \<Rightarrow> exn + 'sh" where
  "create_shell_of_dict reg d = create_shell reg (shellname_of (with_shellname d)) (d(''shellname'' := None))"

text \<open>The shells are created once; an exception leaves those created before it in the list.\<close>

record 'sh shell_stack =
  st_shelldicts :: "kwargs list"
  st_shells :: "'sh list"

definition initialize_shell_stack :: "kwargs list \<Rightarrow> 'sh shell_stack \<Rightarrow> 'sh shell_stack" where
  "initialize_shell_stack ds st = st\<lparr>st_shelldicts := ds\<rparr>"

fun append_shells :: "(kwargs, 'sh) registry \<Rightarrow> kwargs list \<Rightarrow> ('sh shell_stack, unit) py" where
  "append_shells reg [] = ret ()"
| "append_shells reg (d # ds) = bnd (of_sum (create_shell_of_dict reg d)) (\<lambda>s.
     andthen (modify (\<lambda>st. st\<lparr>st_shells := st_shells st @ [s]\<rparr>)) (append_shells reg ds))"

definition stack_shells :: "(kwargs, 'sh) registry \<Rightarrow> ('sh shell_stack, 'sh list) py" where
  "stack_shells reg = andthen
     (bnd (gets id) (\<lambda>st. if st_shells st = [] then append_shells reg (st_shelldicts st) else ret ()))
     (gets st_shells)"

text \<open>\<open>DefaultSshShell\<close> renames its arguments for \<open>SshShell\<close>; the host is mandatory.\<close>

definition get_sshkwargs :: "kwargs \<Rightarrow> exn + kwargs" where
  "get_sshkwargs kw = (let k1 = (if kw ''username'' = None \<and> kw ''user'' \<noteq> None
       then kw(''user'' := None, ''username'' := kw ''user'') else kw) in
     case kw ''host'' of None \<Rightarrow> Inl KeyError | Some h \<Rightarrow> Inr (k1(''host'' := None, ''ip'' \<mapsto> h)))"

end
