(* ===== verification/Logins.thy ===== *)
theory Logins
  imports BashShell
begin

text \<open>
  The logins of \<open>sshshell.py\<close> and \<open>remoteshell.py\<close> as the objects they are: with the client and the channel
  of a connection over Paramiko, and the choice between that and a login in a terminal. The
  Paramiko package is an argument.
\<close>

section \<open>Connections\<close>

text \<open>
  What a client of Paramiko is told when it connects, and the operations of the package: a new
  client, connecting, a channel with a shell, closing. Clients and channels are numbers.
\<close>

record connect_args =
  ca_ip :: ustr
  ca_username :: "ustr option"
  ca_password :: "ustr option"
  ca_port :: int
  ca_key_filename :: "ustr option"

record 'w paramiko =
  pm_client :: "('w, nat) py"
  pm_connect :: "nat \<Rightarrow> connect_args \<Rightarrow> ('w, unit) py"
  pm_invoke_shell :: "nat \<Rightarrow> ('w, nat) py"
  pm_close :: "nat \<Rightarrow> ('w, unit) py"

text \<open>What \<open>spawn\<close> returns: a terminal over a channel.\<close>

record spawned =
  sp_chan :: nat
  sp_timeout :: rat
  sp_remove_ansi_chars :: bool

section \<open>SshShell\<close>

text \<open>\<open>lg_in_paramiko\<close> says which of the two methods the attribute \<open>start\<close> is.\<close>

record ssh_login =
  lg_shell :: ssh_shell
  lg_ssh :: "nat option"
  lg_chan :: "nat option"
  lg_in_paramiko :: bool

definition new_ssh_login :: "ssh_shell \<Rightarrow> ssh_login" where
  "new_ssh_login s = \<lparr>lg_shell = s, lg_ssh = None, lg_chan = None, lg_in_paramiko = False\<rparr>"

type_synonym ('w, 'a) login_op = "(ssh_login \<times> 'w, 'a) py"

text \<open>The password is taken from the list before the connection is tried.\<close>

definition next_password :: "('w, ustr option) login_op" where
  "next_password = (\<lambda>(l, w). case pop_passwords (lg_shell l) of
     (p, s) \<Rightarrow> Some (Inr p, (l\<lparr>lg_shell := s\<rparr>, w)))"

definition port_or_22 :: "int option \<Rightarrow> int" where
  "port_or_22 p = (case p of None \<Rightarrow> 22 | Some n \<Rightarrow> n)"

definition paramikospawn :: "'w paramiko \<Rightarrow> rat \<Rightarrow> ('w, spawned) login_op" where
  "paramikospawn pm tmo = bnd (in_world (pm_client pm)) (\<lambda>c.
     andthen (upd (\<lambda>l. l\<lparr>lg_ssh := Some c\<rparr>)) (bnd next_password (\<lambda>p.
       bnd (gets (\<lambda>(l, w). lg_shell l)) (\<lambda>s.
         andthen (in_world (pm_connect pm c \<lparr>ca_ip = ss_ip s, ca_username = ss_username s, ca_password = p,
             ca_port = port_or_22 (ss_port s), ca_key_filename = None\<rparr>))
           (bnd (in_world (pm_invoke_shell pm c)) (\<lambda>ch.
             andthen (upd (\<lambda>l. l\<lparr>lg_chan := Some ch, lg_in_paramiko := True\<rparr>))
               (ret \<lparr>sp_chan = ch, sp_timeout = tmo, sp_remove_ansi_chars = False\<rparr>)))))))"

text \<open>The attribute \<open>spawn\<close>, which exists on Windows only; other missing attributes are \<open>None\<close>.\<close>

definition ssh_spawn :: "bool \<Rightarrow> 'w paramiko \<Rightarrow> rat \<Rightarrow> ('w, spawned) login_op" where
  "ssh_spawn windows pm tmo = (if windows then paramikospawn pm tmo else throw AttributeError)"

text \<open>The login is the state of the shell with the terminal in its world.\<close>

definition in_bash :: "('b \<times> 't, 'a) py \<Rightarrow> ('l \<times> 'b \<times> 't, 'a) py" where
  "in_bash = in_world"

definition ssh_login_start ::
  "'t terminal_ops \<Rightarrow> ('t, unit) bash_op \<Rightarrow> rat \<Rightarrow> rat \<Rightarrow> (ssh_login \<times> bash_shell \<times> 't, ustr) py" where
  "ssh_login_start tp check banner_tmo status_tmo = bnd (gets fst) (\<lambda>l.
     in_bash (if lg_in_paramiko l then ssh_common_start tp check banner_tmo status_tmo
       else ssh_start_in_pexpect tp check banner_tmo status_tmo (lg_shell l)))"

definition ssh_login_exit :: "'t terminal_ops \<Rightarrow> 't paramiko \<Rightarrow> (ssh_login \<times> bash_shell \<times> 't, unit) py" where
  "ssh_login_exit tp pm = bnd (gets fst) (\<lambda>l.
     in_bash (ssh_exit tp (map_option (pm_close pm) (lg_ssh l))))"

section \<open>RemoteShell\<close>

record remote_login =
  rl_ip :: ustr
  rl_username :: "ustr option"
  rl_password :: "ustr option"
  rl_port :: "int option"
  rl_key_file :: "ustr option"
  rl_sudo :: bool
  rl_source :: "ustr option"
  rl_ssh :: "nat option"
  rl_chan :: "nat option"

definition new_remote_login ::
  "ustr \<Rightarrow> ustr option \<Rightarrow> ustr option \<Rightarrow> int option \<Rightarrow> ustr option \<Rightarrow> ustr option \<Rightarrow> bool \<Rightarrow> remote_login" where
  "new_remote_login ip user pw port source key sudo = \<lparr>rl_ip = ip, rl_username = user, rl_password = pw,
     rl_port = port, rl_key_file = key, rl_sudo = sudo, rl_source = source, rl_ssh = None, rl_chan = None\<rparr>"

definition remote_spawn :: "'w paramiko \<Rightarrow> rat \<Rightarrow> (remote_login \<times> 'w, spawned) py" where
  "remote_spawn pm tmo = bnd (in_world (pm_client pm)) (\<lambda>c.
     andthen (upd (\<lambda>l. l\<lparr>rl_ssh := Some c\<rparr>)) (bnd (gets fst) (\<lambda>l.
       andthen (in_world (pm_connect pm c \<lparr>ca_ip = rl_ip l, ca_username = rl_username l, ca_password = rl_password l,
           ca_port = port_or_22 (rl_port l), ca_key_filename = rl_key_file l\<rparr>))
         (bnd (in_world (pm_invoke_shell pm c)) (\<lambda>ch.
           andthen (upd (\<lambda>l. l\<lparr>rl_chan := Some ch\<rparr>))
             (ret \<lparr>sp_chan = ch, sp_timeout = tmo, sp_remove_ansi_chars = True\<rparr>))))))"

definition remote_login_start ::
  "'t terminal_ops \<Rightarrow> rat \<Rightarrow> rat \<Rightarrow> (remote_login \<times> bash_shell \<times> 't, ustr) py" where
  "remote_login_start tp banner_tmo status_tmo = bnd (gets fst) (\<lambda>l.
     in_bash (remote_shell_start tp banner_tmo status_tmo (rl_sudo l) (rl_source l)))"

definition remote_login_exit :: "'t terminal_ops \<Rightarrow> 't paramiko \<Rightarrow> (remote_login \<times> bash_shell \<times> 't, unit) py" where
  "remote_login_exit tp pm = bnd (gets fst) (\<lambda>l.
     in_bash (ssh_exit tp (map_option (pm_close pm) (rl_ssh l))))"

section \<open>A second connection\<close>

text \<open>
  The passwords a login tells its clients, for a client that notes what it is told and may
  refuse: it is a world of two lists, what it was told and which connections it refuses.
\<close>

definition noting :: "(connect_args list \<times> bool list) paramiko" where
  "noting = \<lparr>pm_client = gets (\<lambda>(told, q). length told),
     pm_connect = (\<lambda>c a. bnd (gets snd) (\<lambda>q. andthen (modify (\<lambda>(told, q). (told @ [a], drop 1 q)))
       (case q of True # _ \<Rightarrow> throw (OSError 113) | _ \<Rightarrow> ret ()))),
     pm_invoke_shell = (\<lambda>c. ret c), pm_close = (\<lambda>c. ret ())\<rparr>"

definition try_spawn :: "(connect_args list \<times> bool list, unit) login_op" where
  "try_spawn = catching (bnd (paramikospawn noting 20) (\<lambda>_. ret ())) (\<lambda>e. ret ())"

definition tries :: "nat \<Rightarrow> (connect_args list \<times> bool list, unit) login_op" where
  "tries n = for_each (\<lambda>_. try_spawn) [0..<n]"

definition passwords_told :: "connect_args list \<Rightarrow> ustr option list" where
  "passwords_told = map ca_password"

definition nth_password :: "ustr list \<Rightarrow> nat \<Rightarrow> ustr option" where
  "nth_password ps i = (if i < length ps then Some (ps ! i) else None)"

lemma one_try:
  "\<exists>l' told' q'. try_spawn (l, (told, q)) = Some (Inr (), (l', (told', q'))) \<and>
     passwords_told told' = passwords_told told @ [nth_password (ss_passwords (lg_shell l)) 0] \<and>
     ss_passwords (lg_shell l') = drop 1 (ss_passwords (lg_shell l))"
  by (cases "ss_passwords (lg_shell l)"; cases q rule: list.exhaust; cases "hd q")
    (auto simp: try_spawn_def paramikospawn_def noting_def next_password_def pop_passwords_def passwords_told_def nth_password_def)

lemma tries_tell:
  "\<exists>l' told' q'. for_each (\<lambda>_. try_spawn) xs (l, (told, q)) =
       Some (Inr (), (l', (told', q'))) \<and>
     passwords_told told' = passwords_told told @ map (nth_password (ss_passwords (lg_shell l))) [0..<length xs]"
proof (induction xs arbitrary: l told q)
  case (Cons x xs)
  obtain l1 told1 q1 where 1: "try_spawn (l, (told, q)) =
      Some (Inr (), (l1, (told1, q1)))"
    "passwords_told told1 = passwords_told told @ [nth_password (ss_passwords (lg_shell l)) 0]"
    "ss_passwords (lg_shell l1) = drop 1 (ss_passwords (lg_shell l))"
    using one_try by blast
  have "map (nth_password (drop 1 ps)) [0..<m] = map (nth_password ps) (map Suc [0..<m])" for ps m
    by (auto simp: nth_password_def)
  then have "nth_password ps 0 # map (nth_password (drop 1 ps)) [0..<m] = map (nth_password ps) [0..<Suc m]" for ps m
    by (simp add: upt_rec [of 0 "Suc m"] map_Suc_upt del: upt_Suc)
  then show ?case using Cons.IH [of l1 told1 q1] 1
    by (auto simp del: upt_Suc)
qed simp

text \<open>
  A login over Paramiko uses its passwords up: the connections of one and the same shell, the ones
  that failed included, are tried with the passwords in their order and then with none, so a
  session that is opened again, or tried again, is opened without the password.
\<close>

theorem passwords_are_used_up:
  "\<exists>l' told q. tries n (new_ssh_login s, ([], refuse)) = Some (Inr (), (l', (told, q))) \<and>
     passwords_told told = map (nth_password (ss_passwords s)) [0..<n]"
  using tries_tell [of "[0..<n]" "new_ssh_login s" "[]" refuse]
  by (auto simp: tries_def new_ssh_login_def passwords_told_def)
end
