(* ===== verification/Daemonizer.thy ===== *)
theory Daemonizer
  imports PyText
begin

text \<open>
  \<open>daemonizer.py\<close>: starting a command that outlives the Python that starts it. The process forks, the
  child starts the command and sends its pid through a pipe to the parent, which reads until
  the end of the pipe. The two processes run at the same time, so the model is a step
  relation, with the calls of the operating system as steps.
\<close>

section \<open>The two processes\<close>

text \<open>
  The parent has forked, or it has closed the end for writing and has read some bytes, or it is
  done. The child opens the file for the output, starts the command, closes the end for reading,
  writes the pid, closes the end for writing and exits. An exception leaves \<open>daemon_popen\<close>
  in the child too: what the caller makes of it runs in the child (\<open>Unwinding\<close>) until that
  process ends (\<open>Gone\<close>).
\<close>

datatype parent = ParentForked | Reading bytes | Returned int | Raised exn

datatype child = ChildForked | OutOpened | Started nat | ReadClosed nat | Written | WriteClosed | Exited | Unwinding exn | Gone

record daemon =
  dm_parent :: parent
  dm_child :: child
  dm_pipe :: bytes

text \<open>What opening the file and starting the command give; the command gets a pid.\<close>

record daemon_env =
  de_open :: "exn + unit"
  de_popen :: "exn + nat"

definition forked :: daemon where
  "forked = \<lparr>dm_parent = ParentForked, dm_child = ChildForked, dm_pipe = []\<rparr>"

text \<open>The command itself is started without the ends of the pipe (\<open>close_fds\<close>).\<close>

definition parent_writes :: "parent \<Rightarrow> bool" where
  "parent_writes p \<longleftrightarrow> p = ParentForked"

definition child_writes :: "child \<Rightarrow> bool" where
  "child_writes c \<longleftrightarrow> c \<noteq> WriteClosed \<and> c \<noteq> Exited \<and> c \<noteq> Gone"

text \<open>\<open>write_cmd_pid\<close> takes the pid of \<open>daemon_popen\<close>; each step is one call of the operating system.\<close>

fun child_next :: "daemon_env \<Rightarrow> child \<Rightarrow> (child \<times> bytes) option" where
  "child_next v ChildForked = Some (case de_open v of Inl e \<Rightarrow> (Unwinding e, []) | Inr _ \<Rightarrow> (OutOpened, []))"
| "child_next v OutOpened = Some (case de_popen v of Inl e \<Rightarrow> (Unwinding e, []) | Inr pid \<Rightarrow> (Started pid, []))"
| "child_next v (Started pid) = Some (ReadClosed pid, [])"
| "child_next v (ReadClosed pid) = Some (Written, str_of_int (int pid))"
| "child_next v Written = Some (WriteClosed, [])"
| "child_next v WriteClosed = Some (Exited, [])"
| "child_next v (Unwinding e) = Some (Gone, [])"
| "child_next v Exited = None"
| "child_next v Gone = None"

definition read_cmd_pid :: "bytes \<Rightarrow> parent" where
  "read_cmd_pid b = (case py_int b of Inl e \<Rightarrow> Raised e | Inr i \<Rightarrow> Returned i)"

inductive daemon_step :: "daemon_env \<Rightarrow> daemon \<Rightarrow> daemon \<Rightarrow> bool" for v where
  child: "child_next v (dm_child s) = Some (c, b) \<Longrightarrow>
     daemon_step v s (s\<lparr>dm_child := c, dm_pipe := dm_pipe s @ b\<rparr>)"
| close_write: "dm_parent s = ParentForked \<Longrightarrow> daemon_step v s (s\<lparr>dm_parent := Reading []\<rparr>)"
| read: "dm_parent s = Reading b \<Longrightarrow> dm_pipe s = x @ y \<Longrightarrow> x \<noteq> [] \<Longrightarrow>
     daemon_step v s (s\<lparr>dm_parent := Reading (b @ x), dm_pipe := y\<rparr>)"
| end_of_file: "dm_parent s = Reading b \<Longrightarrow> dm_pipe s = [] \<Longrightarrow> \<not> child_writes (dm_child s) \<Longrightarrow>
     daemon_step v s (s\<lparr>dm_parent := read_cmd_pid b\<rparr>)"

inductive_cases daemon_stepE: "daemon_step v s t"

inductive daemon_reach :: "daemon_env \<Rightarrow> daemon \<Rightarrow> bool" for v where
  start: "daemon_reach v forked"
| step: "daemon_reach v s \<Longrightarrow> daemon_step v s t \<Longrightarrow> daemon_reach v t"

section \<open>What the parent gets\<close>

fun bytes_read :: "parent \<Rightarrow> bytes" where
  "bytes_read (Reading b) = b"
| "bytes_read _ = []"

definition waits :: "parent \<Rightarrow> bool" where
  "waits p \<longleftrightarrow> (case p of ParentForked \<Rightarrow> True | Reading _ \<Rightarrow> True | _ \<Rightarrow> False)"

definition daemon_inv :: "daemon_env \<Rightarrow> daemon \<Rightarrow> bool" where
  "daemon_inv v s \<longleftrightarrow> (let held = bytes_read (dm_parent s) @ dm_pipe s; w = waits (dm_parent s) in case dm_child s of
     Started pid \<Rightarrow> de_open v = Inr () \<and> de_popen v = Inr pid \<and> w \<and> held = []
   | ReadClosed pid \<Rightarrow> de_open v = Inr () \<and> de_popen v = Inr pid \<and> w \<and> held = []
   | Written \<Rightarrow> (\<exists>pid. de_open v = Inr () \<and> de_popen v = Inr pid \<and> w \<and> held = str_of_int (int pid))
   | Unwinding e \<Rightarrow> (de_open v = Inl e \<or> de_open v = Inr () \<and> de_popen v = Inl e) \<and> w \<and> held = []
   | Gone \<Rightarrow> (\<exists>e. de_open v = Inl e \<or> de_open v = Inr () \<and> de_popen v = Inl e) \<and>
       (w \<and> held = [] \<or> dm_parent s = Raised ValueError)
   | ChildForked \<Rightarrow> w \<and> held = []
   | OutOpened \<Rightarrow> de_open v = Inr () \<and> w \<and> held = []
   | _ \<Rightarrow> (\<exists>pid. de_open v = Inr () \<and> de_popen v = Inr pid \<and>
       (w \<and> held = str_of_int (int pid) \<or> dm_parent s = Returned (int pid) \<and> dm_pipe s = [])))"

lemma daemon_inv_step:
  assumes "daemon_inv v s" "daemon_step v s t"
  shows "daemon_inv v t"
  using assms(2)
proof (cases rule: daemon_step.cases)
  case (child c b)
  then show ?thesis using assms(1)
    by (cases "dm_child s") (auto simp: daemon_inv_def Let_def split: sum.splits)
next
  case close_write
  then show ?thesis using assms(1)
    by (cases "dm_child s") (auto simp: daemon_inv_def Let_def waits_def)
next
  case (read b x y)
  then show ?thesis using assms(1)
    by (cases "dm_child s") (auto simp: daemon_inv_def Let_def waits_def)
next
  case (end_of_file b)
  have "py_int [] = Inl ValueError" by code_simp
  with end_of_file show ?thesis using assms(1)
    by (cases "dm_child s") (auto simp: daemon_inv_def Let_def waits_def child_writes_def read_cmd_pid_def py_int_str_of_int)
qed

lemma daemon_reach_inv: "daemon_reach v s \<Longrightarrow> daemon_inv v s"
proof (induction rule: daemon_reach.induct)
  case start
  then show ?case by (simp add: forked_def daemon_inv_def waits_def)
qed (rule daemon_inv_step)

text \<open>Every step brings the two processes nearer to their ends.\<close>

fun child_rank :: "child \<Rightarrow> nat" where
  "child_rank ChildForked = 6"
| "child_rank OutOpened = 5"
| "child_rank (Started pid) = 4"
| "child_rank (ReadClosed pid) = 3"
| "child_rank Written = 2"
| "child_rank WriteClosed = 1"
| "child_rank (Unwinding e) = 1"
| "child_rank _ = 0"

definition parent_rank :: "parent \<Rightarrow> nat" where
  "parent_rank p = (case p of ParentForked \<Rightarrow> 2 | Reading _ \<Rightarrow> 1 | _ \<Rightarrow> 0)"

lemma child_next_rank: "child_next v c = Some (c', b) \<Longrightarrow> child_rank c' < child_rank c"
  by (cases c) (auto split: sum.splits)

lemma daemon_step_wf: "wf {(t, s). daemon_step v s t}"
proof (rule wf_subset [OF wf_measures])
  show "{(t, s). daemon_step v s t} \<subseteq>
      measures [\<lambda>s. child_rank (dm_child s), \<lambda>s. length (dm_pipe s) + parent_rank (dm_parent s)]"
    by (auto elim!: daemon_stepE simp: child_next_rank parent_rank_def read_cmd_pid_def split: sum.split)
qed

lemma child_next_None: "child_next v c = None \<longleftrightarrow> c = Exited \<or> c = Gone"
  by (cases c) auto

text \<open>A parent that is not done can go on or waits for the child, which can.\<close>

lemma waiting_moves:
  assumes "waits (dm_parent s)"
  shows "\<exists>t. daemon_step v s t"
proof (cases "child_next v (dm_child s)")
  case (Some p)
  then show ?thesis by (cases p) (auto intro: daemon_step.child)
next
  case None
  then have c: "\<not> child_writes (dm_child s)" by (auto simp: child_next_None child_writes_def)
  show ?thesis
  proof (cases "dm_parent s")
    case (Reading b)
    show ?thesis
    proof (cases "dm_pipe s")
      case Nil
      show ?thesis using daemon_step.end_of_file [OF Reading Nil c] by blast
    next
      case (Cons x xs)
      then show ?thesis using daemon_step.read [OF Reading, of "[x]" xs] by auto
    qed
  qed (use assms in \<open>auto simp: waits_def intro: daemon_step.close_write\<close>)
qed

text \<open>
  C29: in whatever order the steps of the two processes happen, and in whatever pieces the pid
  arrives, every run ends, the parent is never stuck before it has returned, and what it
  returns is the pid of the started command.
\<close>

theorem daemon_popen_returns_pid:
  assumes "de_open v = Inr ()" "de_popen v = Inr pid"
  shows "wf {(t, s). daemon_step v s t} \<and>
    (\<forall>s. daemon_reach v s \<longrightarrow> (case dm_parent s of
       Returned i \<Rightarrow> i = int pid | Raised e \<Rightarrow> False | _ \<Rightarrow> \<exists>t. daemon_step v s t))"
proof (intro conjI allI impI daemon_step_wf)
  fix s
  assume r: "daemon_reach v s"
  have m: "waits (dm_parent s) \<Longrightarrow> \<exists>t. daemon_step v s t" by (rule waiting_moves)
  from daemon_reach_inv [OF r] show "case dm_parent s of
       Returned i \<Rightarrow> i = int pid | Raised e \<Rightarrow> False | _ \<Rightarrow> \<exists>t. daemon_step v s t"
    using assms m by (cases "dm_parent s"; cases "dm_child s") (auto simp: daemon_inv_def waits_def)
qed

text \<open>
  When the file cannot be opened or the command cannot be started, the exception is raised
  in the child only, where it leaves \<open>daemon_popen\<close> with the pipe still open: until the process
  of the child ends, the parent waits, and then it raises \<open>ValueError\<close>, never the exception.
\<close>

theorem failed_daemon_blocks_parent:
  assumes "\<not> (de_open v = Inr () \<and> (\<exists>pid. de_popen v = Inr pid))" "daemon_reach v s"
  shows "(waits (dm_parent s) \<or> dm_parent s = Raised ValueError) \<and>
    (case dm_child s of Unwinding e \<Rightarrow> (dm_parent s = ParentForked \<or> dm_parent s = Reading []) \<and>
       (\<forall>t. daemon_step v s t \<and> dm_parent s = Reading [] \<longrightarrow> dm_parent t = Reading [])
     | Exited \<Rightarrow> False | _ \<Rightarrow> True)"
proof -
  have "(waits (dm_parent s) \<or> dm_parent s = Raised ValueError) \<and> dm_child s \<noteq> Exited"
    using daemon_reach_inv [OF assms(2)] assms(1)
    by (cases "dm_child s") (auto simp: daemon_inv_def waits_def)
  moreover have "(dm_parent s = ParentForked \<or> dm_parent s = Reading []) \<and> dm_pipe s = []" if "dm_child s = Unwinding e" for e
    using daemon_reach_inv [OF assms(2)] that
    by (cases "dm_parent s") (auto simp: daemon_inv_def waits_def)
  moreover have "dm_parent t = Reading []" if "dm_child s = Unwinding e" "daemon_step v s t" "dm_parent s = Reading []" "dm_pipe s = []" for e t
    using that(2) by (cases rule: daemon_step.cases) (use that in \<open>auto simp: child_writes_def\<close>)
  ultimately show ?thesis by (auto split: child.split)
qed

lemma daemon_popen_returns_pid_witness:
  "wf {(t, s). daemon_step \<lparr>de_open = Inr (), de_popen = Inr 4711\<rparr> s t}"
  by (rule conjunct1 [OF daemon_popen_returns_pid [of _ 4711]]) simp_all

definition no_command :: daemon_env where
  "no_command = \<lparr>de_open = Inr (), de_popen = Inl (OSError 2)\<rparr>"

lemma failed_daemon_blocks_parent_witness:
  "\<exists>s. daemon_reach no_command s \<and> dm_child s = Unwinding (OSError 2) \<and> dm_parent s = Reading [] \<and>
     (\<forall>t. daemon_step no_command s t \<longrightarrow> dm_parent t = Reading [])"
proof -
  let ?s1 = "forked\<lparr>dm_child := OutOpened, dm_pipe := [] @ []\<rparr>"
  let ?s2 = "?s1\<lparr>dm_child := Unwinding (OSError 2), dm_pipe := dm_pipe ?s1 @ []\<rparr>"
  let ?s3 = "?s2\<lparr>dm_parent := Reading []\<rparr>"
  have "daemon_step no_command forked ?s1" "daemon_step no_command ?s1 ?s2"
    using daemon_step.child [of no_command forked OutOpened "[]"]
      daemon_step.child [of no_command ?s1 "Unwinding (OSError 2)" "[]"]
    by (simp_all add: forked_def no_command_def)
  moreover have "daemon_step no_command ?s2 ?s3"
    by (rule daemon_step.close_write) (simp add: forked_def)
  ultimately have r: "daemon_reach no_command ?s3"
    by (intro daemon_reach.step [OF daemon_reach.step [OF daemon_reach.step [OF daemon_reach.start]]])
  have "\<not> (de_open no_command = Inr () \<and> (\<exists>pid. de_popen no_command = Inr pid))" by (simp add: no_command_def)
  from failed_daemon_blocks_parent [OF this r] r show ?thesis
    by (intro exI [of _ ?s3]) simp
qed

end
