(* ===== verification/LogLevels.thy ===== *)
theory LogLevels
  imports Prelude
begin

text \<open>
  \<open>_runnerterminalloglevel.py\<close>: the decorator that makes the loggers of the terminals quiet while
  a function runs, over the levels of all loggers of the \<open>logging\<close> module. The decorated function is
  a program over the same state, so that it may change levels or be decorated itself.
\<close>

section \<open>Levels of loggers\<close>

text \<open>
  Levels are numbers, 0 is \<open>NOTSET\<close>: such a logger takes the level of the next one on the way
  to the root, whose name is empty here.
\<close>

type_synonym log_levels = "string \<Rightarrow> nat"

definition parent_logger :: "string \<Rightarrow> string" where
  "parent_logger n = rev (drop 1 (dropWhile (\<lambda>c. c \<noteq> CHR ''.'') (rev n)))"

lemma parent_logger_shorter: "n \<noteq> [] \<Longrightarrow> length (parent_logger n) < length n"
  using length_dropWhile_le [of "\<lambda>c. c \<noteq> CHR ''.''" "rev n"]
  by (cases "rev n") (auto simp: parent_logger_def)

function effective_level :: "log_levels \<Rightarrow> string \<Rightarrow> nat" where
  "effective_level l n = (if l n \<noteq> 0 \<or> n = [] then l n else effective_level l (parent_logger n))"
  by pat_completeness auto
termination
  by (relation "measure (\<lambda>(l, n). length n)") (auto simp: parent_logger_shorter)

declare effective_level.simps [simp del]

section \<open>The decorator\<close>

record log_level =
  ll_level :: nat
  ll_loggers :: "(string \<times> string) list"
  ll_backuplevels :: "string \<Rightarrow> nat option"

definition logger_base :: string where
  "logger_base = ''crl.interactivesessions''"

definition logged_modules :: "string list" where
  "logged_modules = [''runnerterminal'', ''autorunnerterminal'', ''shells.pythonshell'', ''shells.shell'']"

definition get_logger_name :: "string \<Rightarrow> string" where
  "get_logger_name m = logger_base @ ''.'' @ m"

definition new_log_level :: "nat \<Rightarrow> log_level" where
  "new_log_level level = \<lparr>ll_level = level, ll_loggers = map (\<lambda>m. (m, get_logger_name m)) logged_modules,
     ll_backuplevels = (\<lambda>_. None)\<rparr>"

definition new_quiet_log_level :: "nat \<Rightarrow> log_level" where
  "new_quiet_log_level level = (let d = new_log_level level; self = get_logger_name ''_runnerterminalloglevel'' in
     d\<lparr>ll_loggers := ll_loggers d @ [(self, self)]\<rparr>)"

text \<open>The decorator, the levels of all loggers, and the rest of the world.\<close>

type_synonym ('w, 'a) log_op = "(log_level \<times> log_levels \<times> 'w, 'a) py"

definition set_logger_level :: "string \<Rightarrow> nat \<Rightarrow> ('w, unit) log_op" where
  "set_logger_level n x = modify (\<lambda>(d, l, w). (d, l(n := x), w))"

definition backup_levels :: "('w, unit) log_op" where
  "backup_levels = bnd (gets (\<lambda>(d, l, w). ll_loggers d)) (for_each (\<lambda>(m, n). modify (\<lambda>(d, l, w).
     (d\<lparr>ll_backuplevels := (ll_backuplevels d)(m \<mapsto> effective_level l n)\<rparr>, l, w))))"

definition setlevel_for_loggers :: "('w, unit) log_op" where
  "setlevel_for_loggers = bnd (gets (\<lambda>(d, l, w). d)) (\<lambda>d.
     for_each (\<lambda>(m, n). set_logger_level n (ll_level d)) (ll_loggers d))"

definition restore_levels :: "('w, unit) log_op" where
  "restore_levels = bnd (gets (\<lambda>(d, l, w). ll_loggers d)) (for_each (\<lambda>(m, n).
     bnd (gets (\<lambda>(d, l, w). ll_backuplevels d m)) (\<lambda>x. case x of
       None \<Rightarrow> throw KeyError | Some v \<Rightarrow> set_logger_level n v)))"

text \<open>The function a decorated \<open>f\<close> becomes.\<close>

definition with_log_level :: "('w, 'a) log_op \<Rightarrow> ('w, 'a) log_op" where
  "with_log_level f = andthen backup_levels (andthen setlevel_for_loggers (finally_do f restore_levels))"

section \<open>What the decorated function leaves behind\<close>

definition backed_up :: "log_levels \<Rightarrow> log_level \<Rightarrow> log_level" where
  "backed_up l d = d\<lparr>ll_backuplevels := (\<lambda>m. case map_of (rev (ll_loggers d)) m of
     None \<Rightarrow> ll_backuplevels d m | Some n \<Rightarrow> Some (effective_level l n))\<rparr>"

definition set_all :: "(string \<Rightarrow> nat) \<Rightarrow> string set \<Rightarrow> log_levels \<Rightarrow> log_levels" where
  "set_all v N l = (\<lambda>n. if n \<in> N then v n else l n)"

lemma backup_each:
  "for_each (\<lambda>(m, n). modify (\<lambda>(d, l, w). (d\<lparr>ll_backuplevels := (ll_backuplevels d)(m \<mapsto> effective_level l n)\<rparr>, l, w)))
     xs (d, l, w) = Some (Inr (), (d\<lparr>ll_backuplevels := (\<lambda>m. case map_of (rev xs) m of
     None \<Rightarrow> ll_backuplevels d m | Some n \<Rightarrow> Some (effective_level l n))\<rparr>, l, w))"
  by (induction xs arbitrary: d) (auto simp: map_add_def fun_eq_iff intro!: log_level.equality split: option.split)

lemma backup_levels_app: "backup_levels (d, l, w) = Some (Inr (), (backed_up l d, l, w))"
  by (simp add: backup_levels_def backup_each backed_up_def)

lemma set_each:
  "for_each (\<lambda>(m, n). set_logger_level n x) xs (d, l, w) = Some (Inr (), (d, set_all (\<lambda>_. x) (snd ` set xs) l, w))"
  by (induction xs arbitrary: l) (auto simp: set_logger_level_def set_all_def fun_eq_iff)

lemma setlevel_app:
  "setlevel_for_loggers (d, l, w) =
     Some (Inr (), (d, set_all (\<lambda>_. ll_level d) (snd ` set (ll_loggers d)) l, w))"
  by (simp add: setlevel_for_loggers_def set_each)

lemma restore_each:
  assumes "list_all (\<lambda>(m, n). ll_backuplevels d m = Some (v n)) xs"
  shows "for_each (\<lambda>(m, n). bnd (gets (\<lambda>(d, l, w). ll_backuplevels d m)) (\<lambda>x. case x of
       None \<Rightarrow> throw KeyError | Some v \<Rightarrow> set_logger_level n v)) xs (d, l, w) =
     Some (Inr (), (d, set_all v (snd ` set xs) l, w))"
  using assms by (induction xs arbitrary: l) (auto simp: set_logger_level_def set_all_def fun_eq_iff)

lemma restore_app:
  assumes "list_all (\<lambda>(m, n). ll_backuplevels d m = Some (v n)) (ll_loggers d)"
  shows "restore_levels (d, l, w) = Some (Inr (), (d, set_all v (snd ` set (ll_loggers d)) l, w))"
  using restore_each [OF assms] by (simp add: restore_levels_def)

lemma backed_up_value:
  assumes "distinct (map fst (ll_loggers d))"
  shows "list_all (\<lambda>(m, n). ll_backuplevels (backed_up l d) m = Some (effective_level l n)) (ll_loggers d)"
proof -
  have "map_of (rev (ll_loggers d)) m = Some n" if "(m, n) \<in> set (ll_loggers d)" for m n
    using that assms by (intro map_of_is_SomeI) (simp_all add: rev_map [symmetric])
  then show ?thesis by (auto simp: list_all_iff backed_up_def simp del: map_of_eq_Some_iff)
qed

text \<open>Giving loggers the effective level they have as their own changes no effective level.\<close>

lemma effective_level_set_all:
  assumes "l [] \<noteq> 0"
  shows "effective_level (set_all (effective_level l) N l) n = effective_level l n \<and> effective_level l n \<noteq> 0"
  using assms
proof (induction l n rule: effective_level.induct)
  case (1 l n)
  let ?l = "set_all (effective_level l) N l"
  show ?case
  proof (cases "l n \<noteq> 0 \<or> n = []")
    case True
    then have "effective_level l n = l n" "?l n = l n" "l n \<noteq> 0"
      using "1.prems" by (auto simp: effective_level.simps [of l n] set_all_def)
    then show ?thesis by (simp add: effective_level.simps [of ?l n])
  next
    case False
    then have eq: "effective_level l n = effective_level l (parent_logger n)" by (simp add: effective_level.simps [of l n])
    have "?l n = (if n \<in> N then effective_level l n else 0)" using False by (simp add: set_all_def)
    moreover have "effective_level ?l n = (if ?l n \<noteq> 0 \<or> n = [] then ?l n else effective_level ?l (parent_logger n))"
      by (rule effective_level.simps)
    ultimately show ?thesis using "1.IH" [OF False "1.prems"] False by (auto simp: eq)
  qed
qed

definition same_logging :: "log_level \<times> log_levels \<times> 'w \<Rightarrow> log_level \<times> log_levels \<times> 'w \<Rightarrow> bool" where
  "same_logging s t \<longleftrightarrow> fst t = fst s \<and> fst (snd t) = fst (snd s)"

lemma set_all_again: "set_all v N (set_all u N l) = set_all v N l"
  by (simp add: set_all_def fun_eq_iff)

lemma backed_up_sel [simp]: "ll_loggers (backed_up l d) = ll_loggers d" "ll_level (backed_up l d) = ll_level d"
  by (simp_all add: backed_up_def)

lemma restore_backed_up:
  assumes "distinct (map fst (ll_loggers d))"
  shows "restore_levels (backed_up l d, k, v) =
    Some (Inr (), (backed_up l d, set_all (effective_level l) (snd ` set (ll_loggers d)) k, v))"
  using restore_app [of "backed_up l d" "effective_level l" k v] backed_up_value [OF assms, of l] by simp

text \<open>What a decorated function does, when the function itself leaves levels and decorator alone.\<close>

lemma with_log_level_result:
  assumes "keeps same_logging f" "distinct (map fst (ll_loggers d))"
    and "with_log_level f (d, l, w) = Some (r, s')"
  shows "\<exists>w'. s' = (backed_up l d, set_all (effective_level l) (snd ` set (ll_loggers d)) l, w') \<and>
    f (backed_up l d, set_all (\<lambda>_. ll_level d) (snd ` set (ll_loggers d)) l, w) =
      Some (r, (backed_up l d, set_all (\<lambda>_. ll_level d) (snd ` set (ll_loggers d)) l, w'))"
proof -
  let ?q = "set_all (\<lambda>_. ll_level d) (snd ` set (ll_loggers d)) l"
  have "finally_do f restore_levels (backed_up l d, ?q, w) = Some (r, s')"
    using assms(3) by (simp add: with_log_level_def backup_levels_app setlevel_app)
  then obtain x t y where f: "f (backed_up l d, ?q, w) = Some (x, t)" and y: "restore_levels t = Some (y, s')"
    "r = (case y of Inl e \<Rightarrow> Inl e | Inr _ \<Rightarrow> x)"
    by (rule finally_do_cases)
  obtain w' where t: "t = (backed_up l d, ?q, w')"
    using keepsD [OF assms(1) f] by (cases t) (auto simp: same_logging_def)
  show ?thesis
    using f y unfolding t by (auto simp: restore_backed_up [OF assms(2)] set_all_again)
qed

lemma quiet_loggers_distinct: "distinct (map fst (ll_loggers (new_quiet_log_level x)))"
  by (simp add: new_quiet_log_level_def new_log_level_def logged_modules_def get_logger_name_def logger_base_def Let_def)

text \<open>
  C35: a quiet call hides nothing for good: whatever it returns or raises, every logger, also one
  below or above those that were made quiet, has the effective level it had before.
\<close>

theorem quiet_call_restores_levels:
  assumes "keeps same_logging f" "l [] \<noteq> 0"
    and "with_log_level f (new_quiet_log_level x, l, w) = Some (r, (d', l', w'))"
  shows "effective_level l' n = effective_level l n"
  using with_log_level_result [OF assms(1) quiet_loggers_distinct assms(3)]
    effective_level_set_all [where l = l, OF assms(2)] by auto

text \<open>
  The decorator keeps one backup for all its calls: when a quiet call is made within a quiet
  call, the inner one backs the quiet levels up, and the outer one restores those.
\<close>

theorem nested_quiet_call_stays_quiet:
  assumes "keeps same_logging f" "x \<noteq> 0" "(m, n) \<in> set (ll_loggers (new_quiet_log_level x))"
    and "with_log_level (with_log_level f) (new_quiet_log_level x, l, w) = Some (r, (d', l', w'))"
  shows "l' n = x"
proof -
  let ?d = "new_quiet_log_level x"
  let ?N = "snd ` set (ll_loggers ?d)"
  let ?q = "set_all (\<lambda>_. x) ?N l"
  have x: "ll_level ?d = x" by (simp add: new_quiet_log_level_def new_log_level_def Let_def)
  have "finally_do (with_log_level f) restore_levels (backed_up l ?d, ?q, w) = Some (r, (d', l', w'))"
    using assms(4) by (simp add: with_log_level_def [of "with_log_level f"] backup_levels_app setlevel_app x)
  then obtain y t z where f: "with_log_level f (backed_up l ?d, ?q, w) = Some (y, t)"
    and z: "restore_levels t = Some (z, (d', l', w'))"
    by (rule finally_do_cases)
  have dist: "distinct (map fst (ll_loggers (backed_up l ?d)))" by (simp add: quiet_loggers_distinct)
  obtain v where t: "t = (backed_up ?q (backed_up l ?d), set_all (effective_level ?q) ?N ?q, v)"
    using with_log_level_result [OF assms(1) dist f] by auto
  have "restore_levels t = Some (Inr (), (backed_up ?q (backed_up l ?d), set_all (effective_level ?q) ?N ?q, v))"
    unfolding t by (simp add: restore_backed_up [OF dist] set_all_again)
  moreover have "n \<in> ?N" using assms(3) by (force intro: rev_image_eqI)
  ultimately show ?thesis
    using z assms(2) by (auto simp: set_all_def effective_level.simps [of "\<lambda>n. if n \<in> ?N then x else l n" n])
qed

definition default_levels :: log_levels where
  "default_levels n = (if n = [] then 30 else 0)"

lemma with_log_level_throw:
  "distinct (map fst (ll_loggers d)) \<Longrightarrow> \<exists>l'. with_log_level (throw e) (d, l, w) = Some (Inl e, (backed_up l d, l', w))"
  by (simp add: with_log_level_def backup_levels_app setlevel_app finally_do_app restore_backed_up)

lemma keeps_throw: "keeps same_logging (throw e)"
  by (simp add: keeps_def same_logging_def)

lemma quiet_call_restores_levels_witness:
  "\<exists>d' l'. with_log_level (throw KeyError) (new_quiet_log_level 20, default_levels, ()) = Some (Inl KeyError :: exn + unit, (d', l', ())) \<and>
     effective_level l' ''crl'' = effective_level default_levels ''crl''"
proof -
  obtain d' l' where *: "with_log_level (throw KeyError) (new_quiet_log_level 20, default_levels, ()) =
      Some (Inl KeyError :: exn + unit, (d', l', ()))"
    using with_log_level_throw [OF quiet_loggers_distinct, of KeyError 20 default_levels "()"] by auto
  have "effective_level l' ''crl'' = effective_level default_levels ''crl''"
    by (rule quiet_call_restores_levels [OF keeps_throw _ *]) (simp add: default_levels_def)
  with * show ?thesis by blast
qed

lemma nested_quiet_call_stays_quiet_witness:
  "\<exists>d' l'. with_log_level (with_log_level (throw KeyError)) (new_quiet_log_level 20, default_levels, ()) =
       Some (Inl KeyError :: exn + unit, (d', l', ())) \<and>
     l' ''crl.interactivesessions.runnerterminal'' = 20"
proof -
  let ?d = "new_quiet_log_level 20" and ?f = "throw KeyError :: (unit, unit) log_op"
  let ?q = "set_all (\<lambda>_. 20) (snd ` set (ll_loggers ?d)) default_levels"
  have x: "ll_level ?d = 20" by (simp add: new_quiet_log_level_def new_log_level_def Let_def)
  have dist: "distinct (map fst (ll_loggers (backed_up k ?d)))" for k by (simp add: quiet_loggers_distinct)
  obtain k where "with_log_level ?f (backed_up default_levels ?d, ?q, ()) =
      Some (Inl KeyError, (backed_up ?q (backed_up default_levels ?d), k, ()))"
    using with_log_level_throw [OF dist, of KeyError default_levels ?q "()"] by auto
  then have "\<exists>d' l'. with_log_level (with_log_level ?f) (?d, default_levels, ()) = Some (Inl KeyError, (d', l', ()))"
    by (simp add: with_log_level_def [of "with_log_level ?f"] backup_levels_app setlevel_app x finally_do_app
        restore_backed_up [OF dist])
  then obtain d' l' where *: "with_log_level (with_log_level ?f) (?d, default_levels, ()) = Some (Inl KeyError, (d', l', ()))"
    by blast
  have "(''runnerterminal'', ''crl.interactivesessions.runnerterminal'') \<in> set (ll_loggers ?d)"
    by (simp add: new_quiet_log_level_def new_log_level_def Let_def logged_modules_def get_logger_name_def logger_base_def)
  from nested_quiet_call_stays_quiet [OF keeps_throw _ this *] * show ?thesis by auto
qed
end
