(* ===== verification/RunTexts.thy ===== *)
theory RunTexts
  imports SelfRepairing PythonShells
begin

text \<open>
  The texts of the runs of \<open>ShellSubprocess.py\<close> and \<open>SelfRepairingSession.py\<close>, which \<open>SelfRepairing\<close>
  passes by: the command a run is started with, what the remote end prints, and how the printed
  result is taken back. Pickling and the text of numbers with a fraction are arguments.
\<close>

section \<open>Names\<close>

text \<open>A compiled file is named by that of its source.\<close>

definition python_filename :: "string \<Rightarrow> string" where
  "python_filename f = (if f \<noteq> [] \<and> List.last f = CHR ''y'' then f else butlast f)"

definition get_module_name :: "string \<Rightarrow> string" where
  "get_module_name f = (let b = path_basename (python_filename f) in take (length b - 3) b)"

definition import_command :: "string \<Rightarrow> string" where
  "import_command f = ''from '' @ get_module_name f @ '' import RunShellSubprocess, ReadonlyShellSubprocess''"

text \<open>The class a pickled name stands for: the remote module is the local one under its own name.\<close>

definition find_class :: "string \<Rightarrow> string \<Rightarrow> string \<times> string \<Rightarrow> string \<times> string" where
  "find_class f here n = (if fst n = get_module_name f then (here, snd n) else n)"

section \<open>The command of a run\<close>

definition start_trigger :: "nat \<Rightarrow> string" where
  "start_trigger i = ''Run '' @ str_of_int (int i) @ '' starting''"

definition serialized :: "('a \<Rightarrow> bytes) \<Rightarrow> 'a \<Rightarrow> bytes" where
  "serialized dumps x = b64encode (dumps x)"

definition deserialized :: "(bytes \<Rightarrow> exn + 'a) \<Rightarrow> bytes \<Rightarrow> exn + 'a" where
  "deserialized loads b = (case b64decode b of Inl e \<Rightarrow> Inl e | Inr d \<Rightarrow> loads d)"

definition run_creation_command ::
  "(ustr \<Rightarrow> bytes) \<Rightarrow> (rat \<Rightarrow> string) \<Rightarrow> string \<Rightarrow> nat \<Rightarrow> ustr \<Rightarrow> rat option \<Rightarrow> string" where
  "run_creation_command dumps num exe i cmd tmo = ''RunShellSubprocess('' @ str_of_int (int i) @ '', '' @
     py_repr True (serialized dumps cmd) @ '', timeout='' @ (case tmo of None \<Rightarrow> ''None'' | Some t \<Rightarrow> num t) @
     '', executable='' @ [single_quote] @ exe @ [single_quote] @ '')''"

definition backup_creation_command :: "nat \<Rightarrow> string" where
  "backup_creation_command i = ''ReadonlyShellSubprocess('' @ str_of_int (int i) @ '')''"

definition run_command_text :: "(ustr \<Rightarrow> bytes) \<Rightarrow> (rat \<Rightarrow> string) \<Rightarrow> string \<Rightarrow> run_command \<Rightarrow> string" where
  "run_command_text dumps num exe c = (case c of
     RunCommand i cmd tmo \<Rightarrow> run_creation_command dumps num exe i cmd tmo
   | BackupCommand i \<Rightarrow> backup_creation_command i) @ ''.run()''"

text \<open>
  The file of the module is brought to the working directory by the Python shell, as the pickled
  list of its lines. \<open>readlines\<close> is the local file system.
\<close>

definition path_join :: "string \<Rightarrow> string \<Rightarrow> string" where
  "path_join a b = (if b \<noteq> [] \<and> hd b = CHR ''/'' then b
     else if a = [] \<or> List.last a = CHR ''/'' then a @ b else a @ ''/'' @ b)"

definition transfer_text_file ::
  "'t terminal_ops \<Rightarrow> (string list \<Rightarrow> bytes) \<Rightarrow> (string \<Rightarrow> exn + string list) \<Rightarrow> string \<Rightarrow> string \<Rightarrow> ('t, unit) shell_op" where
  "transfer_text_file tp dumps readlines source_path destination_dir = bnd (of_sum (readlines source_path)) (\<lambda>lines.
     write_lines_to_file tp (ustr_of (py_repr True (serialized dumps lines)))
       (ustr_of (path_join destination_dir (path_basename source_path))))"

section \<open>The remote end\<close>

definition remote_cmd :: "(bytes \<Rightarrow> exn + ustr) \<Rightarrow> bytes \<Rightarrow> exn + ustr" where
  "remote_cmd loads ser = (if ser = [] then Inr [] else deserialized loads ser)"

text \<open>The lines \<open>run\<close> prints, and the exception that leaves it, one that is not an \<open>Exception\<close>.\<close>

definition printed_run ::
  "(exec_result option \<Rightarrow> bytes) \<Rightarrow> nat \<Rightarrow> ustr \<Rightarrow> exn + exec_result option \<Rightarrow> string list \<times> exn option" where
  "printed_run dumps i cmd r = (case r of
     Inr x \<Rightarrow> ([start_trigger i, serialized dumps x], None)
   | Inl e \<Rightarrow> if is_Exception e then ([start_trigger i, serialized dumps (Some (Failed i cmd e))], None)
       else ([start_trigger i], Some e))"

section \<open>The local end\<close>

definition loaded_output :: "(bytes \<Rightarrow> exn + exec_result option) \<Rightarrow> ustr \<Rightarrow> exn + exec_result option" where
  "loaded_output loads out =
     (case (case to_bytes (PyStr out) of Inl e \<Rightarrow> Inl e | Inr b \<Rightarrow> deserialized loads b) of
        Inl e \<Rightarrow> if is_Exception e then Inl UnexpectedTerminalOutput else Inl e
      | Inr x \<Rightarrow> Inr x)"

definition loads_of :: "(bytes \<Rightarrow> exn + exec_result option) \<Rightarrow> ustr \<Rightarrow> exec_result option option" where
  "loads_of loads out = (case loaded_output loads out of Inl e \<Rightarrow> None | Inr x \<Rightarrow> Some x)"

section \<open>A run and its result\<close>

text \<open>The command read from the text of a run is the command that was given.\<close>

theorem run_text_is_read_back:
  assumes "\<And>c. loads (dumps c) = Inr c"
  shows "\<exists>ser. read_literal (drop (length (''RunShellSubprocess('' @ str_of_int (int i) @ '', '')) (run_creation_command dumps num exe i cmd tmo)) =
      Some (True, ser, '', timeout='' @ (case tmo of None \<Rightarrow> ''None'' | Some t \<Rightarrow> num t) @
        '', executable='' @ [single_quote] @ exe @ [single_quote] @ '')'') \<and>
    (dumps cmd \<noteq> [] \<longrightarrow> remote_cmd loads ser = Inr cmd)"
proof -
  have t: "run_creation_command dumps num exe i cmd tmo = (''RunShellSubprocess('' @ str_of_int (int i) @ '', '') @
      py_repr True (serialized dumps cmd) @ '', timeout='' @ (case tmo of None \<Rightarrow> ''None'' | Some t \<Rightarrow> num t) @
      '', executable='' @ [single_quote] @ exe @ [single_quote] @ '')''"
    by (simp add: run_creation_command_def)
  have "dumps cmd \<noteq> [] \<longrightarrow> remote_cmd loads (serialized dumps cmd) = Inr cmd"
    by (simp add: remote_cmd_def deserialized_def serialized_def assms)
  then show ?thesis
    by (intro exI [of _ "serialized dumps cmd"]) (simp only: t drop_append_exact repr_is_read_back simp_thms)
qed

lemma ascii_utf8:
  assumes "\<And>c. c \<in> set s \<Longrightarrow> of_char c < (128 :: nat)"
  shows "utf8_encode (ustr_of s) = Inr s"
proof -
  have "list_all valid_cp (ustr_of s)" using assms by (fastforce simp: list_all_iff ustr_of_def valid_cp_def)
  moreover have "concat (map utf8_char (ustr_of s)) = s"
    using assms by (induction s) (simp_all add: ustr_of_def utf8_char_def)
  ultimately show ?thesis by (simp add: utf8_encode_def)
qed

lemma b64chr_ascii: "v < 64 \<Longrightarrow> of_char (b64chr v) < (128 :: nat)"
  by (auto simp: b64chr_def of_char_of)

lemma b64encode_ascii: "c \<in> set (b64encode s) \<Longrightarrow> of_char c < (128 :: nat)"
proof (induction s rule: b64encode.induct)
  case (2 a)
  note six = sextets [OF of_char_less [of a] of_char_less [of a] of_char_less [of a]]
  show ?case using 2 by (auto simp: Let_def intro!: b64chr_ascii six(1,2))
next
  case (3 a b)
  note six = sextets [OF of_char_less [of a] of_char_less [of b] of_char_less [of a]]
  show ?case using 3 by (auto simp: Let_def intro!: b64chr_ascii six(1,3,4))
next
  case (4 a b c' r)
  note six = sextets [OF of_char_less [of a] of_char_less [of b] of_char_less [of c']]
  show ?case using 4 by (auto simp: Let_def intro!: b64chr_ascii six(1,3,5,6))
qed simp

text \<open>What the remote end printed is the result the local end gets, if it is that of the run it asked for.\<close>

theorem printed_result_arrives:
  assumes "\<And>x. loads (dumps x) = Inr x" "sr_loads v = loads_of loads" "printed_run dumps i cmd r = ([t, line], None)"
  shows "t = start_trigger i \<and>
    (\<exists>x. (case r of Inr y \<Rightarrow> x = y | Inl e \<Rightarrow> x = Some (Failed i cmd e)) \<and>
      result_from_output v (ustr_of line) (s, w) = (case x of
        None \<Rightarrow> Some (Inl AttributeError, (s, w))
      | Some y \<Rightarrow> Some (get_run_result (sn_run_id s) y, (s, w))))"
proof -
  have l: "sr_loads v (ustr_of (serialized dumps x)) = Some x" for x
    using ascii_utf8 [of "b64encode (dumps x)"] b64encode_ascii assms(1) [of x]
    by (simp add: assms(2) loads_of_def loaded_output_def serialized_def deserialized_def)
  show ?thesis
    using assms(3) l
    by (auto simp: printed_run_def result_from_output_def split: sum.splits if_splits option.splits)
qed

text \<open>Whatever else comes is \<open>UnexpectedTerminalOutput\<close>.\<close>

lemma loaded_output_error: "loaded_output loads out = Inl e \<Longrightarrow> e = UnexpectedTerminalOutput \<or> e = SystemExit"
  by (auto simp: loaded_output_def is_Exception_def split: sum.splits if_splits)

end
