(* ===== verification/Spec2Isabelle.thy ===== *)
theory Spec2Isabelle
  imports Dialogue AutoTerminal RemoteFiles RemoteRunner SelfRepairing Sessions OtherShells Logins
    Daemonizer LogLevels RunTexts
begin

text \<open>
  A verification development for \<open>crl.interactivesessions\<close>, the library that runs shell commands and
  Python code in remote targets through terminals. Paths below are relative to
  \<open>src/crl/interactivesessions/\<close> of the repository.

  \<^bold>\<open>The program.\<close> A \<open>RemoteRunner\<close> (\<open>remoterunner.py\<close>) keeps targets, each a list of shell
  descriptions, and runs commands in them. For a run it takes a terminal from the pools
  (\<open>_terminalpools.py\<close>, \<open>_pool.py\<close>), opens it if needed (\<open>autorunnerterminal.py\<close>,
  \<open>autorecoveringterminal.py\<close>), and talks through proxies (\<open>remoteproxies.py\<close>) and a
  \<open>RunnerTerminal\<close> (\<open>runnerterminal.py\<close>) to the \<open>RunnerHandler\<close> that runs in the remote Python.
  Every remote call is a piece of Python text; the topmost shell of the session's stack
  (\<open>InteractiveSession.py\<close>, \<open>shells/\<close>) executes it. In the newest Python shell
  (\<open>shells/msgpythonshell.py\<close>) the text travels as a message: serialised, framed with a token and a
  length, cut into chunks that are acknowledged one by one, through a terminal that may deliver
  bytes in any pieces and with garbage between them, to a server that answers each request at most
  once and repeats its replies until they are acknowledged.

  \<^bold>\<open>Programs.\<close> Python code is a function on states with three outcomes: it returns, raises, or never
  ends (\<open>Prelude\<close>: \<open>py\<close>, \<open>bnd\<close>, \<open>catching\<close>, \<open>finally_do\<close>). Exceptions are one datatype. Loops that may
  run for ever are \<open>partial_function (option)\<close>, so that not returning is the value \<open>None\<close>; that they
  return is proved, never assumed. There is no fuel in the development. Where a property says what is called,
  how often or in which order, the calls are programs that record themselves (\<open>recording\<close>): the opening and
  closing of files, the sessions created and closed, the bytes and messages sent. What is not code of the
  repository (pexpect, Paramiko, pickle, the operating system, \<open>uuid\<close>, the clock, threads) is a
  field of an environment record that the definitions take as an argument. Times are rational.

  \<^bold>\<open>Theories and sources.\<close>
  \<^item> \<open>PyText\<close>, \<open>Compatibility\<close>: what is used of \<open>int\<close>, \<open>str\<close>, base64 and UTF-8; \<open>remotemodules/compatibility.py\<close>.
  \<^item> \<open>SharedIO\<close>, \<open>TokenReader\<close>, \<open>ChunkComm\<close>: \<open>remotemodules/chunkcomm.py\<close> and \<open>tokenreader.py\<close>. A queue of bytes
    (locale \<open>byte_queue\<close>), the matchers of tokens with one gap, chunks with acknowledgements. The locales
    \<open>raw_source\<close>, \<open>exact_source\<close> and \<open>duplex_channel\<close> are the interfaces between a transport and what reads from
    it; a chunk communication over a channel is again a channel.
  \<^item> \<open>Msgs\<close>, \<open>MsgManager\<close>, \<open>MsgCaches\<close>, \<open>Server\<close>: \<open>remotemodules/msgs.py\<close>, \<open>msgmanager.py\<close>, \<open>msgcaches.py\<close>, and
    \<open>servers.py\<close>, \<open>servercomm.py\<close>, \<open>msghandlers.py\<close>, \<open>pythoncmdline.py\<close>. The server's communication is a
    \<open>duplex_channel\<close> (interpretations \<open>sv\<close>, \<open>sva\<close>).
  \<^item> \<open>ParamikoSpawn\<close>, \<open>TerminalClient\<close>: \<open>shells/paramikospawn.py\<close>, \<open>shells/terminalclient.py\<close>. The client's
    communication is a \<open>duplex_channel\<close> (interpretation \<open>tc\<close>) over the reads of the terminal.
  \<^item> \<open>Shell\<close>, \<open>BashShell\<close>, \<open>Logins\<close>, \<open>OtherShells\<close>, \<open>PythonShells\<close>: the shells of \<open>shells/\<close>.
  \<^item> \<open>Dialogue\<close>: a shell of \<open>PythonShells\<close> and a \<open>Server\<close> in one session, from the start of the server to its end.
  \<^item> \<open>RunnerHandler\<close>, \<open>RunnerTerminal\<close>, \<open>RemoteProxies\<close>, \<open>RemoteImports\<close>, \<open>AutoTerminal\<close>: \<open>RunnerHandler.py\<close>,
    \<open>runnerterminal.py\<close> with \<open>runnerexceptions.py\<close> and \<open>garbagemanager.py\<close>, \<open>remoteproxies.py\<close>, \<open>remoteimporter.py\<close> with
    \<open>_remoterunnerproxies.py\<close>, \<open>autorecoveringterminal.py\<close> with \<open>autorunnerterminal.py\<close>.
  \<^item> \<open>Pool\<close>, \<open>TerminalPools\<close>, \<open>Process\<close>, \<open>FileCopier\<close>, \<open>RemoteFiles\<close>, \<open>RemoteRunner\<close>: \<open>_pool.py\<close>, \<open>_terminalpools.py\<close> with
    \<open>_targetproperties.py\<close> and \<open>_terminalpoolkey.py\<close>, \<open>_process.py\<close> with \<open>_runnerintarget.py\<close>, \<open>_filecopier.py\<close>,
    \<open>remoterunner.py\<close> with \<open>pythonterminal.py\<close>.
  \<^item> \<open>InteractiveSession\<close>, \<open>Sessions\<close>, \<open>SelfRepairing\<close>, \<open>RunTexts\<close>: \<open>InteractiveSession.py\<close>, its users, and
    \<open>SelfRepairingSession.py\<close> with \<open>ShellSubprocess.py\<close>.
  \<^item> \<open>Daemonizer\<close>, \<open>LogLevels\<close>: \<open>daemonizer.py\<close> as two processes with a step relation, and
    \<open>_runnerterminalloglevel.py\<close>.

  A class is a record of its attributes, a method a definition of nearly the same name over
  that record, composed as in the source.

  \<^bold>\<open>What is proved.\<close> This theory holds the properties that span the protocol: a request sent is the
  request read, a remote call from end to end, at most one execution, messages, chunks
  and tokens, what a terminal read keeps, which replies a client takes,
  caches and retransmission, and the error paths of the protocol. \<open>Dialogue\<close> puts the two ends
  together: a session is the execution of its commands in a local interpreter (\<open>repl\<close>), and both ends
  stop. The others are in the theories of their components: exclusive and bounded use of the terminals (\<open>TerminalPools\<close>), that a
  run gives its terminal back and when a run that fails does not (\<open>Process\<close>), that values, exceptions and late responses arrive
  (\<open>RunnerHandler\<close>, \<open>RunnerTerminal\<close>, \<open>RemoteProxies\<close>), that code survives its quotes (\<open>RunnerTerminal\<close>), opening
  and recovery of sessions (\<open>AutoTerminal\<close>, \<open>RemoteImports\<close>), copying of files (\<open>FileCopier\<close>, \<open>RemoteFiles\<close>), stacks of shells
  (\<open>InteractiveSession\<close>), self repair (\<open>SelfRepairing\<close>), the groups of commands sent to an
  interpreter (\<open>PythonShells\<close>), and the fork of a daemon (\<open>Daemonizer\<close>). Relations between the states before
  and after a program (\<open>keeps\<close>, locale \<open>step_relation\<close>) carry the invariants; \<open>ends\<close> carries termination.

  \<^bold>\<open>Bounds.\<close> Length fields are eleven digits for strings and as wide as the source has them for chunks;
  the properties of the protocol assume messages shorter than \<open>10 ^ 11\<close> bytes, beyond which the field overflows.
  Clocks are assumed to stay within the first time-out where a property says that nothing is sent twice.

  \<^bold>\<open>Not modelled.\<close> Logging except for its levels, the files that record a session, the handler of
  \<open>SIGINT\<close> in \<open>ShellSubprocess.py\<close>, the size of terminal windows, Python 2, and texts of exceptions that no
  code reads. \<open>int\<close> of digits outside ASCII raises here. Threads are known by when they end. The keys of pools
  compare shell descriptions as the source does, by their sorted items. \<open>RunnerSession.py\<close> (deprecated forwarding),
  The conversion of a returned proxy to a recursive one has no effects (\<open>RunnerTerminal\<close>), and the line that starts
  the server of messages is an argument (\<open>PythonShells\<close>). Robot documentation, the abstract base classes and the package files have no behaviour of their own.
\<close>

section \<open>From the client to the server and back\<close>

abbreviation client_sent :: "client \<Rightarrow> bytes" where
  "client_sent c \<equiv> ps_sent (tc_spawn (fst (cl_comm c)))"

abbreviation client_comm :: "client \<Rightarrow> terminal_comm" where
  "client_comm c \<equiv> fst (cl_comm c)"

text \<open>
  C2: a request the client sends, in whatever pieces its bytes arrive at the server, is
  read there as the same message; the server writes exactly the acknowledgements of
  chunks the client has waited for, and stands behind the request.
\<close>

theorem request_reaches_server:
  assumes "serialize msgmap m = Inr s" "length s < 10 ^ 11" "msg_cls m \<noteq> FatalPythonErrorReply"
    and "tc_rep d (client_comm c) [] (wire_acks s @ rest)"
  shows "\<exists>c'. cl_send m c = Some (Inr (), c') \<and> tc_rep d (client_comm c') (client_sent c') rest \<and>
    (\<forall>st sh lo more. sv_rep st lo (client_sent c' @ more) \<and> sb_ok sh \<and> sb_content sh = [] \<longrightarrow>
      (\<exists>st'. read_str (sv_read_until_size P) (st, sh) = Some (Inr s, st') \<and>
         deserialize msgmap s = Inr (received m) \<and> sv_rep (fst st') (lo @ wire_acks s) more))"
proof -
  obtain k where k: "cl_send m c = Some (Inr (), c\<lparr>cl_comm := (k, snd (cl_comm c))\<rparr>)"
    "tc_rep d k (wire s) rest"
    using cl_send_returns [OF assms(1,4)] by auto
  have sent: "ps_sent (tc_spawn k) = wire s" using k(2) by (simp add: tc_rep_def Let_def)
  show ?thesis
    using k sent deserialize_serialize [OF assms(1,3)] sv.string_read [OF _ _ _ assms(2)]
    unfolding sv_read_until_size_def
    by (intro exI [of _ "c\<lparr>cl_comm := (k, snd (cl_comm c))\<rparr>"] conjI allI impI) (simp_all, blast)
qed

abbreviation demo_request :: msg where
  "demo_request \<equiv> create_with_uid_and_args ExecCommandRequest 0 (Arg (PyBytes ''1''))"

abbreviation demo_client :: client where
  "demo_client \<equiv> new_client (new_paramiko_spawn 30 [] []) \<lparr>rt_tries = 3, rt_interval = 1, rt_timeout = 10\<rparr>"

lemma str_of_int_0: "str_of_int 0 = ''0''"
  unfolding str_of_int_def by (subst if_not_P) (simp, code_simp)

lemma demo_request_serialized: "serialize msgmap demo_request = Inr ''0:0:YjE=''"
proof -
  have "get_msgid msgmap ExecCommandRequest = Inr 0" "b64encode ''b1'' = ''YjE=''" by code_simp+
  then show ?thesis
    by (simp add: serialize_def serialize_arg_def serialize_string_or_bytes_def str_of_int_0
        create_with_uid_and_args_def string_conversion_to_bytes_def)
qed

lemma demo_client_ready: "tc_rep 0 (client_comm demo_client) [] []"
  by (simp add: tc_rep_def new_client_def new_terminal_comm_def new_paramiko_spawn_def coming_def
      effective_timeout_def)

theorem request_reaches_server_witness:
  "\<exists>c'. cl_send demo_request demo_client = Some (Inr (), c') \<and> tc_rep 0 (client_comm c') (client_sent c') []"
proof -
  have "wire_acks ''0:0:YjE='' = []" by code_simp
  then show ?thesis
    using request_reaches_server [OF demo_request_serialized, of 0 demo_client "[]"] demo_client_ready
    by (simp add: create_with_uid_and_args_def) blast
qed

text \<open>
  C3: an \<open>ExecCommandRequest\<close> with a new uid, reaching a server that waits for no
  acknowledgement: the server writes an \<open>Ack\<close> and then the reply with the result of the
  command, executes the command once, and keeps the reply for retransmission. A client
  that finds these bytes coming in returns that reply from \<open>send_and_receive\<close>, after
  writing the request and the acknowledgement of the reply.
\<close>

theorem remote_call:
  assumes req: "msg_cls m = ExecCommandRequest" "serialize msgmap (set_uid u m) = Inr s0"
    and new: "cmd_of (set_uid u m) = Inr cmd" "\<not> known u (snd st)" "idle (snd st)"
    and exec: "exec_command P cmd (sc_cmdline (fst st)) = Some (Inr a, pc)"
    and ser: "serialize msgmap (create_with_uid_and_args Ack u NOARG) = Inr s1" "length s1 < 10 ^ 11"
      "serialize msgmap (create_with_uid_and_args ExecCommandReply u a) = Inr s2" "length s2 < 10 ^ 11"
    and rep: "sva_rep st [] (wire_acks s1 @ wire_acks s2)"
  shows "\<exists>st'. process_msg P (set_uid u m) st = Some (Inr (), st') \<and> sc_cmdline (fst st') = pc \<and>
    get_msg u (snd st') = Inr (create_with_uid_and_args ExecCommandReply u a) \<and>
    (\<forall>c clk timeout d. u = int (cl_uid_iter c) \<and> buffer_empty c \<and>
       (\<forall>i j. d < hd (retry_timeouts (cl_retry c)) - (clk i - clk j) \<and> d < timeout - (clk i - clk j)) \<and>
       tc_rep d (client_comm c) [] (wire_acks s0 @ sc_out (fst st') @ wire_acks s1) \<longrightarrow>
       (\<exists>c'. send_and_receive clk m timeout c =
           Some (Inr (received (create_with_uid_and_args ExecCommandReply u a)), c') \<and>
         client_sent c' = wire s0 @ wire_acks s1 @ wire_acks s2 @ wire s1))"
proof -
  let ?m = "set_uid u m" and ?r = "create_with_uid_and_args ExecCommandReply u a"
  have rm: "create_reply Ack ?m NOARG = create_with_uid_and_args Ack u NOARG"
    "create_reply ExecCommandReply ?m a = ?r"
    by (simp_all add: create_reply_def set_uid_def)
  have sel: "msg_cls ?m = ExecCommandRequest" "msg_uid ?m = u" using req(1) by (simp_all add: set_uid_def)
  obtain st' where st': "process_msg P ?m st = Some (Inr (), st')" "sc_out (fst st') = wire s1 @ wire s2"
    "sc_cmdline (fst st') = pc" "get_msg u (snd st') = Inr ?r"
    using process_exec_returns [of ?m cmd st P a pc s1 s2 "[]" "[]"] new exec ser(1,3) rep
    by (auto simp: rm sel)
  have "\<exists>c'. send_and_receive clk m timeout c = Some (Inr (received ?r), c') \<and>
      client_sent c' = wire s0 @ wire_acks s1 @ wire_acks s2 @ wire s1"
    if c: "u = int (cl_uid_iter c)" "buffer_empty c"
      "\<forall>i j. d < hd (retry_timeouts (cl_retry c)) - (clk i - clk j) \<and> d < timeout - (clk i - clk j)"
      "tc_rep d (client_comm c) [] (wire_acks s0 @ sc_out (fst st') @ wire_acks s1)"
    for c clk timeout d
  proof -
    have ack: "create_reply Ack (received ?r) NOARG = create_with_uid_and_args Ack u NOARG"
      by (simp add: create_reply_def create_with_uid_and_args_def)
    have s0: "serialize msgmap (set_uid (int (cl_uid_iter c)) m) = Inr s0" using req(2) c(1) by simp
    have na: "msg_cls m \<noteq> Ack" using req(1) by simp
    have uids: "msg_cls (create_with_uid_and_args Ack u NOARG) = Ack"
      "msg_uid (create_with_uid_and_args Ack u NOARG) = int (cl_uid_iter c)"
      "msg_cls ?r \<noteq> Ack" "msg_cls ?r \<noteq> FatalPythonErrorReply" "msg_uid ?r = int (cl_uid_iter c)"
      using c(1) by (simp_all add: create_with_uid_and_args_def)
    have w: "tc_rep d (client_comm c) [] (wire_acks s0 @ wire s1 @ wire s2 @ wire_acks s1 @ [])"
      using c(4) st'(2) by simp
    have sa: "serialize msgmap (create_reply Ack (received ?r) NOARG) = Inr s1" unfolding ack by (rule ser(1))
    from send_and_receive_returns [OF s0 na ser(1) uids(1,2) ser(2,3) uids(3-5) ser(4) sa c(3) w c(2)]
    show ?thesis using tc_rep_sent by fastforce
  qed
  with st' show ?thesis by blast
qed

abbreviation demo_python :: "(nat, ustr) python" where
  "demo_python \<equiv> \<lparr>in_compile = (\<lambda>mode cmd. CodeObject cmd), in_eval = (\<lambda>code n. Some (Inr ArgNone, Suc n)),
     in_setitem = (\<lambda>k n. n), in_error_text = (\<lambda>e. ([], [])), in_clock = of_nat\<rparr>"

abbreviation demo_server :: "nat server" where
  "demo_server \<equiv> new_server demo_python \<lparr>rt_tries = 3, rt_interval = 1, rt_timeout = 10\<rparr> [] 0 []"

lemma demo_ack_serialized: "serialize msgmap (create_with_uid_and_args Ack 0 NOARG) = Inr ''7:0:''"
proof -
  have "get_msgid msgmap Ack = Inr 7" by code_simp
  moreover have "str_of_int 7 = ''7''"
    unfolding str_of_int_def by (subst if_not_P) (simp, code_simp)
  ultimately show ?thesis
    by (simp add: serialize_def serialize_arg_def str_of_int_0 create_with_uid_and_args_def
        string_conversion_to_bytes_def)
qed

lemma demo_reply_serialized:
  "serialize msgmap (create_with_uid_and_args ExecCommandReply 0 ArgNone) = Inr ''1:0:Yg==''"
proof -
  have "get_msgid msgmap ExecCommandReply = Inr 1" "b64encode ''b'' = ''Yg==''" by code_simp+
  moreover have "str_of_int 1 = ''1''"
    unfolding str_of_int_def by (subst if_not_P) (simp, code_simp)
  ultimately show ?thesis
    by (simp add: serialize_def serialize_arg_def str_of_int_0 create_with_uid_and_args_def
        serialize_string_or_bytes_def get_string_or_bytes_def string_conversion_to_bytes_def)
qed

lemma demo_server_idle:
  "idle (snd demo_server)" "\<not> known u (snd demo_server)" "sva_rep demo_server [] []"
  by (simp_all add: new_server_def new_msg_caches_def idle_def known_def sva_rep_def timeout_args_def
      mcs_timeout_def monotonic_time_def new_monotonic_def Let_def retry_timeouts_def
      new_consecutive_set_def cs_contains_def)

lemma demo_exec:
  "exec_command demo_python [49] (sc_cmdline (fst demo_server)) =
     Some (Inr ArgNone, \<lparr>pc_multilinecmd = [], pc_namespace = 1, pc_current_cmd = Some [49]\<rparr>)"
  by (simp add: exec_command_def new_server_def new_cmdline_def get_code_object_def pc_eval_def Let_def)

theorem remote_call_witness:
  "\<exists>st'. process_msg demo_python demo_request demo_server = Some (Inr (), st') \<and>
     sc_cmdline (fst st') = \<lparr>pc_multilinecmd = [], pc_namespace = 1, pc_current_cmd = Some [49]\<rparr>"
proof -
  have m: "set_uid 0 demo_request = demo_request" "msg_cls demo_request = ExecCommandRequest"
    by (simp_all add: set_uid_def create_with_uid_and_args_def)
  have cmd: "cmd_of demo_request = Inr [49]" by code_simp
  have acks: "wire_acks ''7:0:'' = []" "wire_acks ''1:0:Yg=='' = []" by code_simp+
  have len: "length ''7:0:'' < 10 ^ 11" "length ''1:0:Yg=='' < 10 ^ 11" by simp_all
  have rep: "sva_rep demo_server [] (wire_acks ''7:0:'' @ wire_acks ''1:0:Yg=='')"
    using demo_server_idle(3) by (simp add: acks)
  from remote_call [OF m(2), of 0, unfolded m(1), OF demo_request_serialized cmd demo_server_idle(2,1)
      demo_exec demo_ack_serialized len(1) demo_reply_serialized len(2) rep]
  show ?thesis by blast
qed

text \<open>
  C4: the server executes an \<open>ExecCommandRequest\<close> at most once. After any sequence of
  messages handled without an error and containing the request, another request with
  the same uid, of whatever class, leaves the command line as it is, however it ends.
\<close>

theorem at_most_once:
  assumes "for_each (process_msg P) ms st = Some (Inr (), st1)" "caches_inv (snd st)"
    and "m \<in> set ms" "msg_cls m = ExecCommandRequest" "msg_uid m' = msg_uid m"
    and "process_msg P m' st1 = Some (r, st2)"
  shows "sc_cmdline (fst st2) = sc_cmdline (fst st1)"
  using process_all_known [OF assms(1-4)] process_known [OF _ assms(6)] assms(5)
  by (simp add: same_cmdline_def)

lemma demo_processed: "\<exists>st. process_msg demo_python demo_request demo_server = Some (Inr (), st)"
proof -
  have m: "msg_cls demo_request = ExecCommandRequest" "msg_uid demo_request = 0"
    and r: "create_reply Ack demo_request NOARG = create_with_uid_and_args Ack 0 NOARG"
      "create_reply ExecCommandReply demo_request ArgNone = create_with_uid_and_args ExecCommandReply 0 ArgNone"
    by (simp_all add: create_with_uid_and_args_def create_reply_def)
  have cmd: "cmd_of demo_request = Inr [49]" by code_simp
  have "wire_acks ''7:0:'' = []" "wire_acks ''1:0:Yg=='' = []" by code_simp+
  then have "sva_rep demo_server [] (wire_acks ''7:0:'' @ wire_acks ''1:0:Yg=='' @ [])"
    using demo_server_idle(3) by simp
  from process_exec_returns [OF m(1) cmd demo_server_idle(2,1) demo_exec _ _ this]
  show ?thesis using demo_ack_serialized demo_reply_serialized unfolding r by blast
qed

theorem at_most_once_witness:
  "\<exists>st1 st2. for_each (process_msg demo_python) [demo_request] demo_server = Some (Inr (), st1) \<and>
     process_msg demo_python (create_with_uid_and_args Ack 0 NOARG) st1 = Some (Inr (), st2) \<and>
     sc_cmdline (fst st2) = sc_cmdline (fst st1)"
proof -
  obtain st1 where 1: "for_each (process_msg demo_python) [demo_request] demo_server = Some (Inr (), st1)"
    using demo_processed by auto
  obtain st2 where 2: "process_msg demo_python (create_with_uid_and_args Ack 0 NOARG) st1 = Some (Inr (), st2)"
    by (simp add: process_msg_def create_with_uid_and_args_def on_caches_def)
  have inv: "caches_inv (snd demo_server)"
    by (simp add: caches_inv_def new_server_def new_msg_caches_def monotonic_time_def new_monotonic_def
        Let_def cs_inv_def new_consecutive_set_def)
  have "sc_cmdline (fst st2) = sc_cmdline (fst st1)"
    by (rule at_most_once [OF 1 inv _ _ _ 2, of demo_request]) (simp_all add: create_with_uid_and_args_def)
  with 1 2 show ?thesis by blast
qed

text \<open>
  C8: a serialised message, of any class but the one that reports a fatal error, is read
  back as the message it was, with the result of a command as text or bytes.
\<close>

theorem message_roundtrip:
  assumes "serialize msgmap m = Inr s" "msg_cls m \<noteq> FatalPythonErrorReply"
  shows "deserialize msgmap s = Inr (m\<lparr>msg_arg := received_arg m\<rparr>)"
  using deserialize_serialize [OF assms] by (simp add: received_def)

theorem message_roundtrip_witness: "deserialize msgmap ''0:0:YjE='' = Inr demo_request"
  using message_roundtrip [OF demo_request_serialized]
  by (simp add: create_with_uid_and_args_def received_arg_def)

text \<open>
  C7: however the bytes of a stream of chunks are cut into arrivals, with garbage before
  chunks and gaps inside their tokens, reading \<open>n\<close> bytes of a terminal returns the next
  \<open>n\<close> bytes of the payload, and what was written is what the chunks read so far ask for.
\<close>

theorem chunks_any_fragmentation:
  assumes "\<forall>c \<in> set cs. item_ok c" "tc_rep d k l (item_stream cs @ rest)" "n \<le> length (item_payload cs)"
  shows "\<exists>k' sh'. chunk_read_until_size tc_read (ack_write_ack tc_write tc_flush) n (k, new_shared_bytes_io) =
      Some (Inr (take n (item_payload cs)), (k', sh')) \<and>
    (n = length (item_payload cs) \<longrightarrow> tc_rep d k' (l @ item_acks cs) rest)"
proof -
  have "payload_rep (tc_rep d) (l @ item_acks cs) rest (k, new_shared_bytes_io) (item_payload cs)"
    unfolding payload_rep_def using assms(1,2)
    by (intro conjI exI [of _ cs] exI [of _ l]) simp_all
  from tc.chunk_read_returns [OF this assms(3)] obtain st where
    "chunk_read_until_size tc_read (ack_write_ack tc_write tc_flush) n (k, new_shared_bytes_io) =
       Some (Inr (take n (item_payload cs)), st)"
    "payload_rep (tc_rep d) (l @ item_acks cs) rest st (drop n (item_payload cs))" by blast
  then show ?thesis
    using payload_done [of "tc_rep d" "l @ item_acks cs" rest st] by (cases st) auto
qed

abbreviation demo_terminal :: "bytes \<Rightarrow> terminal_comm" where
  "demo_terminal b \<equiv> new_terminal_comm (new_paramiko_spawn 30 [(0, Some b)] [])"

lemma demo_terminal_rep: "b \<noteq> [] \<Longrightarrow> tc_rep 0 (demo_terminal b) [] b"
  by (simp add: tc_rep_def new_terminal_comm_def new_paramiko_spawn_def coming_def effective_timeout_def)

theorem chunks_any_fragmentation_witness:
  "\<exists>k' sh'. chunk_read_until_size tc_read (ack_write_ack tc_write tc_flush) 2
      (demo_terminal (item_stream [clean_item 0 ''ab'', clean_item 1 ''c'']), new_shared_bytes_io) =
    Some (Inr ''ab'', (k', sh'))"
proof -
  let ?cs = "[clean_item 0 ''ab'', clean_item 1 ''c'']"
  have "\<forall>c \<in> set ?cs. item_ok c" by (simp add: clean_item_ok)
  moreover have "item_stream ?cs \<noteq> []" by (simp add: clean_item_frame bytes_for_chunk_with_token_def chunk_token_def)
  then have "tc_rep 0 (demo_terminal (item_stream ?cs)) [] (item_stream ?cs @ [])"
    using demo_terminal_rep by simp
  ultimately show ?thesis using chunks_any_fragmentation [of ?cs 0 _ "[]" "[]" 2] by fastforce
qed

text \<open>
  C11: the token reader on a terminal returns the bytes before the token, also when the
  token is interrupted by one gap of foreign bytes, and leaves what follows it unread.
\<close>

theorem token_read_exactly:
  assumes "gap_ok tok j g gap" "tc_rep d k l (gapped tok j g gap @ rest)"
  shows "\<exists>k'. read_until_token (rd_until_size tc_read) tok k = Some (Inr g, k') \<and> tc_rep d k' l rest"
  using assms by (rule tc.inp.sized.read_until_token_returns)

theorem token_read_exactly_witness:
  "\<exists>k'. read_until_token (rd_until_size tc_read) ''tok'' (demo_terminal ''xxt1okrest'') =
    Some (Inr ''xx'', k') \<and> tc_rep 0 k' [] ''rest''"
proof -
  have eq: "gapped ''tok'' 1 ''xx'' ''1'' @ ''rest'' = ''xxt1okrest''" by (simp add: gapped_def)
  show ?thesis
    by (rule token_read_exactly [where gap = "''1''" and j = 1]) (simp add: gap_ok_def, simp only: eq demo_terminal_rep list.distinct simp_thms)
qed

text \<open>
  C18: a read of the Paramiko terminal returns the next bytes of the stream and leaves the
  others; an error leaves all of them, and the end of the stream is reported only when
  none is left. The early exit at the end of the stream loses nothing.
\<close>

theorem spawn_read_conserves:
  assumes "read_nonblocking n t p = Some (r, p')" "ps_read_reached_eof p \<longrightarrow> ps_buf p = []"
  shows "(ps_read_reached_eof p' \<longrightarrow> ps_buf p' = []) \<and>
    (case r of
       Inl e \<Rightarrow> stream_left p' = stream_left p \<and> (e = PexpectEOF \<longrightarrow> stream_left p = [])
     | Inr b \<Rightarrow> b @ stream_left p' = stream_left p \<and> length b \<le> n)"
  using read_nonblocking_conserves [OF assms(1)] assms(2) by (auto simp: eof_inv_def split: sum.splits)

theorem spawn_read_conserves_witness:
  "\<exists>p'. read_nonblocking 2 None (new_paramiko_spawn 30 [(5, Some ''abc''), (0, None)] []) = Some (Inr ''ab'', p') \<and>
     ''ab'' @ stream_left p' = stream_left (new_paramiko_spawn 30 [(5, Some ''abc''), (0, None)] [])"
proof -
  let ?p = "new_paramiko_spawn 30 [(5, Some ''abc''), (0, None)] []"
  obtain p' where r: "read_nonblocking 2 None ?p = Some (Inr ''ab'', p')"
    by (simp add: read_nonblocking_def read_queue_and_buf_def read_with_or_without_timeout_def
        read_from_queue_def read_until_end_or_size_def effective_timeout_def new_paramiko_spawn_def Let_def)
  have "ps_read_reached_eof ?p \<longrightarrow> ps_buf ?p = []" by (simp add: new_paramiko_spawn_def)
  from spawn_read_conserves [OF r this] r show ?thesis by auto
qed

text \<open>
  C19: what \<open>send_and_receive\<close> returns carries the uid of the request, the next one of the
  client's counter, on every path: a direct reply, a reply after an acknowledgement, after
  any number of retries, and in the final attempt.
\<close>

theorem reply_has_request_uid:
  assumes "send_and_receive clk m timeout c = Some (Inr r, c')"
  shows "msg_uid r = int (cl_uid_iter c)"
  using assms by (rule send_and_receive_uid)

lemma demo_retry: "hd (retry_timeouts \<lparr>rt_tries = 3, rt_interval = 1, rt_timeout = 10\<rparr>) = 1"
  by (simp add: retry_timeouts_def upt_rec)

abbreviation ack_client :: client where
  "ack_client \<equiv> new_client (new_paramiko_spawn 30 [(0, Some (wire ''7:0:'' @ wire ''7:0:''))] [])
     \<lparr>rt_tries = 3, rt_interval = 1, rt_timeout = 10\<rparr>"

lemma wire_nonempty: "wire ''7:0:'' \<noteq> []"
  by code_simp

lemma ack_client_ready: "tc_rep 0 (client_comm ack_client) [] (wire ''7:0:'' @ wire ''7:0:'')"
  using demo_terminal_rep [of "wire ''7:0:'' @ wire ''7:0:''"] wire_nonempty by (simp add: new_client_def)

lemma new_client_empty: "buffer_empty (new_client p r)"
  by (simp add: buffer_empty_def new_client_def)

text \<open>
  A request that is acknowledged twice, as it is when it was sent twice, is answered
  with the second acknowledgement: \<open>_is_reply\<close> looks at the class of the request where it
  means that of the reply, so \<open>send_and_receive\<close> returns an \<open>Ack\<close> as if it were the
  reply, and the real reply is left unread.
\<close>

theorem second_ack_is_taken_as_reply:
  assumes "serialize msgmap (set_uid (int (cl_uid_iter c)) m) = Inr s0" "msg_cls m \<noteq> Ack"
    and "serialize msgmap (create_with_uid_and_args Ack (int (cl_uid_iter c)) NOARG) = Inr s1" "length s1 < 10 ^ 11"
    and "\<forall>i j. d < hd (retry_timeouts (cl_retry c)) - (clk i - clk j) \<and> d < timeout - (clk i - clk j)"
    and "tc_rep d (client_comm c) l (wire_acks s0 @ wire s1 @ wire s1 @ rest)" "buffer_empty c"
  shows "\<exists>c'. send_and_receive clk m timeout c =
      Some (Inr (create_with_uid_and_args Ack (int (cl_uid_iter c)) NOARG), c') \<and>
    tc_rep d (client_comm c') (l @ wire s0 @ wire_acks s1 @ wire_acks s1) rest"
proof -
  let ?a = "create_with_uid_and_args Ack (int (cl_uid_iter c)) NOARG"
  have "msg_cls ?a = Ack" "msg_uid ?a = int (cl_uid_iter c)" "received ?a = ?a"
    by (simp_all add: create_with_uid_and_args_def received_def received_arg_def)
  with second_ack_returned [OF assms(1-3) _ _ assms(4-7)] show ?thesis by auto
qed

theorem second_ack_is_taken_as_reply_witness:
  "\<exists>c'. send_and_receive (\<lambda>n. 0) demo_request 10 ack_client = Some (Inr (create_with_uid_and_args Ack 0 NOARG), c')"
proof -
  have c: "cl_uid_iter ack_client = 0" "cl_retry ack_client = \<lparr>rt_tries = 3, rt_interval = 1, rt_timeout = 10\<rparr>"
    by (simp_all add: new_client_def)
  have m: "set_uid (int (cl_uid_iter ack_client)) demo_request = demo_request" "msg_cls demo_request \<noteq> Ack"
    by (simp_all add: c set_uid_def create_with_uid_and_args_def)
  have "wire_acks ''0:0:YjE='' = []" by code_simp
  then have rep: "tc_rep 0 (client_comm ack_client) [] (wire_acks ''0:0:YjE='' @ wire ''7:0:'' @ wire ''7:0:'' @ [])"
    using ack_client_ready by simp
  have s1: "serialize msgmap (create_with_uid_and_args Ack (int (cl_uid_iter ack_client)) NOARG) = Inr ''7:0:''"
    using demo_ack_serialized by (simp add: c)
  have tm: "\<forall>i j. (0 :: rat) < hd (retry_timeouts (cl_retry ack_client)) - ((\<lambda>n. 0) i - (\<lambda>n. 0) j) \<and>
      0 < 10 - ((\<lambda>n. 0 :: rat) i - (\<lambda>n. 0) j)"
    by (simp add: c demo_retry)
  from second_ack_is_taken_as_reply [of ack_client demo_request "''0:0:YjE=''" "''7:0:''" 0 "\<lambda>n. 0" 10 "[]" "[]",
      unfolded m(1), OF demo_request_serialized m(2) s1 _ tm rep new_client_empty]
  show ?thesis by (auto simp: c)
qed

theorem reply_has_request_uid_witness:
  "\<exists>r c'. send_and_receive (\<lambda>n. 0) demo_request 10 ack_client = Some (Inr r, c') \<and> msg_uid r = 0"
proof -
  have c: "cl_uid_iter ack_client = 0" "cl_retry ack_client = \<lparr>rt_tries = 3, rt_interval = 1, rt_timeout = 10\<rparr>"
    by (simp_all add: new_client_def)
  let ?a = "create_with_uid_and_args Ack 0 NOARG"
  have m: "serialize msgmap (set_uid (int (cl_uid_iter ack_client)) demo_request) = Inr ''0:0:YjE=''"
    "msg_cls demo_request \<noteq> Ack" "msg_cls ?a = Ack" "msg_uid ?a = int (cl_uid_iter ack_client)"
    "serialize msgmap ?a = Inr ''7:0:''"
    using demo_request_serialized demo_ack_serialized by (simp_all add: c set_uid_def create_with_uid_and_args_def)
  have "wire_acks ''0:0:YjE='' = []" by code_simp
  then have rep: "tc_rep 0 (client_comm ack_client) [] (wire_acks ''0:0:YjE='' @ wire ''7:0:'' @ wire ''7:0:'' @ [])"
    using ack_client_ready by simp
  have tm: "\<forall>i j. (0 :: rat) < hd (retry_timeouts (cl_retry ack_client)) - ((\<lambda>n. 0) i - (\<lambda>n. 0) j) \<and>
      0 < 10 - ((\<lambda>n. 0 :: rat) i - (\<lambda>n. 0) j)"
    by (simp add: c demo_retry)
  obtain r c' where r: "send_and_receive (\<lambda>n. 0) demo_request 10 ack_client = Some (Inr r, c')"
    using second_ack_returned [OF m(1,2,5,3,4) _ tm rep new_client_empty] by auto
  from reply_has_request_uid [OF r] r show ?thesis by (auto simp: c)
qed

section \<open>Reply caches\<close>

text \<open>
  C20: \<open>ConsecutiveSet\<close> is the set of the integers that were added to it, in any order,
  although it stores two bounds and the numbers missing between them.
\<close>

theorem consecutive_set_is_a_set:
  "cs_contains i (fold cs_add is new_consecutive_set) \<longleftrightarrow> i \<in> set is"
  by (rule cs.contains_added)

text \<open>
  The times of \<open>Monotonic\<close> are strictly increasing, whatever \<open>time.time()\<close> returns,
  also when the clock of the host is set back.
\<close>

theorem monotonic_strictly_increases:
  "sorted_wrt (<) (t # monotonic_times ts (new_monotonic t))"
  using monotonic_times_sorted [of ts "new_monotonic t"] monotonic_times_above [of _ ts "new_monotonic t"]
  by (auto simp: new_monotonic_def)

text \<open>
  C33: a reply pushed to the caches is sent by \<open>send_expired\<close> at most as often as the retry policy says,
  \<open>tries\<close> times and at least once, whatever the owner of the caches does in between, with whatever
  pauses and whatever becomes of each sending; besides that it is sent once for every duplicate of its
  request, and nothing else is ever sent under its uid. When the clock advances by no less than the
  longest timeout, no acknowledgement and no duplicate comes, it is sent exactly as often as the policy
  says, and then dropped. The sender may be any that leaves the caches alone, as the server's does.
\<close>

theorem reply_retransmissions:
  assumes "leaves_caches send" "caches_inv s" "distinct (map fst (mcs_msgcaches s))"
    and "\<And>x. CallPush x \<in> set calls \<Longrightarrow> msg_uid x \<noteq> msg_uid m"
    and "for_each (owner_call clk (recorded_send send)) (CallPush m # calls) ((d, l), s) = Some (r, ((d', l'), s'))"
  shows "(\<exists>ms. l' = l @ ms \<and> (\<forall>x \<in> set ms. msg_uid x = msg_uid m \<longrightarrow> x = m) \<and>
      sent_as (msg_uid m) ms \<le>
        max 1 (rt_tries (mcs_retry s)) + length (filter (\<lambda>x. x = CallResend (msg_uid m)) calls)) \<and>
    ((\<forall>i. clk i + e \<le> clk (Suc i)) \<and> 0 < e \<and> (\<forall>x \<in> set (retry_timeouts p). x \<le> e) \<and> max 1 (rt_tries p) < n \<longrightarrow>
      (\<exists>s2. for_each (owner_call clk (recorded_send (\<lambda>_. ret ()))) (CallPush m # replicate n CallSendExpired)
          (((), []), new_msg_caches clk k p) =
        Some (Inr (), (((), replicate (max 1 (rt_tries p)) m), s2)) \<and> mcs_msgcaches s2 = []))"
proof (intro conjI impI)
  show "\<exists>ms. l' = l @ ms \<and> (\<forall>x \<in> set ms. msg_uid x = msg_uid m \<longrightarrow> x = m) \<and>
      sent_as (msg_uid m) ms \<le>
        max 1 (rt_tries (mcs_retry s)) + length (filter (\<lambda>x. x = CallResend (msg_uid m)) calls)"
    by (rule pushed_reply_is_sent [OF assms])
next
  assume p: "(\<forall>i. clk i + e \<le> clk (Suc i)) \<and> 0 < e \<and> (\<forall>x \<in> set (retry_timeouts p). x \<le> e) \<and> max 1 (rt_tries p) < n"
  have "\<exists>s2. for_each (owner_call clk (recorded_send (\<lambda>_. ret ()))) (CallPush m # replicate n CallSendExpired)
          (((), []), new_msg_caches clk k p) =
        Some (Inr (), (((), [] @ replicate (max 1 (rt_tries p)) m), s2)) \<and> mcs_msgcaches s2 = []"
    by (rule patient_reply [of _ clk e]) (use p in \<open>auto simp: recorded_send_def\<close>)
  then show "\<exists>s2. for_each (owner_call clk (recorded_send (\<lambda>_. ret ()))) (CallPush m # replicate n CallSendExpired)
          (((), []), new_msg_caches clk k p) =
        Some (Inr (), (((), replicate (max 1 (rt_tries p)) m), s2)) \<and> mcs_msgcaches s2 = []" by simp
qed

abbreviation two_tries :: retry where
  "two_tries \<equiv> \<lparr>rt_tries = 2, rt_interval = 1, rt_timeout = 5\<rparr>"

abbreviation slow_clock :: "nat \<Rightarrow> rat" where
  "slow_clock \<equiv> \<lambda>i. 10 * rat_of_nat i"

lemma new_msg_caches_eq: "new_msg_caches slow_clock 0 two_tries = \<lparr>mcs_retry = two_tries, mcs_msgcaches = [],
    mcs_monotonic = \<lparr>mo_delta = 0, mo_previous_time = 10\<rparr>, mcs_lap = 10, mcs_removed = new_consecutive_set, mcs_clock = 2\<rparr>"
  by (simp add: new_msg_caches_def monotonic_time_def new_monotonic_def)

lemma two_timeouts: "retry_timeouts two_tries = [1, 5]"
  by (simp add: retry_timeouts_def upt_rec)

lemma resent_run:
  "\<exists>s. for_each (owner_call slow_clock (recorded_send (\<lambda>_. ret ()))) [CallPush demo_request, CallSendExpired, CallResend 0]
      (((), []), new_msg_caches slow_clock 0 two_tries) = Some (Inr (), (((), [demo_request, demo_request]), s))"
  unfolding new_msg_caches_eq
  by (simp add: on_caches_def push_msg_def create_with_uid_and_args_def new_msg_cache_def two_timeouts send_expired_def
      send_expired_item_def mcs_elapsed_def mcs_time_def monotonic_time_def Let_def cache_send_expired_def set_cache_def
      recorded_send_def get_msg_def)

lemma reply_retransmissions_witness:
  "sent_as 0 [demo_request, demo_request] \<le> 2 + 1 \<and>
    (\<exists>s. for_each (owner_call slow_clock (recorded_send (\<lambda>_. ret ()))) (CallPush demo_request # replicate 3 CallSendExpired)
        (((), []), new_msg_caches slow_clock 0 two_tries) = Some (Inr (), (((), [demo_request, demo_request]), s)) \<and>
      mcs_msgcaches s = [])"
proof -
  obtain s where s: "for_each (owner_call slow_clock (recorded_send (\<lambda>_. ret ())))
      (CallPush demo_request # [CallSendExpired, CallResend 0])
      (((), []), new_msg_caches slow_clock 0 two_tries) = Some (Inr (), (((), [demo_request, demo_request]), s))"
    using resent_run by blast
  have l: "leaves_caches (\<lambda>_. ret () :: (unit \<times> msg_caches, unit) py)" by (simp add: leaves_caches_def)
  have i: "caches_inv (new_msg_caches slow_clock 0 two_tries)" "distinct (map fst (mcs_msgcaches (new_msg_caches slow_clock 0 two_tries)))"
    unfolding new_msg_caches_eq by (simp_all add: caches_inv_def cs.inv_empty)
  have n: "CallPush x \<in> set [CallSendExpired, CallResend 0] \<Longrightarrow> msg_uid x \<noteq> msg_uid demo_request" for x by simp
  have p: "(\<forall>i. slow_clock i + 10 \<le> slow_clock (Suc i)) \<and> (0 :: rat) < 10 \<and>
      (\<forall>x \<in> set (retry_timeouts two_tries). x \<le> 10) \<and> max 1 (rt_tries two_tries) < (3 :: nat)"
    by (simp add: two_timeouts algebra_simps)
  have f: "replicate (max 1 (rt_tries two_tries)) demo_request = [demo_request, demo_request]" "msg_uid demo_request = 0"
    "mcs_retry (new_msg_caches slow_clock 0 two_tries) = two_tries"
    unfolding new_msg_caches_eq by (simp_all add: numeral_2_eq_2 create_with_uid_and_args_def)
  note t = reply_retransmissions [OF l i n s, where e = 10 and p = two_tries and n = 3 and k = 0]
  have "sent_as 0 [demo_request, demo_request] \<le> 2 + 1"
    using conjunct1 [OF t] unfolding f(2,3) by auto
  with mp [OF conjunct2 [OF t] p, unfolded f] show ?thesis by blast
qed

section \<open>Errors\<close>

text \<open>
  C34: a string whose length cannot be read does not stop the reader: \<open>read_str\<close> goes on
  and returns the next string, and stands behind it.
\<close>

theorem read_str_recovers:
  assumes "gap_ok str_token j g gap" "corrupt_hdr hdr" "gap_ok str_token j' g' gap'" "length s < 10 ^ 11"
    and "payload_rep (tc_rep d) l rest st (corrupt_arrival j g gap hdr @ str_arrival j' g' gap' s @ v)"
  shows "\<exists>st'. read_str cl_read_until_size st = Some (Inr s, st') \<and> payload_rep (tc_rep d) l rest st' v"
proof -
  obtain st1 where st1: "read_str cl_read_until_size st = read_str cl_read_until_size st1"
    "payload_rep (tc_rep d) l rest st1 (str_arrival j' g' gap' s @ v)"
    using tc.strings.read_str_skips [OF assms(1,2,5)] unfolding cl_read_until_size_def by blast
  show ?thesis
    using tc.strings.read_str_returns [OF assms(3,4) st1(2)] st1(1) unfolding cl_read_until_size_def by simp
qed

abbreviation corrupt_then_good :: bytes where
  "corrupt_then_good \<equiv> corrupt_arrival (length str_token) [] [] ''xxxxxxxxxxx'' @
     str_arrival (length str_token) [] [] ''hi''"

lemma corrupt_then_good_payload:
  "payload_rep (tc_rep 0) [] [] (demo_terminal (item_stream [clean_item 0 corrupt_then_good]), new_shared_bytes_io)
     (corrupt_then_good @ [])"
proof -
  have ok: "item_ok (clean_item 0 corrupt_then_good)"
    by (rule clean_item_ok)
      (simp_all add: corrupt_arrival_def str_arrival_def gapped_def str_token_def str_len_width_def length_zpad)
  moreover have "item_stream [clean_item 0 corrupt_then_good] \<noteq> []"
    by (simp add: clean_item_frame bytes_for_chunk_with_token_def chunk_token_def)
  ultimately show ?thesis
    unfolding payload_rep_def
    by (intro conjI exI [of _ "[clean_item 0 corrupt_then_good]"] exI [of _ "[]"])
      (simp_all add: demo_terminal_rep item_ack_def)
qed

theorem read_str_recovers_witness:
  "\<exists>st'. read_str cl_read_until_size
      (demo_terminal (item_stream [clean_item 0 corrupt_then_good]), new_shared_bytes_io) = Some (Inr ''hi'', st')"
proof -
  have hdr: "corrupt_hdr ''xxxxxxxxxxx''"
  proof -
    have "py_int ''xxxxxxxxxxx'' = Inl ValueError" by code_simp
    then show ?thesis by (simp add: corrupt_hdr_def str_len_width_def)
  qed
  have p: "payload_rep (tc_rep 0) [] []
      (demo_terminal (item_stream [clean_item 0 corrupt_then_good]), new_shared_bytes_io)
      (corrupt_arrival (length str_token) [] [] ''xxxxxxxxxxx'' @ str_arrival (length str_token) [] [] ''hi'' @ [])"
    using corrupt_then_good_payload by simp
  show ?thesis
    using read_str_recovers [OF str_frame_gap_ok hdr str_frame_gap_ok _ p] by auto
qed

text \<open>
  C37: when the input of the server is closed and no reply waits, the server never gets
  out of handling the next message, neither with an error nor with \<open>ExitFromServe\<close>: the
  reading loop takes the empty read of a closed input for a read of nothing yet.
\<close>

theorem server_hangs_at_eof:
  assumes "sc_eof (fst st)" "sc_infd (fst st) = []" "mcs_msgcaches (snd st) = []"
  shows "serve_loop P (st, new_shared_bytes_io) = None"
proof -
  have "handle_next_msg P (st, new_shared_bytes_io) = None"
    using assms by (intro handle_next_msg_at_eof) (simp_all add: at_eof_def readable_size_def
        new_shared_bytes_io_def setup_reader_and_writer_def)
  then show ?thesis by (subst serve_loop.simps) simp
qed

theorem server_hangs_at_eof_witness:
  "serve_loop demo_python (((fst demo_server)\<lparr>sc_eof := True\<rparr>, snd demo_server), new_shared_bytes_io) = None"
  by (rule server_hangs_at_eof)
    (simp_all add: new_server_def new_msg_caches_def monotonic_time_def new_monotonic_def Let_def)

text \<open>
  A terminal write is complete exactly when the channel accepts every piece whole;
  the number returned tells how many bytes went out, and a piece accepted in part loses
  its rest although the pieces behind it are still sent.
\<close>

theorem partial_sends_lose_bytes:
  "ps_send b (p\<lparr>ps_accepts := []\<rparr>) = Some (Inr (length b), p\<lparr>ps_accepts := [], ps_sent := ps_sent p @ b\<rparr>) \<and>
   (case ps_send b p of
      Some (Inr n, p') \<Rightarrow> length (ps_sent p') = length (ps_sent p) + n
    | _ \<Rightarrow> False) \<and>
   (\<exists>p'. ps_send (replicate 32001 CHR ''a'') (new_paramiko_spawn 30 [] [1]) = Some (Inr 2, p') \<and>
      ps_sent p' = ''aa'')"
proof (intro conjI)
  show "ps_send b (p\<lparr>ps_accepts := []\<rparr>) = Some (Inr (length b), p\<lparr>ps_accepts := [], ps_sent := ps_sent p @ b\<rparr>)"
    using send_in_chunks_all [of "p\<lparr>ps_accepts := []\<rparr>" b] by (simp add: ps_send_def)
  obtain r p' where "send_pieces b (send_starts (length b)) 0 p = Some (r, p')"
    using send_pieces_returns by blast
  then show "case ps_send b p of Some (Inr n, p') \<Rightarrow> length (ps_sent p') = length (ps_sent p) + n | _ \<Rightarrow> False"
    using send_pieces_counts [of b "send_starts (length b)" 0 p r p']
    by (auto simp: ps_send_def send_in_chunks_def)
  have "send_starts 32001 = [0, 32000]"
    by (simp add: send_starts_def ps_chunk_size_def upt_rec)
  then show "\<exists>p'. ps_send (replicate 32001 CHR ''a'') (new_paramiko_spawn 30 [] [1]) = Some (Inr 2, p') \<and>
      ps_sent p' = ''aa''"
    by (simp add: ps_send_def send_in_chunks_def chan_send_def new_paramiko_spawn_def ps_chunk_size_def
        numeral_2_eq_2)
qed
text \<open>
  C36: the second acknowledgement costs the shell: \<open>MsgPythonShell\<close> finds no output in it, declares the
  other end broken and tells the server to stop, although the command was executed and its reply
  is on the way. Every later command gets the fatal error at once and nothing is sent.
\<close>

theorem second_ack_ends_the_shell:
  assumes "ms_fatalerror s = None" "tmo \<noteq> - 1"
    and "serialize msgmap (create_with_uid_and_args ExecCommandRequest (int (cl_uid_iter c)) (Arg (PyStr cmd))) = Inr s0"
    and "serialize msgmap (create_with_uid_and_args Ack (int (cl_uid_iter c)) NOARG) = Inr s1" "length s1 < 10 ^ 11"
    and "serialize msgmap (create_with_uid_and_args ExitRequest (int (Suc (ms_uid_iter s))) NOARG) = Inr s2"
    and "\<forall>i j. d < hd (retry_timeouts (cl_retry c)) - (clk i - clk j) \<and> d < tmo - (clk i - clk j)"
    and "tc_rep d (client_comm c) l (wire_acks s0 @ wire s1 @ wire s1 @ wire_acks s2 @ rest)" "buffer_empty c"
  shows "\<exists>s' c'. msg_exec_command clk cmd tmo (s, c) = Some (Inr (OutError (FatalPythonError NoArgGiven)), (s', c')) \<and>
    tc_rep d (client_comm c') (l @ wire s0 @ wire_acks s1 @ wire_acks s1 @ wire s2) rest \<and>
    (\<forall>clk' cmd' tmo' k. msg_exec_command clk' cmd' tmo' (s', k) = Some (Inr (OutError (FatalPythonError NoArgGiven)), (s', k)))"
proof -
  let ?a = "create_with_uid_and_args Ack (int (cl_uid_iter c)) NOARG"
  let ?m = "create_with_uid_and_args ExecCommandRequest (int (ms_uid_iter s)) (Arg (PyStr cmd))"
  have m: "set_uid (int (cl_uid_iter c)) ?m =
      create_with_uid_and_args ExecCommandRequest (int (cl_uid_iter c)) (Arg (PyStr cmd))" "msg_cls ?m \<noteq> Ack"
    by (simp_all add: set_uid_def create_with_uid_and_args_def)
  have a: "msg_cls ?a = Ack" "msg_uid ?a = int (cl_uid_iter c)" "received ?a = ?a"
    by (simp_all add: create_with_uid_and_args_def received_def received_arg_def)
  obtain c1 where c1: "send_and_receive clk ?m tmo c = Some (Inr ?a, c1)"
    "tc_rep d (client_comm c1) (l @ wire s0 @ wire_acks s1 @ wire_acks s1) (wire_acks s2 @ rest)"
    using second_ack_returned [of c ?m s0 ?a s1 d clk tmo l "wire_acks s2 @ rest"] assms(3-9) m a by auto
  obtain k where k: "cl_send (create_with_uid_and_args ExitRequest (int (Suc (ms_uid_iter s))) NOARG) c1 =
      Some (Inr (), c1\<lparr>cl_comm := (k, snd (cl_comm c1))\<rparr>)"
    "tc_rep d k ((l @ wire s0 @ wire_acks s1 @ wire_acks s1) @ wire s2) rest"
    using cl_send_returns [OF assms(6) c1(2)] by blast
  let ?s = "s\<lparr>ms_uid_iter := Suc (Suc (ms_uid_iter s)), ms_fatalerror := Some (FatalPythonError NoArgGiven)\<rparr>"
  have "out_of ?a = Inl AttributeError" using a by (simp add: out_of_def)
  then have "msg_exec_command clk cmd tmo (s, c) = Some (Inr (OutError (FatalPythonError NoArgGiven)),
      (?s, c1\<lparr>cl_comm := (k, snd (cl_comm c1))\<rparr>))"
    using assms(1,2) c1(1) k(1)
    by (simp add: msg_exec_command_def fatalerror_handling_def exec_python_cmd_def created_def create_msg_def
        is_fatal_python_error_def is_timeout_error_def is_Exception_def set_fatalerror_def exit_serve_def)
  moreover have "msg_exec_command clk' cmd' tmo' (?s, k') = Some (Inr (OutError (FatalPythonError NoArgGiven)), (?s, k'))"
    for clk' cmd' tmo' k' by (simp add: msg_exec_command_def)
  ultimately show ?thesis using k(2) by fastforce
qed

theorem second_ack_ends_the_shell_witness:
  "\<exists>s' c'. msg_exec_command (\<lambda>n. 0) [49] 10 ((new_msg_shell 0)\<lparr>ms_fatalerror := None\<rparr>, ack_client) =
    Some (Inr (OutError (FatalPythonError NoArgGiven)), (s', c'))"
proof -
  let ?s = "(new_msg_shell 0)\<lparr>ms_fatalerror := None\<rparr>"
  have c: "cl_uid_iter ack_client = 0" "cl_retry ack_client = \<lparr>rt_tries = 3, rt_interval = 1, rt_timeout = 10\<rparr>"
    by (simp_all add: new_client_def)
  have ids: "get_msgid msgmap ExecCommandRequest = Inr 0" "get_msgid msgmap ExitRequest = Inr 2" "b64encode ''s1'' = ''czE=''"
    by code_simp+
  have "char_of (49 :: nat) = CHR 0x31" by code_simp
  then have u: "utf8_encode [49] = Inr [CHR 0x31]" by (simp add: utf8_encode_def utf8_char_def valid_cp_def)
  have n2: "str_of_int 2 = ''2''"
    unfolding str_of_int_def by (subst if_not_P) (simp, code_simp)
  have n1: "str_of_int 1 = ''1''"
    unfolding str_of_int_def by (subst if_not_P) (simp, code_simp)
  have s0: "serialize msgmap (create_with_uid_and_args ExecCommandRequest (int (cl_uid_iter ack_client)) (Arg (PyStr [49]))) = Inr ''0:0:czE=''"
    using ids u by (simp add: c serialize_def serialize_arg_def serialize_string_or_bytes_def str_of_int_0
        create_with_uid_and_args_def string_conversion_to_bytes_def)
  have s1: "serialize msgmap (create_with_uid_and_args Ack (int (cl_uid_iter ack_client)) NOARG) = Inr ''7:0:''"
    using demo_ack_serialized by (simp add: c)
  have s2: "serialize msgmap (create_with_uid_and_args ExitRequest (int (Suc (ms_uid_iter ?s))) NOARG) = Inr ''2:1:''"
    using ids n1 n2 by (simp add: new_msg_shell_def serialize_def serialize_arg_def create_with_uid_and_args_def
        string_conversion_to_bytes_def)
  have "wire_acks ''0:0:czE='' = []" "wire_acks ''2:1:'' = []" by code_simp+
  then have rep: "tc_rep 0 (client_comm ack_client) [] (wire_acks ''0:0:czE='' @ wire ''7:0:'' @ wire ''7:0:'' @ wire_acks ''2:1:'' @ [])"
    using ack_client_ready by simp
  have tm: "\<forall>i j. (0 :: rat) < hd (retry_timeouts (cl_retry ack_client)) - ((\<lambda>n. 0) i - (\<lambda>n. 0) j) \<and>
      0 < 10 - ((\<lambda>n. 0 :: rat) i - (\<lambda>n. 0) j)"
    by (simp add: c demo_retry)
  show ?thesis
    using second_ack_ends_the_shell [OF _ _ s0 s1 _ s2 tm rep new_client_empty] by auto
qed

end
